(* ===== verification/Prelude.thy ===== *)
theory Prelude
  imports Main "HOL-Library.Word"
begin

text \<open>
  Prelude: what every component shares.  Go's time and duration values, the byte-string
  functions of the standard library the source calls, Go maps with a zero default, the error
  values that cross component borders, and the hint collections the component proofs use.

  A \<open>time.Time\<close> is its distance in nanoseconds from the zero time, so the zero time is 0 and
  \<open>IsZero\<close>, \<open>After\<close>, \<open>Before\<close> and \<open>Equal\<close> are comparisons of integers.  A Go string is a list of
  bytes (\<open>string\<close>); \<open>TrimSpace\<close> and \<open>ToLower\<close> are modelled on ASCII bytes.
\<close>

section \<open>Hint collections\<close>

named_theorems pure_ops \<open>definitions of the pure helper operations\<close>
named_theorems frame \<open>fields an operation leaves alone\<close>
named_theorems inv_intro \<open>an operation keeps an invariant\<close>

section \<open>Time and durations\<close>

type_synonym gotime = int
type_synonym duration = int
type_synonym u64 = "64 word"

abbreviation (input) zero_time :: gotime where
  "zero_time \<equiv> 0"

abbreviation (input) second :: duration where
  "second \<equiv> 1000000000"

text \<open>\<open>int64\<close> arithmetic wraps; \<open>wrap64\<close> is the value a product or a shift has in the code.\<close>

definition wrap64 :: "int \<Rightarrow> int" where
  "wrap64 x = (x + 2 ^ 63) mod 2 ^ 64 - 2 ^ 63"

lemma wrap64_id: "- (2 ^ 63) \<le> x \<Longrightarrow> x < 2 ^ 63 \<Longrightarrow> wrap64 x = x"
  by (simp add: wrap64_def)

lemma wrap64_bounds: "- (2 ^ 63) \<le> wrap64 x" "wrap64 x < 2 ^ 63"
proof -
  have "0 \<le> (x + 2 ^ 63) mod 2 ^ 64" "(x + 2 ^ 63) mod 2 ^ 64 < 2 ^ 64"
    by simp_all
  then show "- (2 ^ 63) \<le> wrap64 x" "wrap64 x < 2 ^ 63"
    unfolding wrap64_def by simp_all
qed

lemma wrap64_sint: "wrap64 x = sint (word_of_int x :: 64 word)"
  by (simp add: wrap64_def sint_sbintrunc' signed_take_bit_eq_take_bit_shift take_bit_eq_mod)

text \<open>Go's integer division truncates towards zero.\<close>

definition go_div :: "int \<Rightarrow> int \<Rightarrow> int" where
  "go_div a b = sgn a * sgn b * (\<bar>a\<bar> div \<bar>b\<bar>)"

lemma go_div_nonneg: "0 \<le> a \<Longrightarrow> 0 < b \<Longrightarrow> go_div a b = a div b"
  by (cases "a = 0") (simp_all add: go_div_def)

text \<open>\<open>Time.Truncate(time.Second)\<close> counts from the zero time; \<open>Time.Sub\<close> saturates.\<close>

definition trunc_sec :: "gotime \<Rightarrow> gotime" where
  "trunc_sec t = t - t mod second"

definition time_sub :: "gotime \<Rightarrow> gotime \<Rightarrow> duration" where
  "time_sub t u = max (- (2 ^ 63)) (min (2 ^ 63 - 1) (t - u))"

lemma trunc_sec_idem [simp]: "trunc_sec (trunc_sec t) = trunc_sec t"
proof -
  have "(t - t mod second) mod second = 0"
    by (simp add: mod_diff_eq)
  then show ?thesis by (simp add: trunc_sec_def)
qed

lemma trunc_sec_le: "trunc_sec t \<le> t"
  by (simp add: trunc_sec_def)

lemma trunc_sec_gt: "t - second < trunc_sec t"
proof -
  have "t mod second < second" by simp
  then show ?thesis unfolding trunc_sec_def by linarith
qed

lemma trunc_sec_zero [simp]: "trunc_sec 0 = 0"
  by (simp add: trunc_sec_def)

section \<open>Strings\<close>

definition is_space :: "char \<Rightarrow> bool" where
  "is_space c \<longleftrightarrow> c \<in> set [CHR 0x09, CHR 0x0A, CHR 0x0B, CHR 0x0C, CHR 0x0D, CHR '' '']"

definition trim_left :: "string \<Rightarrow> string" where
  "trim_left s = dropWhile is_space s"

definition trim_right :: "string \<Rightarrow> string" where
  "trim_right s = rev (dropWhile is_space (rev s))"

definition trim_space :: "string \<Rightarrow> string" where
  "trim_space s = trim_right (trim_left s)"

definition lower_table :: "char \<rightharpoonup> char" where
  "lower_table = map_of (zip ''ABCDEFGHIJKLMNOPQRSTUVWXYZ'' ''abcdefghijklmnopqrstuvwxyz'')"

definition lower_char :: "char \<Rightarrow> char" where
  "lower_char c = (case lower_table c of Some d \<Rightarrow> d | None \<Rightarrow> c)"

definition to_lower :: "string \<Rightarrow> string" where
  "to_lower s = map lower_char s"

definition equal_fold :: "string \<Rightarrow> string \<Rightarrow> bool" where
  "equal_fold a b \<longleftrightarrow> to_lower a = to_lower b"

fun has_prefix :: "string \<Rightarrow> string \<Rightarrow> bool" where
  "has_prefix s [] = True"
| "has_prefix [] (p # ps) = False"
| "has_prefix (c # s) (p # ps) = (c = p \<and> has_prefix s ps)"

fun contains_str :: "string \<Rightarrow> string \<Rightarrow> bool" where
  "contains_str [] p = (p = [])"
| "contains_str (c # s) p = (has_prefix (c # s) p \<or> contains_str s p)"

definition trim_prefix :: "string \<Rightarrow> string \<Rightarrow> string" where
  "trim_prefix s p = (if has_prefix s p then drop (length p) s else s)"

text \<open>\<open>strings.TrimRight(s, "/")\<close>\<close>

definition trim_right_slash :: "string \<Rightarrow> string" where
  "trim_right_slash s = rev (dropWhile (\<lambda>c. c = CHR ''/'') (rev s))"

definition first_non_empty :: "string list \<Rightarrow> string" where
  "first_non_empty vs = (case filter (\<lambda>v. trim_space v \<noteq> []) vs of [] \<Rightarrow> [] | v # _ \<Rightarrow> trim_space v)"

text \<open>The decimal text of a number (\<open>%d\<close>).\<close>

fun dec_digits :: "nat \<Rightarrow> string" where
  "dec_digits n = (if n < 10 then [''0123456789'' ! n]
                   else dec_digits (n div 10) @ [''0123456789'' ! (n mod 10)])"

declare dec_digits.simps [simp del]

definition dec_int :: "int \<Rightarrow> string" where
  "dec_int n = (if n < 0 then CHR ''-'' # dec_digits (nat (- n)) else dec_digits (nat n))"

text \<open>\<open>strconv.ParseInt(s, 10, 64)\<close> and \<open>strconv.Atoi\<close>: \<open>None\<close> is the error.\<close>

definition digit_value :: "char \<Rightarrow> int option" where
  "digit_value c = map_of (zip ''0123456789'' [0..9]) c"

fun parse_digits :: "int \<Rightarrow> string \<Rightarrow> int option" where
  "parse_digits acc [] = Some acc"
| "parse_digits acc (c # cs) =
     (case digit_value c of None \<Rightarrow> None | Some d \<Rightarrow> parse_digits (10 * acc + d) cs)"

definition int64_range :: "int option \<Rightarrow> int option" where
  "int64_range v = (case v of None \<Rightarrow> None
     | Some n \<Rightarrow> if - (2 ^ 63) \<le> n \<and> n < 2 ^ 63 then Some n else None)"

definition atoi :: "string \<Rightarrow> int option" where
  "atoi s = int64_range (case s of
       [] \<Rightarrow> None
     | c # cs \<Rightarrow> if c = CHR ''-'' then (if cs = [] then None else map_option uminus (parse_digits 0 cs))
                 else if c = CHR ''+'' then (if cs = [] then None else parse_digits 0 cs)
                 else parse_digits 0 s)"

lemma has_prefix_iff: "has_prefix s p \<longleftrightarrow> (\<exists>t. s = p @ t)"
  by (induction s p rule: has_prefix.induct) auto

lemma has_prefix_append [simp]: "has_prefix (p @ t) p"
  by (auto simp: has_prefix_iff)

lemma trim_prefix_append [simp]: "trim_prefix (p @ t) p = t"
  by (simp add: trim_prefix_def)

lemma trim_right_nil [simp]: "trim_right [] = []"
  by (simp add: trim_right_def)

lemma trim_space_nil [simp]: "trim_space [] = []"
  by (simp add: trim_space_def trim_left_def)

lemma dropWhile_prefix: "dropWhile P (r @ z) = r @ z \<Longrightarrow> dropWhile P r = r"
  by (cases r) (auto simp: dropWhile_eq_Cons_conv split: if_splits)

lemma dropWhile_rev_dropWhile:
  assumes "dropWhile P s = s"
  shows "dropWhile P (rev (dropWhile Q (rev s))) = rev (dropWhile Q (rev s))"
proof -
  have "s = rev (dropWhile Q (rev s)) @ rev (takeWhile Q (rev s))"
    by (metis rev_append rev_rev_ident takeWhile_dropWhile_id)
  with assms show ?thesis by (metis dropWhile_prefix)
qed

lemma dropWhile_twice [simp]: "dropWhile P (dropWhile P s) = dropWhile P s"
  by (induction s) auto

lemma trim_space_idem [simp]: "trim_space (trim_space s) = trim_space s"
  by (simp add: trim_space_def trim_left_def trim_right_def dropWhile_rev_dropWhile)

lemma lower_letters_fixed: "list_all (\<lambda>d. lower_table d = None) ''abcdefghijklmnopqrstuvwxyz''"
  by code_simp

lemma lower_table_range:
  assumes "lower_table c = Some d"
  shows "lower_table d = None"
proof -
  from assms have "d \<in> set ''abcdefghijklmnopqrstuvwxyz''"
    unfolding lower_table_def by (blast dest: map_of_SomeD set_zip_rightD)
  with lower_letters_fixed show ?thesis
    unfolding list_all_iff by (rule bspec)
qed

lemma lower_char_idem [simp]: "lower_char (lower_char c) = lower_char c"
  by (auto simp: lower_char_def dest: lower_table_range split: option.splits)

lemma to_lower_idem [simp]: "to_lower (to_lower s) = to_lower s"
  by (simp add: to_lower_def)

lemma to_lower_nil [simp]: "to_lower [] = []"
  by (simp add: to_lower_def)

lemma to_lower_eq_nil [simp]: "to_lower s = [] \<longleftrightarrow> s = []"
  by (simp add: to_lower_def)

lemma length_to_lower [simp]: "length (to_lower s) = length s"
  by (simp add: to_lower_def)

section \<open>Go maps\<close>

text \<open>
  A Go map is a partial function; reading a missing key of a counter map gives 0.  \<open>delete\<close> of
  a missing key does nothing, as the update with \<open>None\<close> does.
\<close>

definition count_of :: "('k \<rightharpoonup> int) \<Rightarrow> 'k \<Rightarrow> int" where
  "count_of m k = (case m k of None \<Rightarrow> 0 | Some n \<Rightarrow> n)"

definition map_delete :: "('k \<rightharpoonup> 'v) \<Rightarrow> 'k \<Rightarrow> ('k \<rightharpoonup> 'v)" where
  "map_delete m k = m(k := None)"

lemma count_of_upd [simp]: "count_of (m(k \<mapsto> n)) j = (if j = k then n else count_of m j)"
  by (simp add: count_of_def)

lemma count_of_delete [simp]: "count_of (map_delete m k) j = (if j = k then 0 else count_of m j)"
  by (simp add: count_of_def map_delete_def)

lemma map_delete_apply [simp]: "map_delete m k j = (if j = k then None else m j)"
  by (simp add: map_delete_def)

lemma dom_map_delete [simp]: "dom (map_delete m k) = dom m - {k}"
  by (auto simp: map_delete_def)

section \<open>Errors that cross component borders\<close>

text \<open>
  \<open>ErrWrap\<close> is \<open>fmt.Errorf("...: %w", err)\<close>, which \<open>errors.Is\<close> and \<open>errors.As\<close> see through;
  \<open>ErrText\<close> is an error with a message only.
\<close>

datatype goerr =
    ErrNoCredential
  | ErrRefreshInvalidated
  | ErrCredentialExists string
  | ErrNotFound string
  | ErrStoreClosed
  | AuthHTTPError string int string
  | UpstreamHTTPError string int string
  | ErrNetwork
  | ErrDeadline
  | ErrCanceled
  | ErrUnexpectedEOF
  | ErrText string
  | ErrWrap string goerr

fun err_root :: "goerr \<Rightarrow> goerr" where
  "err_root (ErrWrap _ e) = err_root e"
| "err_root e = e"

definition is_invalidated :: "goerr \<Rightarrow> bool" where
  "is_invalidated e \<longleftrightarrow> err_root e = ErrRefreshInvalidated"

lemma is_invalidated_simps [simp]:
  "is_invalidated ErrRefreshInvalidated"
  "is_invalidated (ErrWrap m e) = is_invalidated e"
  "\<not> is_invalidated (ErrText m)"
  "\<not> is_invalidated ErrNoCredential"
  by (simp_all add: is_invalidated_def)

section \<open>Lists\<close>

text \<open>The first index that satisfies a predicate, as the loops \<open>for i := range xs\<close> with a
  \<open>break\<close> find it.\<close>

fun find_index :: "('a \<Rightarrow> bool) \<Rightarrow> 'a list \<Rightarrow> nat option" where
  "find_index P [] = None"
| "find_index P (x # xs) = (if P x then Some 0 else map_option Suc (find_index P xs))"

lemma find_index_None_iff: "find_index P xs = None \<longleftrightarrow> (\<forall>x \<in> set xs. \<not> P x)"
  by (induction xs) auto

lemma find_index_SomeD:
  "find_index P xs = Some i \<Longrightarrow> i < length xs \<and> P (xs ! i) \<and> (\<forall>j < i. \<not> P (xs ! j))"
  by (induction xs arbitrary: i) (force simp: nth_Cons split: if_splits nat.splits)+

lemma find_index_exists: "x \<in> set xs \<Longrightarrow> P x \<Longrightarrow> \<exists>i. find_index P xs = Some i"
  using find_index_None_iff [of P xs] by (cases "find_index P xs") auto

text \<open>\<open>sort.SliceStable\<close> by a strict order: insertion into a list already in order, after the
  elements the new one is not below.\<close>

fun insert_by :: "('a \<Rightarrow> 'a \<Rightarrow> bool) \<Rightarrow> 'a \<Rightarrow> 'a list \<Rightarrow> 'a list" where
  "insert_by lt x [] = [x]"
| "insert_by lt x (y # ys) = (if lt y x then y # insert_by lt x ys else x # y # ys)"

fun sort_stable :: "('a \<Rightarrow> 'a \<Rightarrow> bool) \<Rightarrow> 'a list \<Rightarrow> 'a list" where
  "sort_stable lt [] = []"
| "sort_stable lt (x # xs) = insert_by lt x (sort_stable lt xs)"

lemma set_insert_by [simp]: "set (insert_by lt x ys) = insert x (set ys)"
  by (induction ys) auto

lemma set_sort_stable [simp]: "set (sort_stable lt xs) = set xs"
  by (induction xs) auto

lemma length_insert_by [simp]: "length (insert_by lt x ys) = Suc (length ys)"
  by (induction ys) auto

lemma length_sort_stable [simp]: "length (sort_stable lt xs) = length xs"
  by (induction xs) auto

lemma sort_stable_nil_iff [simp]: "sort_stable lt xs = [] \<longleftrightarrow> xs = []"
  by (metis length_0_conv length_sort_stable)

lemma insert_by_sorted:
  assumes trans: "\<And>a b c. \<not> lt b a \<Longrightarrow> \<not> lt c b \<Longrightarrow> \<not> lt c a"
    and asym: "\<And>a b. lt a b \<Longrightarrow> \<not> lt b a"
  shows "sorted_wrt (\<lambda>a b. \<not> lt b a) ys \<Longrightarrow> sorted_wrt (\<lambda>a b. \<not> lt b a) (insert_by lt x ys)"
  by (induction ys) (auto dest: trans asym)

lemma sort_stable_sorted:
  assumes trans: "\<And>a b c. \<not> lt b a \<Longrightarrow> \<not> lt c b \<Longrightarrow> \<not> lt c a"
    and asym: "\<And>a b. lt a b \<Longrightarrow> \<not> lt b a"
  shows "sorted_wrt (\<lambda>a b. \<not> lt b a) (sort_stable lt xs)"
  by (induction xs) (auto intro: insert_by_sorted [OF trans asym])

fun str_less :: "string \<Rightarrow> string \<Rightarrow> bool" where
  "str_less [] [] = False"
| "str_less [] (d # ds) = True"
| "str_less (c # cs) [] = False"
| "str_less (c # cs) (d # ds) =
     (if c = d then str_less cs ds else (of_char c :: nat) < of_char d)"

lemma str_less_asym: "str_less a b \<Longrightarrow> \<not> str_less b a"
  by (induction a b rule: str_less.induct) (auto split: if_splits)

lemma str_less_neg_trans: "\<not> str_less b a \<Longrightarrow> \<not> str_less c b \<Longrightarrow> \<not> str_less c a"
proof (induction a arbitrary: b c)
  case Nil
  then show ?case by (cases c; cases b) auto
next
  case (Cons x a)
  then show ?case
    by (cases b; cases c) (auto split: if_splits dest: less_imp_le)
qed

section \<open>URLs\<close>

text \<open>What the code reads of a \<open>url.URL\<close>.  \<open>url.Parse\<close> is an argument of the definitions that
  call it, \<open>None\<close> being its error.\<close>

record url =
  uScheme :: string
  uUser :: bool
  uHost :: string
  uHostname :: string
  uPort :: string
  uPath :: string
  uRawQuery :: string
  uFragment :: string

type_synonym url_parser = "string \<Rightarrow> url option"

definition is_abs :: "url \<Rightarrow> bool" where
  "is_abs u \<longleftrightarrow> uScheme u \<noteq> []"

end
