(* ===== verification/Json.thy ===== *)
theory Json
  imports Prelude
begin

text \<open>
  JSON values as \<open>encoding/json\<close> decodes them into \<open>any\<close> (\<open>map[string]any\<close>, \<open>[]any\<close>,
  \<open>string\<close>, numbers, \<open>bool\<close>, \<open>nil\<close>).  An object is an association list; \<open>jget\<close> is \<open>m[k]\<close>,
  \<open>jput\<close> is \<open>m[k] = v\<close> and \<open>jdel\<close> is \<open>delete(m, k)\<close>.  An integral number keeps its value; a
  number that is not integral keeps its truncation, which is all the code takes of it (\<open>int(x)\<close>),
  and its text.
\<close>

datatype json =
    JNull
  | JBool bool
  | JNum int
  | JFloat int string
  | JStr string
  | JArr "json list"
  | JObj "(string \<times> json) list"

type_synonym jobj = "(string \<times> json) list"

definition jget :: "jobj \<Rightarrow> string \<Rightarrow> json option" where
  "jget m k = map_of m k"

fun jput :: "jobj \<Rightarrow> string \<Rightarrow> json \<Rightarrow> jobj" where
  "jput [] k v = [(k, v)]"
| "jput ((k', v') # m) k v = (if k' = k then (k, v) # m else (k', v') # jput m k v)"

definition jdel :: "jobj \<Rightarrow> string \<Rightarrow> jobj" where
  "jdel m k = filter (\<lambda>(k', _). k' \<noteq> k) m"

definition jhas :: "jobj \<Rightarrow> string \<Rightarrow> bool" where
  "jhas m k \<longleftrightarrow> jget m k \<noteq> None"

text \<open>\<open>m[k].(string)\<close>, with the zero value when the key is missing or of another type; the
  comma-ok forms are the options.\<close>

definition as_str :: "json \<Rightarrow> string option" where
  "as_str v = (case v of JStr s \<Rightarrow> Some s | _ \<Rightarrow> None)"

definition as_obj :: "json \<Rightarrow> jobj option" where
  "as_obj v = (case v of JObj m \<Rightarrow> Some m | _ \<Rightarrow> None)"

definition as_arr :: "json \<Rightarrow> json list option" where
  "as_arr v = (case v of JArr xs \<Rightarrow> Some xs | _ \<Rightarrow> None)"

definition jstr :: "jobj \<Rightarrow> string \<Rightarrow> string" where
  "jstr m k = (case jget m k of Some (JStr s) \<Rightarrow> s | _ \<Rightarrow> [])"

definition jobj_of :: "jobj \<Rightarrow> string \<Rightarrow> jobj option" where
  "jobj_of m k = (case jget m k of Some (JObj o') \<Rightarrow> Some o' | _ \<Rightarrow> None)"

definition jarr_of :: "jobj \<Rightarrow> string \<Rightarrow> json list option" where
  "jarr_of m k = (case jget m k of Some (JArr xs) \<Rightarrow> Some xs | _ \<Rightarrow> None)"

lemma jget_jput [simp]: "jget (jput m k v) j = (if j = k then Some v else jget m j)"
  by (induction m k v rule: jput.induct) (auto simp: jget_def)

lemma jget_nil [simp]: "jget [] k = None"
  by (simp add: jget_def)

lemma jget_jdel [simp]: "jget (jdel m k) j = (if j = k then None else jget m j)"
  by (induction m) (auto simp: jdel_def jget_def)

lemma jhas_jput [simp]: "jhas (jput m k v) j \<longleftrightarrow> j = k \<or> jhas m j"
  by (simp add: jhas_def)

lemma jhas_jdel [simp]: "jhas (jdel m k) j \<longleftrightarrow> j \<noteq> k \<and> jhas m j"
  by (simp add: jhas_def)

lemma set_keys_jput: "fst ` set (jput m k v) = insert k (fst ` set m)"
  by (induction m k v rule: jput.induct) auto

lemma distinct_jput [simp]: "distinct (map fst (jput m k v)) \<longleftrightarrow> distinct (map fst m)"
proof (induction m k v rule: jput.induct)
  case (2 k' v' m k v)
  then show ?case using set_keys_jput [of m k v] by auto
qed simp

lemma distinct_jdel: "distinct (map fst m) \<Longrightarrow> distinct (map fst (jdel m k))"
  unfolding jdel_def by (induction m) (auto split: if_splits)

lemma jget_in: "jget m k = Some v \<Longrightarrow> (k, v) \<in> set m"
  by (simp add: jget_def map_of_SomeD)

lemma jget_in_iff: "distinct (map fst m) \<Longrightarrow> (k, v) \<in> set m \<longleftrightarrow> jget m k = Some v"
  by (simp add: jget_def)

text \<open>A value whose objects have no key twice, as every decoded value is.\<close>

fun jwf :: "json \<Rightarrow> bool" where
  "jwf (JArr xs) \<longleftrightarrow> (\<forall>x \<in> set xs. jwf x)"
| "jwf (JObj m) \<longleftrightarrow> distinct (map fst m) \<and> (\<forall>kv \<in> set m. jwf (snd kv))"
| "jwf _ \<longleftrightarrow> True"

end
