(* ===== verification/Credential.thy ===== *)
theory Credential
  imports Json
begin

text \<open>
  The credential record of \<open>internal/storage/credentials.go\<close> and the pure functions on it: stable
  identity and matching, creation from an import, the in-place upsert, normalisation, validation
  and the token fingerprint.  A pointer to a time or a number is an option; deep copies
  (\<open>cloneCredential\<close>) are the values themselves, since nothing here is aliased.

  \<open>H\<close> stands for the hex SHA-256 of a string and \<open>parse\<close> for \<open>url.Parse\<close> (its result in the
  fields the code reads); both are arguments.
\<close>

section \<open>The record\<close>

record credential =
  cID :: string
  cRevision :: u64
  cName :: string
  cEmail :: string
  cUserID :: string
  cTeamID :: string
  cIdentityKey :: string
  cSourceKey :: string
  cOIDCIssuer :: string
  cOIDCClientID :: string
  cAccessToken :: string
  cRefreshToken :: string
  cExpiresAt :: gotime
  cEnabled :: bool
  cManualDisabled :: bool
  cLifecycleState :: string
  cDisableReason :: string
  cQuarantinedAt :: "gotime option"
  cPurgeAfter :: "gotime option"
  cQuarantineTokenFingerprint :: string
  cPriority :: int
  cProxyMode :: string
  cProxyURL :: string
  cFailureCount :: int
  cCooldownUntil :: "gotime option"
  cLastError :: string
  cLastUsedAt :: "gotime option"
  cLastSuccessAt :: "gotime option"
  cLastInspectionAt :: "gotime option"
  cLastInspectionStatus :: string
  cLastInspectionError :: string
  cConsecutiveUnauthorized :: int
  cRateLimitLimitRequests :: "int option"
  cRateLimitRemainingRequests :: "int option"
  cRateLimitLimitTokens :: "int option"
  cRateLimitRemainingTokens :: "int option"
  cRateLimitObservedAt :: "gotime option"
  cBilling :: "jobj option"
  cCreatedAt :: gotime
  cUpdatedAt :: gotime

definition zero_credential :: credential where
  "zero_credential = \<lparr>
     cID = [], cRevision = 0, cName = [], cEmail = [], cUserID = [], cTeamID = [],
     cIdentityKey = [], cSourceKey = [], cOIDCIssuer = [], cOIDCClientID = [],
     cAccessToken = [], cRefreshToken = [], cExpiresAt = zero_time, cEnabled = False,
     cManualDisabled = False, cLifecycleState = [], cDisableReason = [], cQuarantinedAt = None,
     cPurgeAfter = None, cQuarantineTokenFingerprint = [], cPriority = 0, cProxyMode = [],
     cProxyURL = [], cFailureCount = 0, cCooldownUntil = None, cLastError = [],
     cLastUsedAt = None, cLastSuccessAt = None, cLastInspectionAt = None,
     cLastInspectionStatus = [], cLastInspectionError = [], cConsecutiveUnauthorized = 0,
     cRateLimitLimitRequests = None, cRateLimitRemainingRequests = None,
     cRateLimitLimitTokens = None, cRateLimitRemainingTokens = None,
     cRateLimitObservedAt = None, cBilling = None, cCreatedAt = zero_time,
     cUpdatedAt = zero_time \<rparr>"

abbreviation st_active :: string where "st_active \<equiv> ''active''"
abbreviation st_quarantined :: string where "st_quarantined \<equiv> ''quarantined''"
abbreviation reason_manual :: string where "reason_manual \<equiv> ''manual''"
abbreviation reason_invalid_auth :: string where "reason_invalid_auth \<equiv> ''invalid_auth''"

record cred_input =
  iName :: string
  iEmail :: string
  iUserID :: string
  iTeamID :: string
  iIdentityKey :: string
  iSourceKey :: string
  iOIDCIssuer :: string
  iOIDCClientID :: string
  iAccessToken :: string
  iRefreshToken :: string
  iExpiresAt :: gotime
  iEnabled :: "bool option"
  iPriority :: "int option"
  iProxyMode :: string
  iProxyURL :: string

section \<open>Identity\<close>

definition norm_issuer :: "string \<Rightarrow> string" where
  "norm_issuer s = to_lower (trim_right_slash (trim_space s))"

definition stable_identity ::
  "(string \<Rightarrow> string) \<Rightarrow> string \<Rightarrow> string \<Rightarrow> string \<Rightarrow> string \<Rightarrow> string \<Rightarrow> string \<Rightarrow> string \<Rightarrow> string" where
  "stable_identity H issuer client user team email refresh access =
     (let issuer = norm_issuer issuer;
          client = to_lower (trim_space client);
          user = trim_space user;
          team = trim_space team in
      if user \<noteq> [] then ''oidc:'' @ issuer @ '':'' @ client @ '':'' @ user @ '':'' @ team
      else
        let email = to_lower (trim_space email) in
        if email \<noteq> [] then ''email:'' @ issuer @ '':'' @ client @ '':'' @ email
        else
          let (token, kind) = (if trim_space refresh \<noteq> [] then (trim_space refresh, ''refresh'')
                               else (trim_space access, ''access'')) in
          if token = [] then [] else kind @ '':'' @ H token)"

definition computed_identity :: "(string \<Rightarrow> string) \<Rightarrow> credential \<Rightarrow> string" where
  "computed_identity H c =
     stable_identity H (cOIDCIssuer c) (cOIDCClientID c) (cUserID c) (cTeamID c) (cEmail c)
       (cRefreshToken c) (cAccessToken c)"

definition stable_credential_identity :: "(string \<Rightarrow> string) \<Rightarrow> credential \<Rightarrow> string" where
  "stable_credential_identity H c =
     (if trim_space (cIdentityKey c) \<noteq> [] then trim_space (cIdentityKey c)
      else computed_identity H c)"

definition stable_input_identity :: "(string \<Rightarrow> string) \<Rightarrow> cred_input \<Rightarrow> string" where
  "stable_input_identity H i =
     (if trim_space (iIdentityKey i) \<noteq> [] then trim_space (iIdentityKey i)
      else stable_identity H (iOIDCIssuer i) (iOIDCClientID i) (iUserID i) (iTeamID i) (iEmail i)
             (iRefreshToken i) (iAccessToken i))"

definition identity_scope_compatible :: "credential \<Rightarrow> cred_input \<Rightarrow> bool" where
  "identity_scope_compatible c i =
     (let ei = norm_issuer (cOIDCIssuer c); ii = norm_issuer (iOIDCIssuer i) in
      if ei \<noteq> [] \<and> ii \<noteq> [] \<and> ei \<noteq> ii then False
      else
        let ec = to_lower (trim_space (cOIDCClientID c));
            ic = to_lower (trim_space (iOIDCClientID i)) in
        ec = [] \<or> ic = [] \<or> ec = ic)"

definition same_credential_identity :: "(string \<Rightarrow> string) \<Rightarrow> credential \<Rightarrow> cred_input \<Rightarrow> bool" where
  "same_credential_identity H c i =
     (let left = stable_credential_identity H c; right = stable_input_identity H i in
      if left \<noteq> [] \<and> right \<noteq> [] \<and> left = right then True
      else if trim_space (iUserID i) \<noteq> [] \<and> cUserID c = trim_space (iUserID i) \<and>
              identity_scope_compatible c i
      then trim_space (iTeamID i) = [] \<or> cTeamID c = [] \<or> cTeamID c = trim_space (iTeamID i)
      else if (trim_space (iUserID i) = [] \<or> trim_space (cUserID c) = []) \<and>
              trim_space (iEmail i) \<noteq> [] \<and> cEmail c \<noteq> [] \<and>
              equal_fold (cEmail c) (trim_space (iEmail i)) \<and> identity_scope_compatible c i
      then True
      else trim_space (iRefreshToken i) \<noteq> [] \<and> cRefreshToken c = trim_space (iRefreshToken i))"

definition token_fingerprint :: "(string \<Rightarrow> string) \<Rightarrow> credential \<Rightarrow> string" where
  "token_fingerprint H c = H (cAccessToken c @ [CHR 0x00] @ cRefreshToken c)"

definition truncate_time :: "gotime \<Rightarrow> gotime" where
  "truncate_time t = (if t = zero_time then zero_time else trunc_sec t)"


section \<open>Validation of an import\<close>

definition validate_issuer :: "url_parser \<Rightarrow> string \<Rightarrow> goerr option" where
  "validate_issuer parse raw0 =
     (let raw = trim_space raw0 in
      if raw = [] then None
      else case parse raw of
        None \<Rightarrow> Some (ErrText ''storage: invalid oidc_issuer'')
      | Some u \<Rightarrow>
          let host = to_lower (if uHostname u \<noteq> [] \<and> last (uHostname u) = CHR ''.''
                               then butlast (uHostname u) else uHostname u) in
          if uScheme u \<noteq> ''https'' \<or> host \<noteq> ''auth.x.ai'' \<or>
             (uPort u \<noteq> [] \<and> uPort u \<noteq> ''443'') \<or> uUser u \<or>
             trim_right_slash (uPath u) \<noteq> [] \<or> uRawQuery u \<noteq> [] \<or> uFragment u \<noteq> []
          then Some (ErrText ''storage: oidc_issuer must be exactly https://auth.x.ai'')
          else None)"

definition validate_proxy :: "url_parser \<Rightarrow> string \<Rightarrow> string \<Rightarrow> goerr option" where
  "validate_proxy parse mode0 url0 =
     (let mode = to_lower (trim_space mode0); raw = trim_space url0 in
      if mode = [] \<or> mode = ''inherit'' \<or> mode = ''direct'' then
        (if raw \<noteq> [] then Some (ErrText ''storage: proxy_url requires proxy_mode=url'') else None)
      else if mode = ''url'' then
        (if raw = [] then Some (ErrText ''storage: proxy_url required for proxy_mode=url'')
         else if list_ex (\<lambda>c. c = CHR 0x0D \<or> c = CHR 0x0A \<or> c = CHR 0x00) raw
         then Some (ErrText ''storage: proxy_url contains control characters'')
         else case parse raw of
           None \<Rightarrow> Some (ErrText ''storage: proxy_url must be absolute and include a host'')
         | Some u \<Rightarrow>
             if \<not> is_abs u \<or> uHost u = []
             then Some (ErrText ''storage: proxy_url must be absolute and include a host'')
             else if to_lower (uScheme u) \<notin> set [''http'', ''https'', ''socks5'', ''socks5h'']
             then Some (ErrText ''storage: unsupported proxy_url scheme'')
             else if uRawQuery u \<noteq> [] \<or> uFragment u \<noteq> []
             then Some (ErrText ''storage: proxy_url must not contain query or fragment'')
             else None)
      else Some (ErrText (''storage: invalid proxy_mode '' @ mode)))"

definition validate_input :: "url_parser \<Rightarrow> cred_input \<Rightarrow> goerr option" where
  "validate_input parse i =
     (if trim_space (iAccessToken i) = [] \<and> trim_space (iRefreshToken i) = []
      then Some (ErrText ''storage: access_token or refresh_token required'')
      else case validate_proxy parse (iProxyMode i) (iProxyURL i) of
        Some e \<Rightarrow> Some e
      | None \<Rightarrow> validate_issuer parse (iOIDCIssuer i))"

section \<open>Creation, upsert, normalisation\<close>

text \<open>\<open>nid\<close> is the identifier \<open>newID("cred")\<close> returned, \<open>None\<close> when the random source failed.\<close>

definition new_credential ::
  "(string \<Rightarrow> string) \<Rightarrow> string option \<Rightarrow> cred_input \<Rightarrow> gotime \<Rightarrow> goerr + credential" where
  "new_credential H nid i now =
     (let enabled = (case iEnabled i of Some b \<Rightarrow> b | None \<Rightarrow> True);
          priority = (case iPriority i of Some p \<Rightarrow> p | None \<Rightarrow> 100) in
      case nid of
        None \<Rightarrow> Inl (ErrText ''storage: generate id'')
      | Some k \<Rightarrow>
          let manual = (\<not> enabled) in
          Inr (zero_credential\<lparr>
            cID := k, cRevision := 1, cName := trim_space (iName i),
            cEmail := trim_space (iEmail i), cUserID := trim_space (iUserID i),
            cTeamID := trim_space (iTeamID i), cIdentityKey := stable_input_identity H i,
            cSourceKey := trim_space (iSourceKey i),
            cOIDCIssuer := trim_right_slash (trim_space (iOIDCIssuer i)),
            cOIDCClientID := trim_space (iOIDCClientID i),
            cAccessToken := trim_space (iAccessToken i),
            cRefreshToken := trim_space (iRefreshToken i),
            cExpiresAt := truncate_time (iExpiresAt i), cEnabled := enabled,
            cManualDisabled := manual, cLifecycleState := st_active,
            cDisableReason := (if manual then reason_manual else []), cPriority := priority,
            cProxyMode := to_lower (trim_space (iProxyMode i)),
            cProxyURL := trim_space (iProxyURL i), cCreatedAt := now, cUpdatedAt := now\<rparr>))"

definition keep_or :: "string \<Rightarrow> string \<Rightarrow> string" where
  "keep_or old v = (if v \<noteq> [] then v else old)"

definition token_changed :: "credential \<Rightarrow> cred_input \<Rightarrow> bool" where
  "token_changed c i \<longleftrightarrow>
     trim_space (iAccessToken i) \<noteq> [] \<and> trim_space (iAccessToken i) \<noteq> cAccessToken c \<or>
     trim_space (iRefreshToken i) \<noteq> [] \<and> trim_space (iRefreshToken i) \<noteq> cRefreshToken c"

text \<open>The body of the matching iteration of \<open>upsertCredentialDoc\<close>: the import's non-empty fields,
  the identity, the return from quarantine on a token change, the revision.\<close>

definition upsert_fields :: "credential \<Rightarrow> cred_input \<Rightarrow> credential" where
  "upsert_fields c i = c\<lparr>
     cName := keep_or (cName c) (trim_space (iName i)),
     cEmail := keep_or (cEmail c) (trim_space (iEmail i)),
     cUserID := keep_or (cUserID c) (trim_space (iUserID i)),
     cTeamID := keep_or (cTeamID c) (trim_space (iTeamID i)),
     cSourceKey := keep_or (cSourceKey c) (trim_space (iSourceKey i)),
     cOIDCIssuer := keep_or (cOIDCIssuer c) (trim_right_slash (trim_space (iOIDCIssuer i))),
     cOIDCClientID := keep_or (cOIDCClientID c) (trim_space (iOIDCClientID i)),
     cAccessToken := keep_or (cAccessToken c) (trim_space (iAccessToken i)),
     cRefreshToken := keep_or (cRefreshToken c) (trim_space (iRefreshToken i)),
     cExpiresAt := (if iExpiresAt i \<noteq> zero_time then truncate_time (iExpiresAt i) else cExpiresAt c),
     cProxyMode := (if trim_space (iProxyMode i) \<noteq> [] then to_lower (trim_space (iProxyMode i))
                    else cProxyMode c),
     cProxyURL := (if trim_space (iProxyMode i) \<noteq> [] then trim_space (iProxyURL i)
                   else cProxyURL c)\<rparr>"

definition upsert_identity :: "(string \<Rightarrow> string) \<Rightarrow> credential \<Rightarrow> cred_input \<Rightarrow> credential" where
  "upsert_identity H c i = c\<lparr> cIdentityKey :=
     (if trim_space (iIdentityKey i) \<noteq> [] then trim_space (iIdentityKey i)
      else computed_identity H c) \<rparr>"

definition upsert_merge :: "(string \<Rightarrow> string) \<Rightarrow> credential \<Rightarrow> cred_input \<Rightarrow> gotime \<Rightarrow> credential" where
  "upsert_merge H c i now =
     (let c' = upsert_identity H (upsert_fields c i) i;
          c'' = (if token_changed c i \<and> cDisableReason c' = reason_invalid_auth \<and>
                    \<not> cManualDisabled c'
                 then c'\<lparr> cEnabled := True, cLifecycleState := st_active, cDisableReason := [],
                          cQuarantinedAt := None, cPurgeAfter := None,
                          cQuarantineTokenFingerprint := [], cConsecutiveUnauthorized := 0,
                          cLastInspectionError := [] \<rparr>
                 else c') in
      c''\<lparr> cUpdatedAt := now, cRevision := cRevision c'' + 1 \<rparr>)"

fun upsert_doc ::
  "(string \<Rightarrow> string) \<Rightarrow> string option \<Rightarrow> credential list \<Rightarrow> cred_input \<Rightarrow> gotime \<Rightarrow>
   goerr + (credential list \<times> credential \<times> bool)" where
  "upsert_doc H nid [] i now =
     (case new_credential H nid i now of Inl e \<Rightarrow> Inl e | Inr c \<Rightarrow> Inr ([c], c, True))"
| "upsert_doc H nid (c # cs) i now =
     (if same_credential_identity H c i
      then (let c' = upsert_merge H c i now in Inr (c' # cs, c', False))
      else case upsert_doc H nid cs i now of
        Inl e \<Rightarrow> Inl e | Inr (cs', r, b) \<Rightarrow> Inr (c # cs', r, b))"

definition normalize_credential :: "(string \<Rightarrow> string) \<Rightarrow> credential \<Rightarrow> credential" where
  "normalize_credential H c0 =
     (let c1 = (if trim_space (cIdentityKey c0) = [] then c0\<lparr> cIdentityKey := computed_identity H c0 \<rparr>
                else c0);
          c2 = (if trim_space (cLifecycleState c1) = []
                then (let a = c1\<lparr> cLifecycleState := st_active \<rparr> in
                      if \<not> cEnabled a
                      then (let m = a\<lparr> cManualDisabled := True \<rparr> in
                            if trim_space (cDisableReason m) = []
                            then m\<lparr> cDisableReason := reason_manual \<rparr> else m)
                      else a)
                else c1) in
      if trim_space (cProxyMode c2) = [] then c2\<lparr> cProxyMode := ''inherit'' \<rparr> else c2)"


section \<open>Facts on single credentials\<close>

lemma trim_right_slash_idem [simp]: "trim_right_slash (trim_right_slash s) = trim_right_slash s"
  by (simp add: trim_right_slash_def)

lemma state_words_trim [simp]:
  "trim_space st_active = st_active" "trim_space ''inherit'' = ''inherit''"
  "trim_space reason_manual = reason_manual" "trim_space reason_invalid_auth = reason_invalid_auth"
  by code_simp+

lemma computed_identity_cong:
  "computed_identity H (c\<lparr>cIdentityKey := k\<rparr>) = computed_identity H c"
  "computed_identity H (c\<lparr>cLifecycleState := k\<rparr>) = computed_identity H c"
  "computed_identity H (c\<lparr>cManualDisabled := b\<rparr>) = computed_identity H c"
  "computed_identity H (c\<lparr>cDisableReason := k\<rparr>) = computed_identity H c"
  "computed_identity H (c\<lparr>cProxyMode := k\<rparr>) = computed_identity H c"
  by (simp_all add: computed_identity_def)

text \<open>The four fields \<open>normalizeCredential\<close> may set, each by a condition on the record it was
  given.\<close>

definition norm_key :: "(string \<Rightarrow> string) \<Rightarrow> credential \<Rightarrow> string" where
  "norm_key H c = (if trim_space (cIdentityKey c) = [] then computed_identity H c else cIdentityKey c)"

definition norm_disabled :: "credential \<Rightarrow> bool" where
  "norm_disabled c \<longleftrightarrow> trim_space (cLifecycleState c) = [] \<and> \<not> cEnabled c"

lemma record_same_update:
  "c\<lparr>cIdentityKey := cIdentityKey c\<rparr> = c" "c\<lparr>cLifecycleState := cLifecycleState c\<rparr> = c"
  "c\<lparr>cManualDisabled := cManualDisabled c\<rparr> = c" "c\<lparr>cDisableReason := cDisableReason c\<rparr> = c"
  "c\<lparr>cProxyMode := cProxyMode c\<rparr> = c"
  by (cases c; simp)+

lemma normalize_fields:
  "normalize_credential H c = c\<lparr>
     cIdentityKey := norm_key H c,
     cLifecycleState := (if trim_space (cLifecycleState c) = [] then st_active else cLifecycleState c),
     cManualDisabled := (norm_disabled c \<or> cManualDisabled c),
     cDisableReason := (if norm_disabled c \<and> trim_space (cDisableReason c) = []
                        then reason_manual else cDisableReason c),
     cProxyMode := (if trim_space (cProxyMode c) = [] then ''inherit'' else cProxyMode c)\<rparr>"
  unfolding normalize_credential_def norm_key_def norm_disabled_def Let_def
  by (cases c; cases "trim_space (cIdentityKey c) = []"; cases "trim_space (cLifecycleState c) = []";
      cases "cEnabled c"; cases "trim_space (cDisableReason c) = []";
      cases "trim_space (cProxyMode c) = []"; simp)

lemma normalize_idem [simp]:
  "normalize_credential H (normalize_credential H c) = normalize_credential H c"
proof -
  have "norm_key H (normalize_credential H c) = norm_key H c"
    by (simp add: normalize_fields norm_key_def computed_identity_def)
  moreover have "\<not> norm_disabled (normalize_credential H c)"
    by (simp add: normalize_fields norm_disabled_def)
  ultimately show ?thesis
    by (cases c) (simp add: normalize_fields [of H "normalize_credential H c"] normalize_fields)
qed

lemma normalize_frame [frame, simp]:
  "cID (normalize_credential H c) = cID c"
  "cRevision (normalize_credential H c) = cRevision c"
  "cEnabled (normalize_credential H c) = cEnabled c"
  "cAccessToken (normalize_credential H c) = cAccessToken c"
  "cRefreshToken (normalize_credential H c) = cRefreshToken c"
  "cExpiresAt (normalize_credential H c) = cExpiresAt c"
  "cPriority (normalize_credential H c) = cPriority c"
  "cFailureCount (normalize_credential H c) = cFailureCount c"
  "cCooldownUntil (normalize_credential H c) = cCooldownUntil c"
  "cLastError (normalize_credential H c) = cLastError c"
  "cLastSuccessAt (normalize_credential H c) = cLastSuccessAt c"
  "cCreatedAt (normalize_credential H c) = cCreatedAt c"
  "cPurgeAfter (normalize_credential H c) = cPurgeAfter c"
  "cQuarantineTokenFingerprint (normalize_credential H c) = cQuarantineTokenFingerprint c"
  "cRateLimitRemainingRequests (normalize_credential H c) = cRateLimitRemainingRequests c"
  by (simp_all add: normalize_fields)

lemma token_fingerprint_normalize [simp]:
  "token_fingerprint H (normalize_credential H c) = token_fingerprint H c"
  by (simp add: token_fingerprint_def)

lemma normalized_map [simp]:
  "map (normalize_credential H) (map (normalize_credential H) cs) = map (normalize_credential H) cs"
  by simp

text \<open>A credential that has taken over every non-empty identifying field of an import.\<close>

definition absorbs :: "credential \<Rightarrow> cred_input \<Rightarrow> bool" where
  "absorbs c i \<longleftrightarrow>
     (trim_space (iIdentityKey i) \<noteq> [] \<longrightarrow> cIdentityKey c = trim_space (iIdentityKey i)) \<and>
     (trim_space (iUserID i) \<noteq> [] \<longrightarrow> cUserID c = trim_space (iUserID i)) \<and>
     (trim_space (iTeamID i) \<noteq> [] \<longrightarrow> cTeamID c = trim_space (iTeamID i)) \<and>
     (trim_space (iEmail i) \<noteq> [] \<longrightarrow> cEmail c = trim_space (iEmail i)) \<and>
     (trim_space (iRefreshToken i) \<noteq> [] \<longrightarrow> cRefreshToken c = trim_space (iRefreshToken i)) \<and>
     (trim_right_slash (trim_space (iOIDCIssuer i)) \<noteq> [] \<longrightarrow>
        cOIDCIssuer c = trim_right_slash (trim_space (iOIDCIssuer i))) \<and>
     (trim_space (iOIDCClientID i) \<noteq> [] \<longrightarrow> cOIDCClientID c = trim_space (iOIDCClientID i))"

text \<open>An issuer with no blank before its trailing slashes; a validated issuer has none.\<close>

definition clean_issuer :: "cred_input \<Rightarrow> bool" where
  "clean_issuer i \<longleftrightarrow>
     (let s = trim_right_slash (trim_space (iOIDCIssuer i)) in trim_space s = s)"

definition identified :: "cred_input \<Rightarrow> bool" where
  "identified i \<longleftrightarrow> trim_space (iIdentityKey i) \<noteq> [] \<or> trim_space (iUserID i) \<noteq> [] \<or>
     trim_space (iEmail i) \<noteq> [] \<or> trim_space (iRefreshToken i) \<noteq> []"

lemma absorbs_scope:
  assumes "absorbs c i" "clean_issuer i"
  shows "identity_scope_compatible c i"
  using assms
  by (cases "trim_right_slash (trim_space (iOIDCIssuer i)) = []";
      cases "trim_space (iOIDCClientID i) = []")
     (auto simp: absorbs_def clean_issuer_def identity_scope_compatible_def norm_issuer_def Let_def)

lemma absorbs_same:
  assumes "absorbs c i" "clean_issuer i" "identified i"
  shows "same_credential_identity H c i"
proof -
  have scope: "identity_scope_compatible c i" using assms absorbs_scope by blast
  have key: ?thesis if "trim_space (iIdentityKey i) \<noteq> []"
    using assms that
    by (simp add: same_credential_identity_def stable_credential_identity_def
          stable_input_identity_def absorbs_def Let_def)
  have rest: ?thesis if "trim_space (iIdentityKey i) = []"
  proof (cases "trim_space (iUserID i) = []")
    case False
    then show ?thesis using assms scope
      by (auto simp: same_credential_identity_def absorbs_def Let_def)
  next
    case True
    then show ?thesis using assms scope that
      by (cases "trim_space (iEmail i) = []")
         (auto simp: same_credential_identity_def absorbs_def identified_def Let_def equal_fold_def)
  qed
  show ?thesis using key rest by blast
qed

lemma absorbs_new: "new_credential H nid i now = Inr c \<Longrightarrow> absorbs c i"
  by (auto simp: new_credential_def absorbs_def Let_def stable_input_identity_def
        split: option.splits)

lemma absorbs_merge: "absorbs (upsert_merge H c i now) i"
  by (simp add: upsert_merge_def upsert_identity_def upsert_fields_def absorbs_def keep_or_def
        Let_def)


section \<open>The upsert on a document\<close>

lemma upsert_doc_cases:
  assumes "upsert_doc H nid cs i now = Inr (cs', r, created)"
  shows "if created
         then (\<forall>c \<in> set cs. \<not> same_credential_identity H c i) \<and> cs' = cs @ [r] \<and>
              new_credential H nid i now = Inr r
         else (\<exists>pre c suf. cs = pre @ c # suf \<and> cs' = pre @ r # suf \<and>
                r = upsert_merge H c i now \<and> same_credential_identity H c i \<and>
                (\<forall>d \<in> set pre. \<not> same_credential_identity H d i))"
  using assms
proof (induction cs arbitrary: cs')
  case Nil
  then show ?case by (auto split: sum.splits)
next
  case (Cons c cs)
  show ?case
  proof (cases "same_credential_identity H c i")
    case True
    with Cons.prems have "cs' = upsert_merge H c i now # cs" "r = upsert_merge H c i now" "\<not> created"
      by (auto simp: Let_def)
    with True show ?thesis
      by (auto intro!: exI [of _ "[]"])
  next
    case False
    with Cons.prems obtain ds where d: "upsert_doc H nid cs i now = Inr (ds, r, created)" "cs' = c # ds"
      by (auto split: sum.splits prod.splits)
    from Cons.IH [OF d(1)] False d(2) show ?thesis
    proof (cases created)
      case nc: False
      with Cons.IH [OF d(1)] obtain pre c' suf where
        p: "cs = pre @ c' # suf" "ds = pre @ r # suf" "r = upsert_merge H c' i now"
           "same_credential_identity H c' i" "\<forall>d \<in> set pre. \<not> same_credential_identity H d i"
        by auto
      have "c # cs = (c # pre) @ c' # suf" "cs' = (c # pre) @ r # suf"
        using p(1,2) d(2) by simp_all
      moreover have "\<forall>d \<in> set (c # pre). \<not> same_credential_identity H d i"
        using p(5) False by simp
      moreover note p(3,4)
      ultimately have "\<exists>pre c' suf. c # cs = pre @ c' # suf \<and> cs' = pre @ r # suf \<and>
          r = upsert_merge H c' i now \<and> same_credential_identity H c' i \<and>
          (\<forall>d \<in> set pre. \<not> same_credential_identity H d i)" by metis
      then show ?thesis using nc by simp
    qed auto
  qed
qed

lemma upsert_doc_no_create:
  assumes "c \<in> set cs" "same_credential_identity H c i"
  shows "\<exists>cs' r. upsert_doc H nid cs i now = Inr (cs', r, False)"
  using assms by (induction cs) (auto simp: Let_def)

lemma upsert_merge_frame [frame, simp]:
  "cID (upsert_merge H c i now) = cID c"
  "cPriority (upsert_merge H c i now) = cPriority c"
  "cFailureCount (upsert_merge H c i now) = cFailureCount c"
  "cCooldownUntil (upsert_merge H c i now) = cCooldownUntil c"
  "cLastError (upsert_merge H c i now) = cLastError c"
  "cLastUsedAt (upsert_merge H c i now) = cLastUsedAt c"
  "cLastSuccessAt (upsert_merge H c i now) = cLastSuccessAt c"
  "cManualDisabled (upsert_merge H c i now) = cManualDisabled c"
  "cCreatedAt (upsert_merge H c i now) = cCreatedAt c"
  "cRevision (upsert_merge H c i now) = cRevision c + 1"
  by (simp_all add: upsert_merge_def upsert_identity_def upsert_fields_def Let_def)

text \<open>
  C36: Importing the same account twice never makes a second record.  After an upsert of an input
  that carries an identity key, a user id, an e-mail or a refresh token, a second upsert of that
  input (any time later, whatever identifier is drawn) is an update, and the number of records
  does not change.
\<close>

theorem upsert_idempotent:
  assumes "identified i" "clean_issuer i"
    and "upsert_doc H nid cs i now = Inr (cs', r, created)"
  shows "\<exists>cs'' r'. upsert_doc H nid' cs' i now' = Inr (cs'', r', False) \<and> length cs'' = length cs'"
proof -
  have "absorbs r i \<and> r \<in> set cs'"
    using upsert_doc_cases [OF assms(3)] by (auto split: if_splits intro: absorbs_new absorbs_merge)
  with assms have "same_credential_identity H r i" "r \<in> set cs'" by (auto intro: absorbs_same)
  then obtain cs'' r' where "upsert_doc H nid' cs' i now' = Inr (cs'', r', False)"
    using upsert_doc_no_create by blast
  with upsert_doc_cases [OF this] show ?thesis by auto
qed

definition sample_input :: cred_input where
  "sample_input = \<lparr> iName = ''a'', iEmail = ''A@x.ai'', iUserID = '' u1'', iTeamID = [],
     iIdentityKey = [], iSourceKey = [], iOIDCIssuer = ''https://auth.x.ai/'', iOIDCClientID = ''c'',
     iAccessToken = ''at'', iRefreshToken = ''rt'', iExpiresAt = 5, iEnabled = None,
     iPriority = None, iProxyMode = [], iProxyURL = [] \<rparr>"

lemma sample_upsert:
  "identified sample_input" "clean_issuer sample_input"
  "\<exists>c. upsert_doc id (Some ''cred_1'') [] sample_input 7 = Inr ([c], c, True)"
  "validate_input (\<lambda>s. Some \<lparr> uScheme = ''https'', uUser = False, uHost = ''auth.x.ai'',
      uHostname = ''auth.x.ai'', uPort = [], uPath = ''/'', uRawQuery = [], uFragment = [] \<rparr>)
     sample_input = None"
  by code_simp (code_simp, simp add: new_credential_def Let_def, code_simp)

theorem upsert_idempotent_witness:
  "\<exists>c cs'' r'. upsert_doc id (Some ''cred_1'') [] sample_input 7 = Inr ([c], c, True) \<and>
     upsert_doc id (Some ''cred_2'') [c] sample_input 9 = Inr (cs'', r', False) \<and> length cs'' = 1"
proof -
  from sample_upsert(3) obtain c where
    c: "upsert_doc id (Some ''cred_1'') [] sample_input 7 = Inr ([c], c, True)" by blast
  show ?thesis
    using c upsert_idempotent [OF sample_upsert(1,2) c, of "Some ''cred_2''" 9] by auto
qed

end
