(* ===== verification/Json_Struct.thy ===== *)
theory Json_Struct
  imports Json "HOL-Library.Monad_Syntax"
begin

text \<open>
  \<open>encoding/json\<close> decoding an object into a struct: one decoder per type of a field.  A field that is missing
  or \<open>null\<close> keeps its zero value; \<open>None\<close> is a type error.  Fields are read under their exact names, and a
  number without a fraction is an integer.
\<close>

definition text_field :: "jobj \<Rightarrow> string \<Rightarrow> string option" where
  "text_field m k = (case jget m k of
       None \<Rightarrow> Some [] | Some JNull \<Rightarrow> Some [] | Some (JStr s) \<Rightarrow> Some s | _ \<Rightarrow> None)"

definition flag_field :: "jobj \<Rightarrow> string \<Rightarrow> bool option" where
  "flag_field m k = (case jget m k of
       None \<Rightarrow> Some False | Some JNull \<Rightarrow> Some False | Some (JBool b) \<Rightarrow> Some b | _ \<Rightarrow> None)"

text \<open>A pointer to a \<open>bool\<close>, to an \<open>int\<close> and to a \<open>float64\<close>: \<open>Some None\<close> is \<open>nil\<close>.\<close>

definition opt_flag_field :: "jobj \<Rightarrow> string \<Rightarrow> bool option option" where
  "opt_flag_field m k = (case jget m k of
       None \<Rightarrow> Some None | Some JNull \<Rightarrow> Some None | Some (JBool b) \<Rightarrow> Some (Some b) | _ \<Rightarrow> None)"

definition opt_int_field :: "jobj \<Rightarrow> string \<Rightarrow> int option option" where
  "opt_int_field m k = (case jget m k of
       None \<Rightarrow> Some None
     | Some JNull \<Rightarrow> Some None
     | Some (JNum n) \<Rightarrow> map_option Some (int64_range (Some n))
     | _ \<Rightarrow> None)"

definition count_field :: "jobj \<Rightarrow> string \<Rightarrow> int option" where
  "count_field m k = map_option (\<lambda>v. case v of None \<Rightarrow> 0 | Some n \<Rightarrow> n) (opt_int_field m k)"

definition opt_num_field :: "jobj \<Rightarrow> string \<Rightarrow> json option option" where
  "opt_num_field m k = (case jget m k of
       None \<Rightarrow> Some None
     | Some JNull \<Rightarrow> Some None
     | Some (JNum n) \<Rightarrow> Some (Some (JNum n))
     | Some (JFloat n s) \<Rightarrow> Some (Some (JFloat n s))
     | _ \<Rightarrow> None)"

text \<open>The elements of a slice, each with its decoder.\<close>

fun all_some :: "'a option list \<Rightarrow> 'a list option" where
  "all_some [] = Some []"
| "all_some (x # xs) = (case x of None \<Rightarrow> None | Some y \<Rightarrow> map_option (Cons y) (all_some xs))"

definition list_field :: "(json \<Rightarrow> 'a option) \<Rightarrow> jobj \<Rightarrow> string \<Rightarrow> 'a list option" where
  "list_field f m k = (case jget m k of
       None \<Rightarrow> Some [] | Some JNull \<Rightarrow> Some [] | Some (JArr xs) \<Rightarrow> all_some (map f xs) | _ \<Rightarrow> None)"

definition text_value :: "json \<Rightarrow> string option" where
  "text_value v = (case v of JNull \<Rightarrow> Some [] | JStr s \<Rightarrow> Some s | _ \<Rightarrow> None)"

text \<open>A struct is decoded from an object; \<open>null\<close> leaves its zero value.\<close>

definition struct_value :: "(jobj \<Rightarrow> 'a option) \<Rightarrow> json \<Rightarrow> 'a option" where
  "struct_value f v = (case v of JObj m \<Rightarrow> f m | JNull \<Rightarrow> f [] | _ \<Rightarrow> None)"

text \<open>A raw field that holds a value other than \<open>null\<close>.\<close>

definition raw_value :: "jobj \<Rightarrow> string \<Rightarrow> json option" where
  "raw_value m k = (case jget m k of Some JNull \<Rightarrow> None | v \<Rightarrow> v)"

lemma field_simps [simp]:
  "text_field [] k = Some []" "flag_field [] k = Some False" "opt_flag_field [] k = Some None"
  "opt_int_field [] k = Some None" "count_field [] k = Some 0" "opt_num_field [] k = Some None"
  "list_field f [] k = Some []" "raw_value [] k = None"
  by (simp_all add: text_field_def flag_field_def opt_flag_field_def opt_int_field_def count_field_def
      opt_num_field_def list_field_def raw_value_def)

lemma all_some_Some: "all_some xs = Some ys \<longleftrightarrow> xs = map Some ys"
  by (induction xs arbitrary: ys) (auto split: option.splits)

lemma opt_int_range: "opt_int_field m k = Some (Some n) \<Longrightarrow> - (2 ^ 63) \<le> n \<and> n < 2 ^ 63"
  by (auto simp: opt_int_field_def int64_range_def split: option.splits json.splits if_splits)

end
