(* ===== verification/Grok_Import.thy ===== *)
theory Grok_Import
  imports Credential Json_Struct
begin

text \<open>
  The parser of imported credentials (\<open>internal/auth/import_grok.go\<close>): the documents of the Grok CLI and of
  CPA, decoded member by member, normalised and bounded by a streaming count of their entries.

  A text is seen as \<open>encoding/json\<close> reads it: \<open>docs\<close> gives the value it holds and whether nothing but space
  follows, or, of a text that breaks off, the values read before.  Members keep their order and their
  duplicates.  \<open>parse\<close> is \<open>url.Parse\<close> and \<open>tp\<close> is \<open>time.Parse\<close>, by layout and text.
\<close>

section \<open>Documents\<close>

text \<open>\<open>Stops\<close>: \<open>Decoder.More\<close> is false where the container should be closed; \<open>Breaks\<close>: it is true and no
  whole value follows, but maybe a container that breaks off.\<close>

datatype broken =
    BrokenArr "json list" gap
  | BrokenObj "(string \<times> json) list" "string option" gap
and gap =
    Stops
  | Breaks "broken option"

datatype json_doc =
    Whole json bool
  | Cut broken
  | Unreadable

datatype import_error =
    ImpEmpty
  | ImpSyntax
  | ImpNotContainer
  | ImpMustBeArray string
  | ImpNoTokens string
  | ImpType string
  | ImpTypeRequired string
  | ImpTime string
  | ImpIssuer string
  | ImpEntry string import_error
  | ImpNoEntries "string list"
  | ImpLimit int

record import_warning =
  iwSource :: string
  iwField :: string
  iwMessage :: string

record grok_entry =
  geType :: string
  geKey :: string
  geAccessToken :: string
  geAuthMode :: string
  geCreateTime :: string
  geUserID :: string
  geEmail :: string
  geFirstName :: string
  geProfileImage :: string
  gePrincipalType :: string
  gePrincipalID :: string
  geTeamID :: string
  geCodingOptOut :: bool
  geRefreshToken :: string
  geExpiresAt :: string
  geExpired :: string
  geOIDCIssuer :: string
  geOIDCClientID :: string
  geSub :: string
  geDisabled :: bool
  geProxyURL :: string
  geProxy :: string

record imported =
  imSourceKey :: string
  imAccessToken :: string
  imRefreshToken :: string
  imExpiresAt :: gotime
  imEmail :: string
  imUserID :: string
  imTeamID :: string
  imOIDCIssuer :: string
  imOIDCClientID :: string
  imAuthMode :: string
  imDisabled :: bool
  imProxyURL :: string
  imWarnings :: "import_warning list"
  imRaw :: grok_entry

section \<open>One entry\<close>

definition max_import_warnings :: nat where
  "max_import_warnings = 256"

definition known_grok_auth_fields :: "string list" where
  "known_grok_auth_fields =
     [''type'', ''key'', ''access_token'', ''auth_mode'', ''create_time'', ''user_id'', ''email'', ''first_name'',
      ''profile_image_asset_id'', ''principal_type'', ''principal_id'', ''team_id'',
      ''coding_data_retention_opt_out'', ''refresh_token'', ''expires_at'', ''expired'', ''oidc_issuer'',
      ''oidc_client_id'', ''sub'', ''disabled'', ''proxy_url'', ''proxy'']"

definition unsupported_field_warning :: "string \<Rightarrow> string \<Rightarrow> import_warning" where
  "unsupported_field_warning source field =
     \<lparr> iwSource = source, iwField = field, iwMessage = ''field is not supported and was ignored'' \<rparr>"

definition flag_fields :: "string list" where
  "flag_fields = [''coding_data_retention_opt_out'', ''disabled'']"

definition well_typed :: "jobj \<Rightarrow> bool" where
  "well_typed m \<longleftrightarrow> list_all (\<lambda>k. if k \<in> set flag_fields then flag_field m k \<noteq> None else text_field m k \<noteq> None)
     known_grok_auth_fields"

definition entry_of :: "jobj \<Rightarrow> grok_entry" where
  "entry_of m = (let s = (\<lambda>k. the (text_field m k)) in
     \<lparr> geType = s ''type'', geKey = s ''key'', geAccessToken = s ''access_token'', geAuthMode = s ''auth_mode'',
       geCreateTime = s ''create_time'', geUserID = s ''user_id'', geEmail = s ''email'',
       geFirstName = s ''first_name'', geProfileImage = s ''profile_image_asset_id'',
       gePrincipalType = s ''principal_type'', gePrincipalID = s ''principal_id'', geTeamID = s ''team_id'',
       geCodingOptOut = the (flag_field m ''coding_data_retention_opt_out''),
       geRefreshToken = s ''refresh_token'', geExpiresAt = s ''expires_at'', geExpired = s ''expired'',
       geOIDCIssuer = s ''oidc_issuer'', geOIDCClientID = s ''oidc_client_id'', geSub = s ''sub'',
       geDisabled = the (flag_field m ''disabled''), geProxyURL = s ''proxy_url'', geProxy = s ''proxy'' \<rparr>)"

text \<open>The known members, the last of each name, and the names of at most 256 others.\<close>

fun split_members :: "(string \<times> json) list \<Rightarrow> jobj \<Rightarrow> string list \<Rightarrow> bool \<Rightarrow> jobj \<times> string list \<times> bool" where
  "split_members [] known unknown omitted = (known, unknown, omitted)"
| "split_members ((k, v) # ms) known unknown omitted =
     (if k \<in> set known_grok_auth_fields then split_members ms (jput known k v) unknown omitted
      else if length unknown < max_import_warnings
      then split_members ms known (if k \<in> set unknown then unknown else unknown @ [k]) omitted
      else split_members ms known unknown True)"

definition decode_entry :: "json \<Rightarrow> string \<Rightarrow> import_error + (grok_entry \<times> import_warning list)" where
  "decode_entry v source = (case v of
       JObj ms \<Rightarrow>
         (case split_members ms [] [] False of (known, unknown, omitted) \<Rightarrow>
            if \<not> well_typed known then Inl ImpSyntax
            else Inr (entry_of known,
              map (unsupported_field_warning source) (sort_stable str_less unknown) @
              (if omitted then [\<lparr> iwSource = source, iwField = ''*'',
                 iwMessage = ''additional unsupported fields omitted after warning limit'' \<rparr>] else [])))
     | _ \<Rightarrow> Inl ImpSyntax)"

definition entry_has_token :: "grok_entry \<Rightarrow> bool" where
  "entry_has_token e \<longleftrightarrow>
     trim_space (geKey e) \<noteq> [] \<or> trim_space (geAccessToken e) \<noteq> [] \<or> trim_space (geRefreshToken e) \<noteq> []"

definition validate_cpa_type :: "string \<Rightarrow> grok_entry \<Rightarrow> import_error option" where
  "validate_cpa_type source e =
     (let ty = to_lower (trim_space (geType e));
          cpa = trim_space (geKey e) = [] \<and> trim_space (geAccessToken e) \<noteq> [] \<and>
                (trim_space (geExpired e) \<noteq> [] \<or> trim_space (geSub e) \<noteq> []) in
      if ty \<noteq> [] \<and> ty \<noteq> ''xai'' then Some (ImpType source)
      else if cpa \<and> ty \<noteq> ''xai'' then Some (ImpTypeRequired source)
      else None)"

text \<open>\<open>strings.SplitN(s, sep, 2)\<close>\<close>

fun split_once :: "string \<Rightarrow> string \<Rightarrow> (string \<times> string) option" where
  "split_once sep [] = (if sep = [] then Some ([], []) else None)"
| "split_once sep (c # cs) =
     (if has_prefix (c # cs) sep then Some ([], drop (length sep) (c # cs))
      else map_option (\<lambda>(a, b). (c # a, b)) (split_once sep cs))"

definition split_source_key :: "string \<Rightarrow> (string \<times> string) option" where
  "split_source_key key = (case split_once ''::'' key of
       None \<Rightarrow> None
     | Some (a, b) \<Rightarrow>
         if trim_space a = [] \<or> trim_space b = [] then None else Some (trim_space a, trim_space b))"

definition time_layouts :: "string list" where
  "time_layouts = [''2006-01-02T15:04:05.999999999Z07:00'', ''2006-01-02T15:04:05Z07:00'',
     ''2006-01-02T15:04:05.999999999Z07:00'', ''2006-01-02T15:04:05Z07:00'', ''2006-01-02 15:04:05'']"

fun first_layout :: "(string \<Rightarrow> string \<Rightarrow> gotime option) \<Rightarrow> string list \<Rightarrow> string \<Rightarrow> gotime option" where
  "first_layout tp [] s = None"
| "first_layout tp (l # ls) s = (case tp l s of Some t \<Rightarrow> Some t | None \<Rightarrow> first_layout tp ls s)"

definition parse_flexible_time :: "(string \<Rightarrow> string \<Rightarrow> gotime option) \<Rightarrow> string \<Rightarrow> gotime option" where
  "parse_flexible_time tp s = first_layout tp time_layouts (trim_space s)"

definition issuer_url :: string where
  "issuer_url = ''https://auth.x.ai''"

definition default_client_id :: string where
  "default_client_id = ''b1a00492-073a-47ea-816f-4c329264a828''"

definition normalize_trusted_issuer :: "url_parser \<Rightarrow> string \<Rightarrow> string option" where
  "normalize_trusted_issuer parse raw0 =
     (let raw = trim_space raw0 in
      if raw = [] then Some issuer_url
      else case parse raw of
        None \<Rightarrow> None
      | Some u \<Rightarrow>
          let host = to_lower (if uHostname u \<noteq> [] \<and> last (uHostname u) = CHR ''.''
                               then butlast (uHostname u) else uHostname u) in
          if uScheme u \<noteq> ''https'' \<or> host \<noteq> ''auth.x.ai'' \<or>
             (uPort u \<noteq> [] \<and> uPort u \<noteq> ''443'') \<or> uUser u \<or>
             trim_right_slash (uPath u) \<noteq> [] \<or> uRawQuery u \<noteq> [] \<or> uFragment u \<noteq> []
          then None else Some issuer_url)"

definition before_entry_mark :: "string \<Rightarrow> string" where
  "before_entry_mark s = (case split_once ''#entry'' s of None \<Rightarrow> s | Some (a, _) \<Rightarrow> a)"

text \<open>The issuer and the client of an entry, the missing ones taken from the key of its map.\<close>

definition entry_scope :: "string \<Rightarrow> grok_entry \<Rightarrow> string \<times> string" where
  "entry_scope key e =
     (let cid = trim_space (geOIDCClientID e); iss = trim_space (geOIDCIssuer e) in
      if cid = [] \<or> iss = [] then
        (case split_source_key (before_entry_mark key) of
           Some (i, c) \<Rightarrow> (if iss = [] then i else iss, if cid = [] then c else cid)
         | None \<Rightarrow> (iss, cid))
      else (iss, cid))"

definition expiry_text :: "grok_entry \<Rightarrow> string" where
  "expiry_text e = first_non_empty [geExpiresAt e, geExpired e]"

definition normalize_entry ::
  "url_parser \<Rightarrow> (string \<Rightarrow> string \<Rightarrow> gotime option) \<Rightarrow> string \<Rightarrow> grok_entry \<Rightarrow> import_error + imported" where
  "normalize_entry parse tp key e =
     (let access = first_non_empty [geKey e, geAccessToken e];
          refresh = trim_space (geRefreshToken e);
          expires = (if expiry_text e = [] then Some zero_time else parse_flexible_time tp (expiry_text e)) in
      if access = [] \<and> refresh = [] then Inl (ImpNoTokens key)
      else case expires of
        None \<Rightarrow> Inl (ImpTime key)
      | Some t \<Rightarrow>
          (case entry_scope key e of (iss, cid) \<Rightarrow>
             (case normalize_trusted_issuer parse (if iss = [] then issuer_url else iss) of
                None \<Rightarrow> Inl (ImpIssuer key)
              | Some trusted \<Rightarrow>
                  Inr \<lparr> imSourceKey = key, imAccessToken = access, imRefreshToken = refresh, imExpiresAt = t,
                    imEmail = trim_space (geEmail e),
                    imUserID = first_non_empty [geUserID e, gePrincipalID e, geSub e],
                    imTeamID = trim_space (geTeamID e), imOIDCIssuer = trusted,
                    imOIDCClientID = (if cid = [] then default_client_id else cid),
                    imAuthMode = trim_space (geAuthMode e), imDisabled = geDisabled e,
                    imProxyURL = first_non_empty [geProxyURL e, geProxy e], imWarnings = [], imRaw = e \<rparr>)))"

section \<open>The whole document\<close>

definition checked_entry ::
  "url_parser \<Rightarrow> (string \<Rightarrow> string \<Rightarrow> gotime option) \<Rightarrow> string \<Rightarrow> grok_entry \<times> import_warning list \<Rightarrow>
   import_error + imported" where
  "checked_entry parse tp source ew = (case validate_cpa_type source (fst ew) of
       Some err \<Rightarrow> Inl err
     | None \<Rightarrow>
         (case normalize_entry parse tp source (fst ew) of
            Inl err \<Rightarrow> Inl err
          | Inr c \<Rightarrow> Inr (c\<lparr> imWarnings := snd ew \<rparr>)))"

definition index_source :: "string \<Rightarrow> nat \<Rightarrow> string" where
  "index_source prefix k = prefix @ ''['' @ dec_digits k @ '']''"

fun raw_entries ::
  "url_parser \<Rightarrow> (string \<Rightarrow> string \<Rightarrow> gotime option) \<Rightarrow> string \<Rightarrow> nat \<Rightarrow> json list \<Rightarrow> import_error + imported list" where
  "raw_entries parse tp prefix k [] = Inr []"
| "raw_entries parse tp prefix k (v # vs) =
     (case decode_entry v (index_source prefix k) of
        Inl err \<Rightarrow> Inl (ImpEntry (index_source prefix k) err)
      | Inr ew \<Rightarrow>
          if \<not> entry_has_token (fst ew) then Inl (ImpNoTokens (index_source prefix k))
          else (case checked_entry parse tp (index_source prefix k) ew of
                  Inl err \<Rightarrow> Inl err
                | Inr c \<Rightarrow>
                    (case raw_entries parse tp prefix (Suc k) vs of
                       Inl err \<Rightarrow> Inl err
                     | Inr cs \<Rightarrow> Inr (c # cs))))"

definition normalize_raw_entries ::
  "url_parser \<Rightarrow> (string \<Rightarrow> string \<Rightarrow> gotime option) \<Rightarrow> json list \<Rightarrow> string \<Rightarrow> import_error + imported list" where
  "normalize_raw_entries parse tp vs prefix = (case raw_entries parse tp prefix 0 vs of
       Inl err \<Rightarrow> Inl err
     | Inr [] \<Rightarrow> Inl (ImpNoEntries [])
     | Inr cs \<Rightarrow> Inr cs)"

definition nested_name :: "string \<Rightarrow> bool" where
  "nested_name k \<longleftrightarrow> k = ''accounts'' \<or> k = ''credentials''"

text \<open>The name of a member, and of a further member of that name.\<close>

definition member_source :: "string list \<Rightarrow> string \<Rightarrow> string" where
  "member_source seen k =
     (let n = Suc (count_list seen k) in
      if n > 1 then k @ ''#entry'' @ dec_digits n else k)"

type_synonym import_out = "(import_error \<times> import_warning list) + (imported list \<times> import_warning list)"

definition nested_entries ::
  "url_parser \<Rightarrow> (string \<Rightarrow> string \<Rightarrow> gotime option) \<Rightarrow> string \<Rightarrow> string \<Rightarrow> json \<Rightarrow> import_error + imported list" where
  "nested_entries parse tp source k v = (case v of
       JArr xs \<Rightarrow> normalize_raw_entries parse tp xs source
     | JNull \<Rightarrow> normalize_raw_entries parse tp [] source
     | _ \<Rightarrow> Inl (ImpMustBeArray k))"

fun import_members ::
  "url_parser \<Rightarrow> (string \<Rightarrow> string \<Rightarrow> gotime option) \<Rightarrow> string list \<Rightarrow> (string \<times> json) list \<Rightarrow>
   imported list \<Rightarrow> import_warning list \<Rightarrow> import_out" where
  "import_members parse tp seen [] out ws =
     (if out = [] then Inl (ImpNoEntries (map iwField ws), ws) else Inr (out, ws))"
| "import_members parse tp seen ((k, v) # ms) out ws =
     (let source = member_source seen k;
          skip = import_members parse tp (k # seen) ms out (ws @ [unsupported_field_warning ''document'' k]) in
      if nested_name k then
        (case nested_entries parse tp source k v of
           Inl err \<Rightarrow> Inl (err, [])
         | Inr cs \<Rightarrow> import_members parse tp (k # seen) ms (out @ cs) ws)
      else case v of
        JObj _ \<Rightarrow>
          (case decode_entry v source of
             Inl err \<Rightarrow> Inl (ImpEntry k err, [])
           | Inr ew \<Rightarrow>
               if \<not> entry_has_token (fst ew) then skip
               else (case checked_entry parse tp source ew of
                       Inl err \<Rightarrow> Inl (err, [])
                     | Inr c \<Rightarrow> import_members parse tp (k # seen) ms (out @ [c]) ws))
      | _ \<Rightarrow> skip)"

definition parse_grok_auth_json_detailed ::
  "url_parser \<Rightarrow> (string \<Rightarrow> string \<Rightarrow> gotime option) \<Rightarrow> (string \<Rightarrow> json_doc) \<Rightarrow> string \<Rightarrow> import_out" where
  "parse_grok_auth_json_detailed parse tp docs data0 =
     (let data = trim_space data0 in
      if data = [] then Inl (ImpEmpty, [])
      else if hd data = CHR ''['' then
        (case docs data of
           Whole (JArr vs) True \<Rightarrow>
             (case normalize_raw_entries parse tp vs ''entry'' of Inl err \<Rightarrow> Inl (err, []) | Inr cs \<Rightarrow> Inr (cs, []))
         | _ \<Rightarrow> Inl (ImpSyntax, []))
      else if hd data = CHR ''{'' then
        (case docs data of
           Whole (JObj ms) True \<Rightarrow>
             (case decode_entry (JObj ms) ''default'' of
                Inl err \<Rightarrow> Inl (err, [])
              | Inr ew \<Rightarrow>
                  if entry_has_token (fst ew) then
                    (case checked_entry parse tp ''default'' ew of
                       Inl err \<Rightarrow> Inl (err, []) | Inr c \<Rightarrow> Inr ([c], []))
                  else import_members parse tp [] ms [] [])
         | _ \<Rightarrow> Inl (ImpSyntax, []))
      else Inl (ImpNotContainer, []))"

section \<open>The streaming count\<close>

text \<open>More than \<open>r\<close> elements, or a broken one after \<open>r\<close>.\<close>

definition exceeds :: "int \<Rightarrow> json list \<Rightarrow> gap \<Rightarrow> bool" where
  "exceeds r xs g \<longleftrightarrow> r \<ge> 0 \<and> (int (length xs) > r \<or> int (length xs) = r \<and> g \<noteq> Stops)"

definition top_limit :: "int \<Rightarrow> int" where
  "top_limit limit = (if limit > 0 then limit else -1)"

definition count_top_level_array :: "json_doc \<Rightarrow> int \<Rightarrow> import_error + int" where
  "count_top_level_array d limit = (case d of
       Whole (JArr xs) clean \<Rightarrow>
         if exceeds (top_limit limit) xs Stops then Inr (limit + 1)
         else if clean then Inr (int (length xs)) else Inl ImpSyntax
     | Cut (BrokenArr xs g) \<Rightarrow> if exceeds (top_limit limit) xs g then Inr (limit + 1) else Inl ImpSyntax
     | _ \<Rightarrow> Inl ImpSyntax)"

definition token_name :: "string \<Rightarrow> bool" where
  "token_name k \<longleftrightarrow> k = ''key'' \<or> k = ''access_token'' \<or> k = ''refresh_token''"

definition token_text :: "json \<Rightarrow> bool" where
  "token_text v = (case v of JStr s \<Rightarrow> trim_space s \<noteq> [] | _ \<Rightarrow> False)"

definition top_level_bare_has_token :: "json_doc \<Rightarrow> import_error + bool" where
  "top_level_bare_has_token d = (let bare = list_ex (\<lambda>(k, v). token_name k \<and> token_text v) in
     case d of
       Whole (JObj ms) clean \<Rightarrow> if bare ms then Inr True else if clean then Inr False else Inl ImpSyntax
     | Cut (BrokenObj ms _ _) \<Rightarrow> if bare ms then Inr True else Inl ImpSyntax
     | _ \<Rightarrow> Inl ImpSyntax)"

text \<open>\<open>json.Unmarshal\<close> into the three token fields, whose names it matches without regard to case; a
  member of another type spoils the result.\<close>

fun token_fields :: "(string \<times> json) list \<Rightarrow> (string \<Rightarrow> string) \<Rightarrow> (string \<Rightarrow> string) option" where
  "token_fields [] f = Some f"
| "token_fields ((k, v) # ms) f =
     (if token_name (to_lower k) then
        (case v of
           JStr s \<Rightarrow> token_fields ms (f(to_lower k := s))
         | JNull \<Rightarrow> token_fields ms f
         | _ \<Rightarrow> None)
      else token_fields ms f)"

definition raw_entry_has_token :: "json \<Rightarrow> bool" where
  "raw_entry_has_token v = (case v of
       JObj ms \<Rightarrow>
         (case token_fields ms (\<lambda>_. []) of
            None \<Rightarrow> False
          | Some f \<Rightarrow> trim_space (f ''key'') \<noteq> [] \<or> trim_space (f ''access_token'') \<noteq> [] \<or>
                      trim_space (f ''refresh_token'') \<noteq> [])
     | _ \<Rightarrow> False)"

text \<open>\<open>Inr None\<close>: the limit is exceeded; \<open>Inr (Some (members, count))\<close>: so far.\<close>

fun count_members :: "int \<Rightarrow> int \<Rightarrow> int \<Rightarrow> (string \<times> json) list \<Rightarrow> import_error + (int \<times> int) option" where
  "count_members limit members n [] = Inr (Some (members, n))"
| "count_members limit members n ((k, v) # ms) =
     (if limit > 0 \<and> members + 1 > limit + int max_import_warnings then Inr None
      else if nested_name k then
        (case v of
           JArr xs \<Rightarrow> if exceeds (limit - n) xs Stops then Inr None
                      else count_members limit (members + 1) (n + int (length xs)) ms
         | _ \<Rightarrow> Inl (ImpMustBeArray k))
      else if \<not> raw_entry_has_token v then count_members limit (members + 1) n ms
      else if limit > 0 \<and> n + 1 > limit then Inr None
      else count_members limit (members + 1) (n + 1) ms)"

text \<open>The member at which the text breaks off.\<close>

definition count_broken :: "int \<Rightarrow> int \<times> int \<Rightarrow> string option \<Rightarrow> gap \<Rightarrow> import_error + int" where
  "count_broken limit mn k g = (case g of
       Stops \<Rightarrow> Inl ImpSyntax
     | Breaks b \<Rightarrow>
         if limit > 0 \<and> fst mn + 1 > limit + int max_import_warnings then Inr (limit + 1)
         else (case (k, b) of
                 (Some nm, Some (BrokenArr xs g')) \<Rightarrow>
                   if nested_name nm \<and> exceeds (limit - snd mn) xs g' then Inr (limit + 1) else Inl ImpSyntax
               | _ \<Rightarrow> Inl ImpSyntax))"

definition count_credential_map :: "json_doc \<Rightarrow> int \<Rightarrow> import_error + int" where
  "count_credential_map d limit = (case d of
       Whole (JObj ms) clean \<Rightarrow>
         (case count_members limit 0 0 ms of
            Inl err \<Rightarrow> Inl err
          | Inr None \<Rightarrow> Inr (limit + 1)
          | Inr (Some mn) \<Rightarrow> if clean then Inr (snd mn) else Inl ImpSyntax)
     | Cut (BrokenObj ms k g) \<Rightarrow>
         (case count_members limit 0 0 ms of
            Inl err \<Rightarrow> Inl err
          | Inr None \<Rightarrow> Inr (limit + 1)
          | Inr (Some mn) \<Rightarrow> count_broken limit mn k g)
     | _ \<Rightarrow> Inl ImpSyntax)"

definition count_grok_auth_entries :: "(string \<Rightarrow> json_doc) \<Rightarrow> string \<Rightarrow> int \<Rightarrow> import_error + int" where
  "count_grok_auth_entries docs data0 limit =
     (let data = trim_space data0 in
      if data = [] then Inl ImpEmpty
      else if hd data = CHR ''['' then count_top_level_array (docs data) limit
      else if hd data \<noteq> CHR ''{'' then Inl ImpNotContainer
      else case top_level_bare_has_token (docs data) of
        Inl err \<Rightarrow> Inl err
      | Inr True \<Rightarrow> Inr 1
      | Inr False \<Rightarrow> count_credential_map (docs data) limit)"

definition parse_grok_auth_json_limit ::
  "url_parser \<Rightarrow> (string \<Rightarrow> string \<Rightarrow> gotime option) \<Rightarrow> (string \<Rightarrow> json_doc) \<Rightarrow> string \<Rightarrow> int \<Rightarrow> import_out" where
  "parse_grok_auth_json_limit parse tp docs data limit =
     (if limit > 0 then
        (case count_grok_auth_entries docs data limit of
           Inl err \<Rightarrow> Inl (err, [])
         | Inr n \<Rightarrow> if n > limit then Inl (ImpLimit limit, [])
                    else parse_grok_auth_json_detailed parse tp docs data)
      else parse_grok_auth_json_detailed parse tp docs data)"

end
