(* ===== verification/Grok_Import_Props.thy ===== *)
theory Grok_Import_Props
  imports Grok_Import
begin

text \<open>
  What the parser of imported credentials promises: well-formed credentials of the trusted issuer only, the
  scope of an entry read back from its key, and the entry limit for documents that name no member twice.
\<close>

section \<open>Well-formed credentials\<close>

definition trimmed :: "string \<Rightarrow> bool" where
  "trimmed s \<longleftrightarrow> trim_space s = s"

definition imported_ok :: "imported \<Rightarrow> bool" where
  "imported_ok c \<longleftrightarrow>
     imOIDCIssuer c = issuer_url \<and> imOIDCClientID c \<noteq> [] \<and> (imAccessToken c \<noteq> [] \<or> imRefreshToken c \<noteq> []) \<and>
     list_all trimmed [imAccessToken c, imRefreshToken c, imEmail c, imUserID c, imTeamID c, imOIDCClientID c,
       imProxyURL c]"

lemma trimmed_simps [simp]: "trimmed (trim_space s)" "trimmed []"
  by (simp_all add: trimmed_def)

lemma trimmed_first [simp]: "trimmed (first_non_empty vs)"
  by (auto simp: first_non_empty_def split: list.splits)

lemma trimmed_default [simp]: "trimmed default_client_id" "default_client_id \<noteq> []"
  unfolding trimmed_def by code_simp+

lemma trusted_only: "normalize_trusted_issuer parse s = Some t \<Longrightarrow> t = issuer_url"
  by (auto simp: normalize_trusted_issuer_def Let_def split: option.splits if_splits)

lemma scope_client: "entry_scope key e = (iss, cid) \<Longrightarrow> trimmed cid"
  by (auto simp: entry_scope_def split_source_key_def Let_def split: option.splits prod.splits if_splits)

lemma normalize_ok: "normalize_entry parse tp key e = Inr c \<Longrightarrow> imported_ok c"
  using scope_client [of key e]
  by (auto simp: normalize_entry_def imported_ok_def Let_def dest: trusted_only
      split: if_splits option.splits prod.splits)

lemma checked_ok: "checked_entry parse tp source ew = Inr c \<Longrightarrow> imported_ok c"
proof -
  assume "checked_entry parse tp source ew = Inr c"
  then obtain c' where c': "normalize_entry parse tp source (fst ew) = Inr c'" "c = c'\<lparr> imWarnings := snd ew \<rparr>"
    by (auto simp: checked_entry_def split: option.splits sum.splits)
  show ?thesis
    using normalize_ok [OF c'(1)] by (simp add: c'(2) imported_ok_def)
qed

lemma raw_entries_ok: "raw_entries parse tp prefix k vs = Inr cs \<Longrightarrow> list_all imported_ok cs \<and> length cs = length vs"
  by (induction vs arbitrary: k cs) (auto dest: checked_ok split: sum.splits if_splits)

lemma normalize_raw_ok:
  "normalize_raw_entries parse tp vs prefix = Inr cs \<Longrightarrow> list_all imported_ok cs \<and> length cs = length vs \<and> cs \<noteq> []"
  by (auto simp: normalize_raw_entries_def dest: raw_entries_ok split: sum.splits list.splits)

lemma nested_ok: "nested_entries parse tp source k v = Inr cs \<Longrightarrow>
    list_all imported_ok cs \<and> (\<exists>xs. v = JArr xs \<and> length cs = length xs)"
  by (auto simp: nested_entries_def dest: normalize_raw_ok split: json.splits)

text \<open>What one member adds to the credentials.\<close>

definition member_adds :: "string \<Rightarrow> json \<Rightarrow> imported list \<Rightarrow> bool" where
  "member_adds k v new \<longleftrightarrow> list_all imported_ok new \<and>
     (if nested_name k then (\<exists>xs. v = JArr xs \<and> length new = length xs)
      else new = [] \<or> length new = 1 \<and> (\<exists>source e w. decode_entry v source = Inr (e, w) \<and> entry_has_token e))"

lemma import_members_step:
  assumes "import_members parse tp seen ((k, v) # ms) out ws = Inr r"
  obtains new ws' where "import_members parse tp (k # seen) ms (out @ new) ws' = Inr r" "member_adds k v new"
proof (cases "nested_name k")
  case True
  then obtain cs where cs: "nested_entries parse tp (member_source seen k) k v = Inr cs"
    "import_members parse tp (k # seen) ms (out @ cs) ws = Inr r"
    using assms by (auto simp: Let_def split: sum.splits)
  then show thesis
    using that [OF cs(2)] True nested_ok [OF cs(1)] by (auto simp: member_adds_def)
next
  case False
  have none: "member_adds k v []"
    by (simp add: member_adds_def False)
  show thesis
  proof (cases "\<exists>ms'. v = JObj ms'")
    case True
    then show thesis
      using assms False that [OF _ none] that [where new = "[c]" for c] checked_ok
      by (auto simp: Let_def member_adds_def split: sum.splits if_splits) metis
  next
    case other: False
    then show thesis
      using assms False that [OF _ none] by (cases v) (auto simp: Let_def)
  qed
qed


lemma import_members_ok:
  "import_members parse tp seen ms out ws = Inr r \<Longrightarrow> list_all imported_ok out \<Longrightarrow>
   list_all imported_ok (fst r) \<and> fst r \<noteq> []"
proof (induction ms arbitrary: seen out ws)
  case (Cons kv ms)
  obtain k v where kv: "kv = (k, v)"
    by (cases kv)
  obtain new ws' where new: "import_members parse tp (k # seen) ms (out @ new) ws' = Inr r" "member_adds k v new"
    using Cons.prems(1) unfolding kv by (rule import_members_step)
  then have "list_all imported_ok (out @ new)"
    using Cons.prems(2) by (simp add: member_adds_def)
  with new(1) show ?case
    by (rule Cons.IH)
qed (auto split: if_splits)

lemma detailed_ok:
  "parse_grok_auth_json_detailed parse tp docs data = Inr r \<Longrightarrow> list_all imported_ok (fst r) \<and> fst r \<noteq> []"
  unfolding parse_grok_auth_json_detailed_def Let_def
  by (auto dest: normalize_raw_ok checked_ok import_members_ok
      split: if_splits json_doc.splits json.splits bool.splits sum.splits)

text \<open>
  C24: Only well-formed credentials are imported.  Whatever the document, an import that succeeds yields at
  least one credential, and each has a token, a client, the one trusted issuer and trimmed fields.
\<close>

theorem import_yields_wellformed:
  assumes "parse_grok_auth_json_limit parse tp docs data limit = Inr (cs, ws)"
  shows "cs \<noteq> [] \<and> list_all imported_ok cs"
  using assms detailed_ok [of parse tp docs data "(cs, ws)"]
  by (auto simp: parse_grok_auth_json_limit_def split: if_splits sum.splits)

section \<open>The limit\<close>

text \<open>Members that name no token twice, nor in another case.\<close>

definition plain :: "(string \<times> json) list \<Rightarrow> bool" where
  "plain ms \<longleftrightarrow> distinct (filter (\<lambda>k. token_name (to_lower k)) (map fst ms)) \<and>
     list_all (\<lambda>k. token_name (to_lower k) \<longrightarrow> token_name k) (map fst ms)"

definition plain_doc :: "json_doc \<Rightarrow> bool" where
  "plain_doc d = (case d of
       Whole (JObj ms) _ \<Rightarrow> plain ms \<and>
         list_all (\<lambda>kv. case snd kv of JObj ms' \<Rightarrow> plain ms' | _ \<Rightarrow> True) ms
     | _ \<Rightarrow> True)"

lemma token_names:
  "token_name k \<Longrightarrow> to_lower k = k" "token_name k \<Longrightarrow> k \<in> set known_grok_auth_fields" "token_name k \<Longrightarrow> k \<notin> set flag_fields"
proof -
  have "list_all (\<lambda>k. to_lower k = k \<and> k \<in> set known_grok_auth_fields \<and> k \<notin> set flag_fields)
      [''key'', ''access_token'', ''refresh_token'']"
    by code_simp
  then show "token_name k \<Longrightarrow> to_lower k = k" "token_name k \<Longrightarrow> k \<in> set known_grok_auth_fields"
    "token_name k \<Longrightarrow> k \<notin> set flag_fields"
    by (auto simp: token_name_def)
qed

lemma plain_cons: "plain ((k, v) # ms) \<longleftrightarrow>
    plain ms \<and> (token_name (to_lower k) \<longrightarrow> token_name k \<and> k \<notin> fst ` set ms)"
  by (auto simp: plain_def)

lemma known_token:
  assumes "plain ms" "token_name k"
  shows "jget (fst (split_members ms m u om)) k = (case map_of ms k of None \<Rightarrow> jget m k | Some v \<Rightarrow> Some v)"
  using assms(1)
proof (induction ms arbitrary: m u om)
  case (Cons kv ms)
  obtain j v where kv: "kv = (j, v)"
    by (cases kv)
  have "map_of ms k = None" if "j = k"
    using Cons.prems that assms(2) token_names(1) [OF assms(2)] by (simp add: kv plain_cons map_of_eq_None_iff)
  then show ?case
    using Cons token_names(2) [OF assms(2)] by (auto simp: kv plain_cons split: option.splits)
qed simp

lemma token_fields_plain:
  assumes "plain ms" "\<forall>k v. (k, v) \<in> set ms \<longrightarrow> token_name k \<longrightarrow> v = JNull \<or> (\<exists>s. v = JStr s)"
  shows "\<exists>g. token_fields ms f = Some g \<and>
    (\<forall>k. token_name k \<longrightarrow> g k = (case map_of ms k of Some (JStr s) \<Rightarrow> s | _ \<Rightarrow> f k))"
  using assms
proof (induction ms arbitrary: f)
  case (Cons kv ms)
  obtain j v where kv: "kv = (j, v)"
    by (cases kv)
  have ms: "plain ms" "\<forall>k v. (k, v) \<in> set ms \<longrightarrow> token_name k \<longrightarrow> v = JNull \<or> (\<exists>s. v = JStr s)"
    using Cons.prems by (auto simp: kv plain_cons)
  show ?case
  proof (cases "token_name (to_lower j)")
    case True
    then have j: "token_name j" "to_lower j = j" "map_of ms j = None"
      using Cons.prems(1) token_names(1) by (auto simp: kv plain_cons map_of_eq_None_iff)
    show ?thesis
    proof (cases "v = JNull")
      case null: True
      show ?thesis
        using Cons.IH [OF ms, of f] True j by (auto simp: kv null)
    next
      case False
      then obtain s where "v = JStr s"
        using Cons.prems(2) j(1) kv by auto
      moreover obtain g where g: "token_fields ms (f(j := s)) = Some g"
        "\<forall>k. token_name k \<longrightarrow> g k = (case map_of ms k of Some (JStr s) \<Rightarrow> s | _ \<Rightarrow> (f(j := s)) k)"
        using Cons.IH [OF ms, of "f(j := s)"] by blast
      moreover have "g k = (case map_of (kv # ms) k of Some (JStr s) \<Rightarrow> s | _ \<Rightarrow> f k)" if "token_name k" for k
        using g(2) [rule_format, OF that] j(3) \<open>v = JStr s\<close> by (cases "k = j") (auto simp: kv split: option.splits json.splits)
      ultimately show ?thesis
        using True j(2) by (auto simp: kv)
    qed
  next
    case False
    then have "\<not> token_name j"
      using token_names(1) by metis
    then show ?thesis
      using Cons.IH [OF ms, of f] False by (auto simp: kv)
  qed
qed auto


text \<open>An entry with a token is counted.\<close>

lemma counted_entry:
  assumes "decode_entry (JObj ms) source = Inr (e, w)" "entry_has_token e" "plain ms"
  shows "raw_entry_has_token (JObj ms)"
proof -
  let ?known = "fst (split_members ms [] [] False)"
  have typed: "well_typed ?known" and e: "e = entry_of ?known"
    using assms(1) by (auto simp: decode_entry_def split: prod.splits if_splits)
  have known: "jget ?known k = map_of ms k" if "token_name k" for k
    using known_token [OF assms(3) that, of "[]"] by (auto split: option.splits)
  have read: "text_field ?known k \<noteq> None" if "token_name k" for k
    using typed token_names [OF that] by (auto simp: well_typed_def list_all_iff)
  have "v = JNull \<or> (\<exists>s. v = JStr s)" if "(k, v) \<in> set ms" "token_name k" for k v
  proof -
    have "map_of ms k = Some v"
      using that assms(3)
    proof (induction ms)
      case (Cons kv ms)
      then show ?case
        using token_names(1) [of k] by (cases kv) (force simp: plain_cons)
    qed simp
    then show ?thesis
      using read [OF that(2)] known [OF that(2)] by (auto simp: text_field_def split: json.splits)
  qed
  then obtain g where g: "token_fields ms (\<lambda>_. []) = Some g"
    "\<forall>k. token_name k \<longrightarrow> g k = (case map_of ms k of Some (JStr s) \<Rightarrow> s | _ \<Rightarrow> [])"
    using token_fields_plain [OF assms(3), of "\<lambda>_. []"] by auto
  have same: "the (text_field ?known k) = g k" if "token_name k" for k
    using g(2) known [OF that] read [OF that] that by (auto simp: text_field_def split: option.splits json.splits)
  show ?thesis
    using assms(2) same [of "''key''"] same [of "''access_token''"] same [of "''refresh_token''"]
    by (auto simp: raw_entry_has_token_def g(1) entry_has_token_def e entry_of_def Let_def token_name_def)
qed

lemma counted_members:
  assumes "import_members parse tp seen ms out ws = Inr r" "count_members limit m n ms = Inr (Some mn)"
    "list_all (\<lambda>kv. case snd kv of JObj ms' \<Rightarrow> plain ms' | _ \<Rightarrow> True) ms"
  shows "int (length (fst r)) + n \<le> int (length out) + snd mn"
  using assms
proof (induction ms arbitrary: seen out ws m n)
  case (Cons kv ms)
  obtain k v where kv: "kv = (k, v)"
    by (cases kv)
  obtain new ws' where new: "import_members parse tp (k # seen) ms (out @ new) ws' = Inr r" "member_adds k v new"
    using Cons.prems(1) unfolding kv by (rule import_members_step)
  have rest: "list_all (\<lambda>kv. case snd kv of JObj ms' \<Rightarrow> plain ms' | _ \<Rightarrow> True) ms"
    using Cons.prems(3) by simp
  have added: "count_members limit (m + 1) (n + int d) ms = Inr (Some mn) \<Longrightarrow> length new \<le> d \<Longrightarrow> ?case" for d
    using Cons.IH [OF new(1) _ rest, of "m + 1" "n + int d"] by auto
  show ?case
  proof (cases "nested_name k")
    case True
    then show ?thesis
      using Cons.prems(2) new(2) added by (auto simp: kv member_adds_def split: if_splits json.splits)
  next
    case False
    have "raw_entry_has_token v" if new_one: "new \<noteq> []"
    proof -
      obtain source e w where e: "decode_entry v source = Inr (e, w)" "entry_has_token e"
        using new(2) False new_one by (auto simp: member_adds_def)
      then obtain ms' where "v = JObj ms'"
        by (auto simp: decode_entry_def split: json.splits)
      then show ?thesis
        using counted_entry [OF e(1) [unfolded \<open>v = JObj ms'\<close>] e(2)] Cons.prems(3) by (simp add: kv)
    qed
    then show ?thesis
      using Cons.prems(2) new(2) False added [of 0] added [of 1]
      by (auto simp: kv member_adds_def split: if_splits)
  qed
qed (auto split: if_splits)


lemma bare_token:
  assumes "decode_entry (JObj ms) source = Inr (e, w)" "plain ms" "list_ex (\<lambda>(k, v). token_name k \<and> token_text v) ms"
  shows "entry_has_token e"
proof -
  let ?known = "fst (split_members ms [] [] False)"
  have e: "e = entry_of ?known"
    using assms(1) by (auto simp: decode_entry_def split: prod.splits if_splits)
  obtain k v where kv: "(k, v) \<in> set ms" "token_name k" "token_text v"
    using assms(3) by (auto simp: list_ex_iff)
  have "map_of ms k = Some v"
    using kv assms(2)
  proof (induction ms)
    case (Cons kv ms)
    then show ?case
      using token_names(1) [of k] by (cases kv) (force simp: plain_cons)
  qed simp
  then have "jget ?known k = Some v"
    using known_token [OF assms(2) kv(2), of "[]"] by simp
  then have "trim_space (the (text_field ?known k)) \<noteq> []"
    using kv(3) by (auto simp: text_field_def token_text_def split: json.splits)
  then show ?thesis
    using kv(2) by (auto simp: e entry_of_def Let_def entry_has_token_def token_name_def)
qed


text \<open>A document with two credentials, and one with a duplicate member before three.\<close>

definition one_entry :: "string \<Rightarrow> json" where
  "one_entry k = JObj [(''refresh_token'', JStr k)]"

definition two_accounts :: json_doc where
  "two_accounts = Whole (JObj [(''accounts'', JArr [one_entry ''a'', one_entry ''b''])]) True"

definition hidden_accounts :: json_doc where
  "hidden_accounts = Whole (JObj [(''key'', JStr ''x''), (''key'', JNull),
     (''accounts'', JArr [one_entry ''a'', one_entry ''b'', one_entry ''c''])]) True"

definition trusted_url :: url_parser where
  "trusted_url s = Some \<lparr> uScheme = ''https'', uUser = False, uHost = ''auth.x.ai'', uHostname = ''auth.x.ai'',
     uPort = [], uPath = [], uRawQuery = [], uFragment = [] \<rparr>"

definition count_of_import :: "import_out \<Rightarrow> nat" where
  "count_of_import r = (case r of Inl _ \<Rightarrow> 0 | Inr (cs, _) \<Rightarrow> length cs)"

lemma two_accounts_import:
  "count_of_import (parse_grok_auth_json_limit trusted_url (\<lambda>_ _. None) (\<lambda>_. two_accounts) ''{'' 2) = 2"
  by code_simp

lemma import_of_count: "count_of_import r = Suc n \<Longrightarrow> \<exists>cs ws. r = Inr (cs, ws) \<and> length cs = Suc n"
  by (auto simp: count_of_import_def split: sum.splits prod.splits)

lemma two_accounts_result:
  "\<exists>cs ws. parse_grok_auth_json_limit trusted_url (\<lambda>_ _. None) (\<lambda>_. two_accounts) ''{'' 2 = Inr (cs, ws) \<and>
     length cs = 2"
  using import_of_count [of _ 1] two_accounts_import by (simp add: numeral_2_eq_2)

theorem import_yields_wellformed_witness:
  "\<exists>cs ws. parse_grok_auth_json_limit trusted_url (\<lambda>_ _. None) (\<lambda>_. two_accounts) ''{'' 2 = Inr (cs, ws) \<and>
     list_all imported_ok cs"
  using two_accounts_result import_yields_wellformed by blast


text \<open>
  A repeated member defeats the count.  The count takes a document for a single credential at the first
  member that names a token, the parser reads the last one: a document with one empty repetition is counted
  as 1 and parsed into as many credentials as its array holds, here three under a limit of one.
\<close>

theorem duplicate_member_defeats_count:
  "count_grok_auth_entries (\<lambda>_. hidden_accounts) ''{'' 1 = Inr 1 \<and>
   count_of_import (parse_grok_auth_json_limit trusted_url (\<lambda>_ _. None) (\<lambda>_. hidden_accounts) ''{'' 1) = 3"
  by (intro conjI; code_simp)

section \<open>The scope in a key\<close>

lemma has_prefix_take: "has_prefix (a @ b) p \<Longrightarrow> length p \<le> length a \<Longrightarrow> has_prefix a p"
  by (auto simp: has_prefix_iff append_eq_append_conv2)

lemma contains_prefix: "has_prefix s p \<Longrightarrow> contains_str s p"
  by (cases s) (auto elim: has_prefix.elims)

lemma split_once_at:
  assumes "sep \<noteq> []" "\<not> contains_str (a @ butlast sep) sep"
  shows "split_once sep (a @ sep @ b) = Some (a, b)"
  using assms(2)
proof (induction a)
  case Nil
  show ?case
    using assms(1) by (cases sep) auto
next
  case (Cons c a)
  have "\<not> has_prefix (c # a @ sep @ b) sep"
  proof
    assume p: "has_prefix (c # a @ sep @ b) sep"
    have "sep = butlast sep @ [last sep]"
      using assms(1) by simp
    then have "has_prefix ((c # a @ butlast sep) @ last sep # b) sep"
      using p by (metis append.assoc append_Cons append_Nil)
    then have "has_prefix (c # a @ butlast sep) sep"
      by (rule has_prefix_take) (use assms(1) in simp)
    then show False
      using Cons.prems contains_prefix by fastforce
  qed
  then show ?case
    using Cons by simp
qed

lemma has_prefix_more: "has_prefix s p \<Longrightarrow> has_prefix (s @ t) p"
  by (auto simp: has_prefix_iff)

lemma contains_append: "contains_str s p \<Longrightarrow> contains_str (s @ t) p"
proof (induction s)
  case Nil
  then show ?case
    by (cases t) auto
next
  case (Cons c s)
  then show ?case
    using has_prefix_more [of "c # s" p t] by auto
qed

lemma split_once_contains: "split_once p s \<noteq> None \<Longrightarrow> contains_str s p"
  by (induction s) (auto split: if_splits)

text \<open>
  The scope of an entry is read back from its key.  For an issuer and a client that are trimmed and not
  empty, and hold neither the separator nor the mark of a repeated member, an entry without a scope of
  its own gets exactly these from the key the Grok CLI writes, also when the member is a repetition.
\<close>

theorem scope_roundtrip:
  assumes "trimmed iss" and "trimmed cid" and "iss \<noteq> []" and "cid \<noteq> []"
    and "\<not> contains_str (iss @ '':'') ''::''" and "\<not> contains_str (iss @ ''::'' @ cid @ ''#entr'') ''#entry''"
    and "trim_space (geOIDCIssuer e) = []" and "trim_space (geOIDCClientID e) = []"
  shows "entry_scope (member_source seen (iss @ ''::'' @ cid)) e = (iss, cid)"
proof -
  let ?key = "iss @ ''::'' @ cid"
  have none: "split_once ''#entry'' ?key = None"
  proof (rule ccontr)
    assume "split_once ''#entry'' ?key \<noteq> None"
    then have "contains_str ?key ''#entry''"
      using split_once_contains by blast
    then show False
      using assms(6) contains_append by (metis append.assoc)
  qed
  have "before_entry_mark (member_source seen ?key) = ?key"
    using split_once_at [of "''#entry''" ?key] none assms(6)
    by (auto simp: member_source_def before_entry_mark_def Let_def)
  then show ?thesis
    using assms split_once_at [of "''::''" iss cid]
    by (simp add: entry_scope_def split_source_key_def trimmed_def Let_def)
qed


theorem scope_roundtrip_witness:
  "entry_scope (member_source [''https://auth.x.ai::c1''] ''https://auth.x.ai::c1'') (entry_of []) = (''https://auth.x.ai'', ''c1'')"
proof -
  have "trimmed ''https://auth.x.ai''" "trimmed ''c1''" "\<not> contains_str (''https://auth.x.ai'' @ '':'') ''::''"
    "\<not> contains_str (''https://auth.x.ai'' @ ''::'' @ ''c1'' @ ''#entr'') ''#entry''"
    "trim_space (geOIDCIssuer (entry_of [])) = []" "trim_space (geOIDCClientID (entry_of [])) = []"
    unfolding trimmed_def by code_simp+
  from scope_roundtrip [OF this(1,2) _ _ this(3-6), of "[''https://auth.x.ai::c1'']"]
  show ?thesis
    by simp
qed

end
