(* ===== verification/Import_Parse.thy ===== *)
theory Import_Parse
  imports Grok_Import
begin

text \<open>
  The files of an import batch (\<open>internal/importer/manager.go\<close>): what format each has, the values of an SSO
  document, the entry count of a batch before any of it is parsed, and the items and results one file gives.
  The converter of SSO values is an argument over a world; \<open>etext\<close> is the text of a parse error.
\<close>

section \<open>Data\<close>

record input_file =
  ifName :: string
  ifFormat :: string
  ifData :: string

record limits =
  liMaxFiles :: int
  liMaxFileBytes :: int
  liMaxTotalBytes :: int
  liMaxEntries :: int
  liMaxQueuedJobs :: int
  liMaxQueuedBytes :: int
  liMaxRetainedJobs :: int
  liMaxRetainedBytes :: int
  liJobTTL :: duration
  liConcurrency :: int
  liJobTimeout :: duration

record converted =
  cvName :: string
  cvEmail :: string
  cvUserID :: string
  cvTeamID :: string
  cvOIDCIssuer :: string
  cvOIDCClientID :: string
  cvAccessToken :: string
  cvRefreshToken :: string
  cvExpiresAt :: gotime
  cvError :: string

record item_result =
  itSource :: string
  itFormat :: string
  itStatus :: string
  itCredentialID :: string
  itWarnings :: "import_warning list"
  itError :: string

record file_item =
  fiResult :: nat
  fiInput :: cred_input

definition failed_item :: "string \<Rightarrow> string \<Rightarrow> string \<Rightarrow> item_result" where
  "failed_item source format err = \<lparr> itSource = source, itFormat = format, itStatus = ''failed'',
     itCredentialID = [], itWarnings = [], itError = err \<rparr>"

definition queued_item :: "string \<Rightarrow> string \<Rightarrow> import_warning list \<Rightarrow> item_result" where
  "queued_item source format ws = \<lparr> itSource = source, itFormat = format, itStatus = ''queued'',
     itCredentialID = [], itWarnings = ws, itError = [] \<rparr>"

definition file_reference :: "nat \<Rightarrow> string" where
  "file_reference k = ''file-'' @ dec_digits (k + 1)"

definition entry_reference :: "nat \<Rightarrow> nat \<Rightarrow> string" where
  "entry_reference f k = file_reference f @ ''/entry-'' @ dec_digits (k + 1)"

definition limit_text :: "int \<Rightarrow> string" where
  "limit_text n = ''entry limit exceeded (max '' @ dec_int n @ '')''"

definition copy_warnings_for_source :: "import_warning list \<Rightarrow> string \<Rightarrow> import_warning list" where
  "copy_warnings_for_source ws source = map (\<lambda>w. w\<lparr> iwSource := source \<rparr>) ws"

section \<open>SSO documents\<close>

datatype sso_error = SsoEmpty | SsoLimit | SsoInvalid | SsoNoneInJson | SsoNone | SsoRead

definition sso_error_text :: "sso_error \<Rightarrow> string" where
  "sso_error_text e = (case e of
       SsoEmpty \<Rightarrow> ''SSO document is empty''
     | SsoLimit \<Rightarrow> ''SSO entry limit exceeded''
     | SsoInvalid \<Rightarrow> ''invalid JSON SSO document''
     | SsoNoneInJson \<Rightarrow> ''no explicit SSO values found in JSON document''
     | SsoNone \<Rightarrow> ''no SSO values found''
     | SsoRead \<Rightarrow> ''read SSO document: bufio.Scanner: token too long'')"

definition is_sso_field :: "string \<Rightarrow> bool" where
  "is_sso_field k \<longleftrightarrow> k \<in> set [''sso'', ''sso_token'', ''cookie'', ''token'', ''cookies'']"

text \<open>\<open>strings.Count\<close> and \<open>strings.LastIndex\<close> of four dashes.\<close>

fun count_dashes :: "string \<Rightarrow> nat" where
  "count_dashes [] = 0"
| "count_dashes (c # cs) =
     (if has_prefix (c # cs) ''----'' then Suc (count_dashes (drop 3 cs)) else count_dashes cs)"

fun after_last_dashes :: "string \<Rightarrow> string option" where
  "after_last_dashes [] = None"
| "after_last_dashes (c # cs) = (case after_last_dashes cs of
       Some r \<Rightarrow> Some r
     | None \<Rightarrow> if has_prefix (c # cs) ''----'' then Some (drop 3 cs) else None)"

definition normalize_sso_value :: "string \<Rightarrow> string" where
  "normalize_sso_value s =
     (let v = trim_space s in
      if count_dashes v \<ge> 2 then
        (case after_last_dashes v of
           Some r \<Rightarrow> if trim_space r \<noteq> [] then trim_space r else v
         | None \<Rightarrow> v)
      else v)"

definition at_limit :: "int \<Rightarrow> string list \<Rightarrow> bool" where
  "at_limit limit out \<longleftrightarrow> limit > 0 \<and> int (length out) \<ge> limit"

text \<open>\<open>None\<close>: one value too many.\<close>

fun collect_sso :: "int \<Rightarrow> json \<Rightarrow> string list \<Rightarrow> string list option"
and collect_elements :: "int \<Rightarrow> json list \<Rightarrow> string list \<Rightarrow> string list option"
and collect_members :: "int \<Rightarrow> (string \<times> json) list \<Rightarrow> string list \<Rightarrow> string list option" where
  "collect_sso limit (JStr s) out =
     (if trim_space s = [] then Some out
      else if at_limit limit out then None else Some (out @ [normalize_sso_value s]))"
| "collect_sso limit (JArr xs) out = collect_elements limit xs out"
| "collect_sso limit (JObj ms) out = collect_members limit ms out"
| "collect_sso limit v out = Some out"
| "collect_elements limit [] out = Some out"
| "collect_elements limit (v # vs) out = (case collect_sso limit v out of
       None \<Rightarrow> None | Some out' \<Rightarrow> collect_elements limit vs out')"
| "collect_members limit [] out = Some out"
| "collect_members limit ((k, v) # ms) out =
     (if is_sso_field k then
        (case collect_sso limit v out of None \<Rightarrow> None | Some out' \<Rightarrow> collect_members limit ms out')
      else collect_members limit ms out)"

text \<open>Whether the limit is passed before the text breaks off.\<close>

fun broken_hits :: "int \<Rightarrow> broken \<Rightarrow> string list \<Rightarrow> bool"
and gap_hits :: "int \<Rightarrow> gap \<Rightarrow> string list \<Rightarrow> bool" where
  "broken_hits limit (BrokenArr xs g) out = (case collect_elements limit xs out of
       None \<Rightarrow> True | Some out' \<Rightarrow> gap_hits limit g out')"
| "broken_hits limit (BrokenObj ms k g) out = (case collect_members limit ms out of
       None \<Rightarrow> True
     | Some out' \<Rightarrow> (case k of None \<Rightarrow> False | Some nm \<Rightarrow> is_sso_field nm \<and> gap_hits limit g out'))"
| "gap_hits limit Stops out = False"
| "gap_hits limit (Breaks None) out = False"
| "gap_hits limit (Breaks (Some b)) out = broken_hits limit b out"

definition sso_json_values :: "json_doc \<Rightarrow> int \<Rightarrow> sso_error + string list" where
  "sso_json_values d limit = (case d of
       Whole v clean \<Rightarrow>
         (case collect_sso limit v [] of
            None \<Rightarrow> Inl SsoLimit
          | Some out \<Rightarrow> if \<not> clean then Inl SsoInvalid else if out = [] then Inl SsoNoneInJson else Inr out)
     | Cut b \<Rightarrow> if broken_hits limit b [] then Inl SsoLimit else Inl SsoInvalid
     | Unreadable \<Rightarrow> Inl SsoInvalid)"

fun split_lines :: "string \<Rightarrow> string list" where
  "split_lines [] = [[]]"
| "split_lines (c # cs) =
     (if c = CHR 0x0A then [] # split_lines cs
      else case split_lines cs of [] \<Rightarrow> [[c]] | l # ls \<Rightarrow> (c # l) # ls)"

fun sso_lines :: "int \<Rightarrow> string list \<Rightarrow> string list \<Rightarrow> sso_error + string list" where
  "sso_lines limit [] out = (if out = [] then Inl SsoNone else Inr out)"
| "sso_lines limit (l # ls) out =
     (let s = trim_space l in
      if s = [] \<or> has_prefix s ''#'' then sso_lines limit ls out
      else if at_limit limit out then Inl SsoLimit
      else sso_lines limit ls (out @ [normalize_sso_value s]))"

text \<open>The scanner's buffer holds \<open>max(len, 64 KiB)\<close> bytes and must not be full before a line ends.\<close>

definition scanner_overflows :: "string \<Rightarrow> bool" where
  "scanner_overflows s \<longleftrightarrow> int (length s) \<ge> 64 * 1024 \<and> CHR 0x0A \<notin> set s"

definition parse_sso_values :: "(string \<Rightarrow> json_doc) \<Rightarrow> string \<Rightarrow> int \<Rightarrow> sso_error + string list" where
  "parse_sso_values docs data limit =
     (let s = trim_space data in
      if s = [] then Inl SsoEmpty
      else if hd s = CHR ''['' \<or> hd s = CHR ''{'' then sso_json_values (docs s) limit
      else if scanner_overflows s then Inl SsoRead
      else sso_lines limit (split_lines s) [])"

section \<open>Formats and the count before parsing\<close>

text \<open>\<open>filepath.Ext\<close>\<close>

definition path_ext :: "string \<Rightarrow> string" where
  "path_ext s = (let r = rev s; e = takeWhile (\<lambda>c. c \<noteq> CHR ''.'' \<and> c \<noteq> CHR ''/'') r in
     case drop (length e) r of
       [] \<Rightarrow> []
     | c # _ \<Rightarrow> if c = CHR ''.'' then CHR ''.'' # rev e else [])"

definition looks_json :: "input_file \<Rightarrow> bool" where
  "looks_json f \<longleftrightarrow> (let s = trim_space (ifData f) in
     has_prefix s ''{'' \<or> has_prefix s ''['' \<or> equal_fold (path_ext (ifName f)) ''.json'')"

definition resolve_format :: "input_file \<Rightarrow> string" where
  "resolve_format f = (if ifFormat f = ''auto'' then (if looks_json f then ''json'' else ''sso'') else ifFormat f)"

record import_parsers =
  ipURL :: url_parser
  ipTime :: "string \<Rightarrow> string \<Rightarrow> gotime option"
  ipDocs :: "string \<Rightarrow> json_doc"
  ipText :: "import_error \<Rightarrow> string"
  ipHash :: "string \<Rightarrow> string"

definition parse_json_file :: "import_parsers \<Rightarrow> input_file \<Rightarrow> int \<Rightarrow> import_out" where
  "parse_json_file ip f limit = parse_grok_auth_json_limit (ipURL ip) (ipTime ip) (ipDocs ip) (ifData f) limit"

definition estimate_sso :: "import_parsers \<Rightarrow> input_file \<Rightarrow> int \<Rightarrow> int option" where
  "estimate_sso ip f limit = (case parse_sso_values (ipDocs ip) (ifData f) limit of
       Inr vs \<Rightarrow> Some (int (length vs))
     | Inl e \<Rightarrow> if e = SsoLimit then Some (limit + 1) else None)"

definition estimate_entry_count :: "import_parsers \<Rightarrow> input_file \<Rightarrow> int \<Rightarrow> int option" where
  "estimate_entry_count ip f limit =
     (if resolve_format f = ''json'' then
        (case parse_json_file ip f limit of
           Inr (cs, _) \<Rightarrow> Some (int (length cs))
         | Inl (ImpLimit _, _) \<Rightarrow> Some (limit + 1)
         | Inl _ \<Rightarrow> if ifFormat f \<noteq> ''auto'' then None else estimate_sso ip f limit)
      else if resolve_format f = ''sso'' then estimate_sso ip f limit
      else None)"

text \<open>The file that passes the limit, and the count so far.\<close>

fun preflight :: "import_parsers \<Rightarrow> int \<Rightarrow> nat \<Rightarrow> int \<Rightarrow> input_file list \<Rightarrow> nat option \<times> int" where
  "preflight ip limit k n0 [] = (None, n0)"
| "preflight ip limit k n0 (f # fs) =
     (let remaining = (if limit - n0 < 1 then 1 else limit - n0) in
      case estimate_entry_count ip f remaining of
        None \<Rightarrow> preflight ip limit (Suc k) n0 fs
      | Some n \<Rightarrow>
          if n0 + n > limit then (Some k, n0 + n) else preflight ip limit (Suc k) (n0 + n) fs)"

definition preflight_entries :: "import_parsers \<Rightarrow> int \<Rightarrow> input_file list \<Rightarrow> nat option \<times> int" where
  "preflight_entries ip limit fs = preflight ip limit 0 0 fs"

section \<open>One file\<close>

definition input_of_imported :: "string \<Rightarrow> string \<Rightarrow> imported \<Rightarrow> cred_input" where
  "input_of_imported fname source c = \<lparr> iName = first_non_empty [imEmail c, fname], iEmail = imEmail c,
     iUserID = imUserID c, iTeamID = imTeamID c, iIdentityKey = [], iSourceKey = source,
     iOIDCIssuer = imOIDCIssuer c, iOIDCClientID = imOIDCClientID c, iAccessToken = imAccessToken c,
     iRefreshToken = imRefreshToken c, iExpiresAt = imExpiresAt c, iEnabled = Some (\<not> imDisabled c),
     iPriority = None, iProxyMode = (if trim_space (imProxyURL c) \<noteq> [] then ''url'' else []),
     iProxyURL = imProxyURL c \<rparr>"

definition input_of_converted :: "string \<Rightarrow> converted \<Rightarrow> cred_input" where
  "input_of_converted source c = \<lparr> iName = first_non_empty [cvName c, cvEmail c, source], iEmail = cvEmail c,
     iUserID = cvUserID c, iTeamID = cvTeamID c, iIdentityKey = [], iSourceKey = source,
     iOIDCIssuer = cvOIDCIssuer c, iOIDCClientID = cvOIDCClientID c, iAccessToken = cvAccessToken c,
     iRefreshToken = cvRefreshToken c, iExpiresAt = cvExpiresAt c, iEnabled = None, iPriority = None,
     iProxyMode = [], iProxyURL = [] \<rparr>"

record file_out =
  foItems :: "file_item list"
  foResults :: "item_result list"
  foWarnings :: "import_warning list"
  foCount :: int

definition json_items :: "string \<Rightarrow> nat \<Rightarrow> imported list \<Rightarrow> import_warning list \<Rightarrow> file_out" where
  "json_items fname k cs ws = \<lparr>
     foItems = map (\<lambda>(i, c). \<lparr> fiResult = i, fiInput = input_of_imported fname (entry_reference k i) c \<rparr>)
       (enumerate 0 cs),
     foResults = map (\<lambda>(i, c). queued_item (entry_reference k i) ''json''
       (copy_warnings_for_source (imWarnings c) (entry_reference k i))) (enumerate 0 cs),
     foWarnings = copy_warnings_for_source ws (file_reference k), foCount = int (length cs) \<rparr>"

definition no_items :: "item_result list \<Rightarrow> import_warning list \<Rightarrow> int \<Rightarrow> file_out" where
  "no_items rs ws n = \<lparr> foItems = [], foResults = rs, foWarnings = ws, foCount = n \<rparr>"

definition failed_sso_results :: "nat \<Rightarrow> nat \<Rightarrow> string \<Rightarrow> item_result list" where
  "failed_sso_results k n msg = map (\<lambda>i. failed_item (entry_reference k i) ''sso'' msg) [0..<n]"

definition sso_result :: "nat \<Rightarrow> nat \<times> converted \<Rightarrow> item_result" where
  "sso_result k ic = (case ic of (i, c) \<Rightarrow>
     if trim_space (cvError c) \<noteq> [] then failed_item (entry_reference k i) ''sso'' (trim_space (cvError c))
     else queued_item (entry_reference k i) ''sso'' [])"

definition sso_items :: "nat \<Rightarrow> converted list \<Rightarrow> file_out" where
  "sso_items k cs = \<lparr>
     foItems = map (\<lambda>(i, c). \<lparr> fiResult = i, fiInput = input_of_converted (entry_reference k i) c \<rparr>)
       (filter (\<lambda>(i, c). trim_space (cvError c) = []) (enumerate 0 cs)),
     foResults = map (sso_result k) (enumerate 0 cs),
     foWarnings = [], foCount = int (length cs) \<rparr>"

type_synonym 'w converter = "'w \<Rightarrow> string list \<Rightarrow> 'w \<times> (goerr + converted list)"

definition convert_values :: "'w converter option \<Rightarrow> nat \<Rightarrow> string list \<Rightarrow> 'w \<Rightarrow> 'w \<times> file_out" where
  "convert_values conv k vs w =
     (let n = length vs; failed = (\<lambda>msg. no_items (failed_sso_results k n msg) [] (int n)) in
      case conv of
        None \<Rightarrow> (w, failed ''SSO converter is not configured'')
      | Some f \<Rightarrow>
          (case f w vs of (w', r) \<Rightarrow>
             (case r of
                Inl _ \<Rightarrow> (w', failed ''SSO conversion failed'')
              | Inr cs \<Rightarrow>
                  if length cs \<noteq> n then (w', failed ''SSO converter returned an unexpected result count'')
                  else (w', sso_items k cs))))"

text \<open>An SSO document, after the JSON error and its warnings when the format was guessed.\<close>

definition parse_sso_file ::
  "import_parsers \<Rightarrow> int \<Rightarrow> 'w converter option \<Rightarrow> (import_error \<times> import_warning list) option \<Rightarrow> nat \<Rightarrow>
   input_file \<Rightarrow> 'w \<Rightarrow> 'w \<times> file_out" where
  "parse_sso_file ip limit conv jerr k f w =
     (let source = file_reference k in
      case parse_sso_values (ipDocs ip) (ifData f) limit of
        Inl e \<Rightarrow>
          (w, if e = SsoLimit then no_items [failed_item source ''sso'' (limit_text limit)] [] (limit + 1)
              else case jerr of
                Some (je, ws) \<Rightarrow>
                  no_items [failed_item source ''json'' (ipText ip je)] (copy_warnings_for_source ws source) 1
              | None \<Rightarrow> no_items [failed_item source ''sso'' (sso_error_text e)] [] 1)
      | Inr vs \<Rightarrow>
          if int (length vs) > limit
          then (w, no_items [failed_item source ''sso'' (limit_text limit)] [] (int (length vs)))
          else convert_values conv k vs w)"

definition parse_file ::
  "import_parsers \<Rightarrow> int \<Rightarrow> 'w converter option \<Rightarrow> nat \<Rightarrow> input_file \<Rightarrow> 'w \<Rightarrow> 'w \<times> file_out" where
  "parse_file ip limit conv k f w =
     (let source = file_reference k in
      if resolve_format f = ''json'' then
        (case parse_json_file ip f limit of
           Inr (cs, ws) \<Rightarrow>
             if int (length cs) > limit
             then (w, no_items [failed_item source ''json'' (limit_text limit)] ws (int (length cs)))
             else (w, json_items (ifName f) k cs ws)
         | Inl (ImpLimit _, _) \<Rightarrow>
             (w, no_items [failed_item source ''json'' (limit_text limit)] [] (limit + 1))
         | Inl (e, ws) \<Rightarrow>
             if ifFormat f \<noteq> ''auto''
             then (w, no_items [failed_item source ''json'' (ipText ip e)] (copy_warnings_for_source ws source) 1)
             else parse_sso_file ip limit conv (Some (e, ws)) k f w)
      else if resolve_format f = ''sso'' then parse_sso_file ip limit conv None k f w
      else (w, no_items [failed_item source (resolve_format f) ''unsupported import format''] [] 1))"

end
