(* ===== verification/Import_Job.thy ===== *)
theory Import_Job
  imports Import_Parse
begin

text \<open>
  One import job (\<open>Manager.run\<close> of \<open>internal/importer/manager.go\<close>): the batch is counted, parsed file by file,
  freed of duplicate identities and stored in one call; every published state of the job is kept in order.

  The store, the converter, the hooks, the clock and the deadline of the job are fields of \<open>job_env\<close> over a
  world \<open>'w\<close>; \<open>jeExpired\<close> is what \<open>ctx.Err\<close> says when it is asked.
\<close>

section \<open>Jobs\<close>

record file_result =
  frSource :: string
  frName :: string
  frFormat :: string
  frStatus :: string
  frTotal :: nat
  frProcessed :: nat
  frCreated :: nat
  frUpdated :: nat
  frSkipped :: nat
  frFailed :: nat
  frWarnings :: "import_warning list"
  frResults :: "item_result list"

record job =
  jbID :: string
  jbStatus :: string
  jbCreatedAt :: gotime
  jbStartedAt :: "gotime option"
  jbFinishedAt :: "gotime option"
  jbTotal :: nat
  jbProcessed :: nat
  jbCreated :: nat
  jbUpdated :: nat
  jbSkipped :: nat
  jbFailed :: nat
  jbFilesTotal :: nat
  jbFilesProcessed :: nat
  jbWarningCount :: nat
  jbWarnings :: "import_warning list"
  jbFiles :: "file_result list"
  jbResults :: "item_result list"
  jbError :: string

definition new_file_result :: "nat \<Rightarrow> input_file \<Rightarrow> file_result" where
  "new_file_result k f = \<lparr> frSource = file_reference k, frName = ifName f, frFormat = ifFormat f,
     frStatus = ''queued'', frTotal = 0, frProcessed = 0, frCreated = 0, frUpdated = 0, frSkipped = 0,
     frFailed = 0, frWarnings = [], frResults = [] \<rparr>"

definition new_job :: "string \<Rightarrow> gotime \<Rightarrow> input_file list \<Rightarrow> job" where
  "new_job k now fs = \<lparr> jbID = k, jbStatus = ''queued'', jbCreatedAt = now, jbStartedAt = None,
     jbFinishedAt = None, jbTotal = 0, jbProcessed = 0, jbCreated = 0, jbUpdated = 0, jbSkipped = 0,
     jbFailed = 0, jbFilesTotal = length fs, jbFilesProcessed = 0, jbWarningCount = 0, jbWarnings = [],
     jbFiles = map (\<lambda>(i, f). new_file_result i f) (enumerate 0 fs), jbResults = [], jbError = [] \<rparr>"

section \<open>Counting\<close>

definition with_status :: "string \<Rightarrow> item_result list \<Rightarrow> nat" where
  "with_status s rs = length (filter (\<lambda>r. itStatus r = s) rs)"

definition parsed_state :: "string \<Rightarrow> bool" where
  "parsed_state s \<longleftrightarrow> s \<in> set [''parsed'', ''completed'', ''partial'', ''failed'']"

definition outcome_status :: "nat \<Rightarrow> nat \<Rightarrow> string" where
  "outcome_status failed good =
     (if failed = 0 then ''completed'' else if good = 0 then ''failed'' else ''partial'')"

definition summarize_file :: "bool \<Rightarrow> file_result \<Rightarrow> file_result" where
  "summarize_file final f0 =
     (let f1 = (if final \<and> frStatus f0 = ''queued''
                then f0\<lparr> frResults := [failed_item (frSource f0) (frFormat f0)
                  ''file was not processed because the import batch stopped early''] \<rparr> else f0);
          rs = frResults f1;
          f2 = f1\<lparr> frTotal := length rs, frProcessed := length rs - with_status ''queued'' rs,
            frCreated := with_status ''created'' rs, frUpdated := with_status ''updated'' rs,
            frSkipped := with_status ''skipped'' rs, frFailed := with_status ''failed'' rs \<rparr> in
      if final
      then f2\<lparr> frStatus := outcome_status (frFailed f2) (frCreated f2 + frUpdated f2 + frSkipped f2) \<rparr>
      else f2)"

definition file_warnings :: "file_result \<Rightarrow> import_warning list" where
  "file_warnings f = frWarnings f @ concat (map itWarnings (frResults f))"

definition summarize_job :: "bool \<Rightarrow> job \<Rightarrow> job" where
  "summarize_job final j =
     (let processed = length (filter (\<lambda>f. parsed_state (frStatus f)) (jbFiles j));
          fs = map (summarize_file final) (jbFiles j);
          ws = concat (map file_warnings fs) in
      j\<lparr> jbFiles := fs, jbFilesProcessed := processed, jbTotal := sum_list (map frTotal fs),
         jbProcessed := sum_list (map frProcessed fs), jbCreated := sum_list (map frCreated fs),
         jbUpdated := sum_list (map frUpdated fs), jbSkipped := sum_list (map frSkipped fs),
         jbFailed := sum_list (map frFailed fs), jbWarnings := ws, jbWarningCount := length ws,
         jbResults := concat (map frResults fs) \<rparr>)"

section \<open>The batch\<close>

definition import_identity :: "(string \<Rightarrow> string) \<Rightarrow> cred_input \<Rightarrow> string" where
  "import_identity H i =
     (let issuer = norm_issuer (iOIDCIssuer i); client = to_lower (trim_space (iOIDCClientID i));
          user = trim_space (iUserID i); email = to_lower (trim_space (iEmail i));
          token = (if trim_space (iRefreshToken i) = [] then trim_space (iAccessToken i)
                   else trim_space (iRefreshToken i)) in
      if user \<noteq> [] then ''oidc:'' @ issuer @ '':'' @ client @ '':'' @ user @ '':'' @ trim_space (iTeamID i)
      else if email \<noteq> [] then ''email:'' @ issuer @ '':'' @ client @ '':'' @ email
      else if token = [] then [] else ''token:'' @ H token)"

record pending_item =
  piFile :: nat
  piResult :: nat
  piInput :: cred_input

record batch =
  btResults :: "item_result list"
  btPending :: "pending_item list"
  btSeen :: "string \<rightharpoonup> string"
  btNames :: "string \<rightharpoonup> string"

definition duplicate_warning :: "string \<Rightarrow> string \<Rightarrow> import_warning" where
  "duplicate_warning source previous = \<lparr> iwSource = source, iwField = ''identity'',
     iwMessage = ''duplicate credential identity in import batch; first occurrence is '' @ previous \<rparr>"

definition skip_item :: "string \<Rightarrow> item_result \<Rightarrow> item_result" where
  "skip_item previous r = r\<lparr> itStatus := ''skipped'',
     itWarnings := itWarnings r @ [duplicate_warning (itSource r) previous] \<rparr>"

text \<open>The name of an item whose name another identity has already.\<close>

definition rename :: "(string \<rightharpoonup> string) \<Rightarrow> string \<Rightarrow> string \<Rightarrow> cred_input \<Rightarrow> cred_input \<times> (string \<rightharpoonup> string)" where
  "rename names ident source i =
     (let key = to_lower (trim_space (iName i)) in
      if key \<noteq> [] \<and> (case names key of None \<Rightarrow> False | Some prev \<Rightarrow> prev \<noteq> ident)
      then (i\<lparr> iName := trim_space (iName i) @ '' ('' @ source @ '')'' \<rparr>, names)
      else (i, if key \<noteq> [] then names(key \<mapsto> ident) else names))"

definition take_item :: "(string \<Rightarrow> string) \<Rightarrow> nat \<Rightarrow> file_item \<Rightarrow> batch \<Rightarrow> batch" where
  "take_item H k it b =
     (let r = btResults b ! fiResult it; ident = import_identity H (fiInput it);
          enter = (\<lambda>seen. case rename (btNames b) ident (itSource r) (fiInput it) of (i, names) \<Rightarrow>
            b\<lparr> btSeen := seen, btNames := names,
               btPending := btPending b @ [\<lparr> piFile = k, piResult = fiResult it, piInput = i \<rparr>] \<rparr>) in
      if ident = [] then enter (btSeen b)
      else case btSeen b ident of
        Some previous \<Rightarrow> b\<lparr> btResults := (btResults b)[fiResult it := skip_item previous r] \<rparr>
      | None \<Rightarrow> enter ((btSeen b)(ident \<mapsto> itSource r)))"

definition fail_if_queued :: "string \<Rightarrow> item_result \<Rightarrow> item_result" where
  "fail_if_queued msg r = (if itStatus r = ''queued'' then r\<lparr> itStatus := ''failed'', itError := msg \<rparr> else r)"

definition fail_queued_results :: "string \<Rightarrow> item_result list \<Rightarrow> item_result list" where
  "fail_queued_results msg rs = map (fail_if_queued msg) rs"

type_synonym outcomes = "item_result list list"

definition change_result :: "pending_item \<Rightarrow> (item_result \<Rightarrow> item_result) \<Rightarrow> outcomes \<Rightarrow> outcomes" where
  "change_result p f rss = rss[piFile p := (rss ! piFile p)[piResult p := f (rss ! piFile p ! piResult p)]]"

definition fail_pending_results :: "string \<Rightarrow> pending_item list \<Rightarrow> outcomes \<Rightarrow> outcomes" where
  "fail_pending_results msg ps rss = fold (\<lambda>p. change_result p (fail_if_queued msg)) ps rss"

definition not_stored :: "item_result \<Rightarrow> item_result" where
  "not_stored r = r\<lparr> itStatus := ''failed'', itError := ''credential storage failed'' \<rparr>"

definition stored_as :: "credential \<times> bool \<Rightarrow> item_result \<Rightarrow> item_result" where
  "stored_as cb r = r\<lparr> itCredentialID := cID (fst cb),
     itStatus := (if snd cb then ''created'' else ''updated'') \<rparr>"

section \<open>The run\<close>

record 'w job_env =
  jeParsers :: import_parsers
  jeLimits :: limits
  jeConvert :: "'w converter option"
  jeBulk :: "'w \<Rightarrow> cred_input list \<Rightarrow> 'w \<times> (goerr + (credential \<times> bool) list)"
  jeBefore :: "('w \<Rightarrow> 'w) option"
  jeStored :: "('w \<Rightarrow> (credential \<times> bool) list \<Rightarrow> 'w) option"
  jeExpired :: "'w \<Rightarrow> 'w \<times> bool"
  jeNow :: "'w \<Rightarrow> 'w \<times> gotime"

record 'w job_run =
  jrWorld :: 'w
  jrJob :: job
  jrPublished :: "job list"
  jrOutcomes :: outcomes
  jrWarnings :: "import_warning list list"
  jrPending :: "pending_item list"
  jrSeen :: "string \<rightharpoonup> string"
  jrNames :: "string \<rightharpoonup> string"
  jrEntries :: int

definition publish :: "(job \<Rightarrow> job) \<Rightarrow> 'w job_run \<Rightarrow> 'w job_run" where
  "publish f r = r\<lparr> jrJob := f (jrJob r), jrPublished := jrPublished r @ [f (jrJob r)] \<rparr>"

definition change_file :: "nat \<Rightarrow> (file_result \<Rightarrow> file_result) \<Rightarrow> job \<Rightarrow> job" where
  "change_file k f j = j\<lparr> jbFiles := (jbFiles j)[k := f (jbFiles j ! k)] \<rparr>"

definition publish_progress :: "nat \<Rightarrow> 'w job_run \<Rightarrow> 'w job_run" where
  "publish_progress k r = publish (\<lambda>j. summarize_job False (change_file k (\<lambda>f. f\<lparr> frStatus := ''parsed'',
     frResults := jrOutcomes r ! k, frWarnings := jrWarnings r ! k \<rparr>) j)) r"

definition take_outcome :: "nat \<Rightarrow> item_result list \<Rightarrow> import_warning list \<Rightarrow> 'w job_run \<Rightarrow> 'w job_run" where
  "take_outcome k rs ws r = r\<lparr> jrOutcomes := (jrOutcomes r)[k := rs], jrWarnings := (jrWarnings r)[k := ws] \<rparr>"

definition expired_x :: "'w job_env \<Rightarrow> 'w job_run \<Rightarrow> 'w job_run \<times> bool" where
  "expired_x je r = (case jeExpired je (jrWorld r) of (w, e) \<Rightarrow> (r\<lparr> jrWorld := w \<rparr>, e))"

definition max_entries :: "'w job_env \<Rightarrow> int" where
  "max_entries je = liMaxEntries (jeLimits je)"

definition over_limit :: "'w job_env \<Rightarrow> nat \<Rightarrow> input_file \<Rightarrow> 'w job_run \<Rightarrow> 'w job_run" where
  "over_limit je k f r =
     (let extra = failed_item (file_reference k) (ifFormat f) (limit_text (max_entries je));
          rss = (jrOutcomes r)[k := jrOutcomes r ! k @ [extra]] in
      publish_progress k (r\<lparr> jrOutcomes := map (fail_queued_results ''batch entry limit exceeded'') rss,
        jrPending := [] \<rparr>))"

definition take_file :: "'w job_env \<Rightarrow> nat \<Rightarrow> file_out \<Rightarrow> 'w job_run \<Rightarrow> 'w job_run" where
  "take_file je k out r =
     (let b = fold (take_item (ipHash (jeParsers je)) k) (foItems out)
            \<lparr> btResults = foResults out, btPending = jrPending r, btSeen = jrSeen r, btNames = jrNames r \<rparr> in
      publish_progress k (take_outcome k (btResults b) (foWarnings out)
        (r\<lparr> jrPending := btPending b, jrSeen := btSeen b, jrNames := btNames b \<rparr>)))"

definition parse_file_x :: "'w job_env \<Rightarrow> nat \<Rightarrow> input_file \<Rightarrow> 'w job_run \<Rightarrow> 'w job_run \<times> file_out" where
  "parse_file_x je k f r =
     (case parse_file (jeParsers je) (max_entries je) (jeConvert je) k f (jrWorld r) of
        (w, out) \<Rightarrow> (r\<lparr> jrWorld := w, jrEntries := jrEntries r + foCount out \<rparr>, out))"

text \<open>One file: the state and whether the loop goes on.\<close>

definition import_file :: "'w job_env \<Rightarrow> nat \<Rightarrow> input_file \<Rightarrow> 'w job_run \<Rightarrow> 'w job_run \<times> bool" where
  "import_file je k f r0 =
     (case expired_x je r0 of (r1, e1) \<Rightarrow>
        if e1 then (r1, False)
        else case parse_file_x je k f (publish (change_file k (\<lambda>x. x\<lparr> frStatus := ''running'' \<rparr>)) r1) of (r2, out) \<Rightarrow>
          (case expired_x je r2 of (r3, e2) \<Rightarrow>
             if e2 then (publish_progress k (take_outcome k
               (fail_queued_results ''import job timed out'' (foResults out)) (foWarnings out) r3), False)
             else
               (let r4 = take_file je k out r3 in
                if jrEntries r4 > max_entries je then (over_limit je k f r4, False) else (r4, True))))"

fun import_files :: "'w job_env \<Rightarrow> nat \<Rightarrow> input_file list \<Rightarrow> 'w job_run \<Rightarrow> 'w job_run" where
  "import_files je k [] r = r"
| "import_files je k (f # fs) r = (case import_file je k f r of (r', on) \<Rightarrow>
     if on then import_files je (Suc k) fs r' else r')"

definition give_up_pending :: "'w job_run \<Rightarrow> 'w job_run" where
  "give_up_pending r = r\<lparr> jrOutcomes := fail_pending_results ''import job timed out'' (jrPending r) (jrOutcomes r),
     jrPending := [] \<rparr>"

definition store_inputs :: "'w job_env \<Rightarrow> 'w job_run \<Rightarrow> 'w job_run" where
  "store_inputs je r =
     (let w0 = (case jeBefore je of None \<Rightarrow> jrWorld r | Some f \<Rightarrow> f (jrWorld r)); ps = jrPending r in
      case jeBulk je w0 (map piInput ps) of (w1, res) \<Rightarrow>
        (let failed = r\<lparr> jrWorld := w1, jrOutcomes := fold (\<lambda>p. change_result p not_stored) ps (jrOutcomes r) \<rparr> in
         case res of
           Inl _ \<Rightarrow> failed
         | Inr stored \<Rightarrow>
             if length stored \<noteq> length ps then failed
             else r\<lparr> jrWorld := (case jeStored je of None \<Rightarrow> w1 | Some f \<Rightarrow> f w1 stored),
               jrOutcomes := fold (\<lambda>(p, cb). change_result p (stored_as cb)) (zip ps stored) (jrOutcomes r) \<rparr>))"

definition store_pending :: "'w job_env \<Rightarrow> 'w job_run \<Rightarrow> 'w job_run" where
  "store_pending je r =
     (if jrPending r = [] then r
      else case expired_x je r of (r1, e1) \<Rightarrow>
        if e1 then give_up_pending r1
        else case expired_x je r1 of (r2, e2) \<Rightarrow>
          if e2 then give_up_pending r2 else store_inputs je r2)"

definition now_j :: "'w job_env \<Rightarrow> 'w job_run \<Rightarrow> 'w job_run \<times> gotime" where
  "now_j je r = (case jeNow je (jrWorld r) of (w, t) \<Rightarrow> (r\<lparr> jrWorld := w \<rparr>, trunc_sec t))"

definition finish_file :: "item_result list \<Rightarrow> import_warning list \<Rightarrow> file_result \<Rightarrow> file_result" where
  "finish_file rs ws f = f\<lparr> frResults := rs, frWarnings := ws,
     frStatus := (if frStatus f = ''queued'' \<and> rs \<noteq> [] then ''parsed'' else frStatus f) \<rparr>"

definition finish_job :: "outcomes \<Rightarrow> import_warning list list \<Rightarrow> bool \<Rightarrow> gotime \<Rightarrow> job \<Rightarrow> job" where
  "finish_job rss wss timed_out now j0 =
     (let j1 = summarize_job True (j0\<lparr> jbFiles := map (\<lambda>(k, f). finish_file (rss ! k) (wss ! k) f)
            (enumerate 0 (jbFiles j0)) \<rparr>);
          good = jbCreated j1 + jbUpdated j1 + jbSkipped j1 in
      j1\<lparr> jbStatus := outcome_status (jbFailed j1) good,
          jbError := (if timed_out \<and> good = 0 then ''import job timed out'' else jbError j1),
          jbFinishedAt := Some now \<rparr>)"

definition finish_run :: "'w job_env \<Rightarrow> bool \<Rightarrow> 'w job_run \<Rightarrow> 'w job_run" where
  "finish_run je timed_out r = (case now_j je r of (r', now) \<Rightarrow>
     publish (finish_job (jrOutcomes r) (jrWarnings r) timed_out now) r')"

definition rejected_file :: "'w job_env \<Rightarrow> nat option \<Rightarrow> nat \<times> input_file \<Rightarrow> item_result list" where
  "rejected_file je offending kf = (case kf of (k, f) \<Rightarrow>
     [failed_item (file_reference k) (ifFormat f)
        (if offending = Some k then limit_text (max_entries je) else ''batch entry limit exceeded'')])"

definition start_run :: "input_file list \<Rightarrow> job \<Rightarrow> 'w \<Rightarrow> 'w job_run" where
  "start_run fs j w = \<lparr> jrWorld = w, jrJob = j, jrPublished = [], jrOutcomes = map (\<lambda>_. []) fs,
     jrWarnings = map (\<lambda>_. []) fs, jrPending = [], jrSeen = Map.empty, jrNames = Map.empty, jrEntries = 0 \<rparr>"

definition run_job :: "'w job_env \<Rightarrow> input_file list \<Rightarrow> job \<Rightarrow> 'w \<Rightarrow> 'w job_run" where
  "run_job je fs j w =
     (case now_j je (start_run fs j w) of (r0, now) \<Rightarrow>
        (let r1 = publish (\<lambda>j. j\<lparr> jbStatus := ''running'', jbStartedAt := Some now \<rparr>) r0 in
         case preflight_entries (jeParsers je) (max_entries je) fs of (offending, n) \<Rightarrow>
           if n > max_entries je
           then finish_run je False (r1\<lparr> jrOutcomes := map (rejected_file je offending) (enumerate 0 fs) \<rparr>)
           else case expired_x je (store_pending je (import_files je 0 fs r1)) of (r2, e) \<Rightarrow>
             finish_run je e r2))"

end
