(* ===== verification/Import_Props.thy ===== *)
theory Import_Props
  imports Import_Job
begin

text \<open>
  What an import job promises: every entry of the batch ends in exactly one reported outcome, at most the
  permitted number of inputs with pairwise different identities reaches the store in one call, and what is
  reported as stored is what the store answered.
\<close>

section \<open>One file\<close>

definition is_queued :: "item_result \<Rightarrow> bool" where
  "is_queued r \<longleftrightarrow> itStatus r = ''queued''"

definition settled_item :: "item_result \<Rightarrow> bool" where
  "settled_item r \<longleftrightarrow> itStatus r \<in> set [''created'', ''updated'', ''skipped'', ''failed'']"

text \<open>Settled without the store.\<close>

definition closed_item :: "item_result \<Rightarrow> bool" where
  "closed_item r \<longleftrightarrow> itStatus r \<in> set [''skipped'', ''failed'']"

lemma closed_settled: "closed_item r \<Longrightarrow> settled_item r"
  by (auto simp: closed_item_def settled_item_def)

lemma status_items [simp]:
  "itStatus (failed_item s f e) = ''failed''" "itStatus (queued_item s f ws) = ''queued''"
  "itSource (failed_item s f e) = s" "itSource (queued_item s f ws) = s"
  by (simp_all add: failed_item_def queued_item_def)

lemma settled_queued: "is_queued r \<Longrightarrow> \<not> closed_item r"
  by (auto simp: is_queued_def closed_item_def)

text \<open>The items of a file are its queued results, each once, and no more than are counted.\<close>

definition file_ok :: "nat \<Rightarrow> file_out \<Rightarrow> bool" where
  "file_ok k out \<longleftrightarrow>
     distinct (map fiResult (foItems out)) \<and>
     (\<forall>it\<in>set (foItems out). fiResult it < length (foResults out) \<and>
        is_queued (foResults out ! fiResult it) \<and> iSourceKey (fiInput it) = itSource (foResults out ! fiResult it)) \<and>
     (\<forall>i<length (foResults out). closed_item (foResults out ! i) \<or> i \<in> fiResult ` set (foItems out)) \<and>
     int (length (foItems out)) \<le> foCount out"

lemma file_ok_none: "list_all closed_item rs \<Longrightarrow> n \<ge> 0 \<Longrightarrow> file_ok k (no_items rs ws n)"
  by (auto simp: file_ok_def no_items_def list_all_length)

lemma failed_settled [simp]: "closed_item (failed_item s f e)"
  by (simp add: closed_item_def)

lemma queued_is_queued [simp]: "is_queued (queued_item s f ws)"
  by (simp add: is_queued_def)

lemma file_ok_failed: "n \<ge> 0 \<Longrightarrow> file_ok k (no_items [failed_item s f e] ws n)"
  by (rule file_ok_none) auto

lemma file_ok_sso_failed: "file_ok k (no_items (failed_sso_results k n msg) ws (int m))"
  by (rule file_ok_none) (auto simp: failed_sso_results_def list_all_iff)

lemma source_of_inputs [simp]:
  "iSourceKey (input_of_imported nm s c) = s" "iSourceKey (input_of_converted s v) = s"
  by (simp_all add: input_of_imported_def input_of_converted_def)

lemma file_ok_enumerated:
  assumes items: "foItems out = map (\<lambda>ic. \<lparr> fiResult = fst ic, fiInput = g ic \<rparr>) (filter P (enumerate 0 cs))"
    and results: "foResults out = map h (enumerate 0 cs)" and n: "foCount out = int (length cs)"
    and queued: "\<And>ic. P ic \<Longrightarrow> is_queued (h ic) \<and> iSourceKey (g ic) = itSource (h ic)"
    and other: "\<And>ic. \<not> P ic \<Longrightarrow> closed_item (h ic)"
  shows "file_ok k out"
proof -
  have fst: "map fiResult (foItems out) = map fst (filter P (enumerate 0 cs))"
    by (simp add: items comp_def)
  have "distinct (map fst (filter P (enumerate 0 cs)))"
    by (rule distinct_map_filter) simp
  moreover have "length (filter P (enumerate 0 cs)) \<le> length cs"
    by (metis length_enumerate length_filter_le)
  moreover have "fiResult it < length (foResults out) \<and> is_queued (foResults out ! fiResult it) \<and>
      iSourceKey (fiInput it) = itSource (foResults out ! fiResult it)" if "it \<in> set (foItems out)" for it
    using that queued by (auto simp: items results in_set_enumerate_eq nth_enumerate_eq)
  moreover have "closed_item (foResults out ! j) \<or> j \<in> fiResult ` set (foItems out)"
    if "j < length (foResults out)" for j
  proof (cases "P (j, cs ! j)")
    case True
    then have "(j, cs ! j) \<in> set (filter P (enumerate 0 cs))"
      using that by (simp add: results in_set_enumerate_eq)
    then show ?thesis
      unfolding items by force
  next
    case False
    then show ?thesis
      using that other by (simp add: results nth_enumerate_eq)
  qed
  ultimately show ?thesis
    unfolding file_ok_def fst n using items by auto
qed

lemma file_ok_json: "file_ok k (json_items nm k cs ws)"
  by (rule file_ok_enumerated [where P = "\<lambda>_. True"]) (auto simp: json_items_def case_prod_unfold)

lemma file_ok_sso: "file_ok k (sso_items k cs)"
  by (rule file_ok_enumerated [where P = "\<lambda>ic. trim_space (cvError (snd ic)) = []" and h = "sso_result k"
        and g = "\<lambda>ic. input_of_converted (entry_reference k (fst ic)) (snd ic)"])
    (auto simp: sso_items_def case_prod_unfold sso_result_def)

lemma file_ok_convert: "convert_values conv k vs w = (w', out) \<Longrightarrow> file_ok k out"
  by (auto simp: convert_values_def Let_def file_ok_sso_failed file_ok_sso split: option.splits prod.splits sum.splits if_splits)

lemma file_ok_parse_sso:
  "limit \<ge> 0 \<Longrightarrow> parse_sso_file ip limit conv je k f w = (w', out) \<Longrightarrow> file_ok k out"
  by (auto simp: parse_sso_file_def Let_def intro: file_ok_failed file_ok_convert
      split: sum.splits if_splits option.splits prod.splits)

lemma file_ok_parse:
  "limit \<ge> 0 \<Longrightarrow> parse_file ip limit conv k f w = (w', out) \<Longrightarrow> file_ok k out"
  by (auto simp: parse_file_def Let_def intro: file_ok_failed file_ok_json file_ok_parse_sso
      split: sum.splits if_splits option.splits prod.splits import_error.splits)

section \<open>The batch\<close>

lemma identity_of_renamed: "rename names ident src i = (i', names') \<Longrightarrow>
    import_identity H i' = import_identity H i \<and> iSourceKey i' = iSourceKey i"
  by (auto simp: rename_def import_identity_def Let_def split: if_splits)

text \<open>Inputs with an identity, each identity once, all of them recorded as seen.\<close>

definition once :: "(string \<Rightarrow> string) \<Rightarrow> cred_input list \<Rightarrow> bool" where
  "once H is \<longleftrightarrow> distinct (filter (\<lambda>x. x \<noteq> []) (map (import_identity H) is))"

definition seen_ok :: "(string \<Rightarrow> string) \<Rightarrow> pending_item list \<Rightarrow> (string \<rightharpoonup> string) \<Rightarrow> bool" where
  "seen_ok H ps seen \<longleftrightarrow> once H (map piInput ps) \<and>
     (\<forall>p\<in>set ps. import_identity H (piInput p) \<noteq> [] \<longrightarrow> import_identity H (piInput p) \<in> dom seen)"

text \<open>Where a pending item points, and what it points at.\<close>

definition place :: "pending_item \<Rightarrow> nat \<times> nat" where
  "place p = (piFile p, piResult p)"

definition points :: "outcomes \<Rightarrow> pending_item list \<Rightarrow> bool" where
  "points rss ps \<longleftrightarrow> distinct (map place ps) \<and>
     (\<forall>p\<in>set ps. piFile p < length rss \<and> piResult p < length (rss ! piFile p) \<and>
        iSourceKey (piInput p) = itSource (rss ! piFile p ! piResult p))"

definition all_pending :: "outcomes \<Rightarrow> pending_item list \<Rightarrow> bool" where
  "all_pending rss ps \<longleftrightarrow> (\<forall>f<length rss. \<forall>i<length (rss ! f).
     closed_item (rss ! f ! i) \<or> (f, i) \<in> place ` set ps)"

definition all_known :: "item_result list \<Rightarrow> bool" where
  "all_known rs \<longleftrightarrow> (\<forall>r\<in>set rs. closed_item r \<or> is_queued r)"

text \<open>The state within a file: \<open>done\<close> of its items are taken, \<open>rest\<close> are to come.\<close>

definition batch_inv :: "(string \<Rightarrow> string) \<Rightarrow> nat \<Rightarrow> outcomes \<Rightarrow> file_item list \<Rightarrow> batch \<Rightarrow> bool" where
  "batch_inv H k rss rest b \<longleftrightarrow>
     all_known (btResults b) \<and> seen_ok H (btPending b) (btSeen b) \<and> points (rss[k := btResults b]) (btPending b) \<and>
     distinct (map fiResult rest) \<and>
     (\<forall>it\<in>set rest. fiResult it < length (btResults b) \<and>
        iSourceKey (fiInput it) = itSource (btResults b ! fiResult it) \<and>
        (k, fiResult it) \<notin> place ` set (btPending b)) \<and>
     (\<forall>i<length (btResults b). closed_item (btResults b ! i) \<or> i \<in> fiResult ` set rest \<or>
        (k, i) \<in> place ` set (btPending b))"


lemma seen_ok_snoc:
  assumes "seen_ok H ps seen" and ident: "import_identity H (piInput p) = d"
    and "d = [] \<or> seen d = None" and "dom seen \<subseteq> dom seen'" and "d \<noteq> [] \<longrightarrow> d \<in> dom seen'"
  shows "seen_ok H (ps @ [p]) seen'"
  using assms unfolding seen_ok_def once_def by (auto simp: domIff subset_iff)

lemma points_snoc:
  "points rss ps \<Longrightarrow> place p \<notin> place ` set ps \<Longrightarrow> piFile p < length rss \<Longrightarrow>
   piResult p < length (rss ! piFile p) \<Longrightarrow> iSourceKey (piInput p) = itSource (rss ! piFile p ! piResult p) \<Longrightarrow>
   points rss (ps @ [p])"
  unfolding points_def place_def by auto

text \<open>A change of results that keeps their number and sources.\<close>

lemma points_cong:
  assumes "points rss ps" "length rss' = length rss"
    and "\<And>f. f < length rss \<Longrightarrow> map itSource (rss' ! f) = map itSource (rss ! f)"
  shows "points rss' ps"
proof -
  have "length (rss' ! f) = length (rss ! f)" "j < length (rss ! f) \<Longrightarrow> itSource (rss' ! f ! j) = itSource (rss ! f ! j)"
    if "f < length rss" for f j
    using assms(3) [OF that] by (metis length_map, metis length_map nth_map)
  then show ?thesis
    using assms(1,2) unfolding points_def by auto
qed

lemma skip_simps [simp]: "itSource (skip_item prev r) = itSource r" "closed_item (skip_item prev r)"
  by (simp_all add: skip_item_def closed_item_def)

lemma map_source_update: "map itSource (rs[j := f (rs ! j)]) = map itSource rs"
  if "\<And>r. itSource (f r) = itSource r" for f
  using that by (simp add: map_update) (metis list_update_id map_update)


lemma take_item_cases:
  assumes "take_item H k it b = b'"
  obtains (skip) prev where "btPending b' = btPending b" "btSeen b' = btSeen b"
      "btResults b' = (btResults b)[fiResult it := skip_item prev (btResults b ! fiResult it)]"
  | (enter) p where "btPending b' = btPending b @ [p]" "btResults b' = btResults b"
      "place p = (k, fiResult it)" "import_identity H (piInput p) = import_identity H (fiInput it)"
      "iSourceKey (piInput p) = iSourceKey (fiInput it)"
      "import_identity H (fiInput it) = [] \<or> btSeen b (import_identity H (fiInput it)) = None"
      "dom (btSeen b) \<subseteq> dom (btSeen b')"
      "import_identity H (fiInput it) \<noteq> [] \<longrightarrow> import_identity H (fiInput it) \<in> dom (btSeen b')"
proof -
  let ?d = "import_identity H (fiInput it)"
  let ?r = "btResults b ! fiResult it"
  obtain i names where rn: "rename (btNames b) ?d (itSource ?r) (fiInput it) = (i, names)"
    by (cases "rename (btNames b) ?d (itSource ?r) (fiInput it)")
  note i = identity_of_renamed [OF rn, of H]
  show thesis
  proof (cases "?d = [] \<or> btSeen b ?d = None")
    case True
    then show thesis
      using assms rn i by (intro enter [of "\<lparr> piFile = k, piResult = fiResult it, piInput = i \<rparr>"])
        (auto simp: take_item_def Let_def place_def split: if_splits option.splits)
  next
    case False
    then obtain prev where "btSeen b ?d = Some prev"
      by auto
    then show thesis
      using assms False by (intro skip [of prev]) (auto simp: take_item_def Let_def)
  qed
qed

lemma take_item_inv:
  assumes inv: "batch_inv H k rss (it # rest) b" and k: "k < length rss"
  shows "batch_inv H k rss rest (take_item H k it b)"
  using refl
proof (cases rule: take_item_cases [of H k it b])
  case (skip prev)
  let ?b = "take_item H k it b"
  have src: "map itSource (btResults ?b) = map itSource (btResults b)"
    unfolding skip(3) by (simp add: map_source_update)
  have len: "length (btResults ?b) = length (btResults b)"
    by (simp add: skip(3))
  have nth: "j < length (btResults b) \<Longrightarrow> itSource (btResults ?b ! j) = itSource (btResults b ! j)" for j
    using src by (metis len nth_map)
  have "points (rss[k := btResults ?b]) (btPending b)"
    by (rule points_cong [of "rss[k := btResults b]"])
      (use inv k src in \<open>auto simp: batch_inv_def nth_list_update\<close>)
  moreover have "closed_item (btResults ?b ! j) \<or> j \<in> fiResult ` set rest \<or> (k, j) \<in> place ` set (btPending b)"
    if "j < length (btResults b)" for j
    using inv that by (auto simp: batch_inv_def skip(3) nth_list_update)
  moreover have "all_known (btResults ?b)"
    using inv unfolding batch_inv_def skip(3) all_known_def by (auto dest!: subsetD [OF set_update_subset_insert])
  ultimately show ?thesis
    using inv unfolding batch_inv_def skip(1,2) len by (auto simp: nth)
next
  case (enter p)
  let ?b = "take_item H k it b"
  have p: "piFile p = k" "piResult p = fiResult it"
    using enter(3) by (auto simp: place_def)
  have "seen_ok H (btPending ?b) (btSeen ?b)"
    unfolding enter(1)
    by (rule seen_ok_snoc [where seen = "btSeen b"]) (use inv enter(4-8) in \<open>auto simp: batch_inv_def\<close>)
  have "points (rss[k := btResults ?b]) (btPending ?b)"
    unfolding enter(1,2)
    by (rule points_snoc) (use inv k p enter(3,5) in \<open>auto simp: batch_inv_def\<close>)
  have pl: "place ` set (btPending ?b) = insert (k, fiResult it) (place ` set (btPending b))"
    by (simp add: enter(1,3))
  have "distinct (map fiResult (it # rest))"
    using inv unfolding batch_inv_def by blast
  then have "fiResult x \<noteq> fiResult it" if "x \<in> set rest" for x
    using that by (simp add: image_iff) metis
  moreover have "\<forall>x\<in>set rest. (k, fiResult x) \<notin> place ` set (btPending b)"
    using inv unfolding batch_inv_def by simp
  ultimately have "\<forall>x\<in>set rest. (k, fiResult x) \<notin> place ` set (btPending ?b)"
    unfolding pl by blast
  moreover have "\<forall>i<length (btResults b). closed_item (btResults b ! i) \<or> i \<in> fiResult ` set (it # rest) \<or>
      (k, i) \<in> place ` set (btPending b)"
    using inv unfolding batch_inv_def by blast
  then have "\<forall>i<length (btResults b). closed_item (btResults b ! i) \<or> i \<in> fiResult ` set rest \<or>
      (k, i) \<in> place ` set (btPending ?b)"
    unfolding pl by auto
  ultimately show ?thesis
    using inv \<open>seen_ok H (btPending ?b) (btSeen ?b)\<close> \<open>points (rss[k := btResults ?b]) (btPending ?b)\<close>
    unfolding batch_inv_def enter(2) by simp
qed

lemma take_items_inv:
  "batch_inv H k rss its b \<Longrightarrow> k < length rss \<Longrightarrow> batch_inv H k rss [] (fold (take_item H k) its b)"
  by (induction its arbitrary: b) (auto dest: take_item_inv)


lemma take_item_pending: "length (btPending (take_item H k it b)) \<le> Suc (length (btPending b))"
  using refl by (cases rule: take_item_cases [of H k it b]) auto

lemma take_items_pending:
  "length (btPending (fold (take_item H k) its b)) \<le> length its + length (btPending b)"
proof (induction its arbitrary: b)
  case (Cons it its)
  show ?case
    using Cons [of "take_item H k it b"] take_item_pending [of H k it b] by simp
qed simp

lemma take_items_keep: "set (btPending b) \<subseteq> set (btPending (fold (take_item H k) its b))"
proof (induction its arbitrary: b)
  case (Cons it its)
  have "set (btPending b) \<subseteq> set (btPending (take_item H k it b))"
    using refl by (cases rule: take_item_cases [of H k it b]) auto
  then show ?case
    using Cons [of "take_item H k it b"] by auto
qed simp

lemma take_item_length: "length (btResults (take_item H k it b)) = length (btResults b)"
  using refl by (cases rule: take_item_cases [of H k it b]) auto

section \<open>The files of a run\<close>

definition import_inv :: "'w job_env \<Rightarrow> nat \<Rightarrow> nat \<Rightarrow> 'w job_run \<Rightarrow> bool" where
  "import_inv je n k r \<longleftrightarrow>
     length (jrOutcomes r) = n \<and> length (jrWarnings r) = n \<and> (\<forall>rs\<in>set (jrOutcomes r). all_known rs) \<and>
     all_pending (jrOutcomes r) (jrPending r) \<and> points (jrOutcomes r) (jrPending r) \<and>
     seen_ok (ipHash (jeParsers je)) (jrPending r) (jrSeen r) \<and>
     (\<forall>f. k \<le> f \<and> f < n \<longrightarrow> jrOutcomes r ! f = []) \<and>
     int (length (jrPending r)) \<le> jrEntries r"

text \<open>At no time are more inputs pending than the limit allows.\<close>

definition capped :: "'w job_env \<Rightarrow> 'w job_run \<Rightarrow> bool" where
  "capped je r \<longleftrightarrow> int (length (jrPending r)) \<le> max_entries je"

lemma publish_simps [simp]:
  "jrOutcomes (publish f r) = jrOutcomes r" "jrWarnings (publish f r) = jrWarnings r"
  "jrPending (publish f r) = jrPending r" "jrSeen (publish f r) = jrSeen r"
  "jrNames (publish f r) = jrNames r" "jrEntries (publish f r) = jrEntries r"
  "jrWorld (publish f r) = jrWorld r"
  by (simp_all add: publish_def)

lemma progress_simps [simp]:
  "jrOutcomes (publish_progress k r) = jrOutcomes r" "jrWarnings (publish_progress k r) = jrWarnings r"
  "jrPending (publish_progress k r) = jrPending r" "jrSeen (publish_progress k r) = jrSeen r"
  "jrEntries (publish_progress k r) = jrEntries r" "jrWorld (publish_progress k r) = jrWorld r"
  by (simp_all add: publish_progress_def)

lemma import_inv_cong:
  assumes "jrOutcomes r' = jrOutcomes r" "jrWarnings r' = jrWarnings r" "jrPending r' = jrPending r"
    "jrSeen r' = jrSeen r" "jrEntries r \<le> jrEntries r'"
  shows "import_inv je n k r \<Longrightarrow> import_inv je n k r'"
  using assms by (auto simp: import_inv_def)

lemma import_inv_publish [simp]: "import_inv je n k (publish f r) \<longleftrightarrow> import_inv je n k r"
  by (auto simp: import_inv_def)

lemma import_inv_progress [simp]: "import_inv je n k (publish_progress i r) \<longleftrightarrow> import_inv je n k r"
  by (auto simp: import_inv_def)

lemma expired_inv: "expired_x je r = (r', e) \<Longrightarrow> import_inv je n k r \<Longrightarrow> import_inv je n k r'"
  by (auto simp: expired_x_def import_inv_def split: prod.splits)

lemma import_inv_mono: "import_inv je n k r \<Longrightarrow> k \<le> k' \<Longrightarrow> import_inv je n k' r"
  by (auto simp: import_inv_def)

text \<open>Results without a queued one may replace those of a file to which nothing points.\<close>

lemma fail_if_queued_simps [simp]: "itSource (fail_if_queued msg r) = itSource r"
  by (simp add: fail_if_queued_def)

lemma file_ok_settles:
  "file_ok k out \<Longrightarrow> r \<in> set (fail_queued_results msg (foResults out)) \<Longrightarrow> closed_item r"
  unfolding file_ok_def fail_queued_results_def in_set_conv_nth
  by (auto simp: fail_if_queued_def closed_item_def is_queued_def)


lemma pending_before:
  assumes "import_inv je n k r" "k < n" "p \<in> set (jrPending r)"
  shows "piFile p \<noteq> k"
  using assms unfolding import_inv_def points_def by force

lemma points_other:
  assumes "points rss ps" "\<And>p. p \<in> set ps \<Longrightarrow> piFile p \<noteq> k"
  shows "points (rss[k := rs]) ps"
  using assms unfolding points_def by (metis length_list_update nth_list_update_neq)

lemma file_ok_known: "file_ok k out \<Longrightarrow> all_known (foResults out)"
proof -
  assume ok: "file_ok k out"
  have "closed_item (foResults out ! i) \<or> is_queued (foResults out ! i)" if "i < length (foResults out)" for i
  proof (cases "closed_item (foResults out ! i)")
    case False
    then obtain it where "it \<in> set (foItems out)" "i = fiResult it"
      using ok \<open>i < length (foResults out)\<close> unfolding file_ok_def by blast
    then show ?thesis
      using ok unfolding file_ok_def by blast
  qed simp
  then show ?thesis
    unfolding all_known_def by (metis in_set_conv_nth)
qed

lemma batch_start:
  assumes inv: "import_inv je n k r" and k: "k < n" and ok: "file_ok k out"
  shows "batch_inv (ipHash (jeParsers je)) k (jrOutcomes r) (foItems out)
    \<lparr> btResults = foResults out, btPending = jrPending r, btSeen = jrSeen r, btNames = jrNames r \<rparr>"
proof -
  have "points ((jrOutcomes r)[k := foResults out]) (jrPending r)"
    by (rule points_other) (use inv pending_before [OF inv k] in \<open>auto simp: import_inv_def\<close>)
  moreover have "(k, i) \<notin> place ` set (jrPending r)" for i
    using pending_before [OF inv k] by (auto simp: place_def)
  ultimately show ?thesis
    using inv ok unfolding batch_inv_def import_inv_def file_ok_def by (auto simp: file_ok_known [OF ok])
qed

lemma take_items_results: "length (btResults (fold (take_item H k) its b)) = length (btResults b)"
  by (induction its arbitrary: b) (auto simp: take_item_length)

lemma take_file_inv:
  assumes inv: "import_inv je n k r" and k: "k < n" and ok: "file_ok k out"
    and n: "jrEntries r' = jrEntries r + foCount out"
    and r': "jrOutcomes r' = jrOutcomes r" "jrWarnings r' = jrWarnings r" "jrPending r' = jrPending r"
      "jrSeen r' = jrSeen r" "jrNames r' = jrNames r"
  shows "import_inv je n (Suc k) (take_file je k out r')"
proof -
  let ?H = "ipHash (jeParsers je)"
  let ?start = "\<lparr> btResults = foResults out, btPending = jrPending r, btSeen = jrSeen r, btNames = jrNames r \<rparr>"
  let ?b = "fold (take_item ?H k) (foItems out) ?start"
  have len: "length (jrOutcomes r) = n" "length (jrWarnings r) = n"
    using inv by (simp_all add: import_inv_def)
  have b: "batch_inv ?H k (jrOutcomes r) [] ?b"
    by (rule take_items_inv [OF batch_start [OF inv k ok]]) (use k len in simp)
  have size: "length (btPending ?b) \<le> length (foItems out) + length (jrPending r)"
    using take_items_pending [of ?H k "foItems out" ?start] by simp
  have kept: "set (jrPending r) \<subseteq> set (btPending ?b)"
    using take_items_keep [of ?start ?H k "foItems out"] by simp
  have "all_pending ((jrOutcomes r)[k := btResults ?b]) (btPending ?b)"
    unfolding all_pending_def
  proof (intro allI impI)
    fix f i assume fi: "f < length ((jrOutcomes r)[k := btResults ?b])" "i < length ((jrOutcomes r)[k := btResults ?b] ! f)"
    show "closed_item ((jrOutcomes r)[k := btResults ?b] ! f ! i) \<or> (f, i) \<in> place ` set (btPending ?b)"
    proof (cases "f = k")
      case True
      then show ?thesis
        using b fi k len unfolding batch_inv_def by auto
    next
      case False
      then have "closed_item (jrOutcomes r ! f ! i) \<or> (f, i) \<in> place ` set (jrPending r)"
        using inv fi unfolding import_inv_def all_pending_def by auto
      then show ?thesis
        using False kept by auto
    qed
  qed
  moreover have "int (length (btPending ?b)) \<le> jrEntries r + foCount out"
    using size inv ok unfolding import_inv_def file_ok_def by linarith
  moreover have "jrOutcomes r ! f = []" if "Suc k \<le> f" "f < n" for f
    using inv that by (simp add: import_inv_def)
  moreover have "\<forall>rs\<in>set ((jrOutcomes r)[k := btResults ?b]). all_known rs"
    using inv b unfolding import_inv_def batch_inv_def by (auto dest!: subsetD [OF set_update_subset_insert])
  ultimately show ?thesis
    using b len unfolding take_file_def Let_def r' import_inv_def batch_inv_def
    by (simp add: take_outcome_def r' n)
qed

lemma take_outcome_inv:
  assumes inv: "import_inv je n k r" and k: "k < n" and rs: "\<And>x. x \<in> set rs \<Longrightarrow> closed_item x"
  shows "import_inv je n (Suc k) (take_outcome k rs ws r)"
proof -
  have "points ((jrOutcomes r)[k := rs]) (jrPending r)"
    by (rule points_other) (use inv pending_before [OF inv k] in \<open>auto simp: import_inv_def\<close>)
  moreover have "all_pending ((jrOutcomes r)[k := rs]) (jrPending r)"
    using inv rs k unfolding import_inv_def all_pending_def by (auto simp: nth_list_update)
  moreover have "\<forall>x\<in>set ((jrOutcomes r)[k := rs]). all_known x"
    using inv rs unfolding import_inv_def
    by (auto simp: all_known_def dest!: subsetD [OF set_update_subset_insert])
  ultimately show ?thesis
    using inv unfolding import_inv_def by (simp add: take_outcome_def)
qed

definition all_closed :: "outcomes \<Rightarrow> bool" where
  "all_closed rss \<longleftrightarrow> (\<forall>rs\<in>set rss. \<forall>x\<in>set rs. closed_item x)"

lemma all_closed_known: "all_closed rss \<Longrightarrow> \<forall>rs\<in>set rss. all_known rs"
  by (simp add: all_closed_def all_known_def)

lemma all_closed_pending: "all_closed rss \<Longrightarrow> all_pending rss ps"
  unfolding all_closed_def all_pending_def by (metis nth_mem)

lemma fail_queued_nil [simp]: "fail_queued_results msg [] = []"
  by (simp add: fail_queued_results_def)

lemma fail_queued_settles: "all_known rs \<Longrightarrow> x \<in> set (fail_queued_results msg rs) \<Longrightarrow> closed_item x"
  by (auto simp: all_known_def fail_queued_results_def fail_if_queued_def is_queued_def closed_item_def)

lemma over_limit_inv:
  assumes inv: "import_inv je n (Suc k) r" and k: "k < n"
  shows "import_inv je n (Suc k) (over_limit je k f r)" "jrPending (over_limit je k f r) = []"
proof -
  let ?extra = "failed_item (file_reference k) (ifFormat f) (limit_text (max_entries je))"
  let ?rss = "(jrOutcomes r)[k := jrOutcomes r ! k @ [?extra]]"
  have known: "all_known (jrOutcomes r ! k)"
    using inv k unfolding import_inv_def by auto
  have "\<forall>rs\<in>set ?rss. all_known rs"
    using inv known unfolding import_inv_def
    by (auto simp: all_known_def dest!: subsetD [OF set_update_subset_insert])
  then have settled: "all_closed (map (fail_queued_results ''batch entry limit exceeded'') ?rss)"
    unfolding all_closed_def using fail_queued_settles by fastforce
  show "import_inv je n (Suc k) (over_limit je k f r)"
    using inv settled all_closed_known [OF settled] all_closed_pending [OF settled]
    unfolding import_inv_def by (simp add: over_limit_def Let_def points_def seen_ok_def once_def)
  show "jrPending (over_limit je k f r) = []"
    by (simp add: over_limit_def Let_def)
qed


lemma import_file_inv:
  assumes run: "import_file je k f r = (r', on)" and inv: "import_inv je n k r" "capped je r" and k: "k < n"
    and m: "max_entries je \<ge> 0"
  shows "import_inv je n (Suc k) r' \<and> capped je r'"
proof -
  obtain r1 e1 where e1: "expired_x je r = (r1, e1)"
    by (cases "expired_x je r")
  have r1: "import_inv je n k r1" "capped je r1"
    using e1 inv expired_inv [OF e1] by (auto simp: capped_def expired_x_def split: prod.splits)
  let ?r1 = "publish (change_file k (\<lambda>x. x\<lparr> frStatus := ''running'' \<rparr>)) r1"
  obtain r2 out where p: "parse_file_x je k f ?r1 = (r2, out)"
    by (cases "parse_file_x je k f ?r1")
  obtain r3 e2 where e2: "expired_x je r2 = (r3, e2)"
    by (cases "expired_x je r2")
  obtain w w' where out: "parse_file (jeParsers je) (max_entries je) (jeConvert je) k f w = (w', out)"
    using p by (auto simp: parse_file_x_def split: prod.splits)
  have ok: "file_ok k out"
    using file_ok_parse [OF m out] .
  then have pos: "foCount out \<ge> 0"
    unfolding file_ok_def by linarith
  have r3: "jrOutcomes r3 = jrOutcomes r1" "jrWarnings r3 = jrWarnings r1" "jrPending r3 = jrPending r1"
    "jrSeen r3 = jrSeen r1" "jrNames r3 = jrNames r1" "jrEntries r3 = jrEntries r1 + foCount out"
    using e2 p by (auto simp: expired_x_def parse_file_x_def split: prod.splits)
  have inv3: "import_inv je n k r3"
    by (rule import_inv_cong [OF _ _ _ _ _ r1(1)]) (use r3 pos in auto)
  let ?r4 = "take_file je k out r3"
  have r4: "import_inv je n (Suc k) ?r4"
    by (rule take_file_inv [OF r1(1) k ok]) (use r3 in auto)
  have late: "import_inv je n (Suc k) (publish_progress k (take_outcome k
      (fail_queued_results ''import job timed out'' (foResults out)) (foWarnings out) r3))"
    unfolding import_inv_progress
    by (rule take_outcome_inv [OF inv3 k fail_queued_settles [OF file_ok_known [OF ok]]])
  have entries: "jrEntries ?r4 = jrEntries r3"
    by (simp add: take_file_def Let_def take_outcome_def)
  have cap: "capped je (publish_progress k (take_outcome k rs ws r3))" for rs ws
    using r1(2) r3(3) by (simp add: capped_def take_outcome_def)
  show ?thesis
  proof (cases "e1 \<or> e2 \<or> jrEntries ?r4 > max_entries je")
    case True
    then show ?thesis
      using run import_inv_mono [OF r1(1), of "Suc k"] r1(2) late cap over_limit_inv [OF r4 k] m
      by (auto simp: import_file_def e1 p e2 Let_def capped_def split: if_splits)
  next
    case False
    then show ?thesis
      using run r4 by (auto simp: import_file_def e1 p e2 Let_def capped_def import_inv_def)
  qed
qed

lemma import_files_inv:
  assumes "import_inv je n k r" "capped je r" "k + length fs = n" "max_entries je \<ge> 0"
  shows "import_inv je n n (import_files je k fs r) \<and> capped je (import_files je k fs r)"
  using assms
proof (induction fs arbitrary: k r)
  case (Cons f fs)
  obtain r' on where r': "import_file je k f r = (r', on)"
    by (cases "import_file je k f r")
  have "import_inv je n (Suc k) r' \<and> capped je r'"
    by (rule import_file_inv [OF r' Cons.prems(1,2)]) (use Cons.prems in auto)
  then show ?case
    using Cons.IH [of "Suc k" r'] Cons.prems import_inv_mono [of je n "Suc k" r' n] by (auto simp: r')
qed simp

lemma start_inv: "import_inv je (length fs) 0 (start_run fs j w)"
  by (auto simp: import_inv_def start_run_def all_known_def all_pending_def points_def seen_ok_def once_def)


section \<open>The outcome of the store\<close>

definition all_settled :: "outcomes \<Rightarrow> bool" where
  "all_settled rss \<longleftrightarrow> (\<forall>rs\<in>set rss. \<forall>x\<in>set rs. settled_item x)"

definition valid_places :: "outcomes \<Rightarrow> pending_item list \<Rightarrow> bool" where
  "valid_places rss ps \<longleftrightarrow> distinct (map place ps) \<and>
     (\<forall>p\<in>set ps. piFile p < length rss \<and> piResult p < length (rss ! piFile p))"

lemma valid_points: "points rss ps \<Longrightarrow> valid_places rss ps"
  by (simp add: points_def valid_places_def)

definition change_all :: "(pending_item \<times> (item_result \<Rightarrow> item_result)) list \<Rightarrow> outcomes \<Rightarrow> outcomes" where
  "change_all qs rss = fold (\<lambda>(p, g). change_result p g) qs rss"

lemma change_result_shape:
  "length (change_result p g rss) = length rss" "length (change_result p g rss ! f) = length (rss ! f)"
  by (simp add: change_result_def)
    (cases "piFile p < length rss"; cases "f = piFile p"; simp add: change_result_def nth_list_update list_update_beyond not_less)

lemma change_result_nth:
  "piFile p < length rss \<Longrightarrow> piResult p < length (rss ! piFile p) \<Longrightarrow>
   change_result p g rss ! f ! i = (if (f, i) = place p then g (rss ! f ! i) else rss ! f ! i)"
  by (cases "f = piFile p"; cases "i = piResult p"; simp add: change_result_def place_def)

lemma valid_places_change: "valid_places (change_result p g rss) ps \<longleftrightarrow> valid_places rss ps"
  by (simp add: valid_places_def change_result_shape)

lemma change_all_shape:
  "length (change_all qs rss) = length rss" "length (change_all qs rss ! f) = length (rss ! f)"
  by (induction qs arbitrary: rss) (auto simp: change_all_def change_result_shape)

lemma change_all_other:
  "valid_places rss (map fst qs) \<Longrightarrow> (f, i) \<notin> place ` fst ` set qs \<Longrightarrow> change_all qs rss ! f ! i = rss ! f ! i"
proof (induction qs arbitrary: rss)
  case (Cons q qs)
  have "valid_places (change_result (fst q) (snd q) rss) (map fst qs)"
    using Cons.prems(1) unfolding valid_places_change by (simp add: valid_places_def)
  then have "change_all qs (change_result (fst q) (snd q) rss) ! f ! i = change_result (fst q) (snd q) rss ! f ! i"
    using Cons.prems(2) by (intro Cons.IH) auto
  then show ?case
    using Cons.prems by (auto simp: change_all_def case_prod_unfold change_result_nth valid_places_def)
qed (simp add: change_all_def)

lemma change_all_at:
  "valid_places rss (map fst qs) \<Longrightarrow> (p, g) \<in> set qs \<Longrightarrow>
   change_all qs rss ! piFile p ! piResult p = g (rss ! piFile p ! piResult p)"
proof (induction qs arbitrary: rss)
  case (Cons q qs)
  let ?rss = "change_result (fst q) (snd q) rss"
  have valid: "valid_places ?rss (map fst qs)" "piFile (fst q) < length rss"
    "piResult (fst q) < length (rss ! piFile (fst q))" "place (fst q) \<notin> place ` fst ` set qs"
    using Cons.prems(1) unfolding valid_places_change by (auto simp: valid_places_def)
  have step: "change_all (q # qs) rss = change_all qs ?rss"
    by (simp add: change_all_def case_prod_unfold)
  show ?case
  proof (cases "(p, g) = q")
    case True
    then have "(piFile p, piResult p) \<notin> place ` fst ` set qs"
      using valid(4) by (metis fst_conv place_def)
    then have "change_all qs ?rss ! piFile p ! piResult p = ?rss ! piFile p ! piResult p"
      by (rule change_all_other [OF valid(1)])
    moreover have "fst q = p" "snd q = g"
      using True by auto
    ultimately show ?thesis
      using valid(2,3) unfolding step by (simp add: change_result_nth place_def)
  next
    case False
    then have "(p, g) \<in> set qs"
      using Cons.prems(2) by auto
    moreover from this have "place p \<in> place ` fst ` set qs"
      by (intro image_eqI [where x = p] image_eqI [where x = "(p, g)"]) simp_all
    then have "(piFile p, piResult p) \<noteq> place (fst q)"
      using valid(4) by (metis place_def)
    ultimately show ?thesis
      using valid Cons.IH [OF valid(1)] unfolding step by (simp add: change_result_nth)
  qed
qed simp

text \<open>Changing every pending result settles all.\<close>

lemma change_all_settles:
  assumes inv: "import_inv je n n r" and ps: "map fst qs = jrPending r"
    and g: "\<And>p g x. (p, g) \<in> set qs \<Longrightarrow> closed_item x \<or> is_queued x \<Longrightarrow> settled_item (g x)"
  shows "all_settled (change_all qs (jrOutcomes r))"
proof -
  let ?rss = "jrOutcomes r"
  have valid: "valid_places ?rss (map fst qs)"
    using inv unfolding ps import_inv_def by (blast intro: valid_points)
  have known: "closed_item (?rss ! f ! i) \<or> is_queued (?rss ! f ! i)"
    if "f < length ?rss" "i < length (?rss ! f)" for f i
    using inv that unfolding import_inv_def all_known_def by (meson nth_mem)
  have "settled_item (change_all qs ?rss ! f ! i)" if fi: "f < length ?rss" "i < length (?rss ! f)" for f i
  proof (cases "(f, i) \<in> place ` fst ` set qs")
    case True
    then obtain p g' where p: "(p, g') \<in> set qs" "f = piFile p" "i = piResult p"
      by (auto simp: place_def)
    show ?thesis
      using change_all_at [OF valid p(1)] g [OF p(1) known [OF fi]] p by simp
  next
    case False
    then have "(f, i) \<notin> place ` set (jrPending r)"
      using ps by (metis image_set)
    then have "closed_item (?rss ! f ! i)"
      using inv fi unfolding import_inv_def all_pending_def by blast
    then show ?thesis
      using change_all_other [OF valid False] by (simp add: closed_settled)
  qed
  then show ?thesis
    unfolding all_settled_def by (metis change_all_shape in_set_conv_nth)
qed


lemma give_up_change: "jrOutcomes (give_up_pending r) =
    change_all (map (\<lambda>p. (p, fail_if_queued ''import job timed out'')) (jrPending r)) (jrOutcomes r)"
  by (simp add: give_up_pending_def fail_pending_results_def change_all_def fold_map comp_def)

lemma fail_if_queued_settles: "closed_item x \<or> is_queued x \<Longrightarrow> settled_item (fail_if_queued msg x)"
  by (auto simp: fail_if_queued_def is_queued_def settled_item_def closed_item_def)

lemma give_up_settles: "import_inv je n n r \<Longrightarrow> all_settled (jrOutcomes (give_up_pending r))"
  unfolding give_up_change by (rule change_all_settles) (auto simp: comp_def intro: fail_if_queued_settles)

lemma stored_settles [simp]: "settled_item (stored_as cb x)" "settled_item (not_stored x)"
  by (simp_all add: stored_as_def not_stored_def settled_item_def)

lemma store_inputs_settles:
  assumes "import_inv je n n r"
  shows "all_settled (jrOutcomes (store_inputs je r))"
proof -
  have failed: "all_settled (change_all (map (\<lambda>p. (p, not_stored)) (jrPending r)) (jrOutcomes r))"
    by (rule change_all_settles [OF assms]) (auto simp: comp_def)
  have stored: "all_settled (change_all (map (\<lambda>(p, cb). (p, stored_as cb)) (zip (jrPending r) cbs)) (jrOutcomes r))"
    if "length cbs = length (jrPending r)" for cbs
    by (rule change_all_settles [OF assms]) (use that in \<open>auto simp: comp_def case_prod_unfold\<close>)
  show ?thesis
    using failed stored
    by (auto simp: store_inputs_def Let_def change_all_def fold_map comp_def case_prod_unfold split: prod.splits sum.splits)
qed

lemma store_pending_settles:
  assumes "import_inv je n n r"
  shows "all_settled (jrOutcomes (store_pending je r))"
proof (cases "jrPending r = []")
  case True
  then show ?thesis
    using assms closed_settled unfolding import_inv_def all_pending_def all_settled_def store_pending_def
    by (auto simp: in_set_conv_nth)
next
  case False
  obtain r1 e1 where e1: "expired_x je r = (r1, e1)"
    by (cases "expired_x je r")
  obtain r2 e2 where e2: "expired_x je r1 = (r2, e2)"
    by (cases "expired_x je r1")
  show ?thesis
    using False expired_inv [OF e1 assms] expired_inv [OF e2 expired_inv [OF e1 assms]]
    by (auto simp: store_pending_def e1 e2 give_up_settles store_inputs_settles)
qed


section \<open>The finished job\<close>

lemma settled_counts:
  assumes "\<forall>x\<in>set rs. settled_item x"
  shows "with_status ''queued'' rs = 0"
    "with_status ''created'' rs + with_status ''updated'' rs + with_status ''skipped'' rs + with_status ''failed'' rs = length rs"
  using assms by (induction rs) (auto simp: with_status_def settled_item_def)

definition file_settled :: "file_result \<Rightarrow> bool" where
  "file_settled f \<longleftrightarrow> (\<forall>x\<in>set (frResults f). settled_item x) \<and> frTotal f = length (frResults f) \<and>
     frProcessed f = frTotal f \<and> frCreated f + frUpdated f + frSkipped f + frFailed f = frTotal f"

lemma summarize_settles: "\<forall>x\<in>set (frResults f). settled_item x \<Longrightarrow> file_settled (summarize_file True f)"
  using settled_counts [of "frResults f"]
  by (auto simp: summarize_file_def Let_def file_settled_def with_status_def closed_settled)

lemma files_settled_sums:
  assumes "\<forall>f\<in>set fs. file_settled f"
  shows "sum_list (map frProcessed fs) = sum_list (map frTotal fs)"
    "sum_list (map frCreated fs) + sum_list (map frUpdated fs) + sum_list (map frSkipped fs) +
       sum_list (map frFailed fs) = sum_list (map frTotal fs)"
    "length (concat (map frResults fs)) = sum_list (map frTotal fs)"
  using assms by (induction fs) (auto simp: file_settled_def)

lemma finish_job_settles:
  assumes "all_settled rss" "length rss = length (jbFiles j0)" "j = finish_job rss wss e now j0"
  shows "\<forall>f\<in>set (jbFiles j). file_settled f" "length (jbFiles j) = length (jbFiles j0)"
proof -
  have "settled_item x" if "(k, f) \<in> set (enumerate 0 (jbFiles j0))" "x \<in> set (frResults (finish_file (rss ! k) ws f))" for k f ws x
    using that assms(1,2) by (auto simp: in_set_enumerate_eq finish_file_def all_settled_def)
  then show "\<forall>f\<in>set (jbFiles j). file_settled f"
    unfolding assms(3) by (auto simp: finish_job_def summarize_job_def Let_def intro!: summarize_settles)
  show "length (jbFiles j) = length (jbFiles j0)"
    by (simp add: assms(3) finish_job_def summarize_job_def Let_def)
qed

lemma finish_job_sums:
  assumes "\<forall>f\<in>set (jbFiles j). file_settled f" and j: "j = finish_job rss wss e now j0"
  shows "jbFinishedAt j = Some now" "list_all settled_item (jbResults j)" "length (jbResults j) = jbTotal j"
    "jbProcessed j = jbTotal j" "jbCreated j + jbUpdated j + jbSkipped j + jbFailed j = jbTotal j"
    "jbStatus j = outcome_status (jbFailed j) (jbCreated j + jbUpdated j + jbSkipped j)"
proof -
  have fs: "jbResults j = concat (map frResults (jbFiles j))" "jbTotal j = sum_list (map frTotal (jbFiles j))"
    "jbProcessed j = sum_list (map frProcessed (jbFiles j))" "jbCreated j = sum_list (map frCreated (jbFiles j))"
    "jbUpdated j = sum_list (map frUpdated (jbFiles j))" "jbSkipped j = sum_list (map frSkipped (jbFiles j))"
    "jbFailed j = sum_list (map frFailed (jbFiles j))" "jbFinishedAt j = Some now"
    "jbStatus j = outcome_status (jbFailed j) (jbCreated j + jbUpdated j + jbSkipped j)"
    by (simp_all add: j finish_job_def summarize_job_def Let_def)
  show "jbFinishedAt j = Some now" "jbStatus j = outcome_status (jbFailed j) (jbCreated j + jbUpdated j + jbSkipped j)"
    by (simp_all only: fs(8,9))
  show "list_all settled_item (jbResults j)"
    using assms(1) by (auto simp: fs(1) list_all_iff file_settled_def)
  show "length (jbResults j) = jbTotal j" "jbProcessed j = jbTotal j"
    "jbCreated j + jbUpdated j + jbSkipped j + jbFailed j = jbTotal j"
    using files_settled_sums [OF assms(1)] by (simp_all add: fs)
qed

text \<open>The files of a job are those of its batch throughout.\<close>

lemma files_publish:
  "length (jbFiles (jrJob (publish f r))) = length (jbFiles (f (jrJob r)))"
  by (simp add: publish_def)

lemma files_progress [simp]: "length (jbFiles (jrJob (publish_progress k r))) = length (jbFiles (jrJob r))"
  by (simp add: publish_progress_def publish_def summarize_job_def change_file_def Let_def)

lemma files_import_file: "import_file je k f r = (r', on) \<Longrightarrow> length (jbFiles (jrJob r')) = length (jbFiles (jrJob r))"
  by (auto simp: import_file_def expired_x_def parse_file_x_def take_file_def over_limit_def take_outcome_def
      publish_def change_file_def Let_def split: prod.splits if_splits)

lemma files_import_files: "length (jbFiles (jrJob (import_files je k fs r))) = length (jbFiles (jrJob r))"
  by (induction fs arbitrary: k r) (auto dest: files_import_file split: prod.splits)

lemma job_store_pending: "jrJob (store_pending je r) = jrJob r"
  by (auto simp: store_pending_def expired_x_def give_up_pending_def store_inputs_def Let_def split: prod.splits sum.splits)

lemma outcomes_store_pending: "length (jrOutcomes (store_pending je r)) = length (jrOutcomes r)"
proof -
  have "length (jrOutcomes (store_inputs je r)) = length (jrOutcomes r)" for r
    using change_all_shape(1) [of "map (\<lambda>p. (p, not_stored)) (jrPending r)" "jrOutcomes r"]
      change_all_shape(1) [of "map (\<lambda>(p, cb). (p, stored_as cb)) (zip (jrPending r) cbs)" "jrOutcomes r" for cbs]
    by (auto simp: store_inputs_def Let_def change_all_def fold_map comp_def case_prod_unfold split: prod.splits sum.splits)
  then show ?thesis
    by (auto simp: store_pending_def expired_x_def give_up_change change_all_shape split: prod.splits)
qed


lemma run_job_finishes:
  assumes "0 \<le> max_entries je" "length (jbFiles j) = length fs"
  obtains rss wss e now j0 where "jrJob (run_job je fs j w) = finish_job rss wss e now j0"
    "all_settled rss" "length rss = length fs" "length (jbFiles j0) = length fs"
    "last (jrPublished (run_job je fs j w)) = jrJob (run_job je fs j w)"
proof -
  obtain r0 now where r0: "now_j je (start_run fs j w) = (r0, now)"
    by (cases "now_j je (start_run fs j w)")
  let ?r1 = "publish (\<lambda>j. j\<lparr> jbStatus := ''running'', jbStartedAt := Some now \<rparr>) r0"
  obtain off n where pre: "preflight_entries (jeParsers je) (max_entries je) fs = (off, n)"
    by (cases "preflight_entries (jeParsers je) (max_entries je) fs")
  have inv: "import_inv je (length fs) 0 ?r1"
    using start_inv [of je fs j w] r0 by (auto simp: now_j_def import_inv_def split: prod.splits)
  have files: "length (jbFiles (jrJob ?r1)) = length fs"
    using r0 assms(2) by (auto simp: now_j_def start_run_def publish_def split: prod.splits)
  have fin: "\<exists>now' w'. jrJob (finish_run je e r) = finish_job (jrOutcomes r) (jrWarnings r) e now' (jrJob r) \<and>
      last (jrPublished (finish_run je e r)) = jrJob (finish_run je e r)" for e r
    by (auto simp: finish_run_def now_j_def publish_def split: prod.splits)
  show thesis
  proof (cases "n > max_entries je")
    case True
    let ?rss = "map (rejected_file je off) (enumerate 0 fs)"
    have "all_settled ?rss"
      by (auto simp: all_settled_def rejected_file_def intro: closed_settled)
    then show thesis
      using that fin [of False "?r1\<lparr> jrOutcomes := ?rss \<rparr>"] files True r0 pre
      by (auto simp: run_job_def Let_def)
  next
    case False
    let ?r2 = "store_pending je (import_files je 0 fs ?r1)"
    have r1: "capped je ?r1"
      using assms(1) r0 by (auto simp: capped_def now_j_def start_run_def split: prod.splits)
    have inv2: "import_inv je (length fs) (length fs) (import_files je 0 fs ?r1)"
      using import_files_inv [OF inv r1] assms(1) by simp
    obtain r3 e where r3: "expired_x je ?r2 = (r3, e)"
      by (cases "expired_x je ?r2")
    have "jrOutcomes r3 = jrOutcomes ?r2" "jrJob r3 = jrJob ?r2" "jrWarnings r3 = jrWarnings ?r2"
      using r3 by (auto simp: expired_x_def split: prod.splits)
    moreover have "length (jrOutcomes ?r2) = length fs"
      using inv2 by (simp add: outcomes_store_pending import_inv_def)
    moreover have "length (jbFiles (jrJob ?r2)) = length fs"
      using files by (simp add: job_store_pending files_import_files)
    ultimately show thesis
      using that fin [of e r3] store_pending_settles [OF inv2] False r0 pre r3
      by (auto simp: run_job_def Let_def)
  qed
qed



section \<open>What reaches the store\<close>

text \<open>The same environment, with a log of the calls of the store and their answers.\<close>

type_synonym bulk_log = "(cred_input list \<times> (goerr + (credential \<times> bool) list)) list"

definition recording :: "'w job_env \<Rightarrow> ('w \<times> bulk_log) job_env" where
  "recording je = \<lparr> jeParsers = jeParsers je, jeLimits = jeLimits je,
     jeConvert = map_option (\<lambda>f wl vs. case f (fst wl) vs of (w, r) \<Rightarrow> ((w, snd wl), r)) (jeConvert je),
     jeBulk = (\<lambda>wl is. case jeBulk je (fst wl) is of (w, r) \<Rightarrow> ((w, snd wl @ [(is, r)]), r)),
     jeBefore = map_option (\<lambda>f wl. (f (fst wl), snd wl)) (jeBefore je),
     jeStored = map_option (\<lambda>f wl cbs. (f (fst wl) cbs, snd wl)) (jeStored je),
     jeExpired = (\<lambda>wl. case jeExpired je (fst wl) of (w, e) \<Rightarrow> ((w, snd wl), e)),
     jeNow = (\<lambda>wl. case jeNow je (fst wl) of (w, t) \<Rightarrow> ((w, snd wl), t)) \<rparr>"

lemma recording_simps [simp]:
  "jeParsers (recording je) = jeParsers je" "jeLimits (recording je) = jeLimits je"
  "max_entries (recording je) = max_entries je"
  by (simp_all add: recording_def max_entries_def)

lemma log_expired: "expired_x (recording je) r = (r', e) \<Longrightarrow> snd (jrWorld r') = snd (jrWorld r)"
  by (auto simp: expired_x_def recording_def split: prod.splits)

lemma log_now: "now_j (recording je) r = (r', t) \<Longrightarrow> snd (jrWorld r') = snd (jrWorld r)"
  by (auto simp: now_j_def recording_def split: prod.splits)

lemma log_convert: "convert_values (jeConvert (recording je)) k vs w = (w', out) \<Longrightarrow> snd w' = snd w"
  by (auto simp: convert_values_def recording_def Let_def split: option.splits prod.splits sum.splits if_splits)

lemma log_parse_sso: "parse_sso_file ip l (jeConvert (recording je)) jerr k f w = (w', out) \<Longrightarrow> snd w' = snd w"
  by (auto simp: parse_sso_file_def Let_def dest: log_convert split: sum.splits if_splits)

lemma log_parse: "parse_file ip l (jeConvert (recording je)) k f w = (w', out) \<Longrightarrow> snd w' = snd w"
  by (auto simp: parse_file_def Let_def dest: log_parse_sso split: sum.splits if_splits prod.splits import_error.splits)

lemma log_parse_x: "parse_file_x (recording je) k f r = (r', out) \<Longrightarrow> snd (jrWorld r') = snd (jrWorld r)"
  by (auto simp: parse_file_x_def dest: log_parse split: prod.splits)

lemma log_take_file [simp]: "jrWorld (take_file je k out r) = jrWorld r"
  by (simp add: take_file_def Let_def take_outcome_def)

lemma log_over_limit [simp]: "jrWorld (over_limit je k f r) = jrWorld r"
  by (simp add: over_limit_def Let_def)

lemma log_import_file: "import_file (recording je) k f r = (r', on) \<Longrightarrow> snd (jrWorld r') = snd (jrWorld r)"
  by (auto simp: import_file_def Let_def take_outcome_def dest!: log_expired log_parse_x split: prod.splits if_splits)

lemma log_import_files: "snd (jrWorld (import_files (recording je) k fs r)) = snd (jrWorld r)"
  by (induction fs arbitrary: k r) (auto dest: log_import_file split: prod.splits)

text \<open>The inputs of the one call, if there is one.\<close>

definition stores_once :: "'w job_env \<Rightarrow> bulk_log \<Rightarrow> bool" where
  "stores_once je l \<longleftrightarrow> l = [] \<or> (\<exists>is ans. l = [(is, ans)] \<and> is \<noteq> [] \<and> once (ipHash (jeParsers je)) is \<and>
     int (length is) \<le> liMaxEntries (jeLimits je))"

lemma log_store_inputs:
  "\<exists>ans. snd (jrWorld (store_inputs (recording je) r)) = snd (jrWorld r) @ [(map piInput (jrPending r), ans)]"
  by (auto simp: store_inputs_def recording_def Let_def split: prod.splits sum.splits option.splits)

lemma log_store_pending:
  assumes "snd (jrWorld r) = []" "import_inv (recording je) n n r" "capped (recording je) r"
  shows "stores_once je (snd (jrWorld (store_pending (recording je) r)))"
proof (cases "jrPending r = []")
  case False
  obtain r1 e1 where e1: "expired_x (recording je) r = (r1, e1)"
    by (cases "expired_x (recording je) r")
  obtain r2 e2 where e2: "expired_x (recording je) r1 = (r2, e2)"
    by (cases "expired_x (recording je) r1")
  have logs: "snd (jrWorld r1) = []" "snd (jrWorld r2) = []"
    using log_expired [OF e1] log_expired [OF e2] assms(1) by simp_all
  have "jrPending r2 = jrPending r"
    using e1 e2 by (auto simp: expired_x_def split: prod.splits)
  then obtain ans where ans: "snd (jrWorld (store_inputs (recording je) r2)) = [(map piInput (jrPending r), ans)]"
    using log_store_inputs [of je r2] logs(2) by auto
  have "stores_once je (snd (jrWorld (store_inputs (recording je) r2)))"
    using assms(2,3) False unfolding ans stores_once_def import_inv_def seen_ok_def capped_def
    by (auto simp: max_entries_def recording_def)
  then show ?thesis
    using False logs by (auto simp: store_pending_def e1 e2 give_up_pending_def stores_once_def)
qed (use assms in \<open>simp add: store_pending_def stores_once_def\<close>)

text \<open>
  C10: At most one write with every account once.  A job asks the store at most once, with at least one and
  at most \<open>MaxEntries\<close> inputs, no two of which have the same identity.
\<close>

theorem batch_stored_once:
  assumes "0 \<le> liMaxEntries (jeLimits je)"
  shows "stores_once je (snd (jrWorld (run_job (recording je) fs (new_job nm t fs) (w, []))))"
proof -
  let ?je = "recording je"
  let ?j = "new_job nm t fs"
  obtain r0 now where r0: "now_j ?je (start_run fs ?j (w, [])) = (r0, now)"
    by (cases "now_j ?je (start_run fs ?j (w, []))")
  let ?r1 = "publish (\<lambda>j. j\<lparr> jbStatus := ''running'', jbStartedAt := Some now \<rparr>) r0"
  have log: "snd (jrWorld ?r1) = []"
    using log_now [OF r0] by (simp add: start_run_def)
  have "import_inv ?je (length fs) 0 ?r1" "capped ?je ?r1"
    using start_inv [of ?je fs ?j "(w, [])"] r0 assms
    by (auto simp: now_j_def import_inv_def capped_def start_run_def max_entries_def split: prod.splits)
  then have "import_inv ?je (length fs) (length fs) (import_files ?je 0 fs ?r1) \<and>
      capped ?je (import_files ?je 0 fs ?r1)"
    by (rule import_files_inv) (use assms in \<open>simp_all add: max_entries_def\<close>)
  then have stored: "stores_once je (snd (jrWorld (store_pending ?je (import_files ?je 0 fs ?r1))))"
    using log log_store_pending [of "import_files ?je 0 fs ?r1" je "length fs"] by (simp add: log_import_files)
  have fin: "snd (jrWorld (finish_run ?je e r)) = snd (jrWorld r)" for e r
    by (auto simp: finish_run_def dest: log_now split: prod.splits)
  show ?thesis
    unfolding run_job_def r0 prod.case Let_def
    using stored log
    by (auto simp: fin stores_once_def dest: log_expired split: prod.splits)
qed


section \<open>What is reported as stored\<close>

definition reported :: "item_result \<Rightarrow> cred_input \<Rightarrow> credential \<times> bool \<Rightarrow> bool" where
  "reported x i cb \<longleftrightarrow> itSource x = iSourceKey i \<and> itCredentialID x = cID (fst cb) \<and>
     itStatus x = (if snd cb then ''created'' else ''updated'')"

lemma results_of_finish:
  assumes "j = finish_job rss wss e now j0" "length rss = length (jbFiles j0)"
  shows "f < length rss \<Longrightarrow> i < length (rss ! f) \<Longrightarrow> rss ! f ! i \<in> set (jbResults j)"
    and "x \<in> set (jbResults j) \<Longrightarrow> closed_item x \<or> (\<exists>f i. f < length rss \<and> i < length (rss ! f) \<and> x = rss ! f ! i)"
proof -
  let ?f = "\<lambda>k. summarize_file True (finish_file (rss ! k) (wss ! k) (jbFiles j0 ! k))"
  have files: "jbFiles j = map ?f [0..<length rss]"
    by (rule nth_equalityI)
      (simp_all add: assms finish_job_def summarize_job_def Let_def nth_enumerate_eq)
  have results: "jbResults j = concat (map frResults (jbFiles j))"
    by (simp add: assms finish_job_def summarize_job_def Let_def)
  have shown: "frResults (?f k) = rss ! k \<or> rss ! k = [] \<and> (\<forall>x\<in>set (frResults (?f k)). closed_item x)" for k
    by (auto simp: summarize_file_def finish_file_def Let_def)
  show "rss ! f ! i \<in> set (jbResults j)" if "f < length rss" "i < length (rss ! f)"
  proof -
    have "frResults (?f f) = rss ! f"
      using shown [of f] that(2) by (metis less_nat_zero_code list.size(3))
    then show ?thesis
      using that unfolding results files by force
  qed
  show "closed_item x \<or> (\<exists>f i. f < length rss \<and> i < length (rss ! f) \<and> x = rss ! f ! i)"
    if x: "x \<in> set (jbResults j)"
  proof -
    obtain k where k: "k < length rss" "x \<in> set (frResults (?f k))"
      using x unfolding results files by auto
    then show ?thesis
      using shown [of k] by (metis in_set_conv_nth)
  qed
qed

lemma store_inputs_stored:
  assumes "snd (jrWorld q) = []" "snd (jrWorld (store_inputs (recording je) q)) = [(is, Inr stored)]"
    "length stored = length is"
  shows "is = map piInput (jrPending q)" "jrOutcomes (store_inputs (recording je) q) =
      change_all (map (\<lambda>(p, cb). (p, stored_as cb)) (zip (jrPending q) stored)) (jrOutcomes q)"
proof -
  let ?w0 = "case jeBefore (recording je) of None \<Rightarrow> jrWorld q | Some f \<Rightarrow> f (jrWorld q)"
  obtain w1 res where bulk: "jeBulk (recording je) ?w0 (map piInput (jrPending q)) = (w1, res)"
    by (cases "jeBulk (recording je) ?w0 (map piInput (jrPending q))")
  have w0: "snd ?w0 = []"
    using assms(1) by (auto simp: recording_def split: option.splits)
  have w1: "snd w1 = [(map piInput (jrPending q), res)]"
    using bulk w0 by (auto simp: recording_def split: prod.splits)
  have kept: "snd (case jeStored (recording je) of None \<Rightarrow> w1 | Some f \<Rightarrow> f w1 cbs) = snd w1" for cbs
    by (auto simp: recording_def split: option.splits)
  have "snd (jrWorld (store_inputs (recording je) q)) = snd w1"
    using kept by (simp add: store_inputs_def bulk Let_def split: sum.split)
  then have eq: "is = map piInput (jrPending q)" "res = Inr stored"
    using assms(2) w1 by simp_all
  show "is = map piInput (jrPending q)"
    by (rule eq(1))
  have "length stored = length (jrPending q)"
    using assms(3) eq(1) by simp
  then show "jrOutcomes (store_inputs (recording je) q) =
      change_all (map (\<lambda>(p, cb). (p, stored_as cb)) (zip (jrPending q) stored)) (jrOutcomes q)"
    using bulk eq(2) by (simp add: store_inputs_def Let_def change_all_def fold_map comp_def case_prod_unfold)
qed

lemma store_pending_stored:
  assumes "snd (jrWorld r) = []" and inv: "import_inv (recording je) n n r"
    and log: "snd (jrWorld (store_pending (recording je) r)) = [(is, Inr stored)]" "length stored = length is"
  obtains q where "import_inv (recording je) n n q" "is = map piInput (jrPending q)"
    "jrOutcomes (store_pending (recording je) r) =
      change_all (map (\<lambda>(p, cb). (p, stored_as cb)) (zip (jrPending q) stored)) (jrOutcomes q)"
proof -
  obtain r1 e1 where e1: "expired_x (recording je) r = (r1, e1)"
    by (cases "expired_x (recording je) r")
  obtain r2 e2 where e2: "expired_x (recording je) r1 = (r2, e2)"
    by (cases "expired_x (recording je) r1")
  have logs: "snd (jrWorld r1) = []" "snd (jrWorld r2) = []"
    using log_expired [OF e1] log_expired [OF e2] assms(1) by simp_all
  have q: "store_pending (recording je) r = store_inputs (recording je) r2"
    using log(1) assms(1) logs by (auto simp: store_pending_def e1 e2 give_up_pending_def split: if_splits)
  have "import_inv (recording je) n n r2"
    by (rule expired_inv [OF e2 expired_inv [OF e1 inv]])
  then show thesis
    using that store_inputs_stored [OF logs(2) log(1) [unfolded q] log(2)] unfolding q by blast
qed

text \<open>The state in which a job stored its inputs.\<close>

lemma run_stored:
  assumes limit: "0 \<le> liMaxEntries (jeLimits je)"
    and log: "snd (jrWorld (run_job (recording je) fs (new_job nm t fs) (w, []))) = [(is, Inr stored)]"
    and n: "length stored = length is"
  obtains r0 wss e now j0 where "import_inv (recording je) (length fs) (length fs) r0" "is = map piInput (jrPending r0)"
    "length (jbFiles j0) = length fs"
    "jrJob (run_job (recording je) fs (new_job nm t fs) (w, [])) = finish_job
       (change_all (map (\<lambda>(p, cb). (p, stored_as cb)) (zip (jrPending r0) stored)) (jrOutcomes r0)) wss e now j0"
proof -
  let ?je = "recording je"
  let ?j = "new_job nm t fs"
  obtain r0 now where r0: "now_j ?je (start_run fs ?j (w, [])) = (r0, now)"
    by (cases "now_j ?je (start_run fs ?j (w, []))")
  let ?r1 = "publish (\<lambda>j. j\<lparr> jbStatus := ''running'', jbStartedAt := Some now \<rparr>) r0"
  let ?r = "import_files ?je 0 fs ?r1"
  obtain r2 e where r2: "expired_x ?je (store_pending ?je ?r) = (r2, e)"
    by (cases "expired_x ?je (store_pending ?je ?r)")
  have log1: "snd (jrWorld ?r1) = []"
    using log_now [OF r0] by (simp add: start_run_def)
  have "import_inv ?je (length fs) 0 ?r1" "capped ?je ?r1"
    using start_inv [of ?je fs ?j "(w, [])"] r0 limit
    by (auto simp: now_j_def import_inv_def capped_def start_run_def max_entries_def split: prod.splits)
  then have inv: "import_inv ?je (length fs) (length fs) ?r"
    using import_files_inv [of ?je "length fs" 0 ?r1 fs] limit by (simp add: max_entries_def)
  have files: "length (jbFiles (jrJob r2)) = length fs"
    using r2 r0 by (auto simp: expired_x_def job_store_pending files_import_files publish_def now_j_def start_run_def
        new_job_def split: prod.splits)
  have fin: "\<exists>now'. jrJob (finish_run ?je e r) = finish_job (jrOutcomes r) (jrWarnings r) e now' (jrJob r)" for e r
    by (auto simp: finish_run_def now_j_def publish_def split: prod.splits)
  have fin_log: "snd (jrWorld (finish_run ?je e r)) = snd (jrWorld r)" for e r
    by (auto simp: finish_run_def dest: log_now split: prod.splits)
  have run: "run_job ?je fs ?j (w, []) = finish_run ?je e r2"
    using log log1 unfolding run_job_def r0 prod.case Let_def
    by (auto simp: fin_log r2 split: prod.splits if_splits)
  have log2: "snd (jrWorld (store_pending ?je ?r)) = [(is, Inr stored)]"
    using log log_expired [OF r2] unfolding run fin_log by simp
  have log0: "snd (jrWorld ?r) = []"
    using log1 by (simp add: log_import_files)
  obtain q where q: "import_inv ?je (length fs) (length fs) q" "is = map piInput (jrPending q)"
      "jrOutcomes (store_pending ?je ?r) =
        change_all (map (\<lambda>(p, cb). (p, stored_as cb)) (zip (jrPending q) stored)) (jrOutcomes q)"
    by (rule store_pending_stored [OF log0 inv log2 n])
  moreover have "jrOutcomes r2 = jrOutcomes (store_pending ?je ?r)"
    using r2 by (auto simp: expired_x_def split: prod.splits)
  ultimately show thesis
    using that [OF q(1,2)] files fin [of e r2] unfolding run by metis
qed


lemma reported_at:
  assumes inv: "import_inv je n n q" and n: "length stored = length (jrPending q)" "k < length stored"
    and rss: "rss = change_all (map (\<lambda>(p, cb). (p, stored_as cb)) (zip (jrPending q) stored)) (jrOutcomes q)"
  shows "reported (rss ! piFile (jrPending q ! k) ! piResult (jrPending q ! k)) (piInput (jrPending q ! k)) (stored ! k)"
proof -
  let ?qs = "map (\<lambda>(p, cb). (p, stored_as cb)) (zip (jrPending q) stored)"
  let ?p = "jrPending q ! k"
  have p: "?p \<in> set (jrPending q)"
    using n by simp
  have "map fst ?qs = jrPending q"
    using n(1) by (simp add: comp_def case_prod_unfold)
  then have valid: "valid_places (jrOutcomes q) (map fst ?qs)"
    using inv unfolding import_inv_def by (metis valid_points)
  have "(?p, stored_as (stored ! k)) \<in> set ?qs"
    using n by (force simp: set_zip)
  then have "rss ! piFile ?p ! piResult ?p = stored_as (stored ! k) (jrOutcomes q ! piFile ?p ! piResult ?p)"
    unfolding rss by (rule change_all_at [OF valid])
  moreover have "iSourceKey (piInput ?p) = itSource (jrOutcomes q ! piFile ?p ! piResult ?p)"
    using inv p unfolding import_inv_def points_def by blast
  ultimately show ?thesis
    by (simp add: reported_def stored_as_def)
qed

text \<open>
  C11: What is reported as stored is what the store answered.  When the store took the batch, each of its
  inputs is reported under its own source with the identifier of the stored credential, as created or updated
  as the store said; and every item reported created or updated is one of them.
\<close>

theorem reported_as_stored:
  assumes "0 \<le> liMaxEntries (jeLimits je)" and "r = run_job (recording je) fs (new_job nm t fs) (w, [])"
    and "snd (jrWorld r) = [(is, Inr stored)]" and "length stored = length is"
  shows "(\<forall>k. k < length is \<longrightarrow> (\<exists>x. x \<in> set (jbResults (jrJob r)) \<and> reported x (is ! k) (stored ! k))) \<and>
    (\<forall>x. x \<in> set (jbResults (jrJob r)) \<longrightarrow>
       closed_item x \<or> (\<exists>k. k < length is \<and> reported x (is ! k) (stored ! k)))"
proof -
  obtain q wss e now j0 where q: "import_inv (recording je) (length fs) (length fs) q" "is = map piInput (jrPending q)"
    "length (jbFiles j0) = length fs"
    "jrJob r = finish_job
       (change_all (map (\<lambda>(p, cb). (p, stored_as cb)) (zip (jrPending q) stored)) (jrOutcomes q)) wss e now j0"
    using run_stored [OF assms(1) assms(3) [unfolded assms(2)] assms(4)] unfolding assms(2) by metis
  let ?qs = "map (\<lambda>(p, cb). (p, stored_as cb)) (zip (jrPending q) stored)"
  let ?rss = "change_all ?qs (jrOutcomes q)"
  have len: "length stored = length (jrPending q)" "length ?rss = length (jbFiles j0)"
    using assms(4) q(1,2,3) by (simp_all add: change_all_shape import_inv_def)
  note results = results_of_finish [OF q(4) len(2)]
  note at = reported_at [OF q(1) len(1) _ refl]
  have first: "\<exists>x. x \<in> set (jbResults (jrJob r)) \<and> reported x (is ! k) (stored ! k)" if "k < length is" for k
  proof -
    let ?p = "jrPending q ! k"
    have "?p \<in> set (jrPending q)"
      using that q(2) by simp
    then have "piFile ?p < length ?rss" "piResult ?p < length (?rss ! piFile ?p)"
      using q(1) unfolding import_inv_def points_def change_all_shape by blast+
    then show ?thesis
      using results(1) at [of k] that q(2) len(1) by fastforce
  qed
  have second: "closed_item x \<or> (\<exists>k. k < length is \<and> reported x (is ! k) (stored ! k))"
    if x: "x \<in> set (jbResults (jrJob r))" for x
  proof (rule ccontr)
    assume no: "\<not> (closed_item x \<or> (\<exists>k. k < length is \<and> reported x (is ! k) (stored ! k)))"
    then obtain f i where fi: "f < length ?rss" "i < length (?rss ! f)" "x = ?rss ! f ! i"
      using results(2) [OF x] by blast
    have fst: "map fst ?qs = jrPending q"
      using len(1) by (simp add: comp_def case_prod_unfold)
    then have valid: "valid_places (jrOutcomes q) (map fst ?qs)"
      using q(1) unfolding import_inv_def by (metis valid_points)
    show False
    proof (cases "(f, i) \<in> place ` set (jrPending q)")
      case True
      then obtain k where k: "k < length (jrPending q)" "f = piFile (jrPending q ! k)" "i = piResult (jrPending q ! k)"
        by (auto simp: place_def in_set_conv_nth)
      have is_k: "k < length is" "is ! k = piInput (jrPending q ! k)" "k < length stored"
        using k(1) q(2) len(1) by simp_all
      have "reported x (is ! k) (stored ! k)"
        unfolding fi(3) k(2,3) is_k(2) by (rule at [OF is_k(3)])
      then show False
        using no is_k(1) by blast
    next
      case False
      have "fst ` set ?qs = set (jrPending q)"
        unfolding image_set fst ..
      then have "x = jrOutcomes q ! f ! i"
        unfolding fi(3) using False by (intro change_all_other [OF valid]) simp
      then show False
        using False no q(1) fi(1,2) unfolding import_inv_def all_pending_def change_all_shape by blast
    qed
  qed
  show ?thesis
    using first second by blast
qed


section \<open>A sample batch\<close>

text \<open>Three lines of an SSO document, two of them the same account.\<close>

definition sample_parsers_i :: import_parsers where
  "sample_parsers_i = \<lparr> ipURL = (\<lambda>_. None), ipTime = (\<lambda>_ _. None), ipDocs = (\<lambda>_. Unreadable),
     ipText = (\<lambda>_. []), ipHash = (\<lambda>s. s) \<rparr>"

definition sample_limits_i :: limits where
  "sample_limits_i = \<lparr> liMaxFiles = 5, liMaxFileBytes = 100, liMaxTotalBytes = 100, liMaxEntries = 4,
     liMaxQueuedJobs = 2, liMaxQueuedBytes = 100, liMaxRetainedJobs = 2, liMaxRetainedBytes = 100,
     liJobTTL = 60 * second, liConcurrency = 1, liJobTimeout = 60 * second \<rparr>"

definition sample_converted :: "string \<Rightarrow> converted" where
  "sample_converted v = \<lparr> cvName = [], cvEmail = [], cvUserID = v, cvTeamID = [], cvOIDCIssuer = [],
     cvOIDCClientID = [], cvAccessToken = v, cvRefreshToken = [], cvExpiresAt = 0, cvError = [] \<rparr>"

definition sample_job_env :: "unit job_env" where
  "sample_job_env = \<lparr> jeParsers = sample_parsers_i, jeLimits = sample_limits_i,
     jeConvert = Some (\<lambda>w vs. (w, Inr (map sample_converted vs))),
     jeBulk = (\<lambda>w is. (w, Inr (map (\<lambda>i. (zero_credential\<lparr> cID := iUserID i \<rparr>, True)) is))),
     jeBefore = None, jeStored = None, jeExpired = (\<lambda>w. (w, False)), jeNow = (\<lambda>w. (w, 0)) \<rparr>"

definition sample_batch :: "input_file list" where
  "sample_batch = [\<lparr> ifName = ''a.txt'', ifFormat = ''sso'', ifData = ''x'' @ [CHR 0x0A] @ ''y'' @ [CHR 0x0A] @ ''x'' \<rparr>]"

definition sample_input_i :: "nat \<Rightarrow> string \<Rightarrow> cred_input" where
  "sample_input_i k v = input_of_converted (entry_reference 0 k) (sample_converted v)"

definition sample_stored :: "(credential \<times> bool) list" where
  "sample_stored = [(zero_credential\<lparr> cID := ''x'' \<rparr>, True), (zero_credential\<lparr> cID := ''y'' \<rparr>, True)]"

lemma sample_run_log:
  "snd (jrWorld (run_job (recording sample_job_env) sample_batch (new_job ''j'' 0 sample_batch) ((), []))) =
     [([sample_input_i 0 ''x'', sample_input_i 1 ''y''], Inr sample_stored)]"
  by code_simp

lemma sample_limit_ok: "0 \<le> liMaxEntries (jeLimits sample_job_env)"
  by (simp add: sample_job_env_def sample_limits_i_def)


theorem batch_stored_once_witness:
  "stores_once sample_job_env [([sample_input_i 0 ''x'', sample_input_i 1 ''y''], Inr sample_stored)]"
  using batch_stored_once [OF sample_limit_ok, of sample_batch "''j''" 0 "()"] unfolding sample_run_log .

theorem reported_as_stored_witness:
  "\<exists>x. x \<in> set (jbResults (jrJob (run_job (recording sample_job_env) sample_batch (new_job ''j'' 0 sample_batch) ((), [])))) \<and>
     reported x (sample_input_i 0 ''x'') (zero_credential\<lparr> cID := ''x'' \<rparr>, True)"
  using reported_as_stored [OF sample_limit_ok refl sample_run_log]
  by (force simp: sample_stored_def)

end
