(* ===== verification/Import_Manager.thy ===== *)
theory Import_Manager
  imports Import_Job "HOL-Library.AList"
begin

text \<open>
  The manager of import jobs (\<open>internal/importer/manager.go\<close>): what \<open>Start\<close> accepts, the queue and its
  bounds, the retention of finished jobs, and the goroutines of the accepted jobs as a step relation.

  The map of jobs is an association list in the order of insertion; nothing the code does depends on the order
  of a map.  \<open>jsize\<close> is the length of a job's JSON encoding.  The channel \<open>sem\<close> is the number of its
  tokens.  A text quoted by \<open>%q\<close> is quoted without escapes.
\<close>

section \<open>Limits\<close>

definition positive_or :: "int \<Rightarrow> int \<Rightarrow> int" where
  "positive_or n d = (if n \<le> 0 then d else n)"

definition with_defaults :: "limits \<Rightarrow> limits" where
  "with_defaults l = \<lparr> liMaxFiles = positive_or (liMaxFiles l) 2000,
     liMaxFileBytes = positive_or (liMaxFileBytes l) 4194304,
     liMaxTotalBytes = positive_or (liMaxTotalBytes l) 16777216,
     liMaxEntries = positive_or (liMaxEntries l) 2000,
     liMaxQueuedJobs = positive_or (liMaxQueuedJobs l) 32,
     liMaxQueuedBytes = positive_or (liMaxQueuedBytes l) 67108864,
     liMaxRetainedJobs = positive_or (liMaxRetainedJobs l) 128,
     liMaxRetainedBytes = positive_or (liMaxRetainedBytes l) 67108864,
     liJobTTL = positive_or (liJobTTL l) (1800 * second),
     liConcurrency = positive_or (liConcurrency l) 2,
     liJobTimeout = positive_or (liJobTimeout l) (900 * second) \<rparr>"

record manager =
  mgLimits :: limits
  mgJobs :: "(string \<times> job) list"
  mgBytes :: "string \<rightharpoonup> int"
  mgSlots :: int
  mgQueuedJobs :: int
  mgQueuedBytes :: int

definition new_manager :: "limits \<Rightarrow> manager" where
  "new_manager l = \<lparr> mgLimits = with_defaults l, mgJobs = [], mgBytes = Map.empty, mgSlots = 0,
     mgQueuedJobs = 0, mgQueuedBytes = 0 \<rparr>"

section \<open>What is accepted\<close>

text \<open>\<open>filepath.Base\<close>\<close>

definition path_base :: "string \<Rightarrow> string" where
  "path_base s =
     (if s = [] then ''.''
      else let t = rev (dropWhile (\<lambda>c. c = CHR ''/'') (rev s)) in
        if t = [] then ''/'' else rev (takeWhile (\<lambda>c. c \<noteq> CHR ''/'') (rev t)))"

definition quoted :: "string \<Rightarrow> string" where
  "quoted s = CHR 0x22 # s @ [CHR 0x22]"

definition accept_file :: "limits \<Rightarrow> nat \<Rightarrow> int \<Rightarrow> input_file \<Rightarrow> goerr + input_file" where
  "accept_file l k sofar f =
     (let sz = int (length (ifData f));
          format0 = to_lower (trim_space (ifFormat f));
          format = (if format0 = [] then ''auto'' else format0);
          name0 = trim_space (path_base (ifName f));
          name = (if name0 = [] \<or> name0 = ''.'' then ''document-'' @ dec_digits (k + 1) else name0) in
      if sz > liMaxFileBytes l
      then Inl (ErrText (''importer: file '' @ dec_digits (k + 1) @ '' exceeds '' @ dec_int (liMaxFileBytes l) @ '' bytes''))
      else if sz > liMaxTotalBytes l - sofar
      then Inl (ErrText (''importer: total input exceeds '' @ dec_int (liMaxTotalBytes l) @ '' bytes''))
      else if trim_space (ifData f) = []
      then Inl (ErrText (''importer: file '' @ dec_digits (k + 1) @ '' is empty''))
      else if format \<notin> set [''auto'', ''json'', ''sso'']
      then Inl (ErrText (''importer: unsupported format '' @ quoted format))
      else Inr \<lparr> ifName = name, ifFormat = format, ifData = ifData f \<rparr>)"

fun accept_files :: "limits \<Rightarrow> nat \<Rightarrow> int \<Rightarrow> input_file list \<Rightarrow> goerr + input_file list \<times> int" where
  "accept_files l k sofar [] = Inr ([], sofar)"
| "accept_files l k sofar (f # fs) = (case accept_file l k sofar f of
       Inl e \<Rightarrow> Inl e
     | Inr c \<Rightarrow>
         (case accept_files l (Suc k) (sofar + int (length (ifData f))) fs of
            Inl e \<Rightarrow> Inl e
          | Inr (cs, n) \<Rightarrow> Inr (c # cs, n)))"

definition check_input :: "limits \<Rightarrow> input_file list \<Rightarrow> goerr + input_file list \<times> int" where
  "check_input l fs =
     (if fs = [] then Inl (ErrText ''importer: at least one file or document is required'')
      else if int (length fs) > liMaxFiles l
      then Inl (ErrText (''importer: too many files (max '' @ dec_int (liMaxFiles l) @ '')''))
      else accept_files l 0 0 fs)"

section \<open>Retention\<close>

type_synonym retained = "string \<times> gotime \<times> int"

definition older :: "retained \<Rightarrow> retained \<Rightarrow> bool" where
  "older a b = (if fst (snd a) = fst (snd b) then str_less (fst a) (fst b) else fst (snd a) < fst (snd b))"

definition expired_job :: "limits \<Rightarrow> gotime \<Rightarrow> job \<Rightarrow> bool" where
  "expired_job l now j = (case jbFinishedAt j of None \<Rightarrow> False | Some t \<Rightarrow> time_sub now t > liJobTTL l)"

definition job_size :: "(job \<Rightarrow> int) \<Rightarrow> (string \<rightharpoonup> int) \<Rightarrow> string \<times> job \<Rightarrow> int" where
  "job_size jsize bytes kj = (case bytes (fst kj) of Some n \<Rightarrow> n | None \<Rightarrow> jsize (snd kj))"

definition retained_of :: "(job \<Rightarrow> int) \<Rightarrow> (string \<rightharpoonup> int) \<Rightarrow> (string \<times> job) list \<Rightarrow> retained list" where
  "retained_of jsize bytes js = concat (map (\<lambda>kj. case jbFinishedAt (snd kj) of
       None \<Rightarrow> [] | Some t \<Rightarrow> [(fst kj, t, job_size jsize bytes kj)]) js)"

definition retained_bytes :: "retained list \<Rightarrow> int" where
  "retained_bytes rs = sum_list (map (\<lambda>r. snd (snd r)) rs)"

definition over_retention :: "limits \<Rightarrow> retained list \<Rightarrow> bool" where
  "over_retention l rs \<longleftrightarrow> int (length rs) > liMaxRetainedJobs l \<or> retained_bytes rs > liMaxRetainedBytes l"

text \<open>The jobs that stay, of those in order of age.\<close>

fun keep_retained :: "limits \<Rightarrow> retained list \<Rightarrow> retained list" where
  "keep_retained l [] = []"
| "keep_retained l (r # rs) = (if over_retention l (r # rs) then keep_retained l rs else r # rs)"

definition prune :: "(job \<Rightarrow> int) \<Rightarrow> gotime \<Rightarrow> manager \<Rightarrow> manager" where
  "prune jsize now m =
     (let l = mgLimits m;
          js = filter (\<lambda>kj. \<not> expired_job l now (snd kj)) (mgJobs m);
          all = retained_of jsize (mgBytes m) js;
          kept = keep_retained l (sort_stable older all);
          stays = (\<lambda>kj. jbFinishedAt (snd kj) = None \<or> fst kj \<in> fst ` set kept) in
      m\<lparr> mgJobs := filter stays js, mgBytes := map_of (map (\<lambda>r. (fst r, snd (snd r))) kept) \<rparr>)"

section \<open>The operations\<close>

definition queue_full :: "limits \<Rightarrow> goerr" where
  "queue_full l = ErrWrap (''(max queued jobs '' @ dec_int (liMaxQueuedJobs l) @ '', max queued bytes '' @
     dec_int (liMaxQueuedBytes l) @ '')'') (ErrText ''importer: queue is full'')"

text \<open>Under the lock, for a batch of the given size: whether it takes a slot at once or waits.\<close>

definition admit :: "int \<Rightarrow> manager \<Rightarrow> (manager \<times> bool) option" where
  "admit sz m =
     (let l = mgLimits m in
      if mgQueuedJobs m = 0 \<and> mgSlots m < liConcurrency l
      then Some (m\<lparr> mgSlots := mgSlots m + 1 \<rparr>, True)
      else if mgQueuedJobs m \<ge> liMaxQueuedJobs l \<or> sz > liMaxQueuedBytes l - mgQueuedBytes m then None
      else Some (m\<lparr> mgQueuedJobs := mgQueuedJobs m + 1, mgQueuedBytes := mgQueuedBytes m + sz \<rparr>, False))"

definition put_job :: "string \<Rightarrow> job \<Rightarrow> manager \<Rightarrow> manager" where
  "put_job k j m = m\<lparr> mgJobs := AList.update k j (mgJobs m) \<rparr>"

text \<open>The answer with what the new goroutine starts from: the files, their size, whether it has a slot.\<close>

definition start_import ::
  "(job \<Rightarrow> int) \<Rightarrow> string option \<Rightarrow> gotime \<Rightarrow> input_file list \<Rightarrow> manager \<Rightarrow>
   manager \<times> (goerr + job \<times> input_file list \<times> int \<times> bool)" where
  "start_import jsize nid t fs m =
     (case check_input (mgLimits m) fs of
        Inl e \<Rightarrow> (m, Inl e)
      | Inr (cs, sz) \<Rightarrow>
          (case nid of
             None \<Rightarrow> (m, Inl (ErrText ''importer: generate job id''))
           | Some k \<Rightarrow>
               (let now = trunc_sec t; j = new_job k now cs; m1 = prune jsize now m in
                case admit sz m1 of
                  None \<Rightarrow> (m1, Inl (queue_full (mgLimits m)))
                | Some (m2, slot) \<Rightarrow> (put_job k j m2, Inr (j, cs, sz, slot)))))"

definition get_job :: "(job \<Rightarrow> int) \<Rightarrow> gotime \<Rightarrow> string \<Rightarrow> manager \<Rightarrow> manager \<times> job option" where
  "get_job jsize now k m = (let m1 = prune jsize now m in (m1, map_of (mgJobs m1) (trim_space k)))"

definition update_job :: "(job \<Rightarrow> int) \<Rightarrow> gotime \<Rightarrow> string \<Rightarrow> job \<Rightarrow> manager \<Rightarrow> manager" where
  "update_job jsize now k j m =
     prune jsize now (case map_of (mgJobs m) k of
         None \<Rightarrow> m
       | Some _ \<Rightarrow> (put_job k j m)\<lparr> mgBytes :=
           (if jbFinishedAt j \<noteq> None then (mgBytes m)(k \<mapsto> jsize j) else mgBytes m) \<rparr>)"

section \<open>The goroutines\<close>

datatype thread =
    Waiting int "input_file list" job
  | Entering int "input_file list" job
  | Active "job list"

text \<open>\<open>Active\<close> holds the states the job is still to publish, which \<open>run_job\<close> determines.\<close>

record machine =
  mcManager :: manager
  mcThreads :: "(string \<times> thread) list"

inductive import_step :: "'w job_env \<Rightarrow> (job \<Rightarrow> int) \<Rightarrow> machine \<Rightarrow> machine \<Rightarrow> bool"
  for je :: "'w job_env" and jsize :: "job \<Rightarrow> int" where
  slot: "mgSlots (mcManager s) < liConcurrency (mgLimits (mcManager s)) \<Longrightarrow>
    mcThreads s = xs @ (k, Waiting n fs j) # ys \<Longrightarrow>
    import_step je jsize s (s\<lparr> mcManager := (mcManager s)\<lparr> mgSlots := mgSlots (mcManager s) + 1 \<rparr>,
      mcThreads := xs @ (k, Entering n fs j) # ys \<rparr>)"
| dequeue: "mcThreads s = xs @ (k, Entering n fs j) # ys \<Longrightarrow>
    import_step je jsize s (s\<lparr> mcManager := (mcManager s)\<lparr> mgQueuedJobs := mgQueuedJobs (mcManager s) - 1,
        mgQueuedBytes := mgQueuedBytes (mcManager s) - n \<rparr>,
      mcThreads := xs @ (k, Active (jrPublished (run_job je fs j w))) # ys \<rparr>)"
| publishes: "mcThreads s = xs @ (k, Active (j # js)) # ys \<Longrightarrow>
    import_step je jsize s (s\<lparr> mcManager := update_job jsize now k j (mcManager s),
      mcThreads := xs @ (k, Active js) # ys \<rparr>)"
| leave: "mcThreads s = xs @ (k, Active []) # ys \<Longrightarrow>
    import_step je jsize s (s\<lparr> mcManager := (mcManager s)\<lparr> mgSlots := mgSlots (mcManager s) - 1 \<rparr>,
      mcThreads := xs @ ys \<rparr>)"

text \<open>What clients do; a new identifier is one no job has.\<close>

definition new_thread :: "'w job_env \<Rightarrow> 'w \<Rightarrow> job \<Rightarrow> input_file list \<Rightarrow> int \<Rightarrow> bool \<Rightarrow> thread" where
  "new_thread je w j fs n has_slot =
     (if has_slot then Active (jrPublished (run_job je fs j w)) else Waiting n fs j)"

inductive client_step :: "'w job_env \<Rightarrow> (job \<Rightarrow> int) \<Rightarrow> machine \<Rightarrow> machine \<Rightarrow> bool"
  for je :: "'w job_env" and jsize :: "job \<Rightarrow> int" where
  start: "k \<notin> fst ` set (mcThreads s) \<Longrightarrow> k \<notin> fst ` set (mgJobs (mcManager s)) \<Longrightarrow>
    start_import jsize (Some k) t fs (mcManager s) = (m, Inr (j, cs, n, b)) \<Longrightarrow>
    client_step je jsize s (s\<lparr> mcManager := m, mcThreads := mcThreads s @ [(k, new_thread je w j cs n b)] \<rparr>)"
| refused: "start_import jsize nid t fs (mcManager s) = (m, Inl e) \<Longrightarrow>
    client_step je jsize s (s\<lparr> mcManager := m \<rparr>)"
| look: "client_step je jsize s (s\<lparr> mcManager := fst (get_job jsize now k (mcManager s)) \<rparr>)"

inductive import_reach :: "'w job_env \<Rightarrow> (job \<Rightarrow> int) \<Rightarrow> limits \<Rightarrow> machine \<Rightarrow> bool"
  for je :: "'w job_env" and jsize :: "job \<Rightarrow> int" and l :: limits where
  begin_reach: "import_reach je jsize l \<lparr> mcManager = new_manager l, mcThreads = [] \<rparr>"
| own: "import_reach je jsize l s \<Longrightarrow> import_step je jsize s s' \<Longrightarrow> import_reach je jsize l s'"
| client: "import_reach je jsize l s \<Longrightarrow> client_step je jsize s s' \<Longrightarrow> import_reach je jsize l s'"

end
