(* ===== verification/Import_Manager_Props.thy ===== *)
theory Import_Manager_Props
  imports Import_Manager "HOL-Library.Multiset"
begin

text \<open>
  What the manager of import jobs guarantees, over every interleaving of clients and goroutines: the counters
  agree with the goroutines and stay within their bounds, a job that was accepted can be looked up until it has
  finished, retained jobs stay within their bounds, and all accepted jobs come to an end.
\<close>

section \<open>Retention\<close>

lemma mset_insert_by [simp]: "mset (insert_by lt x ys) = add_mset x (mset ys)"
  by (induction ys) auto

lemma mset_sort_stable [simp]: "mset (sort_stable lt xs) = mset xs"
  by (induction xs) auto

definition unfinished :: "job \<Rightarrow> bool" where
  "unfinished j \<longleftrightarrow> jbFinishedAt j = None"

lemma retained_simps [simp]:
  "retained_of jsize b [] = []"
  "retained_of jsize b ((k, j) # js) =
     (case jbFinishedAt j of None \<Rightarrow> [] | Some t \<Rightarrow> [(k, t, job_size jsize b (k, j))]) @ retained_of jsize b js"
  "retained_of jsize b (js @ js') = retained_of jsize b js @ retained_of jsize b js'"
  by (simp_all add: retained_of_def cong: option.case_cong)

lemma retained_keys: "fst ` set (retained_of jsize b js) \<subseteq> fst ` set js"
proof (induction js)
  case (Cons kj js)
  then show ?case
    by (cases kj) (auto split: option.splits)
qed simp

lemma retained_distinct: "distinct (map fst js) \<Longrightarrow> distinct (map fst (retained_of jsize b js))"
proof (induction js)
  case (Cons kj js)
  then show ?case
    using retained_keys [of jsize b js] by (cases kj) (auto split: option.splits)
qed simp

lemma retained_count: "length (retained_of jsize b js) = length (filter (\<lambda>kj. \<not> unfinished (snd kj)) js)"
  by (induction js) (auto simp: unfinished_def split: option.splits)

lemma retained_filter:
  "retained_of jsize b (filter (\<lambda>kj. jbFinishedAt (snd kj) = None \<or> fst kj \<in> K) js) =
     filter (\<lambda>r. fst r \<in> K) (retained_of jsize b js)"
  by (induction js) (auto split: option.splits)

lemma retained_sizes:
  "(\<And>r. r \<in> set (retained_of jsize b js) \<Longrightarrow> b' (fst r) = Some (snd (snd r))) \<Longrightarrow>
   retained_of jsize b' js = retained_of jsize b js"
proof (induction js)
  case (Cons kj js)
  obtain k j where kj: "kj = (k, j)"
    by (cases kj)
  have "retained_of jsize b' js = retained_of jsize b js"
    by (rule Cons.IH) (simp add: Cons.prems kj)
  moreover have "job_size jsize b' kj = job_size jsize b kj" if "jbFinishedAt j = Some t" for t
    using Cons.prems [of "(k, t, job_size jsize b kj)"] that by (simp add: kj job_size_def)
  ultimately show ?case
    by (simp add: kj split: option.splits)
qed simp

lemma keep_suffix: "\<exists>pre. rs = pre @ keep_retained l rs"
proof (induction rs)
  case (Cons r rs)
  then show ?case
    by (cases "over_retention l (r # rs)") (auto intro: exI [of _ "[]"] exI [of _ "r # _"])
qed simp

lemma keep_within: "0 \<le> liMaxRetainedJobs l \<Longrightarrow> 0 \<le> liMaxRetainedBytes l \<Longrightarrow> \<not> over_retention l (keep_retained l rs)"
  by (induction rs) (auto simp: over_retention_def retained_bytes_def)

lemma filter_suffix:
  "xs = pre @ ks \<Longrightarrow> distinct (map f xs) \<Longrightarrow> distinct (map f ks) \<and> filter (\<lambda>x. f x \<in> f ` set ks) xs = ks"
  by (induction pre arbitrary: xs) auto

lemma over_retention_mset: "mset rs = mset rs' \<Longrightarrow> over_retention l rs = over_retention l rs'"
proof -
  assume eq: "mset rs = mset rs'"
  then have "mset (map (\<lambda>r. snd (snd r)) rs) = mset (map (\<lambda>r. snd (snd r)) rs')"
    by (metis mset_map)
  then have "retained_bytes rs = retained_bytes rs'"
    unfolding retained_bytes_def by (metis sum_mset_sum_list)
  then show ?thesis
    using mset_eq_length [OF eq] by (simp add: over_retention_def)
qed

definition within_retention :: "(job \<Rightarrow> int) \<Rightarrow> manager \<Rightarrow> bool" where
  "within_retention jsize m \<longleftrightarrow> distinct (map fst (mgJobs m)) \<and>
     \<not> over_retention (mgLimits m) (retained_of jsize (mgBytes m) (mgJobs m))"

lemma distinct_filter_keys: "distinct (map fst js) \<Longrightarrow> distinct (map fst (filter P js))"
  by (induction js) auto

lemma prune_within:
  assumes keys: "distinct (map fst (mgJobs m))"
    and limits: "0 \<le> liMaxRetainedJobs (mgLimits m)" "0 \<le> liMaxRetainedBytes (mgLimits m)"
  shows "within_retention jsize (prune jsize now m)"
proof -
  let ?js = "filter (\<lambda>kj. \<not> expired_job (mgLimits m) now (snd kj)) (mgJobs m)"
  let ?all = "retained_of jsize (mgBytes m) ?js"
  let ?kept = "keep_retained (mgLimits m) (sort_stable older ?all)"
  let ?K = "fst ` set ?kept"
  let ?b = "map_of (map (\<lambda>r. (fst r, snd (snd r))) ?kept)"
  let ?out = "filter (\<lambda>kj. jbFinishedAt (snd kj) = None \<or> fst kj \<in> ?K) ?js"
  have "distinct (map fst ?js)"
    using keys by (rule distinct_filter_keys)
  then have "distinct (map fst ?all)"
    by (rule retained_distinct)
  then have sorted: "distinct (map fst (sort_stable older ?all))"
    by (metis mset_eq_imp_distinct_iff mset_map mset_sort_stable)
  obtain pre where pre: "sort_stable older ?all = pre @ ?kept"
    using keep_suffix by blast
  note suffix = filter_suffix [OF pre sorted]
  then have kept: "mset (filter (\<lambda>r. fst r \<in> ?K) ?all) = mset ?kept"
    by (metis mset_filter mset_sort_stable)
  have "?b (fst r) = Some (snd (snd r))" if "r \<in> set (retained_of jsize (mgBytes m) ?out)" for r
  proof -
    have "r \<in> set ?kept"
      using that kept unfolding retained_filter by (metis set_mset_mset)
    then show ?thesis
      using suffix by (intro map_of_is_SomeI) (auto simp: comp_def)
  qed
  then have "retained_of jsize ?b ?out = retained_of jsize (mgBytes m) ?out"
    by (rule retained_sizes)
  then have "retained_of jsize ?b ?out = filter (\<lambda>r. fst r \<in> ?K) ?all"
    by (simp only: retained_filter)
  then have "\<not> over_retention (mgLimits m) (retained_of jsize ?b ?out)"
    using keep_within [OF limits] over_retention_mset [OF kept] by (simp only:) blast
  moreover have "distinct (map fst ?out)"
    using keys by (intro distinct_filter_keys)
  moreover have "mgJobs (prune jsize now m) = ?out" "mgBytes (prune jsize now m) = ?b"
      "mgLimits (prune jsize now m) = mgLimits m"
    by (simp_all add: prune_def Let_def)
  ultimately show ?thesis
    unfolding within_retention_def by (simp only: simp_thms)
qed

lemma prune_simps [simp]:
  "mgLimits (prune jsize now m) = mgLimits m" "mgSlots (prune jsize now m) = mgSlots m"
  "mgQueuedJobs (prune jsize now m) = mgQueuedJobs m" "mgQueuedBytes (prune jsize now m) = mgQueuedBytes m"
  by (simp_all add: prune_def Let_def)

lemma map_of_filter_key: "map_of js k = Some j \<Longrightarrow> P (k, j) \<Longrightarrow> distinct (map fst js) \<Longrightarrow> map_of (filter P js) k = Some j"
  by (induction js) (auto split: if_splits simp: rev_image_eqI)

lemma prune_keeps:
  "distinct (map fst (mgJobs m)) \<Longrightarrow> map_of (mgJobs m) k = Some j \<Longrightarrow> unfinished j \<Longrightarrow>
   map_of (mgJobs (prune jsize now m)) k = Some j"
  by (simp add: prune_def Let_def unfinished_def expired_job_def map_of_filter_key distinct_filter_keys)

lemma prune_subset: "set (mgJobs (prune jsize now m)) \<subseteq> set (mgJobs m)"
  by (auto simp: prune_def Let_def)

lemma prune_distinct: "distinct (map fst (mgJobs m)) \<Longrightarrow> distinct (map fst (mgJobs (prune jsize now m)))"
  by (simp add: prune_def Let_def distinct_filter_keys)

section \<open>What a job publishes\<close>

definition progressing :: "nat \<Rightarrow> 'w job_run \<Rightarrow> bool" where
  "progressing n r \<longleftrightarrow> unfinished (jrJob r) \<and> list_all unfinished (jrPublished r) \<and> length (jrPublished r) \<le> n"

lemma progressing_publish:
  "progressing n r \<Longrightarrow> (\<And>j. jbFinishedAt (f j) = jbFinishedAt j) \<Longrightarrow> progressing (Suc n) (publish f r)"
  by (simp add: progressing_def publish_def unfinished_def)

lemma progressing_cong:
  "jrJob r' = jrJob r \<Longrightarrow> jrPublished r' = jrPublished r \<Longrightarrow> progressing n r' \<longleftrightarrow> progressing n r"
  by (simp add: progressing_def)

lemma progressing_mono: "progressing n r \<Longrightarrow> n \<le> m \<Longrightarrow> progressing m r"
  by (simp add: progressing_def)

lemma finished_simps [simp]:
  "jbFinishedAt (summarize_job e j) = jbFinishedAt j" "jbFinishedAt (change_file k g j) = jbFinishedAt j"
  by (simp_all add: summarize_job_def change_file_def Let_def)

lemma progressing_progress: "progressing n r \<Longrightarrow> progressing (Suc n) (publish_progress k r)"
  unfolding publish_progress_def by (rule progressing_publish) simp_all

lemma same_progress:
  "expired_x je r = (r', e) \<Longrightarrow> progressing n r' \<longleftrightarrow> progressing n r"
  "now_j je r = (r', t) \<Longrightarrow> progressing n r' \<longleftrightarrow> progressing n r"
  "parse_file_x je k f r = (r', out) \<Longrightarrow> progressing n r' \<longleftrightarrow> progressing n r"
  "progressing n (take_outcome k rs ws r) \<longleftrightarrow> progressing n r"
  "progressing n (give_up_pending r) \<longleftrightarrow> progressing n r"
  "progressing n (store_inputs je r) \<longleftrightarrow> progressing n r"
  by (rule progressing_cong;
    auto simp: expired_x_def now_j_def parse_file_x_def take_outcome_def give_up_pending_def store_inputs_def Let_def
      split: prod.splits sum.splits if_splits)+

lemma progressing_store: "progressing n r \<Longrightarrow> progressing n (store_pending je r)"
  by (auto simp: store_pending_def same_progress split: prod.splits dest: same_progress(1))

lemma progressing_take_file: "progressing n r \<Longrightarrow> progressing (Suc n) (take_file je k out r)"
  unfolding take_file_def Let_def
  by (rule progressing_progress) (simp add: take_outcome_def progressing_def)

lemma progressing_over_limit: "progressing n r \<Longrightarrow> progressing (Suc n) (over_limit je k f r)"
  unfolding over_limit_def Let_def by (rule progressing_progress) (simp add: progressing_def)

lemma progressing_import_file:
  assumes "import_file je k f r = (r', on)" and r: "progressing n r"
  shows "progressing (if on then n + 2 else n + 3) r'"
proof -
  obtain r1 e1 where e1: "expired_x je r = (r1, e1)"
    by fastforce
  then have r1: "progressing n r1"
    using r same_progress(1) by blast
  let ?p = "publish (change_file k (\<lambda>x. x\<lparr> frStatus := ''running'' \<rparr>)) r1"
  obtain r2 out where p2: "parse_file_x je k f ?p = (r2, out)"
    by fastforce
  obtain r3 e2 where e2: "expired_x je r2 = (r3, e2)"
    by fastforce
  have "progressing (Suc n) ?p"
    using r1 by (rule progressing_publish) simp
  then have r3: "progressing (Suc n) r3"
    using p2 e2 same_progress(1,3) by blast
  have late: "progressing (n + 3) (publish_progress k (take_outcome k rs ws r3))" for rs ws
    using r3 by (intro progressing_mono [OF progressing_progress [of "Suc n"]]) (simp_all add: same_progress(4))
  have taken: "progressing (n + 2) (take_file je k out r3)"
    using progressing_take_file [OF r3] by simp
  have over: "progressing (n + 3) (over_limit je k f (take_file je k out r3))"
    using progressing_over_limit [OF taken] by (simp add: numeral_3_eq_3)
  show ?thesis
    using assms(1) e1 p2 e2 progressing_mono [OF r1, of "n + 3"] late taken over
    by (auto simp: import_file_def Let_def simp del: One_nat_def split: if_splits)
qed

lemma progressing_import_files:
  "progressing n r \<Longrightarrow> progressing (n + 2 * length fs + 1) (import_files je k fs r)"
proof (induction fs arbitrary: k r n)
  case (Cons f fs)
  obtain r' on where step: "import_file je k f r = (r', on)"
    by fastforce
  show ?case
    using progressing_import_file [OF step Cons.prems] Cons.IH [of "n + 2" r' "Suc k"] step
    by (auto intro: progressing_mono)
qed (simp add: progressing_mono)

text \<open>Unfinished states, then one finished state.\<close>

definition ends_finished :: "job list \<Rightarrow> bool" where
  "ends_finished js \<longleftrightarrow> js \<noteq> [] \<and> list_all unfinished (butlast js) \<and> \<not> unfinished (last js)"

lemma finish_run_publishes:
  assumes "progressing n r"
  shows "ends_finished (jrPublished (finish_run je e r)) \<and> length (jrPublished (finish_run je e r)) \<le> Suc n"
proof -
  obtain r' now where "now_j je r = (r', now)"
    by fastforce
  moreover from this have "progressing n r'"
    using assms same_progress(2) by blast
  ultimately show ?thesis
    by (simp add: finish_run_def publish_def progressing_def ends_finished_def finish_job_def Let_def unfinished_def)
qed

lemma run_job_publishes:
  assumes "unfinished j"
  shows "ends_finished (jrPublished (run_job je fs j w)) \<and>
    length (jrPublished (run_job je fs j w)) \<le> 2 * length fs + 3"
proof -
  obtain r0 now where r0: "now_j je (start_run fs j w) = (r0, now)"
    by fastforce
  have "progressing 0 (start_run fs j w)"
    using assms by (simp add: progressing_def start_run_def)
  then have "progressing 0 r0"
    using r0 same_progress(2) by blast
  then have r1: "progressing 1 (publish (\<lambda>j. j\<lparr> jbStatus := ''running'', jbStartedAt := Some now \<rparr>) r0)" (is "progressing 1 ?r1")
    using progressing_publish [of 0 r0 "\<lambda>j. j\<lparr> jbStatus := ''running'', jbStartedAt := Some now \<rparr>"] by simp
  obtain off n where pre: "preflight_entries (jeParsers je) (max_entries je) fs = (off, n)"
    by fastforce
  obtain r2 e where r2: "expired_x je (store_pending je (import_files je 0 fs ?r1)) = (r2, e)"
    by fastforce
  have "progressing (2 * length fs + 2) r2"
    using progressing_store [OF progressing_import_files [OF r1]] r2 same_progress(1) by fastforce
  moreover have "progressing (2 * length fs + 2) (?r1\<lparr> jrOutcomes := rss \<rparr>)" for rss
    using progressing_mono [OF r1, of "2 * length fs + 2"] by (simp add: progressing_def)
  ultimately show ?thesis
    using finish_run_publishes [of "2 * length fs + 2" _ je] r0 pre r2
    by (auto simp: run_job_def Let_def numeral_3_eq_3)
qed

section \<open>The counters\<close>

fun holds_slot :: "thread \<Rightarrow> bool" where
  "holds_slot (Waiting n fs j) = False"
| "holds_slot (Entering n fs j) = True"
| "holds_slot (Active js) = True"

fun is_counted :: "thread \<Rightarrow> bool" where
  "is_counted (Waiting n fs j) = True"
| "is_counted (Entering n fs j) = True"
| "is_counted (Active js) = False"

fun held_bytes :: "thread \<Rightarrow> int" where
  "held_bytes (Waiting n fs j) = n"
| "held_bytes (Entering n fs j) = n"
| "held_bytes (Active js) = 0"

definition counts :: "limits \<Rightarrow> manager \<Rightarrow> thread list \<Rightarrow> bool" where
  "counts l m ts \<longleftrightarrow> mgLimits m = with_defaults l \<and>
     mgSlots m = int (length (filter holds_slot ts)) \<and> mgSlots m \<le> liConcurrency (with_defaults l) \<and>
     mgQueuedJobs m = int (length (filter is_counted ts)) \<and> mgQueuedJobs m \<le> liMaxQueuedJobs (with_defaults l) \<and>
     mgQueuedBytes m = sum_list (map held_bytes ts) \<and> mgQueuedBytes m \<le> liMaxQueuedBytes (with_defaults l) \<and>
     list_all (\<lambda>t. 0 \<le> held_bytes t) ts"

lemma counts_cong:
  "mgLimits m' = mgLimits m \<Longrightarrow> mgSlots m' = mgSlots m \<Longrightarrow> mgQueuedJobs m' = mgQueuedJobs m \<Longrightarrow>
   mgQueuedBytes m' = mgQueuedBytes m \<Longrightarrow> counts l m' ts \<longleftrightarrow> counts l m ts"
  by (simp add: counts_def)

lemma counts_update [simp]: "counts l (update_job jsize now k j m) ts \<longleftrightarrow> counts l m ts"
  by (rule counts_cong) (auto simp: update_job_def put_job_def split: option.splits)

lemma counts_prune [simp]: "counts l (prune jsize now m) ts \<longleftrightarrow> counts l m ts"
  by (rule counts_cong) simp_all

lemma counts_active: "counts l m (xs @ Active js # ys) \<longleftrightarrow> counts l m (xs @ Active js' # ys)"
  by (simp add: counts_def)

lemma admit_counts:
  assumes "counts l m ts" "admit n m = Some (m', b)" "0 \<le> n"
  shows "counts l m' (ts @ [if b then Active js else Waiting n fs j])"
  using assms by (auto simp: counts_def admit_def Let_def split: if_splits)

lemma accepted_size: "accept_files l k n0 fs = Inr (cs, n) \<Longrightarrow> n0 \<le> n"
proof (induction fs arbitrary: k n0 cs n)
  case (Cons f fs)
  then obtain cs' where "accept_files l (Suc k) (n0 + int (length (ifData f))) fs = Inr (cs', n)"
    by (auto split: sum.splits prod.splits)
  then show ?case
    using Cons.IH by fastforce
qed simp

section \<open>The jobs of the goroutines\<close>

fun owns :: "job option \<Rightarrow> thread \<Rightarrow> bool" where
  "owns oj (Waiting n fs j) \<longleftrightarrow> oj = Some j \<and> unfinished j"
| "owns oj (Entering n fs j) \<longleftrightarrow> oj = Some j \<and> unfinished j"
| "owns oj (Active js) \<longleftrightarrow> js = [] \<or> ends_finished js \<and> (\<exists>j. oj = Some j \<and> unfinished j)"

definition matched :: "(string \<times> thread) list \<Rightarrow> (string \<rightharpoonup> job) \<Rightarrow> bool" where
  "matched ths jobs \<longleftrightarrow> distinct (map fst ths) \<and>
     (\<forall>k t. (k, t) \<in> set ths \<longrightarrow> owns (jobs k) t) \<and>
     (\<forall>k j. jobs k = Some j \<longrightarrow> unfinished j \<longrightarrow> (\<exists>t. (k, t) \<in> set ths \<and> t \<noteq> Active []))"

lemma matched_thread:
  assumes "matched (xs @ (k, t) # ys) jobs" "owns (jobs k) t \<Longrightarrow> owns (jobs k) t'" "t' \<noteq> Active []"
  shows "matched (xs @ (k, t') # ys) jobs"
  using assms unfolding matched_def by (auto, metis)

lemma matched_update:
  assumes "matched (xs @ (k, t) # ys) jobs" "owns (Some j) t'" "unfinished j \<Longrightarrow> t' \<noteq> Active []"
  shows "matched (xs @ (k, t') # ys) (jobs(k \<mapsto> j))"
  using assms unfolding matched_def by (auto simp: rev_image_eqI split: if_splits, metis)

lemma matched_remove: "matched (xs @ (k, Active []) # ys) jobs \<Longrightarrow> matched (xs @ ys) jobs"
  unfolding matched_def by (auto, metis)

lemma matched_add:
  assumes "matched ths jobs" "k \<notin> fst ` set ths" "owns (Some j) t" "t \<noteq> Active []"
  shows "matched (ths @ [(k, t)]) (jobs(k \<mapsto> j))"
  using assms unfolding matched_def by (auto simp: rev_image_eqI split: if_splits)

lemma owns_unfinished: "owns oj t \<Longrightarrow> t \<noteq> Active [] \<Longrightarrow> \<exists>j. oj = Some j \<and> unfinished j"
  by (cases t) auto

lemma matched_keep:
  assumes "matched ths jobs" "\<And>k j. jobs k = Some j \<Longrightarrow> unfinished j \<Longrightarrow> jobs' k = Some j"
    and "\<And>k j. jobs' k = Some j \<Longrightarrow> jobs k = Some j"
  shows "matched ths jobs'"
proof -
  have "owns (jobs' k) t" if "owns (jobs k) t" for k t
    using that assms(2) by (cases t) auto
  then show ?thesis
    using assms(1,3) unfolding matched_def by blast
qed

lemma matched_prune:
  assumes "matched ths (map_of (mgJobs m))" "distinct (map fst (mgJobs m))"
  shows "matched ths (map_of (mgJobs (prune jsize now m)))"
proof (rule matched_keep [OF assms(1)])
  show "map_of (mgJobs (prune jsize now m)) k = Some j"
    if "map_of (mgJobs m) k = Some j" "unfinished j" for k j
    using prune_keeps [OF assms(2) that] .
  show "map_of (mgJobs m) k = Some j" if "map_of (mgJobs (prune jsize now m)) k = Some j" for k j
    using map_of_SomeD [OF that] prune_subset [of jsize now m] assms(2) by (blast intro: map_of_is_SomeI)
qed

section \<open>Every reachable state\<close>

definition import_ok :: "(job \<Rightarrow> int) \<Rightarrow> limits \<Rightarrow> machine \<Rightarrow> bool" where
  "import_ok jsize l s \<longleftrightarrow> counts l (mcManager s) (map snd (mcThreads s)) \<and>
     matched (mcThreads s) (map_of (mgJobs (mcManager s))) \<and> within_retention jsize (mcManager s)"

lemma default_limits:
  "0 \<le> liMaxRetainedJobs (with_defaults l)" "0 \<le> liMaxRetainedBytes (with_defaults l)"
  "0 < liConcurrency (with_defaults l)" "0 \<le> liMaxQueuedJobs (with_defaults l)"
  "0 \<le> liMaxQueuedBytes (with_defaults l)"
  by (simp_all add: with_defaults_def positive_or_def)

lemma import_ok_pruned:
  assumes "counts l m (map snd ths)" "matched ths (map_of (mgJobs m))" "distinct (map fst (mgJobs m))"
    and s': "mcManager s' = prune jsize now m" "mcThreads s' = ths"
  shows "import_ok jsize l s'"
proof -
  have "mgLimits m = with_defaults l"
    using assms(1) by (simp add: counts_def)
  then have "within_retention jsize (prune jsize now m)"
    using prune_within [OF assms(3)] default_limits by simp
  then show ?thesis
    using assms matched_prune by (simp add: import_ok_def)
qed

lemma import_ok_same_jobs:
  assumes "import_ok jsize l s" "counts l m (map snd ths)" "matched ths (map_of (mgJobs (mcManager s)))"
    "mgJobs m = mgJobs (mcManager s)" "mgBytes m = mgBytes (mcManager s)"
    and s': "mcManager s' = m" "mcThreads s' = ths"
  shows "import_ok jsize l s'"
proof -
  have "mgLimits m = mgLimits (mcManager s)"
    using assms(1,2) by (simp add: import_ok_def counts_def)
  then have "within_retention jsize m"
    using assms(1,4,5) by (simp add: import_ok_def within_retention_def)
  then show ?thesis
    using assms by (simp add: import_ok_def)
qed

lemma import_ok_start: "import_ok jsize l \<lparr> mcManager = new_manager l, mcThreads = [] \<rparr>"
  using default_limits [of l]
  by (simp add: import_ok_def counts_def new_manager_def matched_def within_retention_def over_retention_def
    retained_bytes_def)

lemma matched_entry: "matched (xs @ (k, t) # ys) jobs \<Longrightarrow> owns (jobs k) t"
  by (simp add: matched_def)

lemma import_ok_step:
  assumes "import_step je jsize s s'" "import_ok jsize l s"
  shows "import_ok jsize l s'"
  using assms(1)
proof cases
  case (slot xs k n fs j ys)
  have "matched (xs @ (k, Entering n fs j) # ys) (map_of (mgJobs (mcManager s)))"
    using assms(2) unfolding import_ok_def slot(3) by (auto intro: matched_thread)
  moreover have "counts l ((mcManager s)\<lparr> mgSlots := mgSlots (mcManager s) + 1 \<rparr>)
      (map snd (xs @ (k, Entering n fs j) # ys))"
    using assms(2) slot(2,3) by (simp add: import_ok_def counts_def)
  ultimately show ?thesis
    by (intro import_ok_same_jobs [OF assms(2)]) (simp_all add: slot(1))
next
  case (dequeue xs k n fs j ys w)
  have m: "matched (mcThreads s) (map_of (mgJobs (mcManager s)))"
    using assms(2) by (simp add: import_ok_def)
  have "matched (xs @ (k, Active (jrPublished (run_job je fs j w))) # ys) (map_of (mgJobs (mcManager s)))"
    using m unfolding dequeue(2)
  proof (rule matched_thread)
    show "owns (map_of (mgJobs (mcManager s)) k) (Active (jrPublished (run_job je fs j w)))"
      if "owns (map_of (mgJobs (mcManager s)) k) (Entering n fs j)"
      using that run_job_publishes [of j je fs w] by auto
    have "unfinished j"
      using matched_entry [OF m [unfolded dequeue(2)]] by simp
    then show "Active (jrPublished (run_job je fs j w)) \<noteq> Active []"
      using run_job_publishes [of j je fs w] by (auto simp: ends_finished_def)
  qed
  moreover have "counts l ((mcManager s)\<lparr> mgQueuedJobs := mgQueuedJobs (mcManager s) - 1,
      mgQueuedBytes := mgQueuedBytes (mcManager s) - n \<rparr>)
      (map snd (xs @ (k, Active (jrPublished (run_job je fs j w))) # ys))"
    using assms(2) unfolding import_ok_def counts_def dequeue(2) by simp
  ultimately show ?thesis
    by (intro import_ok_same_jobs [OF assms(2)]) (simp_all add: dequeue(1))
next
  case (publishes xs k j js ys now)
  have m: "matched (xs @ (k, Active (j # js)) # ys) (map_of (mgJobs (mcManager s)))"
    using assms(2) unfolding import_ok_def publishes(2) by blast
  then obtain j0 where j0: "map_of (mgJobs (mcManager s)) k = Some j0" and ends: "ends_finished (j # js)"
    using matched_entry [OF m] by auto
  let ?m = "(put_job k j (mcManager s))\<lparr> mgBytes := (if jbFinishedAt j \<noteq> None
    then (mgBytes (mcManager s))(k \<mapsto> jsize j) else mgBytes (mcManager s)) \<rparr>"
  have jobs: "map_of (mgJobs ?m) = (map_of (mgJobs (mcManager s)))(k \<mapsto> j)"
    by (simp add: put_job_def update_conv')
  have keys: "distinct (map fst (mgJobs ?m))"
    using assms(2) by (simp add: import_ok_def within_retention_def put_job_def distinct_update)
  have jm: "matched (xs @ (k, Active js) # ys) (map_of (mgJobs ?m))"
    unfolding jobs using ends by (intro matched_update [OF m]) (auto simp: ends_finished_def split: if_splits)
  have "counts l ?m (map snd (xs @ (k, Active js) # ys))"
    using assms(2) unfolding import_ok_def publishes(2) by (simp add: counts_def put_job_def)
  from this jm keys show ?thesis
    by (rule import_ok_pruned) (simp_all add: publishes(1) update_job_def j0)
next
  case (leave xs k ys)
  have "matched (xs @ ys) (map_of (mgJobs (mcManager s)))"
    using assms(2) unfolding import_ok_def leave(2) by (blast intro: matched_remove)
  moreover have "counts l ((mcManager s)\<lparr> mgSlots := mgSlots (mcManager s) - 1 \<rparr>) (map snd (xs @ ys))"
    using assms(2) unfolding import_ok_def leave(2) by (simp add: counts_def)
  ultimately show ?thesis
    by (intro import_ok_same_jobs [OF assms(2)]) (simp_all add: leave(1))
qed

lemma import_ok_prune:
  "import_ok jsize l s \<Longrightarrow> mcManager s' = prune jsize now (mcManager s) \<Longrightarrow> mcThreads s' = mcThreads s \<Longrightarrow>
   import_ok jsize l s'"
  by (rule import_ok_pruned [of l "mcManager s" "mcThreads s"]) (simp_all add: import_ok_def within_retention_def)

lemma start_import_cases:
  assumes "start_import jsize nid t fs m = (m', r)"
  obtains (refused) e where "r = Inl e" "m' = m \<or> m' = prune jsize (trunc_sec t) m"
  | (accepted) k cs n b m2 where "nid = Some k" "r = Inr (new_job k (trunc_sec t) cs, cs, n, b)" "0 \<le> n"
      "admit n (prune jsize (trunc_sec t) m) = Some (m2, b)" "m' = put_job k (new_job k (trunc_sec t) cs) m2"
  using assms accepted_size [of "mgLimits m" 0 0 fs]
  by (auto simp: start_import_def check_input_def Let_def split: sum.splits option.splits prod.splits if_splits)

lemma update_fresh: "k \<notin> fst ` set js \<Longrightarrow> AList.update k j js = js @ [(k, j)]"
  by (induction js) auto

lemma admit_jobs: "admit n m = Some (m', b) \<Longrightarrow> mgJobs m' = mgJobs m \<and> mgBytes m' = mgBytes m \<and> mgLimits m' = mgLimits m"
  by (auto simp: admit_def Let_def split: if_splits)

lemma import_ok_client:
  assumes "client_step je jsize s s'" "import_ok jsize l s"
  shows "import_ok jsize l s'"
  using assms(1)
proof cases
  case (refused nid t fs m e)
  from refused(2) show ?thesis
  proof (cases rule: start_import_cases)
    case (refused e')
    then show ?thesis
      using assms(2) import_ok_prune [OF assms(2), of s'] \<open>s' = _\<close> by (auto simp: import_ok_def)
  qed simp
next
  case (look now k)
  then show ?thesis
    using import_ok_prune [OF assms(2), of s'] by (simp add: get_job_def Let_def)
next
  case (start k t fs m j cs n b w)
  from start(4) show ?thesis
  proof (cases rule: start_import_cases)
    case (accepted k' cs' n' b' m2)
    let ?m1 = "prune jsize (trunc_sec t) (mcManager s)"
    let ?ths = "mcThreads s @ [(k, new_thread je w j cs n b)]"
    have a: "admit n ?m1 = Some (m2, b)" "m = put_job k j m2" "0 \<le> n" and j: "unfinished j"
      using accepted by (auto simp: unfinished_def new_job_def)
    have ok: "import_ok jsize l (s\<lparr> mcManager := ?m1 \<rparr>)"
      by (rule import_ok_prune [OF assms(2)]) simp_all
    have "counts l ?m1 (map snd (mcThreads s))"
      using ok by (simp add: import_ok_def)
    from admit_counts [OF this a(1,3)] have "counts l m2 (map snd ?ths)"
      by (cases b) (simp_all add: new_thread_def)
    then have counts: "counts l m (map snd ?ths)"
      by (rule counts_cong [THEN iffD1, rotated -1]) (simp_all add: a(2) put_job_def)
    have fresh: "k \<notin> fst ` set (mgJobs ?m1)"
      using start(3) prune_subset [of jsize "trunc_sec t" "mcManager s"] by blast
    have jobs: "mgJobs m = AList.update k j (mgJobs ?m1)" "mgBytes m = mgBytes ?m1" "mgLimits m = mgLimits ?m1"
      using a(2) admit_jobs [OF a(1)] by (simp_all add: put_job_def)
    have "matched (mcThreads s) (map_of (mgJobs ?m1))"
      using ok by (simp add: import_ok_def)
    then have "matched ?ths ((map_of (mgJobs ?m1))(k \<mapsto> j))"
      using start(2) j run_job_publishes [OF j, of je cs w]
      by (intro matched_add) (auto simp: new_thread_def ends_finished_def)
    moreover have "mgJobs m = mgJobs ?m1 @ [(k, j)]"
      unfolding jobs(1) using fresh by (rule update_fresh)
    then have "within_retention jsize m"
      using ok j fresh by (simp add: import_ok_def within_retention_def jobs(2,3) unfinished_def)
    ultimately show ?thesis
      using counts unfolding start(1) by (simp add: import_ok_def jobs(1) update_conv')
  qed simp
qed

lemma import_reach_ok: "import_reach je jsize l s \<Longrightarrow> import_ok jsize l s"
  by (induction rule: import_reach.induct) (blast intro: import_ok_start import_ok_step import_ok_client)+

section \<open>Bounds\<close>

lemma threads_counted: "length ts \<le> length (filter holds_slot ts) + length (filter is_counted ts)"
proof (induction ts)
  case (Cons t ts)
  then show ?case
    by (cases t) auto
qed simp

lemma unfinished_jobs_bounded:
  assumes "matched ths (map_of js)" "distinct (map fst js)"
  shows "length (filter (\<lambda>kj. unfinished (snd kj)) js) \<le> length ths"
proof -
  let ?un = "filter (\<lambda>kj. unfinished (snd kj)) js"
  have "k \<in> fst ` set ths" if "(k, j) \<in> set js" "unfinished j" for k j
    using assms that unfolding matched_def by (metis fst_conv image_eqI map_of_is_SomeI)
  then have "fst ` set ?un \<subseteq> fst ` set ths"
    by auto
  moreover have "card (fst ` set ?un) = length ?un"
    using distinct_card [OF distinct_filter_keys [OF assms(2), of "\<lambda>kj. unfinished (snd kj)"]] by simp
  ultimately show ?thesis
    using card_length [of "map fst ths"] card_mono [of "fst ` set ths" "fst ` set ?un"] by simp
qed

text \<open>
  C12: The manager of imports stays within its bounds.  In every state that clients and jobs can reach in any
  interleaving, the slots taken and the jobs and bytes queued are exactly those of the goroutines there are,
  none of the three passes its limit, and so at most \<open>Concurrency + MaxQueuedJobs\<close> jobs are under way; the
  jobs kept in memory, finished or not, and the bytes of the finished ones are bounded as well.
\<close>

theorem imports_bounded:
  assumes "import_reach je jsize l s" and "m = mcManager s" and "d = with_defaults l"
    and "ts = map snd (mcThreads s)"
  shows "mgSlots m = int (length (filter holds_slot ts)) \<and> mgSlots m \<le> liConcurrency d \<and>
    mgQueuedJobs m = int (length (filter is_counted ts)) \<and> mgQueuedJobs m \<le> liMaxQueuedJobs d \<and>
    mgQueuedBytes m = sum_list (map held_bytes ts) \<and> mgQueuedBytes m \<le> liMaxQueuedBytes d \<and>
    int (length ts) \<le> liConcurrency d + liMaxQueuedJobs d \<and>
    int (length (mgJobs m)) \<le> liConcurrency d + liMaxQueuedJobs d + liMaxRetainedJobs d \<and>
    retained_bytes (retained_of jsize (mgBytes m) (mgJobs m)) \<le> liMaxRetainedBytes d"
proof -
  have ok: "counts l m ts" "matched (mcThreads s) (map_of (mgJobs m))" "within_retention jsize m"
    using import_reach_ok [OF assms(1)] assms(2,4) by (simp_all add: import_ok_def)
  have c: "mgLimits m = d" "mgSlots m = int (length (filter holds_slot ts))" "mgSlots m \<le> liConcurrency d"
    "mgQueuedJobs m = int (length (filter is_counted ts))" "mgQueuedJobs m \<le> liMaxQueuedJobs d"
    "mgQueuedBytes m = sum_list (map held_bytes ts)" "mgQueuedBytes m \<le> liMaxQueuedBytes d"
    using ok(1) assms(3) by (simp_all add: counts_def)
  have threads: "int (length ts) \<le> liConcurrency d + liMaxQueuedJobs d"
    using threads_counted [of ts] c(2-5) by linarith
  have "length (filter (\<lambda>kj. unfinished (snd kj)) (mgJobs m)) \<le> length ts"
    using unfinished_jobs_bounded [OF ok(2)] ok(3) assms(4) by (simp add: within_retention_def)
  moreover have r: "int (length (retained_of jsize (mgBytes m) (mgJobs m))) \<le> liMaxRetainedJobs d"
      "retained_bytes (retained_of jsize (mgBytes m) (mgJobs m)) \<le> liMaxRetainedBytes d"
    using ok(3) c(1) by (auto simp: within_retention_def over_retention_def not_less)
  ultimately have "int (length (mgJobs m)) \<le> liConcurrency d + liMaxQueuedJobs d + liMaxRetainedJobs d"
    using threads sum_length_filter_compl [of "\<lambda>kj. unfinished (snd kj)" "mgJobs m"]
    by (simp add: retained_count)
  then show ?thesis
    using c threads r(2) by blast
qed

text \<open>
  C13: An accepted import can be followed to its end.  As long as its goroutine has something left to publish,
  looking the job up by its identifier finds it, not finished, whatever was pruned in between; and a job that
  is not finished always has a goroutine that will finish it.
\<close>

theorem accepted_job_kept:
  assumes "import_reach je jsize l s" and "(k, t) \<in> set (mcThreads s)" and "t \<noteq> Active []"
    and "trim_space x = k"
  shows "(\<exists>j. snd (get_job jsize now x (mcManager s)) = Some j \<and> jbFinishedAt j = None) \<and>
    list_all (\<lambda>kj. jbFinishedAt (snd kj) = None \<longrightarrow> list_ex (\<lambda>kt. fst kt = fst kj \<and> snd kt \<noteq> Active []) (mcThreads s))
      (mgJobs (mcManager s))"
proof
  have ok: "matched (mcThreads s) (map_of (mgJobs (mcManager s)))" "distinct (map fst (mgJobs (mcManager s)))"
    using import_reach_ok [OF assms(1)] by (simp_all add: import_ok_def within_retention_def)
  have "owns (map_of (mgJobs (mcManager s)) k) t"
    using ok(1) assms(2) by (simp add: matched_def)
  from owns_unfinished [OF this assms(3)]
  obtain j where j: "map_of (mgJobs (mcManager s)) k = Some j" "unfinished j"
    by blast
  show "\<exists>j. snd (get_job jsize now x (mcManager s)) = Some j \<and> jbFinishedAt j = None"
    using prune_keeps [OF ok(2) j] j(2) by (simp add: get_job_def Let_def assms(4) unfinished_def)
  have "\<exists>t. (k', t) \<in> set (mcThreads s) \<and> t \<noteq> Active []"
    if "(k', j') \<in> set (mgJobs (mcManager s))" "unfinished j'" for k' j'
    using ok that unfolding matched_def by (metis map_of_is_SomeI)
  then show "list_all (\<lambda>kj. jbFinishedAt (snd kj) = None \<longrightarrow>
      list_ex (\<lambda>kt. fst kt = fst kj \<and> snd kt \<noteq> Active []) (mcThreads s)) (mgJobs (mcManager s))"
    unfolding list_all_iff list_ex_iff unfinished_def by (metis fst_conv prod.collapse snd_conv)
qed

section \<open>Termination\<close>

fun work_left :: "thread \<Rightarrow> nat" where
  "work_left (Waiting n fs j) = 2 * length fs + 6"
| "work_left (Entering n fs j) = 2 * length fs + 5"
| "work_left (Active js) = length js + 1"

definition steps_left :: "machine \<Rightarrow> nat" where
  "steps_left s = sum_list (map (\<lambda>kt. work_left (snd kt)) (mcThreads s))"

lemma import_step_decreases:
  assumes "import_step je jsize s s'" "import_ok jsize l s"
  shows "steps_left s' < steps_left s"
  using assms(1)
proof cases
  case (dequeue xs k n fs j ys w)
  have "unfinished j"
    using assms(2) matched_entry [of xs k "Entering n fs j" ys "map_of (mgJobs (mcManager s))"]
    unfolding import_ok_def dequeue(2) by simp
  then show ?thesis
    using run_job_publishes [of j je fs w] by (simp add: steps_left_def dequeue)
qed (simp_all add: steps_left_def)

lemma import_steps_bounded:
  "(import_step je jsize ^^ n) s s' \<Longrightarrow> import_ok jsize l s \<Longrightarrow> n + steps_left s' \<le> steps_left s \<and> import_ok jsize l s'"
proof (induction n arbitrary: s')
  case (Suc n)
  then obtain s1 where s1: "(import_step je jsize ^^ n) s s1" "import_step je jsize s1 s'"
    by auto
  then show ?case
    using Suc.IH [OF s1(1) Suc.prems(2)] import_step_decreases [OF s1(2)] import_ok_step [OF s1(2)] by fastforce
qed simp

lemma import_progress:
  assumes "import_ok jsize l s" "mcThreads s \<noteq> []"
  shows "\<exists>s'. import_step je jsize s s'"
proof (cases "list_ex (\<lambda>kt. holds_slot (snd kt)) (mcThreads s)")
  case True
  then obtain k t where t: "(k, t) \<in> set (mcThreads s)" "holds_slot t"
    by (auto simp: list_ex_iff)
  then obtain xs ys where s: "mcThreads s = xs @ (k, t) # ys"
    by (meson split_list)
  show ?thesis
  proof (cases t)
    case (Active js)
    then show ?thesis
      using s by (cases js) (blast intro: import_step.intros)+
  qed (use s t(2) in \<open>auto intro: import_step.dequeue\<close>)
next
  case False
  then have "filter holds_slot (map snd (mcThreads s)) = []"
    by (auto simp: filter_empty_conv list_ex_iff)
  then have "mgSlots (mcManager s) < liConcurrency (mgLimits (mcManager s))"
    using assms(1) default_limits(3) by (simp add: import_ok_def counts_def)
  moreover obtain k t ys where s: "mcThreads s = (k, t) # ys"
    using assms(2) by (cases "mcThreads s") auto
  moreover have "\<not> holds_slot t"
    using False s by simp
  then obtain n fs j where "t = Waiting n fs j"
    by (cases t) auto
  ultimately show ?thesis
    using import_step.slot [of s "[]" k n fs j ys] by auto
qed

text \<open>
  C14: All accepted imports come to an end.  However their steps interleave, the goroutines there are make at
  most \<open>steps_left\<close> steps, a bound known from the number of files of the waiting jobs and of the states the
  running ones still publish; as long as one is left, some step is possible, so no job waits for ever for its
  slot; and when none is left every job of the manager is finished.
\<close>

theorem imports_terminate:
  assumes "import_reach je jsize l s"
  shows "((import_step je jsize ^^ n) s s' \<longrightarrow> n \<le> steps_left s) \<and>
    (mcThreads s \<noteq> [] \<longrightarrow> (\<exists>s''. import_step je jsize s s'')) \<and>
    (mcThreads s = [] \<longrightarrow> list_all (\<lambda>kj. jbFinishedAt (snd kj) \<noteq> None) (mgJobs (mcManager s)))"
proof -
  note ok = import_reach_ok [OF assms]
  have "j \<noteq> None" if "mcThreads s = []" "(k, x) \<in> set (mgJobs (mcManager s))" "j = jbFinishedAt x" for k x j
  proof -
    have "map_of (mgJobs (mcManager s)) k = Some x"
      using ok that(2) by (simp add: import_ok_def within_retention_def)
    then show ?thesis
      using ok that unfolding import_ok_def matched_def unfinished_def by fastforce
  qed
  then show ?thesis
    using import_steps_bounded [OF _ ok] import_progress [OF ok] by (fastforce simp: list_all_iff)
qed

section \<open>A job under way\<close>

definition sample_env_m :: "unit job_env" where
  "sample_env_m = \<lparr> jeParsers = \<lparr> ipURL = (\<lambda>_. None), ipTime = (\<lambda>_ _. None), ipDocs = (\<lambda>_. Unreadable),
       ipText = (\<lambda>_. []), ipHash = (\<lambda>s. s) \<rparr>,
     jeLimits = with_defaults \<lparr> liMaxFiles = 0, liMaxFileBytes = 0, liMaxTotalBytes = 0, liMaxEntries = 0,
       liMaxQueuedJobs = 0, liMaxQueuedBytes = 0, liMaxRetainedJobs = 0, liMaxRetainedBytes = 0, liJobTTL = 0,
       liConcurrency = 0, liJobTimeout = 0 \<rparr>,
     jeConvert = None, jeBulk = (\<lambda>w _. (w, Inr [])), jeBefore = None, jeStored = None,
     jeExpired = (\<lambda>w. (w, False)), jeNow = (\<lambda>w. (w, 0)) \<rparr>"

definition sample_files_m :: "input_file list" where
  "sample_files_m = [\<lparr> ifName = ''a'', ifFormat = ''sso'', ifData = ''x'' \<rparr>]"

definition sample_manager :: manager where
  "sample_manager = put_job ''j'' (new_job ''j'' 0 sample_files_m)
     ((new_manager (jeLimits sample_env_m))\<lparr> mgSlots := 1 \<rparr>)"

definition sample_machine :: machine where
  "sample_machine = \<lparr> mcManager = sample_manager,
     mcThreads = [(''j'', new_thread sample_env_m () (new_job ''j'' 0 sample_files_m) sample_files_m 1 True)] \<rparr>"

lemma sample_started:
  "start_import (\<lambda>_. 0) (Some ''j'') 0 sample_files_m (new_manager (jeLimits sample_env_m)) =
     (sample_manager, Inr (new_job ''j'' 0 sample_files_m, sample_files_m, 1, True))"
proof -
  have "check_input (mgLimits (new_manager (jeLimits sample_env_m))) sample_files_m = Inr (sample_files_m, 1)"
    by code_simp
  moreover have "prune (\<lambda>_. 0) 0 (new_manager l) = new_manager l" for l
    by (simp add: prune_def new_manager_def retained_of_def Let_def)
  moreover have "admit 1 (new_manager l) = Some ((new_manager l)\<lparr> mgSlots := 1 \<rparr>, True)" for l
    using default_limits(3) [of l] by (simp add: admit_def new_manager_def Let_def)
  ultimately show ?thesis
    by (simp add: start_import_def sample_manager_def Let_def trunc_sec_def)
qed

lemma sample_reached: "import_reach sample_env_m (\<lambda>_. 0) (jeLimits sample_env_m) sample_machine"
proof -
  let ?s = "\<lparr> mcManager = new_manager (jeLimits sample_env_m), mcThreads = [] \<rparr>"
  have "client_step sample_env_m (\<lambda>_. 0) ?s (?s\<lparr> mcManager := sample_manager, mcThreads := mcThreads ?s @
      [(''j'', new_thread sample_env_m () (new_job ''j'' 0 sample_files_m) sample_files_m 1 True)] \<rparr>)"
    by (rule client_step.start [where t = 0 and fs = sample_files_m])
      (simp_all add: sample_started, simp add: new_manager_def)
  then show ?thesis
    using import_reach.client [OF import_reach.begin_reach] by (simp add: sample_machine_def)
qed

lemma sample_thread:
  "(''j'', new_thread sample_env_m () (new_job ''j'' 0 sample_files_m) sample_files_m 1 True) \<in> set (mcThreads sample_machine)"
  "new_thread sample_env_m () (new_job ''j'' 0 sample_files_m) sample_files_m 1 True \<noteq> Active []"
  using run_job_publishes [of "new_job ''j'' 0 sample_files_m" sample_env_m sample_files_m "()"]
  by (auto simp: sample_machine_def new_thread_def ends_finished_def unfinished_def new_job_def)

theorem imports_bounded_witness:
  "mgSlots (mcManager sample_machine) \<le> liConcurrency (with_defaults (jeLimits sample_env_m))"
  using imports_bounded [OF sample_reached refl refl refl] by blast

theorem accepted_job_kept_witness:
  "\<exists>j. snd (get_job (\<lambda>_. 0) 5 '' j '' (mcManager sample_machine)) = Some j \<and> jbFinishedAt j = None"
proof -
  have "trim_space '' j '' = ''j''"
    by code_simp
  from accepted_job_kept [OF sample_reached sample_thread this, of 5] show ?thesis
    by blast
qed

theorem imports_terminate_witness: "\<exists>s. import_step sample_env_m (\<lambda>_. 0) sample_machine s"
  using imports_terminate [OF sample_reached] by (auto simp: sample_machine_def)

end
