(* ===== verification/Openai_Chat.thy ===== *)
theory Openai_Chat
  imports Json
begin

text \<open>
  OpenAI chat completions on the Responses interface of the upstream (\<open>internal/openai/chat.go\<close>): a chat
  request becomes the fields of a Responses request, and a complete response becomes a chat completion.

  \<open>R\<close> is the text of a JSON value (\<open>json.Marshal\<close>, and the raw text of a value that was kept raw), \<open>unm\<close> is
  \<open>json.Unmarshal\<close> of a text.  The fields of a struct are read under their exact names.
\<close>

section \<open>Values\<close>

definition as_string :: "(json \<Rightarrow> string) \<Rightarrow> json \<Rightarrow> string" where
  "as_string R v = (case v of
       JStr s \<Rightarrow> s
     | JNum n \<Rightarrow> dec_int n
     | JFloat _ s \<Rightarrow> s
     | JBool b \<Rightarrow> (if b then ''true'' else ''false'')
     | JNull \<Rightarrow> []
     | w \<Rightarrow> R w)"

text \<open>\<open>asString(m[k])\<close>: a missing member is \<open>nil\<close>.\<close>

definition str_of :: "(json \<Rightarrow> string) \<Rightarrow> jobj \<Rightarrow> string \<Rightarrow> string" where
  "str_of R m k = (case jget m k of None \<Rightarrow> [] | Some v \<Rightarrow> as_string R v)"

definition signed_digits :: "string \<Rightarrow> int option" where
  "signed_digits s = (case s of
       [] \<Rightarrow> None
     | c # cs \<Rightarrow> if c = CHR ''-'' then (if cs = [] then None else map_option uminus (parse_digits 0 cs))
                 else if c = CHR ''+'' then (if cs = [] then None else parse_digits 0 cs)
                 else parse_digits 0 s)"

text \<open>\<open>strconv.ParseInt\<close> answers the nearest value beside a range error.\<close>

definition as_int64 :: "json option \<Rightarrow> int \<times> bool" where
  "as_int64 v = (case v of
       Some (JNum n) \<Rightarrow> (n, True)
     | Some (JFloat n _) \<Rightarrow> (n, True)
     | Some (JStr s) \<Rightarrow>
         (case signed_digits s of
            None \<Rightarrow> (0, False)
          | Some n \<Rightarrow> if n < - (2 ^ 63) then (- (2 ^ 63), False)
                      else if n \<ge> 2 ^ 63 then (2 ^ 63 - 1, False) else (n, True))
     | _ \<Rightarrow> (0, False))"

fun join_with :: "string \<Rightarrow> string list \<Rightarrow> string" where
  "join_with sep [] = []"
| "join_with sep [s] = s"
| "join_with sep (s # ss) = s @ sep @ join_with sep ss"

section \<open>The text of a message\<close>

definition content_part_text :: "(json \<Rightarrow> string) \<Rightarrow> nat \<Rightarrow> json \<Rightarrow> string" where
  "content_part_text R i p =
     (let sep = (if i > 0 then [CHR 0x0A] else []) in
      case p of
        JStr s \<Rightarrow> sep @ s
      | JObj m \<Rightarrow> (if str_of R m ''text'' \<noteq> [] then sep @ str_of R m ''text'' else [])
      | _ \<Rightarrow> [])"

text \<open>\<open>None\<close>: no content.  No content is an error.\<close>

definition content_to_string :: "(json \<Rightarrow> string) \<Rightarrow> json option \<Rightarrow> string" where
  "content_to_string R v = (case v of
       None \<Rightarrow> []
     | Some JNull \<Rightarrow> []
     | Some (JStr s) \<Rightarrow> s
     | Some (JArr ps) \<Rightarrow> concat (map (\<lambda>(i, p). content_part_text R i p) (enumerate 0 ps))
     | Some (JObj m) \<Rightarrow>
         (if str_of R m ''text'' \<noteq> [] then str_of R m ''text'' else trim_space (R (JObj m)))
     | Some w \<Rightarrow> trim_space (R w))"

datatype chat_error =
    ChatInvalid
  | ChatNoMessages
  | ChatEmptyMessages
  | ChatManyChoices
  | ChatLogprobs
  | ChatAudio
  | ChatModality string
  | ChatStop
  | ChatImageURL nat
  | ChatPart nat string

definition image_url_of :: "(json \<Rightarrow> string) \<Rightarrow> jobj \<Rightarrow> string \<times> string" where
  "image_url_of R p =
     (let ud = (case jget p ''image_url'' of
            Some (JStr s) \<Rightarrow> (s, [])
          | Some (JObj m) \<Rightarrow> (str_of R m ''url'', str_of R m ''detail'')
          | _ \<Rightarrow> ([], [])) in
      (if fst ud = [] then str_of R p ''url'' else fst ud, snd ud))"

definition image_part :: "string \<times> string \<Rightarrow> json" where
  "image_part ud = JObj ([(''type'', JStr ''input_image''), (''image_url'', JStr (fst ud))] @
     (if snd ud \<noteq> [] then [(''detail'', JStr (snd ud))] else []))"

text \<open>The parts, their texts and whether an image is among them.\<close>

fun content_parts ::
  "(json \<Rightarrow> string) \<Rightarrow> nat \<Rightarrow> jobj list \<Rightarrow> json list \<Rightarrow> string list \<Rightarrow> bool \<Rightarrow>
   chat_error + json list \<times> string list \<times> bool" where
  "content_parts R i [] out texts img = Inr (out, texts, img)"
| "content_parts R i (p # ps) out texts img =
     (let ty = to_lower (trim_space (str_of R p ''type'')) in
      if ty \<in> set [[], ''text'', ''input_text''] then
        (let s = str_of R p ''text'' in
         if s = [] then content_parts R i ps out texts img
         else content_parts R i ps (out @ [JObj [(''type'', JStr ''input_text''), (''text'', JStr s)]]) (texts @ [s]) img)
      else if ty \<in> set [''image_url'', ''input_image''] then
        (if fst (image_url_of R p) = [] then Inl (ChatImageURL i)
         else content_parts R i ps (out @ [image_part (image_url_of R p)]) texts True)
      else Inl (ChatPart i (str_of R p ''type'')))"

definition part_objects :: "json list \<Rightarrow> jobj list option" where
  "part_objects ps =
     (if list_all (\<lambda>p. case p of JObj _ \<Rightarrow> True | JNull \<Rightarrow> True | _ \<Rightarrow> False) ps
      then Some (map (\<lambda>p. case p of JObj m \<Rightarrow> m | _ \<Rightarrow> []) ps) else None)"

definition chat_content_to_responses :: "(json \<Rightarrow> string) \<Rightarrow> nat \<Rightarrow> json option \<Rightarrow> chat_error + json" where
  "chat_content_to_responses R i v = (case v of
       None \<Rightarrow> Inr (JStr [])
     | Some JNull \<Rightarrow> Inr (JStr [])
     | Some (JArr ps) \<Rightarrow>
         (case part_objects ps of
            None \<Rightarrow> Inr (JStr (content_to_string R v))
          | Some ms \<Rightarrow>
              (case content_parts R i ms [] [] False of
                 Inl e \<Rightarrow> Inl e
               | Inr (out, texts, img) \<Rightarrow>
                   Inr (if img then JArr out else JStr (join_with [CHR 0x0A] texts))))
     | Some _ \<Rightarrow> Inr (JStr (content_to_string R v)))"

section \<open>Messages\<close>

record chat_tool_call =
  tcID :: string
  tcName :: string
  tcArguments :: string

record chat_message =
  cmRole :: string
  cmContent :: "json option"
  cmToolCalls :: "chat_tool_call list"
  cmToolCallID :: string

definition message_item :: "string \<Rightarrow> json \<Rightarrow> json" where
  "message_item role content = JObj [(''type'', JStr ''message''), (''role'', JStr role), (''content'', content)]"

definition call_item :: "chat_tool_call \<Rightarrow> json list" where
  "call_item c =
     (let nm = trim_space (tcName c); k = trim_space (tcID c) in
      if nm = [] then []
      else [JObj ([(''type'', JStr ''function_call''), (''name'', JStr nm), (''arguments'', JStr (tcArguments c))] @
        (if k \<noteq> [] then [(''call_id'', JStr k), (''id'', JStr k)] else []))])"

text \<open>The input items and the instructions of one message.\<close>

definition message_to_input :: "(json \<Rightarrow> string) \<Rightarrow> nat \<Rightarrow> chat_message \<Rightarrow> chat_error + json list \<times> string list" where
  "message_to_input R i m =
     (let role = to_lower (trim_space (cmRole m)); s = content_to_string R (cmContent m) in
      if role \<in> set [''system'', ''developer''] then Inr ([], if s \<noteq> [] then [s] else [])
      else if role = ''user'' then
        (case chat_content_to_responses R i (cmContent m) of
           Inl e \<Rightarrow> Inl e
         | Inr c \<Rightarrow> Inr ([message_item ''user'' c], []))
      else if role = ''assistant'' then
        Inr ((if trim_space s \<noteq> [] then [message_item ''assistant'' (JStr s)] else []) @
             concat (map call_item (cmToolCalls m)), [])
      else if role = ''tool'' then
        Inr ([JObj [(''type'', JStr ''function_call_output''), (''output'', JStr s),
                    (''call_id'', JStr (trim_space (cmToolCallID m)))]], [])
      else Inr ([message_item role (JStr s)], []))"

fun chat_messages_to_input ::
  "(json \<Rightarrow> string) \<Rightarrow> nat \<Rightarrow> chat_message list \<Rightarrow> chat_error + json list \<times> string list" where
  "chat_messages_to_input R i [] = Inr ([], [])"
| "chat_messages_to_input R i (m # ms) = (case message_to_input R i m of
       Inl e \<Rightarrow> Inl e
     | Inr (xs, is) \<Rightarrow>
         (case chat_messages_to_input R (Suc i) ms of
            Inl e \<Rightarrow> Inl e
          | Inr (ys, js) \<Rightarrow> Inr (xs @ ys, is @ js)))"

section \<open>The request\<close>

text \<open>The function of a tool: its name, description and parameters.\<close>

record chat_tool =
  ctType :: string
  ctFunction :: "(string \<times> string \<times> json option) option"

record chat_request =
  crModel :: string
  crMessages :: "chat_message list"
  crStream :: bool
  crMaxTokens :: "int option"
  crMaxCompletion :: "int option"
  crTemperature :: "json option"
  crTopP :: "json option"
  crTools :: "chat_tool list"
  crToolChoice :: "json option"
  crResponseFormat :: "json option"
  crUser :: string
  crN :: int
  crParallel :: "bool option"
  crStop :: "json option"
  crLogprobs :: "bool option"
  crAudio :: "json option"
  crModalities :: "string list"
  crReasoningEffort :: string

text \<open>A raw field that is there and not \<open>null\<close>.\<close>

definition raw_set :: "json option \<Rightarrow> bool" where
  "raw_set v \<longleftrightarrow> v \<noteq> None \<and> v \<noteq> Some JNull"

definition opt_field :: "string \<Rightarrow> json option \<Rightarrow> jobj" where
  "opt_field k v = (case v of None \<Rightarrow> [] | Some w \<Rightarrow> [(k, w)])"

text \<open>A tool of another type is written as its struct is, which drops the fields the struct does not have.\<close>

definition marshal_tool :: "chat_tool \<Rightarrow> json" where
  "marshal_tool t = JObj ((''type'', JStr (ctType t)) # (case ctFunction t of
       None \<Rightarrow> []
     | Some (nm, desc, params) \<Rightarrow>
         [(''function'', JObj ([(''name'', JStr nm)] @
            (if desc \<noteq> [] then [(''description'', JStr desc)] else []) @ opt_field ''parameters'' params))]))"

definition tool_to_responses :: "chat_tool \<Rightarrow> json" where
  "tool_to_responses t =
     (let ty0 = to_lower (trim_space (ctType t)); ty = (if ty0 = [] then ''function'' else ty0) in
      case ctFunction t of
        Some (nm, desc, params) \<Rightarrow>
          if ty \<noteq> ''function'' then marshal_tool t
          else JObj ([(''type'', JStr ''function''), (''name'', JStr nm)] @
            (if trim_space desc \<noteq> [] then [(''description'', JStr (trim_space desc))] else []) @
            (if raw_set params then opt_field ''parameters'' params else []))
      | None \<Rightarrow> marshal_tool t)"

definition normalize_tool_choice :: "(json \<Rightarrow> string) \<Rightarrow> json \<Rightarrow> json" where
  "normalize_tool_choice R v = (case v of
       JObj m \<Rightarrow>
         (if to_lower (str_of R m ''type'') = ''function'' then
            (case jget m ''function'' of
               Some (JObj fn) \<Rightarrow>
                 (if str_of R fn ''name'' \<noteq> []
                  then JObj [(''type'', JStr ''function''), (''name'', JStr (str_of R fn ''name''))] else v)
             | _ \<Rightarrow> v)
          else v)
     | _ \<Rightarrow> v)"

definition check_request :: "chat_request \<Rightarrow> chat_error option" where
  "check_request r =
     (if crN r > 1 then Some ChatManyChoices
      else if crLogprobs r = Some True then Some ChatLogprobs
      else if raw_set (crAudio r) then Some ChatAudio
      else case filter (\<lambda>s. \<not> equal_fold (trim_space s) ''text'') (crModalities r) of
        s # _ \<Rightarrow> Some (ChatModality s)
      | [] \<Rightarrow> if raw_set (crStop r) then Some ChatStop else None)"

definition max_output :: "chat_request \<Rightarrow> json option" where
  "max_output r = map_option JNum (case crMaxTokens r of Some n \<Rightarrow> Some n | None \<Rightarrow> crMaxCompletion r)"

definition text_member :: "string \<Rightarrow> string \<Rightarrow> jobj" where
  "text_member k s = (if trim_space s \<noteq> [] then [(k, JStr (trim_space s))] else [])"

definition chat_request_to_responses :: "(json \<Rightarrow> string) \<Rightarrow> chat_request \<Rightarrow> chat_error + jobj" where
  "chat_request_to_responses R r = (case check_request r of
       Some e \<Rightarrow> Inl e
     | None \<Rightarrow>
         (case chat_messages_to_input R 0 (crMessages r) of
            Inl e \<Rightarrow> Inl e
          | Inr (input, instructions) \<Rightarrow> Inr (
              text_member ''model'' (crModel r) @
              (if crStream r then [(''stream'', JBool True)] else []) @
              (if instructions \<noteq> [] then [(''instructions'', JStr (join_with [CHR 0x0A, CHR 0x0A] instructions))] else []) @
              (if input \<noteq> [] then [(''input'', JArr input)] else []) @
              opt_field ''max_output_tokens'' (max_output r) @
              opt_field ''temperature'' (crTemperature r) @
              opt_field ''top_p'' (crTopP r) @
              (if raw_set (crResponseFormat r) then opt_field ''response_format'' (crResponseFormat r) else []) @
              (if crTools r \<noteq> [] then [(''tools'', JArr (map tool_to_responses (crTools r)))] else []) @
              (if raw_set (crToolChoice r)
               then opt_field ''tool_choice'' (map_option (normalize_tool_choice R) (crToolChoice r)) else []) @
              opt_field ''parallel_tool_calls'' (map_option JBool (crParallel r)) @
              text_member ''user'' (crUser r) @
              text_member ''reasoning_effort'' (crReasoningEffort r))))"

text \<open>\<open>decode\<close> is \<open>json.Unmarshal\<close> into the request struct.\<close>

definition chat_to_responses ::
  "(json \<Rightarrow> string) \<Rightarrow> (string \<Rightarrow> json option) \<Rightarrow> (json \<Rightarrow> chat_request option) \<Rightarrow> string \<Rightarrow> chat_error + jobj" where
  "chat_to_responses R unm decode raw = (case unm raw of
       Some (JObj m) \<Rightarrow>
         (case jget m ''messages'' of
            None \<Rightarrow> Inl ChatNoMessages
          | Some JNull \<Rightarrow> Inl ChatNoMessages
          | Some _ \<Rightarrow>
              (case decode (JObj m) of
                 None \<Rightarrow> Inl ChatInvalid
               | Some r \<Rightarrow> if crMessages r = [] then Inl ChatEmptyMessages else chat_request_to_responses R r))
     | Some JNull \<Rightarrow> Inl ChatNoMessages
     | _ \<Rightarrow> Inl ChatInvalid)"

end
