(* ===== verification/Openai_Complete.thy ===== *)
theory Openai_Complete
  imports Openai_Chat
begin

text \<open>
  A complete response as a chat completion (\<open>internal/openai/chat.go\<close>) and as the one chunk of a stream when
  the upstream did not stream (\<open>writeChatSSEFromCompletion\<close> of \<open>internal/openai/handlers.go\<close>).  \<open>now\<close> is the
  time in seconds.
\<close>

section \<open>The output of a response\<close>

text \<open>A member of the call, else of its function.\<close>

definition call_member :: "(json \<Rightarrow> string) \<Rightarrow> jobj \<Rightarrow> string \<Rightarrow> string" where
  "call_member R m k =
     (if str_of R m k \<noteq> [] then str_of R m k
      else case jget m ''function'' of Some (JObj fn) \<Rightarrow> str_of R fn k | _ \<Rightarrow> [])"

definition call_arguments :: "(json \<Rightarrow> string) \<Rightarrow> jobj \<Rightarrow> string" where
  "call_arguments R m =
     (let args = call_member R m ''arguments'' in
      if args \<noteq> [] then args
      else case jget m ''arguments'' of
        Some a \<Rightarrow> if as_string R a = [] then R a else []
      | None \<Rightarrow> [])"

definition output_call :: "(json \<Rightarrow> string) \<Rightarrow> nat \<Rightarrow> jobj \<Rightarrow> chat_tool_call" where
  "output_call R n m =
     (let k0 = str_of R m ''call_id''; k1 = (if k0 = [] then str_of R m ''id'' else k0) in
      \<lparr> tcID = (if k1 = [] then ''call_'' @ dec_digits n else k1),
        tcName = call_member R m ''name'', tcArguments = call_arguments R m \<rparr>)"

definition output_part_text :: "(json \<Rightarrow> string) \<Rightarrow> json \<Rightarrow> string" where
  "output_part_text R p = (case p of
       JObj m \<Rightarrow>
         (if to_lower (str_of R m ''type'') \<in> set [''output_text'', ''text'', []] then str_of R m ''text'' else [])
     | _ \<Rightarrow> as_string R p)"

definition extract_output_message_text :: "(json \<Rightarrow> string) \<Rightarrow> jobj \<Rightarrow> string list" where
  "extract_output_message_text R m =
     (let parts = filter (\<lambda>s. s \<noteq> []) (case jget m ''content'' of
            Some (JStr s) \<Rightarrow> [s]
          | Some (JArr ps) \<Rightarrow> map (output_part_text R) ps
          | _ \<Rightarrow> []) in
      if parts = [] then filter (\<lambda>s. s \<noteq> []) [str_of R m ''text''] else parts)"

fun extract_items ::
  "(json \<Rightarrow> string) \<Rightarrow> json list \<Rightarrow> string list \<Rightarrow> chat_tool_call list \<Rightarrow> string list \<times> chat_tool_call list" where
  "extract_items R [] texts calls = (texts, calls)"
| "extract_items R (JObj m # items) texts calls =
     (let ty = to_lower (trim_space (str_of R m ''type'')) in
      if ty = ''message'' then extract_items R items (texts @ extract_output_message_text R m) calls
      else if ty \<in> set [''function_call'', ''tool_call'']
      then extract_items R items texts (calls @ [output_call R (length calls) m])
      else if ty = ''reasoning'' then extract_items R items texts calls
      else extract_items R items (texts @ filter (\<lambda>s. s \<noteq> []) [str_of R m ''text'']) calls)"
| "extract_items R (_ # items) texts calls = extract_items R items texts calls"

text \<open>The text, the calls and the reason to finish.\<close>

definition extract_output :: "(json \<Rightarrow> string) \<Rightarrow> jobj \<Rightarrow> string \<times> chat_tool_call list \<times> string" where
  "extract_output R resp =
     (let items = (case jget resp ''output'' of Some (JArr xs) \<Rightarrow> xs | _ \<Rightarrow> []);
          whole = str_of R resp ''output_text'' in
      case extract_items R items [] [] of (texts, calls) \<Rightarrow>
        (if whole = [] then concat texts else whole, calls,
         if calls \<noteq> [] then ''tool_calls''
         else if to_lower (str_of R resp ''status'') = ''incomplete'' then ''length'' else ''stop''))"

definition map_usage :: "json option \<Rightarrow> (int \<times> int \<times> int) option" where
  "map_usage u = (case u of
       Some (JObj m) \<Rightarrow>
         (let p0 = fst (as_int64 (jget m ''input_tokens''));
              p = (if p0 = 0 then fst (as_int64 (jget m ''prompt_tokens'')) else p0);
              c0 = fst (as_int64 (jget m ''output_tokens''));
              c = (if c0 = 0 then fst (as_int64 (jget m ''completion_tokens'')) else c0);
              t = fst (as_int64 (jget m ''total_tokens'')) in
          Some (p, c, if t = 0 then wrap64 (p + c) else t))
     | _ \<Rightarrow> None)"

section \<open>The completion\<close>

record completion =
  cpID :: string
  cpCreated :: int
  cpModel :: string
  cpContent :: "string option"
  cpCalls :: "chat_tool_call list"
  cpFinish :: string
  cpUsage :: "(int \<times> int \<times> int) option"

definition created_time :: "jobj \<Rightarrow> int \<Rightarrow> int" where
  "created_time resp now =
     (let a = as_int64 (jget resp ''created_at''); b = as_int64 (jget resp ''created'');
          c = (if snd a then fst a else if snd b then fst b else 0) in
      if c = 0 then now else c)"

definition responses_map_to_chat :: "(json \<Rightarrow> string) \<Rightarrow> int \<Rightarrow> jobj \<Rightarrow> completion" where
  "responses_map_to_chat R now resp =
     (case extract_output R resp of (content, calls, reason) \<Rightarrow>
        \<lparr> cpID = (if str_of R resp ''id'' = [] then ''chatcmpl-proxy'' else str_of R resp ''id''),
          cpCreated = created_time resp now, cpModel = str_of R resp ''model'',
          cpContent = (if calls \<noteq> [] \<and> content = [] then None else Some content), cpCalls = calls,
          cpFinish = reason, cpUsage = map_usage (jget resp ''usage'') \<rparr>)"

definition call_json :: "chat_tool_call \<Rightarrow> json" where
  "call_json c = JObj [(''id'', JStr (tcID c)), (''type'', JStr ''function''),
     (''function'', JObj [(''name'', JStr (tcName c)), (''arguments'', JStr (tcArguments c))])]"

definition usage_json :: "int \<times> int \<times> int \<Rightarrow> json" where
  "usage_json u = (case u of (p, c, t) \<Rightarrow>
     JObj [(''prompt_tokens'', JNum p), (''completion_tokens'', JNum c), (''total_tokens'', JNum t)])"

definition content_json :: "string option \<Rightarrow> json" where
  "content_json c = (case c of None \<Rightarrow> JNull | Some s \<Rightarrow> JStr s)"

definition message_json :: "completion \<Rightarrow> json" where
  "message_json c = JObj ([(''role'', JStr ''assistant''), (''content'', content_json (cpContent c))] @
     (if cpCalls c \<noteq> [] then [(''tool_calls'', JArr (map call_json (cpCalls c)))] else []))"

definition completion_json :: "completion \<Rightarrow> json" where
  "completion_json c = JObj ([(''id'', JStr (cpID c)), (''object'', JStr ''chat.completion''),
     (''created'', JNum (cpCreated c)), (''model'', JStr (cpModel c)),
     (''choices'', JArr [JObj [(''index'', JNum 0), (''message'', message_json c),
        (''finish_reason'', JStr (cpFinish c)), (''logprobs'', JNull)]])] @
     opt_field ''usage'' (map_option usage_json (cpUsage c)))"

text \<open>A body \<open>null\<close> decodes to a nil map, to which the requested model cannot be assigned.\<close>

datatype chat_outcome =
    Converted completion
  | NotConverted
  | Panics

definition responses_to_chat_with_model ::
  "(json \<Rightarrow> string) \<Rightarrow> (string \<Rightarrow> json option) \<Rightarrow> int \<Rightarrow> string \<Rightarrow> string \<Rightarrow> chat_outcome" where
  "responses_to_chat_with_model R unm now raw requested =
     (let model = trim_space requested;
          with_model = (\<lambda>m. if model = [] then m else jput m ''model'' (JStr model)) in
      case unm raw of
        Some (JObj m) \<Rightarrow> Converted (responses_map_to_chat R now (with_model m))
      | Some JNull \<Rightarrow> if model = [] then Converted (responses_map_to_chat R now []) else Panics
      | _ \<Rightarrow> NotConverted)"

definition completion_chunk :: "completion \<Rightarrow> json" where
  "completion_chunk c = JObj [(''id'', JStr (cpID c)), (''object'', JStr ''chat.completion.chunk''),
     (''created'', JNum (cpCreated c)), (''model'', JStr (cpModel c)),
     (''choices'', JArr [JObj [(''index'', JNum 0),
        (''delta'', message_json c), (''finish_reason'', JStr (cpFinish c))]])]"

end
