(* ===== verification/Openai_Stream.thy ===== *)
theory Openai_Stream
  imports Openai_Complete
begin

text \<open>
  The streaming translation of Responses events into chat chunks (\<open>internal/openai/chat_stream.go\<close>), the
  reading of the upstream's event lines (\<open>internal/openai/responses.go\<close>), and what the client receives of
  them (\<open>handleChatStream\<close> of \<open>internal/openai/handlers.go\<close>).  Writes to the client are taken to succeed.
\<close>

section \<open>Chunks\<close>

record chunk_head =
  chID :: string
  chCreated :: int
  chModel :: string

record call_delta =
  cdIndex :: nat
  cdIdentity :: "(string \<times> string) option"
  cdArguments :: string

text \<open>\<open>Delta\<close>: whether the role is told, a text, a piece of a call.\<close>

datatype chat_chunk =
    Delta chunk_head bool "string option" "call_delta option"
  | Finish chunk_head string
  | UsageChunk chunk_head "(int \<times> int \<times> int) option"
  | Failure string string

definition call_delta_json :: "call_delta \<Rightarrow> json" where
  "call_delta_json d = (case cdIdentity d of
       None \<Rightarrow> JObj [(''index'', JNum (int (cdIndex d))),
         (''function'', JObj [(''arguments'', JStr (cdArguments d))])]
     | Some (k, nm) \<Rightarrow> JObj [(''index'', JNum (int (cdIndex d))), (''id'', JStr k), (''type'', JStr ''function''),
         (''function'', JObj [(''name'', JStr nm), (''arguments'', JStr (cdArguments d))])])"

definition head_json :: "chunk_head \<Rightarrow> json list \<Rightarrow> jobj" where
  "head_json h choices = [(''id'', JStr (chID h)), (''object'', JStr ''chat.completion.chunk''),
     (''created'', JNum (chCreated h)), (''model'', JStr (chModel h)), (''choices'', JArr choices)]"

definition choice_json :: "jobj \<Rightarrow> json \<Rightarrow> json" where
  "choice_json delta reason = JObj [(''index'', JNum 0), (''delta'', JObj delta), (''finish_reason'', reason)]"

definition chunk_json :: "chat_chunk \<Rightarrow> json" where
  "chunk_json c = (case c of
       Delta h role txt call \<Rightarrow> JObj (head_json h [choice_json
         ((if role then [(''role'', JStr ''assistant'')] else []) @ opt_field ''content'' (map_option JStr txt) @
          opt_field ''tool_calls'' (map_option (\<lambda>d. JArr [call_delta_json d]) call)) JNull])
     | Finish h reason \<Rightarrow> JObj (head_json h [choice_json [] (JStr reason)])
     | UsageChunk h u \<Rightarrow> JObj (head_json h [] @
         [(''usage'', case u of None \<Rightarrow> JObj [] | Some n \<Rightarrow> usage_json n)])
     | Failure msg code \<Rightarrow> JObj [(''error'', JObj [(''message'', JStr msg), (''type'', JStr ''server_error''),
         (''code'', JStr code)])])"

section \<open>The translator\<close>

record tool_stream =
  tsIndex :: nat
  tsID :: string
  tsName :: string
  tsSawArgs :: bool
  tsFinalized :: bool
  tsIdentitySent :: bool

record chat_stream =
  csID :: string
  csModel :: string
  csFixedModel :: string
  csCreated :: int
  csSentRole :: bool
  csTerminal :: bool
  csFailed :: bool
  csSawTool :: bool
  csIncludeUsage :: bool
  csUsage :: "(int \<times> int \<times> int) option"
  csTools :: "string \<rightharpoonup> tool_stream"
  csNextTool :: nat

definition new_chat_stream :: "bool \<Rightarrow> string \<Rightarrow> int \<Rightarrow> chat_stream" where
  "new_chat_stream usage model now = \<lparr> csID = ''chatcmpl-proxy'', csModel = trim_space model,
     csFixedModel = trim_space model, csCreated = now, csSentRole = False, csTerminal = False,
     csFailed = False, csSawTool = False, csIncludeUsage = usage, csUsage = None, csTools = Map.empty,
     csNextTool = 0 \<rparr>"

type_synonym chat_act = "chat_stream \<Rightarrow> chat_stream \<times> chat_chunk list"

definition head_of :: "chat_stream \<Rightarrow> chunk_head" where
  "head_of s = \<lparr> chID = csID s, chCreated = csCreated s, chModel = csModel s \<rparr>"

definition positive_time :: "int \<times> bool \<Rightarrow> bool" where
  "positive_time a \<longleftrightarrow> snd a \<and> fst a > 0"

definition stream_usage :: "jobj \<Rightarrow> int \<times> int \<times> int" where
  "stream_usage m =
     (let p = fst (as_int64 (jget m ''input_tokens'')); c = fst (as_int64 (jget m ''output_tokens''));
          t = as_int64 (jget m ''total_tokens'') in
      (p, c, if snd t then fst t else wrap64 (p + c)))"

definition update_response_metadata :: "(json \<Rightarrow> string) \<Rightarrow> jobj \<Rightarrow> chat_stream \<Rightarrow> chat_stream" where
  "update_response_metadata R resp s =
     (let k = str_of R resp ''id''; m = str_of R resp ''model'';
          a = as_int64 (jget resp ''created_at''); b = as_int64 (jget resp ''created'') in
      s\<lparr> csID := (if k = [] then csID s
                 else if has_prefix k ''resp_'' then ''chatcmpl-'' @ trim_prefix k ''resp_'' else k),
         csModel := (if m \<noteq> [] \<and> csFixedModel s = [] then m else csModel s),
         csCreated := (if positive_time a then fst a else if positive_time b then fst b else csCreated s),
         csUsage := (case jget resp ''usage'' of Some (JObj u) \<Rightarrow> Some (stream_usage u) | _ \<Rightarrow> csUsage s) \<rparr>)"

text \<open>The key of the tool an event speaks of, and what is known of it.\<close>

definition stream_key :: "(json \<Rightarrow> string) \<Rightarrow> jobj \<Rightarrow> jobj \<Rightarrow> chat_stream \<Rightarrow> string" where
  "stream_key R event item s =
     (let k = first_non_empty [str_of R event ''item_id'', str_of R event ''call_id'', str_of R item ''id'',
            str_of R item ''call_id'', str_of R event ''output_index''] in
      if k = [] then ''tool-'' @ dec_digits (csNextTool s) else k)"

definition known_id :: "(json \<Rightarrow> string) \<Rightarrow> jobj \<Rightarrow> jobj \<Rightarrow> string list" where
  "known_id R event item = [str_of R event ''call_id'', str_of R item ''call_id'', str_of R item ''id'']"

definition known_name :: "(json \<Rightarrow> string) \<Rightarrow> jobj \<Rightarrow> jobj \<Rightarrow> string" where
  "known_name R event item = first_non_empty [str_of R event ''name'', str_of R item ''name'']"

definition ensure_tool :: "(json \<Rightarrow> string) \<Rightarrow> jobj \<Rightarrow> jobj \<Rightarrow> chat_stream \<Rightarrow> chat_stream \<times> string" where
  "ensure_tool R event item s =
     (let key = stream_key R event item s in
      case csTools s key of
        Some t \<Rightarrow> (s\<lparr> csTools := (csTools s)(key \<mapsto> t\<lparr>
            tsID := (if tsID t = [] then first_non_empty (known_id R event item) else tsID t),
            tsName := (if tsName t = [] then known_name R event item else tsName t) \<rparr>) \<rparr>, key)
      | None \<Rightarrow> (s\<lparr> csTools := (csTools s)(key \<mapsto> \<lparr> tsIndex = csNextTool s,
            tsID = first_non_empty (known_id R event item @ [key]), tsName = known_name R event item,
            tsSawArgs = False, tsFinalized = False, tsIdentitySent = False \<rparr>),
          csNextTool := csNextTool s + 1, csSawTool := True \<rparr>, key))"

definition change_tool :: "string \<Rightarrow> (tool_stream \<Rightarrow> tool_stream) \<Rightarrow> chat_stream \<Rightarrow> chat_stream" where
  "change_tool key f s = s\<lparr> csTools := (csTools s)(key := map_option f (csTools s key)) \<rparr>"

definition role_chunk :: "string option \<Rightarrow> call_delta option \<Rightarrow> chat_act" where
  "role_chunk txt call s = (s\<lparr> csSentRole := True \<rparr>, [Delta (head_of s) (\<not> csSentRole s) txt call])"

definition tool_chunk :: "string \<Rightarrow> string \<Rightarrow> chat_act" where
  "tool_chunk key args s = (case csTools s key of
       None \<Rightarrow> (s, [])
     | Some t \<Rightarrow> role_chunk None
         (Some \<lparr> cdIndex = tsIndex t, cdIdentity = (if tsIdentitySent t then None else Some (tsID t, tsName t)),
                cdArguments = args \<rparr>)
         (change_tool key (\<lambda>t. t\<lparr> tsIdentitySent := True \<rparr>) s))"

definition finish_chat :: "string \<Rightarrow> chat_act" where
  "finish_chat reason s =
     (if csTerminal s then (s, [])
      else (s\<lparr> csTerminal := True \<rparr>,
        Finish (head_of s) (if reason = [] then (if csSawTool s then ''tool_calls'' else ''stop'') else reason) #
        (if csIncludeUsage s then [UsageChunk (head_of s) (csUsage s)] else [])))"

definition error_message_of :: "(json \<Rightarrow> string) \<Rightarrow> jobj \<Rightarrow> string" where
  "error_message_of R event =
     (let detail = (\<lambda>m. case jget m ''error'' of Some (JObj d) \<Rightarrow> str_of R d ''message'' | _ \<Rightarrow> []);
          inner = (case jget event ''response'' of Some (JObj r) \<Rightarrow> detail r | _ \<Rightarrow> []) in
      if str_of R event ''message'' \<noteq> [] then str_of R event ''message''
      else if detail event \<noteq> [] then detail event
      else if inner \<noteq> [] then inner else ''Bad Gateway'')"

definition on_text_delta :: "(json \<Rightarrow> string) \<Rightarrow> jobj \<Rightarrow> chat_act" where
  "on_text_delta R event s =
     (let a = str_of R event ''delta''; txt = (if a = [] then str_of R event ''text'' else a) in
      if txt = [] then (s, []) else role_chunk (Some txt) None s)"

definition on_arguments_delta :: "(json \<Rightarrow> string) \<Rightarrow> jobj \<Rightarrow> chat_act" where
  "on_arguments_delta R event s =
     (case ensure_tool R event [] s of (s1, key) \<Rightarrow>
        (if str_of R event ''delta'' = [] then (s1, [])
         else tool_chunk key (str_of R event ''delta'') (change_tool key (\<lambda>t. t\<lparr> tsSawArgs := True \<rparr>) s1)))"

text \<open>The end of a call: its arguments are told whole when none came in pieces.\<close>

definition finalize_tool :: "(json \<Rightarrow> string) \<Rightarrow> jobj \<Rightarrow> jobj \<Rightarrow> string \<Rightarrow> chat_act" where
  "finalize_tool R event item args s =
     (case ensure_tool R event item s of (s1, key) \<Rightarrow>
        (case csTools s1 key of
           None \<Rightarrow> (s1, [])
         | Some t \<Rightarrow>
             if tsFinalized t then (s1, [])
             else if tsSawArgs t then (change_tool key (\<lambda>t. t\<lparr> tsFinalized := True \<rparr>) s1, [])
             else tool_chunk key (if args = [] then ''{}'' else args)
               (change_tool key (\<lambda>t. t\<lparr> tsFinalized := True, tsSawArgs := True \<rparr>) s1)))"

definition is_call :: "(json \<Rightarrow> string) \<Rightarrow> jobj \<Rightarrow> bool" where
  "is_call R item \<longleftrightarrow> to_lower (str_of R item ''type'') = ''function_call''"

definition item_of :: "jobj \<Rightarrow> jobj" where
  "item_of event = (case jget event ''item'' of Some (JObj m) \<Rightarrow> m | _ \<Rightarrow> [])"

definition on_event :: "(json \<Rightarrow> string) \<Rightarrow> string \<Rightarrow> jobj \<Rightarrow> chat_act" where
  "on_event R ty event s =
     (if ty \<in> set [''response.created'', ''response.in_progress'']
      then (if csSentRole s then (s, []) else role_chunk None None s)
      else if ty \<in> set [''response.output_text.delta'', ''response.text.delta''] then on_text_delta R event s
      else if ty = ''response.output_item.added''
      then (if \<not> is_call R (item_of event) then (s, [])
            else case ensure_tool R event (item_of event) s of (s1, key) \<Rightarrow> tool_chunk key [] s1)
      else if ty = ''response.function_call_arguments.delta'' then on_arguments_delta R event s
      else if ty = ''response.function_call_arguments.done''
      then finalize_tool R event [] (str_of R event ''arguments'') s
      else if ty = ''response.output_item.done''
      then (if \<not> is_call R (item_of event) then (s, [])
            else finalize_tool R event (item_of event) (str_of R (item_of event) ''arguments'') s)
      else if ty \<in> set [''response.completed'', ''response.done''] then finish_chat [] s
      else if ty = ''response.incomplete'' then finish_chat ''length'' s
      else if ty \<in> set [''response.failed'', ''error'']
      then (s\<lparr> csTerminal := True, csFailed := True \<rparr>,
            [Failure (error_message_of R event) ''upstream_stream_failed''])
      else (s, []))"

definition process_event :: "(json \<Rightarrow> string) \<Rightarrow> jobj \<Rightarrow> chat_act" where
  "process_event R event s =
     (let s1 = (case jget event ''response'' of Some (JObj r) \<Rightarrow> update_response_metadata R r s | _ \<Rightarrow> s) in
      on_event R (to_lower (trim_space (str_of R event ''type''))) event s1)"

definition process_chat ::
  "(string \<Rightarrow> json option) \<Rightarrow> (json \<Rightarrow> string) \<Rightarrow> string \<Rightarrow> chat_stream \<Rightarrow>
   chat_stream \<times> chat_chunk list \<times> goerr option" where
  "process_chat unm R data s =
     (let payload = trim_space data; run = (\<lambda>r. case r of (s', cs) \<Rightarrow> (s', cs, None)) in
      if payload = [] then (s, [], None)
      else if payload = ''[DONE]'' then run (finish_chat [] s)
      else case unm data of
        Some (JObj event) \<Rightarrow> run (process_event R event s)
      | Some JNull \<Rightarrow> run (process_event R [] s)
      | _ \<Rightarrow> (s, [], Some (ErrText ''openai chat stream: invalid event'')))"

section \<open>The stream\<close>

definition chat_payload :: "string \<Rightarrow> string" where
  "chat_payload buf = (if buf \<noteq> [] \<and> last buf = CHR 0x0A then butlast buf else buf)"

definition chat_data_line :: "string \<Rightarrow> string \<Rightarrow> string" where
  "chat_data_line buf line =
     (if has_prefix line ''data:''
      then (if buf = [] then [] else buf @ [CHR 0x0A]) @ trim_space (trim_prefix line ''data:'')
      else buf)"

definition flush_chat ::
  "(string \<Rightarrow> json option) \<Rightarrow> (json \<Rightarrow> string) \<Rightarrow> string \<Rightarrow> chat_stream \<Rightarrow>
   chat_stream \<times> chat_chunk list \<times> goerr option" where
  "flush_chat unm R buf s = (if buf = [] then (s, [], None) else process_chat unm R (chat_payload buf) s)"

fun scan_chat ::
  "(string \<Rightarrow> json option) \<Rightarrow> (json \<Rightarrow> string) \<Rightarrow> string \<Rightarrow> string list \<Rightarrow> chat_stream \<Rightarrow>
   chat_stream \<times> chat_chunk list \<times> goerr option" where
  "scan_chat unm R buf [] s = flush_chat unm R buf s"
| "scan_chat unm R buf (line # lines) s =
     (if line = [] then
        (case flush_chat unm R buf s of
           (s1, cs, Some e) \<Rightarrow> (s1, cs, Some e)
         | (s1, cs, None) \<Rightarrow>
             (case scan_chat unm R [] lines s1 of (s2, cs', e) \<Rightarrow> (s2, cs @ cs', e)))
      else scan_chat unm R (chat_data_line buf line) lines s)"

datatype chat_frame =
    Chunk chat_chunk
  | DoneFrame

text \<open>\<open>etext\<close> is the text of an error.\<close>

definition handle_chat_stream ::
  "(string \<Rightarrow> json option) \<Rightarrow> (json \<Rightarrow> string) \<Rightarrow> (goerr \<Rightarrow> string) \<Rightarrow> goerr option \<Rightarrow> string list \<Rightarrow>
   chat_stream \<Rightarrow> chat_frame list" where
  "handle_chat_stream unm R etext scan_err lines s =
     (case scan_chat unm R [] lines s of (s1, cs, perr) \<Rightarrow>
        map Chunk (cs @ (if csTerminal s1 then []
          else [Failure (case perr of
                    Some e \<Rightarrow> etext e
                  | None \<Rightarrow> (case scan_err of
                      Some e \<Rightarrow> etext e | None \<Rightarrow> ''upstream stream ended before a terminal event''))
                ''upstream_stream_truncated''])) @ [DoneFrame])"

end
