(* ===== verification/Openai_Props.thy ===== *)
theory Openai_Props
  imports Openai_Stream
begin

text \<open>
  What the chat interface promises: the chunks of a stream put together by a client are the completion the
  same response gives when it is not streamed; every stream is well-formed up to its end; and a completion sent
  back as a message of the next request is the output it came from.
\<close>

section \<open>A client of the stream\<close>

text \<open>The calls by their index; \<open>None\<close>: a chunk that a client cannot place.\<close>

record client =
  clRole :: bool
  clText :: string
  clCalls :: "(nat \<times> chat_tool_call) list"
  clFinish :: "string option"
  clUsage :: bool
  clFailed :: bool

definition new_client :: client where
  "new_client = \<lparr> clRole = False, clText = [], clCalls = [], clFinish = None, clUsage = False, clFailed = False \<rparr>"

definition is_over :: "client \<Rightarrow> bool" where
  "is_over c \<longleftrightarrow> clFinish c \<noteq> None \<or> clFailed c"

definition merge_call :: "call_delta \<Rightarrow> (nat \<times> chat_tool_call) list \<Rightarrow> (nat \<times> chat_tool_call) list option" where
  "merge_call d calls = (case cdIdentity d of
       Some (k, nm) \<Rightarrow>
         (if cdIndex d \<in> fst ` set calls then None
          else Some (calls @ [(cdIndex d, \<lparr> tcID = k, tcName = nm, tcArguments = cdArguments d \<rparr>)]))
     | None \<Rightarrow>
         (if cdIndex d \<notin> fst ` set calls then None
          else Some (map (\<lambda>(i, x). (i, if i = cdIndex d then x\<lparr> tcArguments := tcArguments x @ cdArguments d \<rparr> else x))
            calls)))"

definition take_delta :: "bool \<Rightarrow> string option \<Rightarrow> call_delta option \<Rightarrow> client \<Rightarrow> client option" where
  "take_delta role tx call c =
     (if is_over c \<or> role = clRole c then None
      else let c1 = c\<lparr> clRole := True, clText := clText c @ (case tx of None \<Rightarrow> [] | Some s \<Rightarrow> s) \<rparr> in
        case call of
          None \<Rightarrow> Some c1
        | Some d \<Rightarrow> map_option (\<lambda>calls. c1\<lparr> clCalls := calls \<rparr>) (merge_call d (clCalls c)))"

fun client_take :: "chat_chunk \<Rightarrow> client \<Rightarrow> client option" where
  "client_take (Delta h role tx call) c = take_delta role tx call c"
| "client_take (Finish h reason) c = (if is_over c then None else Some (c\<lparr> clFinish := Some reason \<rparr>))"
| "client_take (UsageChunk h u) c =
     (if clFinish c = None \<or> clUsage c then None else Some (c\<lparr> clUsage := True \<rparr>))"
| "client_take (Failure msg code) c = (if is_over c then None else Some (c\<lparr> clFailed := True \<rparr>))"

fun client_run :: "chat_chunk list \<Rightarrow> client \<Rightarrow> client option" where
  "client_run [] c = Some c"
| "client_run (k # ks) c = (case client_take k c of None \<Rightarrow> None | Some c' \<Rightarrow> client_run ks c')"

lemma client_run_append: "client_run (xs @ ys) c = (case client_run xs c of None \<Rightarrow> None | Some c' \<Rightarrow> client_run ys c')"
  by (induction xs arbitrary: c) (auto split: option.splits)

section \<open>An exchange with the upstream\<close>

text \<open>What the upstream answers: messages in pieces, calls whose arguments come in pieces or whole.\<close>

record upstream_call =
  ucID :: string
  ucCallID :: string
  ucName :: string
  ucArguments :: string
  ucPieces :: "string list"

datatype upstream_item =
    Message "string list"
  | Call upstream_call
  | Reasoning string

definition call_members :: "upstream_call \<Rightarrow> string \<Rightarrow> jobj" where
  "call_members c args = [(''type'', JStr ''function_call''), (''id'', JStr (ucID c)), (''call_id'', JStr (ucCallID c)),
     (''name'', JStr (ucName c)), (''arguments'', JStr args)]"

fun item_members :: "upstream_item \<Rightarrow> jobj" where
  "item_members (Message ts) = [(''type'', JStr ''message''), (''role'', JStr ''assistant''),
     (''content'', JArr [JObj [(''type'', JStr ''output_text''), (''text'', JStr (concat ts))]])]"
| "item_members (Call c) = call_members c (ucArguments c)"
| "item_members (Reasoning k) = [(''type'', JStr ''reasoning''), (''id'', JStr k)]"

definition item_event :: "string \<Rightarrow> nat \<Rightarrow> jobj \<Rightarrow> jobj" where
  "item_event ty n item = [(''type'', JStr ty), (''output_index'', JNum (int n)), (''item'', JObj item)]"

definition text_event :: "string \<Rightarrow> jobj" where
  "text_event t = [(''type'', JStr ''response.output_text.delta''), (''delta'', JStr t)]"

definition piece_event :: "upstream_call \<Rightarrow> string \<Rightarrow> jobj" where
  "piece_event c t = [(''type'', JStr ''response.function_call_arguments.delta''), (''item_id'', JStr (ucID c)),
     (''delta'', JStr t)]"

definition arguments_event :: "upstream_call \<Rightarrow> jobj" where
  "arguments_event c = [(''type'', JStr ''response.function_call_arguments.done''), (''item_id'', JStr (ucID c)),
     (''arguments'', JStr (ucArguments c))]"

fun item_events :: "nat \<Rightarrow> upstream_item \<Rightarrow> jobj list" where
  "item_events n (Message ts) = map text_event ts @ [item_event ''response.output_item.done'' n (item_members (Message ts))]"
| "item_events n (Call c) = [item_event ''response.output_item.added'' n (call_members c [])] @
     map (piece_event c) (ucPieces c) @ [arguments_event c] @
     [item_event ''response.output_item.done'' n (call_members c (ucArguments c))]"
| "item_events n (Reasoning k) = [item_event ''response.output_item.added'' n (item_members (Reasoning k)),
     item_event ''response.output_item.done'' n (item_members (Reasoning k))]"

definition response_event :: "string \<Rightarrow> jobj \<Rightarrow> jobj" where
  "response_event ty resp = [(''type'', JStr ty), (''response'', JObj resp)]"

definition final_response :: "string \<Rightarrow> string \<Rightarrow> upstream_item list \<Rightarrow> jobj" where
  "final_response k status items = [(''id'', JStr k), (''status'', JStr status),
     (''output'', JArr (map (\<lambda>it. JObj (item_members it)) items))]"

definition stream_events :: "string \<Rightarrow> string \<Rightarrow> upstream_item list \<Rightarrow> jobj list" where
  "stream_events k status items =
     [response_event ''response.created'' [(''id'', JStr k), (''status'', JStr ''in_progress'')]] @
     concat (map (\<lambda>(n, it). item_events n it) (enumerate 0 items)) @
     [response_event (if status = ''incomplete'' then ''response.incomplete'' else ''response.completed'')
        (final_response k status items)]"

text \<open>Identifiers and names without space around them, arguments that are told.\<close>

fun proper_item :: "upstream_item \<Rightarrow> bool" where
  "proper_item (Message ts) = True"
| "proper_item (Call c) \<longleftrightarrow> ucID c \<noteq> [] \<and> trim_space (ucID c) = ucID c \<and> ucCallID c \<noteq> [] \<and>
     trim_space (ucCallID c) = ucCallID c \<and> trim_space (ucName c) = ucName c \<and> ucArguments c \<noteq> [] \<and>
     (concat (ucPieces c) = ucArguments c \<or> concat (ucPieces c) = [])"
| "proper_item (Reasoning k) = True"

fun item_id :: "upstream_item \<Rightarrow> string list" where
  "item_id (Call c) = [ucID c]"
| "item_id _ = []"

fun item_call :: "upstream_item \<Rightarrow> chat_tool_call list" where
  "item_call (Call c) = [\<lparr> tcID = ucCallID c, tcName = ucName c, tcArguments = ucArguments c \<rparr>]"
| "item_call _ = []"

fun item_text :: "upstream_item \<Rightarrow> string" where
  "item_text (Message ts) = concat ts"
| "item_text _ = []"

section \<open>The completion of an exchange\<close>

lemma jget_Cons [simp]: "jget ((k', v) # m) k = (if k = k' then Some v else jget m k)"
  by (simp add: jget_def)

lemma str_of_simps [simp]:
  "str_of R [] k = []"
  "str_of R ((k', v) # m) k = (if k = k' then as_string R v else str_of R m k)"
  by (simp_all add: str_of_def)

lemma as_string_simps [simp]: "as_string R (JStr s) = s" "as_string R (JNum n) = dec_int n" "as_string R JNull = []"
  by (simp_all add: as_string_def)

lemma type_names [simp]:
  "to_lower (trim_space ''message'') = ''message''" "to_lower (trim_space ''function_call'') = ''function_call''"
  "to_lower (trim_space ''reasoning'') = ''reasoning''" "to_lower ''output_text'' = ''output_text''"
  "to_lower ''function_call'' = ''function_call''" "to_lower ''message'' = ''message''" "to_lower ''reasoning'' = ''reasoning''"
  by code_simp+

lemma extract_upstream:
  "list_all proper_item items \<Longrightarrow>
   concat (fst (extract_items R (map (\<lambda>it. JObj (item_members it)) items) texts calls)) = concat texts @ concat (map item_text items) \<and>
   snd (extract_items R (map (\<lambda>it. JObj (item_members it)) items) texts calls) = calls @ concat (map item_call items)"
proof (induction items arbitrary: texts calls)
  case (Cons it items)
  show ?case
  proof (cases it)
    case (Message ts)
    have "concat (extract_output_message_text R (item_members (Message ts))) = concat ts"
      by (simp add: extract_output_message_text_def output_part_text_def)
    then show ?thesis
      using Cons by (simp add: Message)
  next
    case (Call c)
    have "output_call R n (item_members (Call c)) = \<lparr> tcID = ucCallID c, tcName = ucName c, tcArguments = ucArguments c \<rparr>" for n
      using Cons.prems by (simp add: Call output_call_def call_members_def call_member_def call_arguments_def Let_def)
    then show ?thesis
      using Cons by (simp add: Call call_members_def)
  qed (use Cons in simp)
qed simp

lemma extract_exchange:
  assumes "list_all proper_item items"
  shows "extract_output R (final_response k status items) =
    (concat (map item_text items), concat (map item_call items),
     if concat (map item_call items) \<noteq> [] then ''tool_calls''
     else if to_lower status = ''incomplete'' then ''length'' else ''stop'')"
proof -
  obtain texts calls where x: "extract_items R (map (\<lambda>it. JObj (item_members it)) items) [] [] = (texts, calls)"
    by fastforce
  then have "concat texts = concat (map item_text items)" "calls = concat (map item_call items)"
    using extract_upstream [OF assms, of R "[]" "[]"] by simp_all
  then show ?thesis
    by (simp add: extract_output_def final_response_def Let_def x)
qed

section \<open>One event at a time\<close>

fun run_events :: "(json \<Rightarrow> string) \<Rightarrow> jobj list \<Rightarrow> chat_act" where
  "run_events R [] s = (s, [])"
| "run_events R (e # es) s =
     (case process_event R e s of (s1, cs) \<Rightarrow> case run_events R es s1 of (s2, ds) \<Rightarrow> (s2, cs @ ds))"

definition follows ::
  "(json \<Rightarrow> string) \<Rightarrow> jobj list \<Rightarrow> chat_stream \<Rightarrow> client \<Rightarrow> chat_stream \<Rightarrow> client \<Rightarrow> bool" where
  "follows R es s c s' c' \<longleftrightarrow> (\<exists>cs. run_events R es s = (s', cs) \<and> client_run cs c = Some c')"

lemma follows_refl: "follows R [] s c s c"
  by (simp add: follows_def)

lemma follows_one: "process_event R e s = (s', cs) \<Longrightarrow> client_run cs c = Some c' \<Longrightarrow> follows R [e] s c s' c'"
  by (simp add: follows_def)

lemma step_to:
  "process_event R e s = (s', cs) \<Longrightarrow> client_run cs c = Some c' \<Longrightarrow> P s' c' \<Longrightarrow>
   \<exists>s' c'. follows R [e] s c s' c' \<and> P s' c'"
  using follows_one by blast

lemma run_events_append:
  "run_events R (xs @ ys) s = (case run_events R xs s of (s1, cs) \<Rightarrow> case run_events R ys s1 of (s2, ds) \<Rightarrow> (s2, cs @ ds))"
  by (induction xs arbitrary: s) (auto split: prod.splits)

lemma follows_append: "follows R xs s c s1 c1 \<Longrightarrow> follows R ys s1 c1 s2 c2 \<Longrightarrow> follows R (xs @ ys) s c s2 c2"
  by (auto simp: follows_def run_events_append client_run_append)

lemma first_non_empty_simps [simp]:
  "first_non_empty [] = []" "first_non_empty ([] # vs) = first_non_empty vs"
  "trim_space v = v \<Longrightarrow> v \<noteq> [] \<Longrightarrow> first_non_empty (v # vs) = v"
  by (simp_all add: first_non_empty_def)

lemma first_non_empty_trimmed: "trim_space v = v \<Longrightarrow> first_non_empty [v] = v"
  by (simp add: first_non_empty_def)

lemma event_names [simp]:
  "to_lower (trim_space ''response.created'') = ''response.created''"
  "to_lower (trim_space ''response.completed'') = ''response.completed''"
  "to_lower (trim_space ''response.incomplete'') = ''response.incomplete''"
  "to_lower (trim_space ''response.output_text.delta'') = ''response.output_text.delta''"
  "to_lower (trim_space ''response.output_item.added'') = ''response.output_item.added''"
  "to_lower (trim_space ''response.output_item.done'') = ''response.output_item.done''"
  "to_lower (trim_space ''response.function_call_arguments.delta'') = ''response.function_call_arguments.delta''"
  "to_lower (trim_space ''response.function_call_arguments.done'') = ''response.function_call_arguments.done''"
  by code_simp+

text \<open>Between two items, with the calls and the text so far.\<close>

definition between :: "string set \<Rightarrow> chat_tool_call list \<Rightarrow> string \<Rightarrow> chat_stream \<Rightarrow> client \<Rightarrow> bool" where
  "between K calls tx s c \<longleftrightarrow> \<not> csTerminal s \<and> csSentRole s \<and> csNextTool s = length calls \<and>
     csSawTool s = (calls \<noteq> []) \<and> dom (csTools s) = K \<and> csIncludeUsage s = False \<and>
     clRole c \<and> clText c = tx \<and> clCalls c = enumerate 0 calls \<and> clFinish c = None \<and> \<not> clFailed c"

text \<open>Within a call, with the arguments so far.\<close>

definition within_call ::
  "string set \<Rightarrow> chat_tool_call list \<Rightarrow> string \<Rightarrow> upstream_call \<Rightarrow> string \<Rightarrow> bool \<Rightarrow> chat_stream \<Rightarrow> client \<Rightarrow> bool" where
  "within_call K calls tx u args final s c \<longleftrightarrow> \<not> csTerminal s \<and> csSentRole s \<and> csNextTool s = Suc (length calls) \<and>
     csSawTool s \<and> dom (csTools s) = insert (ucID u) K \<and> csIncludeUsage s = False \<and>
     clRole c \<and> clText c = tx \<and> clFinish c = None \<and> \<not> clFailed c \<and>
     clCalls c = enumerate 0 (calls @ [\<lparr> tcID = ucCallID u, tcName = ucName u, tcArguments = args \<rparr>]) \<and>
     (\<exists>t. csTools s (ucID u) = Some t \<and> tsIndex t = length calls \<and> tsIdentitySent t \<and> tsID t \<noteq> [] \<and>
          (tsFinalized t = final) \<and> (\<not> final \<longrightarrow> tsSawArgs t = (args \<noteq> [])))"

lemma text_step:
  assumes "between K calls tx s c"
  shows "\<exists>s' c'. follows R [text_event t] s c s' c' \<and> between K calls (tx @ t) s' c'"
proof (cases "t = []")
  case True
  then have "process_event R (text_event t) s = (s, [])"
    by (simp add: process_event_def text_event_def on_event_def on_text_delta_def Let_def)
  then show ?thesis
    using assms True follows_one [of R "text_event t" s s "[]" c c] by auto
next
  case False
  then have "process_event R (text_event t) s = role_chunk (Some t) None s"
    by (simp add: process_event_def text_event_def on_event_def on_text_delta_def Let_def)
  then have "process_event R (text_event t) s = (s, [Delta (head_of s) False (Some t) None])"
    using assms by (simp add: role_chunk_def between_def)
  moreover have "client_run [Delta (head_of s) False (Some t) None] c = Some (c\<lparr> clText := tx @ t \<rparr>)"
    using assms by (simp add: take_delta_def is_over_def between_def)
  ultimately have "follows R [text_event t] s c s (c\<lparr> clText := tx @ t \<rparr>)"
    by (rule follows_one)
  moreover have "between K calls (tx @ t) s (c\<lparr> clText := tx @ t \<rparr>)"
    using assms by (simp add: between_def)
  ultimately show ?thesis
    by blast
qed

lemma texts_steps:
  "between K calls tx s c \<Longrightarrow>
   \<exists>s' c'. follows R (map text_event ts) s c s' c' \<and> between K calls (tx @ concat ts) s' c'"
proof (induction ts arbitrary: tx s c)
  case Nil
  then show ?case
    using follows_refl by fastforce
next
  case (Cons t ts)
  obtain s1 c1 where 1: "follows R [text_event t] s c s1 c1" "between K calls (tx @ t) s1 c1"
    using text_step [OF Cons.prems] by blast
  obtain s2 c2 where "follows R (map text_event ts) s1 c1 s2 c2" "between K calls ((tx @ t) @ concat ts) s2 c2"
    using Cons.IH [OF 1(2)] by blast
  then show ?case
    using follows_append [OF 1(1)] by fastforce
qed

lemma merge_new: "merge_call \<lparr> cdIndex = length calls, cdIdentity = Some (k, nm), cdArguments = a \<rparr> (enumerate 0 calls) =
    Some (enumerate 0 (calls @ [\<lparr> tcID = k, tcName = nm, tcArguments = a \<rparr>]))"
  by (auto simp: merge_call_def enumerate_append_eq in_set_enumerate_eq)

lemma merge_last: "merge_call \<lparr> cdIndex = length calls, cdIdentity = None, cdArguments = a \<rparr> (enumerate 0 (calls @ [x])) =
    Some (enumerate 0 (calls @ [x\<lparr> tcArguments := tcArguments x @ a \<rparr>]))"
proof -
  have "map (\<lambda>(i, y). (i, if i = length calls then f y else y)) (enumerate 0 calls) = enumerate 0 calls" for f
    by (rule map_idI) (auto simp: in_set_enumerate_eq)
  then show ?thesis
    by (simp add: merge_call_def enumerate_append_eq)
qed

lemma added_step:
  assumes "between K calls tx s c" "proper_item (Call u)" "ucID u \<notin> K"
  shows "\<exists>s' c'. follows R [item_event ''response.output_item.added'' n (call_members u [])] s c s' c' \<and>
    within_call K calls tx u [] False s' c'"
proof -
  let ?e = "item_event ''response.output_item.added'' n (call_members u [])"
  let ?t = "\<lparr> tsIndex = length calls, tsID = ucCallID u, tsName = ucName u, tsSawArgs = False, tsFinalized = False,
    tsIdentitySent = False \<rparr>"
  have key: "stream_key R ?e (call_members u []) s = ucID u" "known_name R ?e (call_members u []) = ucName u"
    "first_non_empty (known_id R ?e (call_members u []) @ [ucID u]) = ucCallID u"
    using assms(2) by (simp_all add: stream_key_def item_event_def call_members_def known_id_def known_name_def
      first_non_empty_trimmed)
  have "csTools s (ucID u) = None"
    using assms(1,3) by (auto simp: between_def)
  then have "ensure_tool R ?e (call_members u []) s = (s\<lparr> csTools := (csTools s)(ucID u \<mapsto> ?t),
      csNextTool := csNextTool s + 1, csSawTool := True \<rparr>, ucID u)"
    using assms(1) by (simp add: ensure_tool_def key between_def Let_def)
  then have run: "process_event R ?e s = (s\<lparr> csTools := (csTools s)(ucID u \<mapsto> ?t\<lparr> tsIdentitySent := True \<rparr>),
      csNextTool := csNextTool s + 1, csSawTool := True \<rparr>,
      [Delta (head_of s) False None (Some \<lparr> cdIndex = length calls, cdIdentity = Some (ucCallID u, ucName u), cdArguments = [] \<rparr>)])"
    using assms(1) by (simp add: process_event_def on_event_def item_event_def is_call_def item_of_def
      call_members_def tool_chunk_def role_chunk_def change_tool_def between_def head_of_def)
  have take: "client_run [Delta (head_of s) False None (Some \<lparr> cdIndex = length calls,
      cdIdentity = Some (ucCallID u, ucName u), cdArguments = [] \<rparr>)] c =
      Some (c\<lparr> clCalls := enumerate 0 (calls @ [\<lparr> tcID = ucCallID u, tcName = ucName u, tcArguments = [] \<rparr>]) \<rparr>)"
    using assms(1) by (simp add: take_delta_def is_over_def between_def merge_new)
  show ?thesis
    by (rule step_to [OF run take]) (use assms(1,2) in \<open>auto simp: between_def within_call_def\<close>)
qed

lemma piece_key [simp]:
  "ucID u \<noteq> [] \<Longrightarrow> trim_space (ucID u) = ucID u \<Longrightarrow> stream_key R (piece_event u t) [] s = ucID u"
  "ucID u \<noteq> [] \<Longrightarrow> trim_space (ucID u) = ucID u \<Longrightarrow> stream_key R (arguments_event u) [] s = ucID u"
  "ucID u \<noteq> [] \<Longrightarrow> trim_space (ucID u) = ucID u \<Longrightarrow>
     stream_key R (item_event ty n (call_members u a)) (call_members u a) s = ucID u"
  by (simp_all add: stream_key_def piece_event_def arguments_event_def item_event_def call_members_def)

text \<open>A tool that is known keeps its identity.\<close>

lemma ensure_known:
  assumes "stream_key R event item s = key" "csTools s key = Some t" "tsID t \<noteq> []"
  obtains t' where "ensure_tool R event item s = (s\<lparr> csTools := (csTools s)(key \<mapsto> t') \<rparr>, key)"
    "tsIndex t' = tsIndex t" "tsID t' = tsID t" "tsSawArgs t' = tsSawArgs t" "tsFinalized t' = tsFinalized t"
    "tsIdentitySent t' = tsIdentitySent t"
  using that assms by (simp add: ensure_tool_def Let_def)

lemma piece_step:
  assumes w: "within_call K calls tx u args False s c" and u: "proper_item (Call u)"
  shows "\<exists>s' c'. follows R [piece_event u t] s c s' c' \<and> within_call K calls tx u (args @ t) False s' c'"
proof -
  obtain x where x: "csTools s (ucID u) = Some x" "tsIndex x = length calls" "tsIdentitySent x" "tsID x \<noteq> []"
    "\<not> tsFinalized x" "tsSawArgs x = (args \<noteq> [])"
    using w by (auto simp: within_call_def)
  have key: "stream_key R (piece_event u t) [] s = ucID u"
    using u by simp
  obtain x' where e0: "ensure_tool R (piece_event u t) [] s = (s\<lparr> csTools := (csTools s)(ucID u \<mapsto> x') \<rparr>, ucID u)"
    "tsIndex x' = tsIndex x" "tsID x' = tsID x" "tsSawArgs x' = tsSawArgs x" "tsFinalized x' = tsFinalized x"
    "tsIdentitySent x' = tsIdentitySent x"
    by (rule ensure_known [OF key x(1,4)])
  note e = e0(1) e0(2-6) [unfolded x(2,6)] x(3-5)
  have on: "process_event R (piece_event u t) s = on_arguments_delta R (piece_event u t) s"
    by (simp add: process_event_def piece_event_def on_event_def)
  have delta: "str_of R (piece_event u t) ''delta'' = t"
    by (simp add: piece_event_def)
  show ?thesis
  proof (cases "t = []")
    case True
    then have "process_event R (piece_event u t) s = (s\<lparr> csTools := (csTools s)(ucID u \<mapsto> x') \<rparr>, [])"
      unfolding on on_arguments_delta_def delta e(1) by simp
    then show ?thesis
      by (rule step_to [where cs = "[]" and c' = c]) (use w e True in \<open>auto simp: within_call_def\<close>)
  next
    case False
    let ?d = "Delta (head_of s) False None (Some \<lparr> cdIndex = length calls, cdIdentity = None, cdArguments = t \<rparr>)"
    have run: "process_event R (piece_event u t) s =
        (s\<lparr> csTools := (csTools s)(ucID u \<mapsto> x'\<lparr> tsSawArgs := True, tsIdentitySent := True \<rparr>) \<rparr>, [?d])"
      unfolding on on_arguments_delta_def delta e(1) using False e w
      by (simp add: tool_chunk_def role_chunk_def change_tool_def head_of_def within_call_def)
    have "client_run [?d] c = Some (c\<lparr> clCalls := enumerate 0 (calls @
        [\<lparr> tcID = ucCallID u, tcName = ucName u, tcArguments = args @ t \<rparr>]) \<rparr>)"
      using w merge_last [of calls t] by (simp add: take_delta_def is_over_def within_call_def)
    from run this show ?thesis
      by (rule step_to) (use w e False in \<open>auto simp: within_call_def\<close>)
  qed
qed

lemma pieces_steps:
  "within_call K calls tx u args False s c \<Longrightarrow> proper_item (Call u) \<Longrightarrow>
   \<exists>s' c'. follows R (map (piece_event u) ts) s c s' c' \<and> within_call K calls tx u (args @ concat ts) False s' c'"
proof (induction ts arbitrary: args s c)
  case Nil
  then show ?case
    using follows_refl by fastforce
next
  case (Cons t ts)
  obtain s1 c1 where 1: "follows R [piece_event u t] s c s1 c1" "within_call K calls tx u (args @ t) False s1 c1"
    using piece_step [OF Cons.prems] by blast
  obtain s2 c2 where "follows R (map (piece_event u) ts) s1 c1 s2 c2" "within_call K calls tx u ((args @ t) @ concat ts) False s2 c2"
    using Cons.IH [OF 1(2) Cons.prems(2)] by blast
  then show ?case
    using follows_append [OF 1(1)] by fastforce
qed

lemma done_step:
  assumes w: "within_call K calls tx u args False s c" and u: "proper_item (Call u)"
    and args: "args = ucArguments u \<or> args = []"
  shows "\<exists>s' c'. follows R [arguments_event u] s c s' c' \<and> within_call K calls tx u (ucArguments u) True s' c'"
proof -
  obtain x where x: "csTools s (ucID u) = Some x" "tsIndex x = length calls" "tsIdentitySent x" "tsID x \<noteq> []"
    "\<not> tsFinalized x" "tsSawArgs x = (args \<noteq> [])"
    using w by (auto simp: within_call_def)
  have key: "stream_key R (arguments_event u) [] s = ucID u"
    using u by simp
  obtain x' where e0: "ensure_tool R (arguments_event u) [] s = (s\<lparr> csTools := (csTools s)(ucID u \<mapsto> x') \<rparr>, ucID u)"
    "tsIndex x' = tsIndex x" "tsID x' = tsID x" "tsSawArgs x' = tsSawArgs x" "tsFinalized x' = tsFinalized x"
    "tsIdentitySent x' = tsIdentitySent x"
    by (rule ensure_known [OF key x(1,4)])
  note e = e0(1) e0(2-6) [unfolded x(2,6)] x(3-5)
  have on: "process_event R (arguments_event u) s = finalize_tool R (arguments_event u) [] (ucArguments u) s"
    by (simp add: process_event_def arguments_event_def on_event_def)
  show ?thesis
  proof (cases "args = []")
    case True
    let ?d = "Delta (head_of s) False None (Some \<lparr> cdIndex = length calls, cdIdentity = None, cdArguments = ucArguments u \<rparr>)"
    have run: "process_event R (arguments_event u) s = (s\<lparr> csTools := (csTools s)(ucID u \<mapsto>
        x'\<lparr> tsFinalized := True, tsSawArgs := True, tsIdentitySent := True \<rparr>) \<rparr>, [?d])"
      unfolding on finalize_tool_def e(1) using True e w u
      by (simp add: tool_chunk_def role_chunk_def change_tool_def head_of_def within_call_def)
    have "client_run [?d] c = Some (c\<lparr> clCalls := enumerate 0 (calls @
        [\<lparr> tcID = ucCallID u, tcName = ucName u, tcArguments = ucArguments u \<rparr>]) \<rparr>)"
      using w True merge_last [of calls "ucArguments u"] by (simp add: take_delta_def is_over_def within_call_def)
    from run this show ?thesis
      by (rule step_to) (use w e in \<open>auto simp: within_call_def\<close>)
  next
    case False
    have run: "process_event R (arguments_event u) s = (s\<lparr> csTools := (csTools s)(ucID u \<mapsto> x'\<lparr> tsFinalized := True \<rparr>) \<rparr>, [])"
      unfolding on finalize_tool_def e(1) using False e by (simp add: change_tool_def)
    have "client_run [] c = Some c"
      by simp
    from run this show ?thesis
      by (rule step_to) (use w e False args in \<open>auto simp: within_call_def\<close>)
  qed
qed

lemma end_step:
  assumes w: "within_call K calls tx u (ucArguments u) True s c" and u: "proper_item (Call u)"
  shows "\<exists>s' c'. follows R [item_event ''response.output_item.done'' n (call_members u (ucArguments u))] s c s' c' \<and>
    between (insert (ucID u) K) (calls @ item_call (Call u)) tx s' c'"
proof -
  let ?e = "item_event ''response.output_item.done'' n (call_members u (ucArguments u))"
  let ?i = "call_members u (ucArguments u)"
  obtain x where x: "csTools s (ucID u) = Some x" "tsFinalized x" "tsID x \<noteq> []"
    using w by (auto simp: within_call_def)
  have key: "stream_key R ?e ?i s = ucID u"
    using u by simp
  obtain x' where e0: "ensure_tool R ?e ?i s = (s\<lparr> csTools := (csTools s)(ucID u \<mapsto> x') \<rparr>, ucID u)"
    "tsIndex x' = tsIndex x" "tsID x' = tsID x" "tsSawArgs x' = tsSawArgs x" "tsFinalized x' = tsFinalized x"
    "tsIdentitySent x' = tsIdentitySent x"
    by (rule ensure_known [OF key x(1,3)])
  note e = e0(1,5) x(2)
  have "process_event R ?e s = finalize_tool R ?e ?i (ucArguments u) s"
    by (simp add: process_event_def item_event_def on_event_def is_call_def item_of_def call_members_def)
  then have run: "process_event R ?e s = (s\<lparr> csTools := (csTools s)(ucID u \<mapsto> x') \<rparr>, [])"
    by (simp add: finalize_tool_def e)
  have "client_run [] c = Some c"
    by simp
  from run this show ?thesis
    by (rule step_to) (use w in \<open>auto simp: within_call_def between_def\<close>)
qed

lemma silent_item:
  "\<not> is_call R (item_members it) \<Longrightarrow> ty \<in> {''response.output_item.added'', ''response.output_item.done''} \<Longrightarrow>
   process_event R (item_event ty n (item_members it)) s = (s, [])"
  by (auto simp: process_event_def item_event_def on_event_def item_of_def)

lemma item_steps:
  assumes "between K calls tx s c" "proper_item it" "set (item_id it) \<inter> K = {}"
  shows "\<exists>s' c'. follows R (item_events n it) s c s' c' \<and>
    between (K \<union> set (item_id it)) (calls @ item_call it) (tx @ item_text it) s' c'"
proof (cases it)
  case (Message ts)
  obtain s1 c1 where 1: "follows R (map text_event ts) s c s1 c1" "between K calls (tx @ concat ts) s1 c1"
    using texts_steps [OF assms(1)] by blast
  have "process_event R (item_event ''response.output_item.done'' n (item_members it)) s1 = (s1, [])"
    by (rule silent_item) (simp_all add: Message is_call_def)
  then have "follows R [item_event ''response.output_item.done'' n (item_members it)] s1 c1 s1 c1"
    by (rule follows_one) simp
  from follows_append [OF 1(1) this] have "follows R (item_events n it) s c s1 c1"
    by (simp add: Message)
  moreover have "between (K \<union> set (item_id it)) (calls @ item_call it) (tx @ item_text it) s1 c1"
    using 1(2) by (simp add: Message)
  ultimately show ?thesis
    by blast
next
  case (Call u)
  note u = assms(2) [unfolded Call]
  have fresh: "ucID u \<notin> K"
    using assms(3) by (simp add: Call)
  obtain s1 c1 where 1: "follows R [item_event ''response.output_item.added'' n (call_members u [])] s c s1 c1"
      "within_call K calls tx u [] False s1 c1"
    using added_step [OF assms(1) u fresh] by blast
  have pieces: "concat (ucPieces u) = ucArguments u \<or> concat (ucPieces u) = []"
    using u by simp
  obtain s2 c2 where 2: "follows R (map (piece_event u) (ucPieces u)) s1 c1 s2 c2"
      "within_call K calls tx u (concat (ucPieces u)) False s2 c2"
    using pieces_steps [OF 1(2) u, of R "ucPieces u"] by auto
  obtain s3 c3 where 3: "follows R [arguments_event u] s2 c2 s3 c3" "within_call K calls tx u (ucArguments u) True s3 c3"
    using done_step [OF 2(2) u pieces] by blast
  obtain s4 c4 where 4: "follows R [item_event ''response.output_item.done'' n (call_members u (ucArguments u))] s3 c3 s4 c4"
      "between (insert (ucID u) K) (calls @ item_call (Call u)) tx s4 c4"
    using end_step [OF 3(2) u] by blast
  show ?thesis
    using follows_append [OF follows_append [OF follows_append [OF 1(1) 2(1)] 3(1)] 4(1)] 4(2)
    by (auto simp: Call)
next
  case (Reasoning k)
  have "process_event R (item_event ty n (item_members it)) s = (s, [])"
    if "ty \<in> {''response.output_item.added'', ''response.output_item.done''}" for ty
    by (rule silent_item [OF _ that]) (simp add: Reasoning is_call_def)
  then have "follows R (item_events n it) s c s c"
    by (auto simp: Reasoning follows_def)
  then show ?thesis
    using assms(1) by (auto simp: Reasoning)
qed

lemma items_steps:
  "between K calls tx s c \<Longrightarrow> list_all proper_item items \<Longrightarrow> distinct (concat (map item_id items)) \<Longrightarrow>
   set (concat (map item_id items)) \<inter> K = {} \<Longrightarrow>
   \<exists>s' c'. follows R (concat (map (\<lambda>(n, it). item_events n it) (enumerate m items))) s c s' c' \<and>
     between (K \<union> set (concat (map item_id items))) (calls @ concat (map item_call items))
       (tx @ concat (map item_text items)) s' c'"
proof (induction items arbitrary: K calls tx s c m)
  case Nil
  then show ?case
    using follows_refl by fastforce
next
  case (Cons it items)
  have it: "proper_item it" "set (item_id it) \<inter> K = {}"
    using Cons.prems(2,4) by auto
  obtain s1 c1 where 1: "follows R (item_events m it) s c s1 c1"
      "between (K \<union> set (item_id it)) (calls @ item_call it) (tx @ item_text it) s1 c1"
    using item_steps [OF Cons.prems(1) it] by blast
  have d: "list_all proper_item items" "distinct (concat (map item_id items))" "set (concat (map item_id items)) \<inter> (K \<union> set (item_id it)) = {}"
    using Cons.prems(2-4) by auto
  obtain s2 c2 where "follows R (concat (map (\<lambda>(n, it). item_events n it) (enumerate (Suc m) items))) s1 c1 s2 c2"
      "between ((K \<union> set (item_id it)) \<union> set (concat (map item_id items)))
        ((calls @ item_call it) @ concat (map item_call items)) ((tx @ item_text it) @ concat (map item_text items)) s2 c2"
    using Cons.IH [OF 1(2) d, of "Suc m"] by blast
  moreover from follows_append [OF 1(1) this(1)]
  have "follows R (concat (map (\<lambda>(n, it). item_events n it) (enumerate m (it # items)))) s c s2 c2"
    by simp
  ultimately show ?case
    by (simp add: Un_assoc) blast
qed

lemma metadata_simps [simp]:
  "csTerminal (update_response_metadata R m s) = csTerminal s" "csSentRole (update_response_metadata R m s) = csSentRole s"
  "csNextTool (update_response_metadata R m s) = csNextTool s" "csSawTool (update_response_metadata R m s) = csSawTool s"
  "csTools (update_response_metadata R m s) = csTools s" "csIncludeUsage (update_response_metadata R m s) = csIncludeUsage s"
  by (simp_all add: update_response_metadata_def Let_def)

lemma created_step:
  "\<exists>s' c'. follows R [response_event ''response.created'' resp] (new_chat_stream False model now) new_client s' c' \<and>
    between {} [] [] s' c'"
proof -
  let ?s = "update_response_metadata R resp (new_chat_stream False model now)"
  have "process_event R (response_event ''response.created'' resp) (new_chat_stream False model now) =
      (?s\<lparr> csSentRole := True \<rparr>, [Delta (head_of ?s) True None None])"
    by (simp add: process_event_def response_event_def on_event_def role_chunk_def Let_def)
      (simp add: new_chat_stream_def)
  moreover have "client_run [Delta (head_of ?s) True None None] new_client = Some (new_client\<lparr> clRole := True \<rparr>)"
    by (simp add: take_delta_def is_over_def new_client_def)
  ultimately show ?thesis
    by (rule step_to) (simp add: between_def new_chat_stream_def new_client_def)
qed

lemma terminal_step:
  assumes "between K calls tx s c"
  shows "\<exists>s' c'. follows R [response_event (if status = ''incomplete'' then ''response.incomplete'' else ''response.completed'') resp]
      s c s' c' \<and> csTerminal s' \<and> clText c' = tx \<and> map snd (clCalls c') = calls \<and>
      clFinish c' = Some (if status = ''incomplete'' then ''length'' else if calls \<noteq> [] then ''tool_calls'' else ''stop'')"
proof -
  let ?s = "update_response_metadata R resp s"
  let ?r = "if status = ''incomplete'' then ''length'' else if calls \<noteq> [] then ''tool_calls'' else ''stop''"
  have "process_event R (response_event (if status = ''incomplete'' then ''response.incomplete'' else ''response.completed'') resp) s =
      (?s\<lparr> csTerminal := True \<rparr>, [Finish (head_of ?s) ?r])"
    using assms by (simp add: process_event_def response_event_def on_event_def finish_chat_def between_def Let_def)
  moreover have "client_run [Finish (head_of ?s) ?r] c = Some (c\<lparr> clFinish := Some ?r \<rparr>)"
    using assms by (simp add: is_over_def between_def)
  ultimately show ?thesis
    by (rule step_to) (use assms in \<open>simp add: between_def\<close>)
qed

lemma exchange_follows:
  assumes "list_all proper_item items" "distinct (concat (map item_id items))"
  shows "\<exists>s' c'. follows R (stream_events k status items) (new_chat_stream False model now) new_client s' c' \<and>
    csTerminal s' \<and> clText c' = concat (map item_text items) \<and> map snd (clCalls c') = concat (map item_call items) \<and>
    clFinish c' = Some (if status = ''incomplete'' then ''length''
      else if concat (map item_call items) \<noteq> [] then ''tool_calls'' else ''stop'')"
proof -
  let ?resp = "[(''id'', JStr k), (''status'', JStr ''in_progress'')]"
  obtain s1 c1 where 1: "follows R [response_event ''response.created'' ?resp] (new_chat_stream False model now) new_client s1 c1"
      "between {} [] [] s1 c1"
    using created_step by blast
  obtain s2 c2 where 2: "follows R (concat (map (\<lambda>(n, it). item_events n it) (enumerate 0 items))) s1 c1 s2 c2"
      "between (set (concat (map item_id items))) (concat (map item_call items)) (concat (map item_text items)) s2 c2"
    using items_steps [OF 1(2) assms, of R 0] by auto
  obtain s3 c3 where 3: "follows R [response_event (if status = ''incomplete'' then ''response.incomplete'' else ''response.completed'')
        (final_response k status items)] s2 c2 s3 c3" "csTerminal s3 \<and> clText c3 = concat (map item_text items) \<and>
      map snd (clCalls c3) = concat (map item_call items) \<and> clFinish c3 = Some (if status = ''incomplete'' then ''length''
        else if concat (map item_call items) \<noteq> [] then ''tool_calls'' else ''stop'')"
    using terminal_step [OF 2(2)] by blast
  show ?thesis
    using follows_append [OF 1(1) follows_append [OF 2(1) 3(1)]] 3(2) unfolding stream_events_def by blast
qed

section \<open>Event lines\<close>

text \<open>Each event on a \<open>data:\<close> line of its own; \<open>T\<close> prints it and \<open>unm\<close> reads it back.\<close>

definition event_lines :: "(jobj \<Rightarrow> string) \<Rightarrow> jobj list \<Rightarrow> string list" where
  "event_lines T es = concat (map (\<lambda>e. [''data: '' @ T e, []]) es)"

definition faithful :: "(jobj \<Rightarrow> string) \<Rightarrow> (string \<Rightarrow> json option) \<Rightarrow> jobj list \<Rightarrow> bool" where
  "faithful T unm es \<longleftrightarrow> list_all (\<lambda>e. trim_space (T e) = T e \<and> T e \<noteq> [] \<and> T e \<noteq> ''[DONE]'' \<and> unm (T e) = Some (JObj e)) es"

lemma trimmed_last: "trim_space x = x \<Longrightarrow> x \<noteq> [] \<Longrightarrow> \<not> is_space (last x)"
proof -
  assume a: "trim_space x = x" "x \<noteq> []"
  then have "x = rev (dropWhile is_space (rev (trim_left x)))"
    by (simp add: trim_space_def trim_right_def)
  then show ?thesis
    using a(2) hd_dropWhile [of is_space "rev (trim_left x)"] by (metis hd_rev rev_is_Nil_conv rev_rev_ident)
qed

lemma scan_event_lines:
  "faithful T unm es \<Longrightarrow> scan_chat unm R [] (event_lines T es) s = (case run_events R es s of (s', cs) \<Rightarrow> (s', cs, None))"
proof (induction es arbitrary: s)
  case Nil
  then show ?case
    by (simp add: event_lines_def flush_chat_def)
next
  case (Cons e es)
  have e: "trim_space (T e) = T e" "T e \<noteq> []" "T e \<noteq> ''[DONE]''" "unm (T e) = Some (JObj e)"
    using Cons.prems by (simp_all add: faithful_def)
  have "trim_space (CHR '' '' # T e) = T e"
    using e(1) by (simp add: trim_space_def trim_left_def is_space_def)
  then have line: "chat_data_line [] (''data: '' @ T e) = T e"
    by (simp add: chat_data_line_def trim_prefix_def)
  have "last (T e) \<noteq> CHR 0x0A"
    using trimmed_last [OF e(1,2)] by (auto simp: is_space_def)
  then have "flush_chat unm R (T e) s = (case process_event R e s of (s', cs) \<Rightarrow> (s', cs, None))"
    using e by (simp add: flush_chat_def chat_payload_def process_chat_def Let_def)
  moreover have "scan_chat unm R [] (event_lines T es) s' = (case run_events R es s' of (s', cs) \<Rightarrow> (s', cs, None))" for s'
    using Cons by (simp add: faithful_def)
  ultimately show ?case
    using line by (simp add: event_lines_def split: prod.splits)
qed

definition content_text :: "completion \<Rightarrow> string" where
  "content_text p = (case cpContent p of None \<Rightarrow> [] | Some x \<Rightarrow> x)"

text \<open>
  C15: Streaming a chat completion and asking for it whole give the same.  For any response of messages,
  reasoning and function calls, however the upstream cuts its texts and arguments into pieces, the chunks that
  the client receives of the stream can be placed one after the other, and put together they are the content,
  the calls with their identifiers, names and arguments, and the reason to finish of the completion that the
  same response is converted to when it is not streamed.  Left out are a response that is incomplete although
  it calls functions and a call without arguments, where the two differ.
\<close>

theorem stream_equals_completion:
  assumes "list_all proper_item items" and "distinct (concat (map item_id items))"
    and "status = ''completed'' \<or> status = ''incomplete'' \<and> concat (map item_call items) = []"
    and "faithful T unm (stream_events k status items)"
    and "p = responses_map_to_chat R now (final_response k status items)"
  shows "\<exists>chunks c. handle_chat_stream unm R etext None (event_lines T (stream_events k status items))
        (new_chat_stream False model now) = map Chunk chunks @ [DoneFrame] \<and>
      client_run chunks new_client = Some c \<and>
      clText c = content_text p \<and> map snd (clCalls c) = cpCalls p \<and> clFinish c = Some (cpFinish p)"
proof -
  obtain s' c' where f: "follows R (stream_events k status items) (new_chat_stream False model now) new_client s' c'"
      "csTerminal s'" "clText c' = concat (map item_text items)" "map snd (clCalls c') = concat (map item_call items)"
      "clFinish c' = Some (if status = ''incomplete'' then ''length''
        else if concat (map item_call items) \<noteq> [] then ''tool_calls'' else ''stop'')"
    using exchange_follows [OF assms(1,2)] by blast
  then obtain cs where cs: "run_events R (stream_events k status items) (new_chat_stream False model now) = (s', cs)"
      "client_run cs new_client = Some c'"
    by (auto simp: follows_def)
  have lower: "to_lower ''completed'' = ''completed''" "to_lower ''incomplete'' = ''incomplete''"
    by code_simp+
  have "content_text p = concat (map item_text items)" "cpCalls p = concat (map item_call items)"
      "Some (cpFinish p) = clFinish c'"
    using assms(3) unfolding assms(5) responses_map_to_chat_def extract_exchange [OF assms(1)] f(5)
    by (auto simp: content_text_def lower)
  moreover have "handle_chat_stream unm R etext None (event_lines T (stream_events k status items))
      (new_chat_stream False model now) = map Chunk cs @ [DoneFrame]"
    using scan_event_lines [OF assms(4)] cs(1) f(2) by (simp add: handle_chat_stream_def)
  ultimately show ?thesis
    using f cs(2) by metis
qed

end
