(* ===== verification/Openai_Wellformed.thy ===== *)
theory Openai_Wellformed
  imports Openai_Props
begin

text \<open>
  Every chat stream is well-formed up to its end, whatever the upstream sends before its terminal event; what
  goes wrong after it and where streaming differs from a complete answer; and a completion sent backw as a
  message of the next request.
\<close>

section \<open>A stream and its client\<close>

definition tool_view :: "chat_stream \<Rightarrow> string \<Rightarrow> (nat \<times> bool) option" where
  "tool_view s k = map_option (\<lambda>t. (tsIndex t, tsIdentitySent t)) (csTools s k)"

definition sent_indices :: "chat_stream \<Rightarrow> nat set" where
  "sent_indices s = {i. \<exists>k. tool_view s k = Some (i, True)}"

definition distinct_tools :: "chat_stream \<Rightarrow> bool" where
  "distinct_tools s \<longleftrightarrow> (\<forall>k i b. tool_view s k = Some (i, b) \<longrightarrow> i < csNextTool s) \<and>
     (\<forall>k k' i b b'. tool_view s k = Some (i, b) \<longrightarrow> tool_view s k' = Some (i, b') \<longrightarrow> k = k')"

definition agree :: "chat_stream \<Rightarrow> client \<Rightarrow> bool" where
  "agree s c \<longleftrightarrow> csSentRole s = clRole c \<and> csTerminal s = is_over c \<and> (\<not> is_over c \<longrightarrow> \<not> clUsage c) \<and>
     fst ` set (clCalls c) = sent_indices s \<and> distinct_tools s"

lemma agree_cong:
  "csSentRole s' = csSentRole s \<Longrightarrow> csTerminal s' = csTerminal s \<Longrightarrow> tool_view s' = tool_view s \<Longrightarrow>
   csNextTool s' = csNextTool s \<Longrightarrow> agree s' c \<longleftrightarrow> agree s c"
  by (simp add: agree_def sent_indices_def distinct_tools_def)

lemma flag_simps [simp]:
  "sent_indices (s\<lparr> csSentRole := b \<rparr>) = sent_indices s" "sent_indices (s\<lparr> csTerminal := b \<rparr>) = sent_indices s"
  "sent_indices (s\<lparr> csFailed := b \<rparr>) = sent_indices s" "distinct_tools (s\<lparr> csSentRole := b \<rparr>) = distinct_tools s"
  "distinct_tools (s\<lparr> csTerminal := b \<rparr>) = distinct_tools s" "distinct_tools (s\<lparr> csFailed := b \<rparr>) = distinct_tools s"
  by (simp_all add: sent_indices_def distinct_tools_def tool_view_def)

lemma agree_metadata [simp]: "agree (update_response_metadata R m s) c \<longleftrightarrow> agree s c"
  by (rule agree_cong) (simp_all add: tool_view_def fun_eq_iff)

text \<open>An update of a tool that keeps its index and what was sent of it.\<close>

lemma agree_update:
  "csTools s key = Some t \<Longrightarrow> tsIndex t' = tsIndex t \<Longrightarrow> tsIdentitySent t' = tsIdentitySent t \<Longrightarrow>
   agree (s\<lparr> csTools := (csTools s)(key \<mapsto> t') \<rparr>) c \<longleftrightarrow> agree s c"
  by (rule agree_cong) (simp_all add: tool_view_def fun_eq_iff)

text \<open>A change of one tool in the view.\<close>

lemma view_update:
  "tool_view (s\<lparr> csTools := (csTools s)(key \<mapsto> t) \<rparr>) = (tool_view s)(key \<mapsto> (tsIndex t, tsIdentitySent t))"
  by (simp add: tool_view_def fun_eq_iff)

lemma distinct_view:
  "distinct_tools s \<Longrightarrow> tool_view s k = Some (i, b) \<Longrightarrow> tool_view s k' = Some (i, b') \<Longrightarrow> k = k'"
  "distinct_tools s \<Longrightarrow> tool_view s k = Some (i, b) \<Longrightarrow> i < csNextTool s"
  unfolding distinct_tools_def by blast+

lemma agree_new_tool:
  assumes "csTools s key = None" "tsIndex t = csNextTool s" "\<not> tsIdentitySent t" "agree s c"
  shows "agree (s\<lparr> csTools := (csTools s)(key \<mapsto> t), csNextTool := csNextTool s + 1, csSawTool := True \<rparr>) c"
proof -
  let ?s = "s\<lparr> csTools := (csTools s)(key \<mapsto> t), csNextTool := csNextTool s + 1, csSawTool := True \<rparr>"
  have view: "tool_view ?s = (tool_view s)(key \<mapsto> (csNextTool s, False))" "tool_view s key = None"
    using assms(1-3) by (auto simp: tool_view_def fun_eq_iff)
  have d: "distinct_tools s"
    using assms(4) by (simp add: agree_def)
  have "sent_indices ?s = sent_indices s"
    unfolding sent_indices_def view(1) using view(2) by (auto split: if_splits) (metis option.distinct(1))
  moreover have "distinct_tools ?s"
    unfolding distinct_tools_def view(1) using distinct_view [OF d]
    by (auto split: if_splits simp: less_Suc_eq) blast+
  ultimately show ?thesis
    using assms(4) by (simp add: agree_def)
qed

lemma ensure_agrees:
  assumes "ensure_tool R event item s = (s', key)" "agree s c"
  shows "agree s' c \<and> csTerminal s' = csTerminal s \<and> csTools s' key \<noteq> None"
proof (cases "csTools s (stream_key R event item s)")
  case None
  then show ?thesis
    using assms agree_new_tool [OF None _ _ assms(2)] by (auto simp: ensure_tool_def Let_def)
next
  case (Some t)
  then show ?thesis
    using assms agree_update [OF Some] by (auto simp: ensure_tool_def Let_def)
qed

lemma change_agrees:
  "agree s c \<Longrightarrow> (\<And>t. tsIndex (f t) = tsIndex t \<and> tsIdentitySent (f t) = tsIdentitySent t) \<Longrightarrow>
   agree (change_tool key f s) c \<and> csTerminal (change_tool key f s) = csTerminal s \<and>
   (csTools (change_tool key f s) key = None \<longleftrightarrow> csTools s key = None)"
  by (cases "csTools s key") (simp_all add: change_tool_def agree_update fun_upd_idem)

text \<open>What an operation of the translator owes to the client.\<close>

definition served :: "chat_stream \<times> chat_chunk list \<Rightarrow> client \<Rightarrow> bool" where
  "served r c \<longleftrightarrow> (\<exists>c'. client_run (snd r) c = Some c' \<and> agree (fst r) c')"

lemma served_nothing [simp]: "served (s, []) c \<longleftrightarrow> agree s c"
  by (simp add: served_def)

lemma served_role:
  assumes "agree s c" "\<not> csTerminal s"
  shows "served (role_chunk tx None s) c"
  using assms by (auto simp: served_def role_chunk_def take_delta_def agree_def is_over_def)

lemma merge_indices:
  assumes "cdIndex d \<in> fst ` set calls \<longleftrightarrow> cdIdentity d = None"
  shows "\<exists>calls'. merge_call d calls = Some calls' \<and> fst ` set calls' = insert (cdIndex d) (fst ` set calls)"
proof (cases "cdIdentity d")
  case None
  let ?f = "\<lambda>(i, x). (i, if i = cdIndex d then x\<lparr> tcArguments := tcArguments x @ cdArguments d \<rparr> else x)"
  have "map fst (map ?f calls) = map fst calls"
    by (simp add: comp_def case_prod_unfold)
  then have "fst ` set (map ?f calls) = fst ` set calls"
    by (metis set_map)
  then show ?thesis
    using None assms by (auto simp: merge_call_def)
next
  case (Some x)
  then show ?thesis
    using assms by (cases x) (auto simp: merge_call_def)
qed

lemma served_tool:
  assumes a: "agree s c" and open_s: "\<not> csTerminal s" and t: "csTools s key = Some t"
  shows "served (tool_chunk key args s) c"
proof -
  let ?s = "change_tool key (\<lambda>t. t\<lparr> tsIdentitySent := True \<rparr>) s"
  let ?s' = "?s\<lparr> csSentRole := True \<rparr>"
  let ?d = "\<lparr> cdIndex = tsIndex t, cdIdentity = (if tsIdentitySent t then None else Some (tsID t, tsName t)),
      cdArguments = args \<rparr>"
  have view: "tool_view ?s = (tool_view s)(key \<mapsto> (tsIndex t, True))" "tool_view s key = Some (tsIndex t, tsIdentitySent t)"
    using t by (simp_all add: change_tool_def tool_view_def fun_eq_iff)
  have d: "distinct_tools s"
    using a by (simp add: agree_def)
  note inj = distinct_view(1) [OF d view(2)]
  have sent: "sent_indices ?s = insert (tsIndex t) (sent_indices s)"
  proof (rule set_eqI)
    fix i
    have "(\<exists>k. ((tool_view s)(key \<mapsto> (tsIndex t, True))) k = Some (i, True)) \<longleftrightarrow>
        i = tsIndex t \<or> (\<exists>k. k \<noteq> key \<and> tool_view s k = Some (i, True))"
      by auto
    also have "\<dots> \<longleftrightarrow> i = tsIndex t \<or> (\<exists>k. tool_view s k = Some (i, True))"
      using view(2) by (metis option.inject prod.inject)
    finally show "i \<in> sent_indices ?s \<longleftrightarrow> i \<in> insert (tsIndex t) (sent_indices s)"
      by (simp add: sent_indices_def view(1))
  qed
  have next_tool: "csNextTool ?s = csNextTool s"
    by (simp add: change_tool_def)
  have dist: "distinct_tools ?s"
    unfolding distinct_tools_def view(1) next_tool using distinct_view(2) [OF d] distinct_view(1) [OF d] inj view(2)
    by (auto split: if_splits)
  have "tsIndex t \<in> sent_indices s \<longleftrightarrow> tsIdentitySent t"
  proof
    assume "tsIndex t \<in> sent_indices s"
    then obtain k where k: "tool_view s k = Some (tsIndex t, True)"
      by (auto simp: sent_indices_def)
    from inj [OF this] have "key = k" .
    then show "tsIdentitySent t"
      using k view(2) by simp
  qed (use view(2) in \<open>auto simp: sent_indices_def\<close>)
  then have member: "tsIndex t \<in> fst ` set (clCalls c) \<longleftrightarrow> tsIdentitySent t"
    using a by (simp add: agree_def)
  then obtain calls where calls: "merge_call ?d (clCalls c) = Some calls"
      "fst ` set calls = insert (tsIndex t) (fst ` set (clCalls c))"
    using merge_indices [of ?d "clCalls c"] by auto
  let ?c = "c\<lparr> clRole := True, clText := clText c @ [], clCalls := calls \<rparr>"
  have "client_run [Delta (head_of ?s) (\<not> csSentRole s) None (Some ?d)] c = Some ?c"
    using a open_s calls(1) by (simp add: take_delta_def agree_def)
  moreover have "tool_chunk key args s = (?s', [Delta (head_of ?s) (\<not> csSentRole s) None (Some ?d)])"
    using t by (simp add: tool_chunk_def role_chunk_def change_tool_def)
  moreover have "agree ?s' ?c"
    using a sent dist calls(2) by (simp add: agree_def is_over_def) (simp add: change_tool_def)
  ultimately show ?thesis
    by (simp add: served_def)
qed

lemma served_finish: "agree s c \<Longrightarrow> served (finish_chat reason s) c"
  by (auto simp: served_def finish_chat_def agree_def is_over_def)

lemma served_failure:
  "agree s c \<Longrightarrow> \<not> csTerminal s \<Longrightarrow> served (s\<lparr> csTerminal := True, csFailed := True \<rparr>, [Failure msg code]) c"
  by (auto simp: served_def agree_def is_over_def)

lemma served_arguments: "agree s c \<Longrightarrow> \<not> csTerminal s \<Longrightarrow> served (on_arguments_delta R event s) c"
proof -
  assume a: "agree s c" "\<not> csTerminal s"
  obtain s1 key where e: "ensure_tool R event [] s = (s1, key)"
    by fastforce
  note k = ensure_agrees [OF e a(1)]
  then have "agree (change_tool key (\<lambda>t. t\<lparr> tsSawArgs := True \<rparr>) s1) c \<and>
      csTerminal (change_tool key (\<lambda>t. t\<lparr> tsSawArgs := True \<rparr>) s1) = csTerminal s1 \<and>
      (csTools (change_tool key (\<lambda>t. t\<lparr> tsSawArgs := True \<rparr>) s1) key = None \<longleftrightarrow> csTools s1 key = None)"
    by (intro change_agrees) simp_all
  then show ?thesis
    using k a(2) e served_tool by (auto simp: on_arguments_delta_def)
qed

lemma served_final: "agree s c \<Longrightarrow> \<not> csTerminal s \<Longrightarrow> served (finalize_tool R event item args s) c"
proof -
  assume a: "agree s c" "\<not> csTerminal s"
  obtain s1 key where e: "ensure_tool R event item s = (s1, key)"
    by fastforce
  note k = ensure_agrees [OF e a(1)]
  let ?f = "\<lambda>t. t\<lparr> tsFinalized := True, tsSawArgs := True \<rparr>"
  have 1: "agree (change_tool key (\<lambda>t. t\<lparr> tsFinalized := True \<rparr>) s1) c"
    using change_agrees [of s1 c "\<lambda>t. t\<lparr> tsFinalized := True \<rparr>" key] k by simp
  have 2: "agree (change_tool key ?f s1) c \<and> csTerminal (change_tool key ?f s1) = csTerminal s1 \<and>
      (csTools (change_tool key ?f s1) key = None \<longleftrightarrow> csTools s1 key = None)"
    using k by (intro change_agrees) simp_all
  then obtain t where "csTools (change_tool key ?f s1) key = Some t"
    using k by auto
  then have "served (tool_chunk key x (change_tool key ?f s1)) c" for x
    using 2 k a(2) by (intro served_tool) auto
  then show ?thesis
    using k a(2) e 1 by (auto simp: finalize_tool_def split: option.splits)
qed

lemma served_event:
  assumes "agree s c" "\<not> csTerminal s"
  shows "served (on_event R ty event s) c"
proof -
  have added: "served (case ensure_tool R event item s of (s1, key) \<Rightarrow> tool_chunk key [] s1) c" for item
    using assms ensure_agrees [OF _ assms(1)] served_tool by (auto split: prod.splits) blast
  have "served (on_text_delta R event s) c"
    using assms served_role by (auto simp: on_text_delta_def Let_def)
  then show ?thesis
    using assms added served_role served_arguments served_final served_finish served_failure
    by (auto simp: on_event_def)
qed

lemma served_process: "agree s c \<Longrightarrow> \<not> csTerminal s \<Longrightarrow> served (process_event R event s) c"
  unfolding process_event_def Let_def by (rule served_event) (auto split: option.splits json.splits)

lemma served_chat:
  assumes "agree s c" "process_chat unm R data s = (s', cs, e)" "csTerminal s \<longrightarrow> trim_space data \<in> {[], ''[DONE]''}"
  shows "served (s', cs) c"
proof (cases "trim_space data \<in> {[], ''[DONE]''}")
  case True
  then show ?thesis
    using assms(1,2) served_finish [OF assms(1), of "[]"] by (auto simp: process_chat_def Let_def split: prod.splits)
next
  case False
  then have "\<not> csTerminal s"
    using assms(3) by blast
  then have "served (s', cs) c" if "process_event R ev s = (s', cs)" for ev
    using served_process [OF assms(1), of R ev] that by simp
  then show ?thesis
    using assms(1,2) False by (auto simp: process_chat_def Let_def split: prod.splits option.splits json.splits)
qed

section \<open>The whole stream\<close>

text \<open>The upstream sends nothing but \<open>[DONE]\<close> after its terminal event.\<close>

definition may_flush :: "string \<Rightarrow> chat_stream \<Rightarrow> bool" where
  "may_flush buf s \<longleftrightarrow> (csTerminal s \<longrightarrow> buf = [] \<or> trim_space (chat_payload buf) \<in> {[], ''[DONE]''})"

fun orderly :: "(string \<Rightarrow> json option) \<Rightarrow> (json \<Rightarrow> string) \<Rightarrow> string \<Rightarrow> string list \<Rightarrow> chat_stream \<Rightarrow> bool" where
  "orderly unm R buf [] s \<longleftrightarrow> may_flush buf s"
| "orderly unm R buf (line # lines) s \<longleftrightarrow>
     (if line = [] then may_flush buf s \<and> orderly unm R [] lines (fst (flush_chat unm R buf s))
      else orderly unm R (chat_data_line buf line) lines s)"

lemma served_flush:
  "agree s c \<Longrightarrow> may_flush buf s \<Longrightarrow> flush_chat unm R buf s = (s', cs, e) \<Longrightarrow> served (s', cs) c"
  by (auto simp: flush_chat_def may_flush_def split: if_splits intro: served_chat)

lemma served_append: "served (s1, xs) c \<Longrightarrow> (\<And>c1. agree s1 c1 \<Longrightarrow> served (s2, ys) c1) \<Longrightarrow> served (s2, xs @ ys) c"
  by (auto simp: served_def client_run_append)

lemma served_scan:
  "agree s c \<Longrightarrow> orderly unm R buf lines s \<Longrightarrow> scan_chat unm R buf lines s = (s', cs, e) \<Longrightarrow> served (s', cs) c"
proof (induction unm R buf lines s arbitrary: c s' cs e rule: scan_chat.induct)
  case (1 unm R buf s)
  then show ?case
    using served_flush by simp
next
  case (2 unm R buf line lines s)
  show ?case
  proof (cases "line = []")
    case True
    obtain s1 xs e1 where f: "flush_chat unm R buf s = (s1, xs, e1)"
      by (cases "flush_chat unm R buf s") auto
    have served1: "served (s1, xs) c"
      using "2.prems" True f served_flush by auto
    show ?thesis
    proof (cases e1)
      case (Some x)
      then show ?thesis
        using "2.prems"(3) True f served1 by simp
    next
      case None
      obtain ys where ys: "scan_chat unm R [] lines s1 = (s', ys, e)" "cs = xs @ ys"
        using "2.prems"(3) True f None by (auto split: prod.splits)
      show ?thesis
        unfolding ys(2)
        by (rule served_append [OF served1], rule "2.IH"(1) [OF True f [symmetric] refl None])
          (use "2.prems"(2) True f ys(1) in simp_all)
    qed
  next
    case False
    then show ?thesis
      using "2.IH"(2) "2.prems" by simp
  qed
qed

text \<open>
  C16: Every chat stream is well-formed and ends.  Whatever an upstream sends - events in any order, of any
  shape, unreadable data, a stream that breaks off, a scanner error - as long as it sends no event after its own
  terminal one, the client can place every chunk: the role is told exactly once and first, each call begins
  with its identifier and name under an index of its own and is only continued afterwards, and the stream ends
  in exactly one finish reason or error, followed by \<open>[DONE]\<close>.
\<close>

theorem chat_stream_wellformed:
  assumes "orderly unm R [] lines (new_chat_stream usage model now)"
  shows "\<exists>chunks c. handle_chat_stream unm R etext scan_err lines (new_chat_stream usage model now) =
      map Chunk chunks @ [DoneFrame] \<and> client_run chunks new_client = Some c \<and> is_over c"
proof -
  have "agree (new_chat_stream usage model now) new_client"
    by (simp add: agree_def new_chat_stream_def new_client_def is_over_def sent_indices_def distinct_tools_def tool_view_def)
  moreover obtain s' cs e where scan: "scan_chat unm R [] lines (new_chat_stream usage model now) = (s', cs, e)"
    by (metis prod_cases3)
  ultimately have "served (s', cs) new_client"
    using served_scan [OF _ assms scan] by blast
  then obtain c where c: "client_run cs new_client = Some c" "agree s' c"
    by (auto simp: served_def)
  show ?thesis
  proof (cases "csTerminal s'")
    case True
    then have "handle_chat_stream unm R etext scan_err lines (new_chat_stream usage model now) = map Chunk cs @ [DoneFrame]"
      by (simp add: handle_chat_stream_def scan)
    moreover have "is_over c"
      using c(2) True by (simp add: agree_def)
    ultimately show ?thesis
      using c(1) by blast
  next
    case False
    then obtain msg where "handle_chat_stream unm R etext scan_err lines (new_chat_stream usage model now) =
        map Chunk (cs @ [Failure msg ''upstream_stream_truncated'']) @ [DoneFrame]"
      by (simp add: handle_chat_stream_def scan)
    moreover have "client_run (cs @ [Failure msg ''upstream_stream_truncated'']) new_client = Some (c\<lparr> clFailed := True \<rparr>)"
      using c False by (simp add: client_run_append agree_def)
    moreover have "is_over (c\<lparr> clFailed := True \<rparr>)"
      by (simp add: is_over_def)
    ultimately show ?thesis
      by blast
  qed
qed

section \<open>Where the two ways differ\<close>

definition plain_text :: "json \<Rightarrow> string" where
  "plain_text v = (case v of JStr s \<Rightarrow> [CHR 0x22] @ s @ [CHR 0x22] | _ \<Rightarrow> [])"

definition sample_call :: "string \<Rightarrow> upstream_call" where
  "sample_call args = \<lparr> ucID = ''f'', ucCallID = ''c'', ucName = ''n'', ucArguments = args, ucPieces = [args] \<rparr>"

definition streamed :: "jobj list \<Rightarrow> client option" where
  "streamed es = client_run (snd (run_events plain_text es (new_chat_stream False [] 0))) new_client"

definition completed :: "jobj \<Rightarrow> completion" where
  "completed resp = responses_map_to_chat plain_text 0 resp"

text \<open>
  Streaming and complete answers differ at two points, and a body \<open>null\<close> is not answered at all.  A
  response that is incomplete although it calls a function finishes with \<open>length\<close> when streamed and with
  \<open>tool_calls\<close> when complete; the arguments of a call whose arguments are the empty string are \<open>{}\<close> when
  streamed and the two quotes of the JSON text when complete; and a body \<open>null\<close> with a model requested makes
  the conversion panic.
\<close>

theorem stream_and_completion_differ:
  "map_option clFinish (streamed (stream_events ''r'' ''incomplete'' [Call (sample_call ''x'')])) = Some (Some ''length'') \<and>
   cpFinish (completed (final_response ''r'' ''incomplete'' [Call (sample_call ''x'')])) = ''tool_calls'' \<and>
   map_option (\<lambda>c. map (tcArguments \<circ> snd) (clCalls c)) (streamed (stream_events ''r'' ''completed'' [Call (sample_call [])])) =
     Some [''{}''] \<and>
   map tcArguments (cpCalls (completed (final_response ''r'' ''completed'' [Call (sample_call [])]))) = [[CHR 0x22, CHR 0x22]] \<and>
   responses_to_chat_with_model plain_text (\<lambda>_. Some JNull) 0 ''null'' ''m'' = Panics"
proof (intro conjI)
  show "map_option clFinish (streamed (stream_events ''r'' ''incomplete'' [Call (sample_call ''x'')])) = Some (Some ''length'')"
    by code_simp
  show "cpFinish (completed (final_response ''r'' ''incomplete'' [Call (sample_call ''x'')])) = ''tool_calls''"
    by code_simp
  show "map_option (\<lambda>c. map (tcArguments \<circ> snd) (clCalls c)) (streamed (stream_events ''r'' ''completed'' [Call (sample_call [])])) =
     Some [''{}'']"
    by code_simp
  show "map tcArguments (cpCalls (completed (final_response ''r'' ''completed'' [Call (sample_call [])]))) = [[CHR 0x22, CHR 0x22]]"
    by code_simp
  show "responses_to_chat_with_model plain_text (\<lambda>_. Some JNull) 0 ''null'' ''m'' = Panics"
    by code_simp
qed

section \<open>A completion in the next request\<close>

definition reply :: "completion \<Rightarrow> chat_message" where
  "reply p = \<lparr> cmRole = ''assistant'', cmContent = Some (content_json (cpContent p)), cmToolCalls = cpCalls p,
     cmToolCallID = [] \<rparr>"

definition proper_call :: "chat_tool_call \<Rightarrow> bool" where
  "proper_call c \<longleftrightarrow> tcID c \<noteq> [] \<and> trim_space (tcID c) = tcID c \<and> tcName c \<noteq> [] \<and> trim_space (tcName c) = tcName c \<and>
     tcArguments c \<noteq> []"

lemma extract_calls:
  "list_all proper_call cs \<Longrightarrow> extract_items R (concat (map call_item cs)) texts calls = (texts, calls @ cs)"
proof (induction cs arbitrary: calls)
  case (Cons c cs)
  let ?m = "[(''type'', JStr ''function_call''), (''name'', JStr (tcName c)), (''arguments'', JStr (tcArguments c)),
    (''call_id'', JStr (tcID c)), (''id'', JStr (tcID c))]"
  have "call_item c = [JObj ?m]"
    using Cons.prems by (simp add: call_item_def proper_call_def Let_def)
  moreover have "output_call R n ?m = c" for n
    using Cons.prems by (simp add: output_call_def call_member_def call_arguments_def proper_call_def Let_def)
  ultimately show ?case
    using Cons by simp
qed simp

lemma content_reply: "content_to_string R (cmContent (reply p)) = content_text p"
  by (simp add: reply_def content_json_def content_to_string_def content_text_def split: option.splits)


section \<open>Instances\<close>

definition sample_items :: "upstream_item list" where
  "sample_items = [Message [''a'', ''b''], Call (sample_call ''x'')]"

definition sample_events :: "jobj list" where
  "sample_events = stream_events ''r'' ''completed'' sample_items"

definition sample_print :: "jobj \<Rightarrow> string" where
  "sample_print e = (case find_index (\<lambda>x. x = e) sample_events of None \<Rightarrow> [] | Some i \<Rightarrow> CHR ''e'' # dec_digits i)"

definition sample_read :: "string \<Rightarrow> json option" where
  "sample_read s = map_option (\<lambda>i. JObj (sample_events ! i))
     (find_index (\<lambda>i. CHR ''e'' # dec_digits i = s) [0..<length sample_events])"

lemma sample_faithful: "faithful sample_print sample_read (stream_events ''r'' ''completed'' sample_items)"
  by code_simp

theorem stream_equals_completion_witness:
  "\<exists>chunks c. handle_chat_stream sample_read plain_text (\<lambda>_. []) None
        (event_lines sample_print (stream_events ''r'' ''completed'' sample_items)) (new_chat_stream False ''m'' 0) =
        map Chunk chunks @ [DoneFrame] \<and>
      client_run chunks new_client = Some c \<and> clText c = content_text (completed (final_response ''r'' ''completed'' sample_items))"
proof -
  have "list_all proper_item sample_items" "distinct (concat (map item_id sample_items))"
    by code_simp+
  moreover have "''completed'' = ''completed'' \<or> ''completed'' = ''incomplete'' \<and> concat (map item_call sample_items) = []"
    by simp
  ultimately show ?thesis
    using stream_equals_completion [OF _ _ _ sample_faithful completed_def, of "\<lambda>_. []" "''m''"] by blast
qed

theorem chat_stream_wellformed_witness:
  "\<exists>chunks c. handle_chat_stream sample_read plain_text (\<lambda>_. []) None [''data: e1'', ''data: e2'', [], ''data: e2'', []]
        (new_chat_stream True ''m'' 7) = map Chunk chunks @ [DoneFrame] \<and>
      client_run chunks new_client = Some c \<and> is_over c"
proof -
  have "orderly sample_read plain_text [] [''data: e1'', ''data: e2'', [], ''data: e2'', []] (new_chat_stream True ''m'' 7)"
    by code_simp
  then show ?thesis
    by (rule chat_stream_wellformed)
qed


end
