(* ===== verification/Raw_Json.thy ===== *)
theory Raw_Json
  imports Json
begin

text \<open>
  What the Anthropic bridge reads of decoded JSON (\<open>internal/anthropic/translate_req.go\<close>,
  \<open>translate_resp.go\<close>, \<open>errors.go\<close>): the string of a raw value, lists of objects, message texts,
  reasoning summaries, usage, error messages.  \<open>R\<close> is the raw text of a value that is not a string;
  a field of a struct is read under its exact name, and has its zero value when it is missing or
  of another type.
\<close>

definition raw_string :: "(json \<Rightarrow> string) \<Rightarrow> json option \<Rightarrow> string" where
  "raw_string R v = (case v of
       None \<Rightarrow> []
     | Some (JStr s) \<Rightarrow> s
     | Some JNull \<Rightarrow> []
     | Some w \<Rightarrow> R w)"

definition raw_field :: "(json \<Rightarrow> string) \<Rightarrow> jobj \<Rightarrow> string \<Rightarrow> string" where
  "raw_field R m k = raw_string R (jget m k)"

text \<open>A field of a struct decoded with the error ignored: an object, a string, an \<open>int64\<close>.\<close>

definition sub_obj :: "jobj \<Rightarrow> string \<Rightarrow> jobj" where
  "sub_obj m k = (case jget m k of Some (JObj o') \<Rightarrow> o' | _ \<Rightarrow> [])"

definition int_field :: "jobj \<Rightarrow> string \<Rightarrow> int" where
  "int_field m k = (case jget m k of Some (JNum n) \<Rightarrow> n | _ \<Rightarrow> 0)"

definition is_obj_or_null :: "json \<Rightarrow> bool" where
  "is_obj_or_null v = (case v of JObj _ \<Rightarrow> True | JNull \<Rightarrow> True | _ \<Rightarrow> False)"

definition obj_or_empty :: "json \<Rightarrow> jobj" where
  "obj_or_empty v = (case v of JObj m \<Rightarrow> m | _ \<Rightarrow> [])"

text \<open>\<open>json.Unmarshal\<close> into \<open>[]map[string]json.RawMessage\<close>: \<open>None\<close> on any error.\<close>

definition decode_items :: "json \<Rightarrow> jobj list option" where
  "decode_items v = (case v of
       JArr xs \<Rightarrow> if list_all is_obj_or_null xs then Some (map obj_or_empty xs) else None
     | JNull \<Rightarrow> Some []
     | _ \<Rightarrow> None)"

definition text_part :: "(json \<Rightarrow> string) \<Rightarrow> jobj \<Rightarrow> string" where
  "text_part R p =
     (if raw_field R p ''type'' \<in> set [''output_text'', ''text'', ''input_text'']
      then raw_field R p ''text'' else [])"

definition extract_message_texts :: "(json \<Rightarrow> string) \<Rightarrow> json option \<Rightarrow> string list" where
  "extract_message_texts R v = (case v of
       None \<Rightarrow> []
     | Some w \<Rightarrow>
         (case decode_items w of
            Some ps \<Rightarrow> filter (\<lambda>s. s \<noteq> []) (map (text_part R) ps)
          | None \<Rightarrow> (case w of JStr s \<Rightarrow> if s \<noteq> [] then [s] else [] | _ \<Rightarrow> [])))"

definition summary_text :: "(json \<Rightarrow> string) \<Rightarrow> jobj \<Rightarrow> string" where
  "summary_text R p =
     (let text = raw_field R p ''text'' in if text = [] then raw_field R p ''content'' else text)"

fun join_lines :: "string \<Rightarrow> string list \<Rightarrow> string" where
  "join_lines acc [] = acc"
| "join_lines acc (s # ss) =
     (if s = [] then join_lines acc ss
      else join_lines (if acc = [] then s else acc @ [CHR 0x0A] @ s) ss)"

definition extract_reasoning_summary :: "(json \<Rightarrow> string) \<Rightarrow> json option \<Rightarrow> string" where
  "extract_reasoning_summary R v = (case v of
       None \<Rightarrow> []
     | Some JNull \<Rightarrow> []
     | Some (JStr s) \<Rightarrow> s
     | Some w \<Rightarrow> (case decode_items w of
                  None \<Rightarrow> [] | Some ps \<Rightarrow> join_lines [] (map (summary_text R) ps)))"

definition first_nonzero :: "int list \<Rightarrow> int" where
  "first_nonzero ns = (case filter (\<lambda>n. n \<noteq> 0) ns of [] \<Rightarrow> 0 | n # _ \<Rightarrow> n)"

definition extract_usage :: "json \<Rightarrow> int \<times> int" where
  "extract_usage v = (let u = obj_or_empty v in
     (first_nonzero [int_field u ''input_tokens'', int_field u ''prompt_tokens'',
                     int_field u ''input_token_count''],
      first_nonzero [int_field u ''output_tokens'', int_field u ''completion_tokens'',
                     int_field u ''output_token_count'']))"

section \<open>Errors\<close>

definition error_type_from_status :: "int \<Rightarrow> string" where
  "error_type_from_status status =
     (if status = 401 then ''authentication_error''
      else if status = 402 then ''billing_error''
      else if status = 403 then ''permission_error''
      else if status = 404 then ''not_found_error''
      else if status = 413 then ''request_too_large''
      else if status = 429 then ''rate_limit_error''
      else if status = 504 then ''timeout_error''
      else if status = 529 then ''overloaded_error''
      else if status \<ge> 500 then ''api_error'' else ''invalid_request_error'')"

text \<open>\<open>unm\<close> decodes a text (\<open>None\<close>: not JSON) and \<open>stext\<close> is \<open>http.StatusText\<close>.\<close>

definition new_error_envelope ::
  "(string \<Rightarrow> json option) \<Rightarrow> (int \<Rightarrow> string) \<Rightarrow> int \<Rightarrow> string \<Rightarrow> string \<times> string" where
  "new_error_envelope unm stext status message0 =
     (let m0 = trim_space message0;
          m1 = (if m0 \<noteq> [] then m0 else if stext status \<noteq> [] then stext status else ''error'');
          ty = error_type_from_status status in
      case unm m1 of
        Some (JObj probe) \<Rightarrow>
          (case jget probe ''error'' of
             Some (JObj e) \<Rightarrow>
               (if trim_space (jstr e ''type'') \<noteq> [] then trim_space (jstr e ''type'') else ty,
                if trim_space (jstr e ''message'') \<noteq> [] then trim_space (jstr e ''message'') else m1)
           | _ \<Rightarrow> (ty, m1))
      | _ \<Rightarrow> (ty, m1))"

text \<open>A field that a struct decoding accepts without an error.\<close>

definition str_or_absent :: "jobj \<Rightarrow> string \<Rightarrow> bool" where
  "str_or_absent m k = (case jget m k of None \<Rightarrow> True | Some JNull \<Rightarrow> True | Some (JStr _) \<Rightarrow> True | _ \<Rightarrow> False)"

definition error_probe_ok :: "jobj \<Rightarrow> bool" where
  "error_probe_ok m \<longleftrightarrow> str_or_absent m ''message'' \<and>
     (case jget m ''error'' of
        None \<Rightarrow> True
      | Some JNull \<Rightarrow> True
      | Some (JObj e) \<Rightarrow> str_or_absent e ''message'' \<and> str_or_absent e ''type'' \<and> str_or_absent e ''code''
      | _ \<Rightarrow> False)"

definition format_error_message ::
  "(string \<Rightarrow> json option) \<Rightarrow> (int \<Rightarrow> string) \<Rightarrow> int \<Rightarrow> string \<Rightarrow> string" where
  "format_error_message unm stext status raw =
     (if raw = [] then (if stext status \<noteq> [] then stext status else ''upstream status '' @ dec_int status)
      else
        let s = trim_space raw; fallback = (if length s > 512 then take 512 s else s) in
        case unm raw of
          Some (JObj m) \<Rightarrow>
            (if \<not> error_probe_ok m then fallback
             else
               let e = sub_obj m ''error'' in
               if trim_space (jstr e ''message'') \<noteq> [] then trim_space (jstr e ''message'')
               else if trim_space (jstr m ''message'') \<noteq> [] then trim_space (jstr m ''message'')
               else if trim_space (jstr e ''code'') \<noteq> [] then trim_space (jstr e ''code'')
               else fallback)
        | _ \<Rightarrow> fallback)"

end
