(* ===== verification/Anthropic_Thinking.thy ===== *)
theory Anthropic_Thinking
  imports Raw_Json Json_Struct
begin

text \<open>
  The thinking controls of an Anthropic request (\<open>internal/anthropic/thinking.go\<close>): \<open>thinking\<close> and
  \<open>output_config\<close> are read, checked and mapped to the reasoning effort and the text format of a Responses
  request, and to the bridge that turns reasoning back into thinking blocks.  An absent raw field is \<open>None\<close>.
\<close>

datatype req_error =
    InvalidBody
  | InvalidConfig string
  | UnknownFields string "string list"
  | ThinkingTypeRequired
  | BadDisplay string
  | BadEffort string
  | BadThinkingType string
  | BudgetWithAdaptive
  | BudgetTooSmall
  | BudgetNotBelowMax
  | BudgetWithDisabled
  | DisplayWithDisabled
  | NoReasoningModel string
  | BadFormatType string
  | SchemaNotObject

record thinking_config =
  tcType :: string
  tcBudget :: "int option"
  tcDisplay :: string

record output_config =
  ocEffort :: string
  ocFormat :: "json option"

record bridge =
  brEnabled :: bool
  brDisplay :: string

record reasoning =
  rnEffort :: string
  rnSummary :: string

definition has_json_value :: "json option \<Rightarrow> bool" where
  "has_json_value v \<longleftrightarrow> v \<noteq> None \<and> v \<noteq> Some JNull"

section \<open>Reading the controls\<close>

definition thinking_of :: "jobj \<Rightarrow> thinking_config option" where
  "thinking_of m = do {
     ty \<leftarrow> text_field m ''type'';
     budget \<leftarrow> opt_int_field m ''budget_tokens'';
     display \<leftarrow> text_field m ''display'';
     Some \<lparr> tcType = ty, tcBudget = budget, tcDisplay = display \<rparr> }"

definition output_of :: "jobj \<Rightarrow> output_config option" where
  "output_of m = do {
     effort \<leftarrow> text_field m ''effort'';
     Some \<lparr> ocEffort = effort, ocFormat = jget m ''format'' \<rparr> }"

definition norm_word :: "string \<Rightarrow> string" where
  "norm_word s = to_lower (trim_space s)"

definition unknown_fields :: "string list \<Rightarrow> json \<Rightarrow> string list" where
  "unknown_fields allowed v = sort_stable str_less (filter (\<lambda>k. k \<notin> set allowed) (map fst (obj_or_empty v)))"

definition reject_unknown_config_fields :: "string \<Rightarrow> string list \<Rightarrow> json \<Rightarrow> req_error option" where
  "reject_unknown_config_fields name allowed v =
     (if \<not> is_obj_or_null v then Some (InvalidConfig name)
      else if unknown_fields allowed v = [] then None
      else Some (UnknownFields name (unknown_fields allowed v)))"

definition parse_thinking_config :: "json option \<Rightarrow> bool \<Rightarrow> req_error + thinking_config" where
  "parse_thinking_config raw strip =
     (if \<not> has_json_value raw then Inr \<lparr> tcType = [], tcBudget = None, tcDisplay = [] \<rparr>
      else let v = the raw in
        case struct_value thinking_of v of
          None \<Rightarrow> Inl (InvalidConfig ''thinking'')
        | Some c \<Rightarrow>
            (case (if strip then None
                   else reject_unknown_config_fields ''thinking'' [''type'', ''budget_tokens'', ''display''] v) of
               Some e \<Rightarrow> Inl e
             | None \<Rightarrow>
                 (let ty = norm_word (tcType c); display = norm_word (tcDisplay c) in
                  if ty = [] then Inl ThinkingTypeRequired
                  else if display \<notin> set [[], ''summarized'', ''omitted''] then Inl (BadDisplay display)
                  else Inr \<lparr> tcType = ty, tcBudget = tcBudget c, tcDisplay = display \<rparr>)))"

definition parse_output_config :: "json option \<Rightarrow> bool \<Rightarrow> req_error + output_config" where
  "parse_output_config raw strip =
     (if \<not> has_json_value raw then Inr \<lparr> ocEffort = [], ocFormat = None \<rparr>
      else let v = the raw in
        case struct_value output_of v of
          None \<Rightarrow> Inl (InvalidConfig ''output_config'')
        | Some c \<Rightarrow>
            (case (if strip then None
                   else reject_unknown_config_fields ''output_config'' [''effort'', ''format''] v) of
               Some e \<Rightarrow> Inl e
             | None \<Rightarrow> Inr (c\<lparr> ocEffort := norm_word (ocEffort c) \<rparr>)))"

definition thinking_bridge_from_raw :: "json option \<Rightarrow> bridge" where
  "thinking_bridge_from_raw raw =
     (let off = \<lparr> brEnabled = False, brDisplay = [] \<rparr> in
      if \<not> has_json_value raw then off
      else case struct_value thinking_of (the raw) of
        None \<Rightarrow> off
      | Some c \<Rightarrow>
          (if norm_word (tcType c) \<in> set [''adaptive'', ''enabled'']
           then \<lparr> brEnabled = True,
                  brDisplay = (if norm_word (tcDisplay c) = [] then ''summarized'' else norm_word (tcDisplay c)) \<rparr>
           else off))"

section \<open>The effort\<close>

definition normalize_anthropic_effort :: "string \<Rightarrow> req_error + string" where
  "normalize_anthropic_effort effort =
     (let e = norm_word effort in
      if e \<in> set [''low'', ''medium'', ''high''] then Inr e
      else if e \<in> set [''xhigh'', ''max''] then Inr ''xhigh''
      else Inl (BadEffort effort))"

definition effort_from_thinking_budget :: "int \<Rightarrow> string" where
  "effort_from_thinking_budget b = (if b < 4000 then ''low'' else if b < 16000 then ''medium'' else ''high'')"

definition grok_reasoning_effort :: "string \<Rightarrow> string \<Rightarrow> string" where
  "grok_reasoning_effort model effort =
     (if effort = ''xhigh'' then (if contains_str (to_lower model) ''multi-agent'' then ''xhigh'' else ''high'')
      else effort)"

definition is_non_reasoning_model :: "string \<Rightarrow> bool" where
  "is_non_reasoning_model model \<longleftrightarrow>
     has_prefix (norm_word model) ''grok-composer-'' \<or> contains_str (norm_word model) ''non-reasoning''"

definition supports_disabled_reasoning :: "string \<Rightarrow> bool" where
  "supports_disabled_reasoning model \<longleftrightarrow>
     norm_word model = ''grok-4.3'' \<or> has_prefix (norm_word model) ''grok-4.3-''"

definition disabled_reasoning_effort :: "thinking_config \<Rightarrow> string \<Rightarrow> string \<Rightarrow> req_error + string" where
  "disabled_reasoning_effort c effort model =
     (if tcBudget c \<noteq> None then Inl BudgetWithDisabled
      else if tcDisplay c \<noteq> [] then Inl DisplayWithDisabled
      else if effort \<noteq> [] then (if is_non_reasoning_model model then Inr [] else Inr effort)
      else if is_non_reasoning_model model then Inr []
      else if supports_disabled_reasoning model then Inr ''none''
      else Inr ''low'')"

definition resolve_thinking_effort ::
  "thinking_config \<Rightarrow> string \<Rightarrow> string \<Rightarrow> int \<Rightarrow> bool \<Rightarrow> req_error + string" where
  "resolve_thinking_effort c effort model max_tokens has_tools =
     (if tcType c = [] then Inr effort
      else if tcType c = ''adaptive'' then
        (if tcBudget c \<noteq> None then Inl BudgetWithAdaptive else Inr (if effort = [] then ''high'' else effort))
      else if tcType c = ''enabled'' then
        (case tcBudget c of
           None \<Rightarrow> Inl BudgetTooSmall
         | Some b \<Rightarrow>
             if b < 1024 then Inl BudgetTooSmall
             else if \<not> has_tools \<and> max_tokens > 0 \<and> b \<ge> max_tokens then Inl BudgetNotBelowMax
             else Inr (if effort = [] then effort_from_thinking_budget b else effort))
      else if tcType c = ''disabled'' then disabled_reasoning_effort c effort model
      else Inl (BadThinkingType (tcType c)))"

definition translate_thinking_config ::
  "json option \<Rightarrow> json option \<Rightarrow> string \<Rightarrow> bool \<Rightarrow> int \<Rightarrow> bool \<Rightarrow> req_error + reasoning option" where
  "translate_thinking_config thinking_raw output_raw model strip max_tokens has_tools =
     (case parse_thinking_config thinking_raw strip of
        Inl e \<Rightarrow> Inl e
      | Inr c \<Rightarrow>
          (case parse_output_config output_raw strip of
             Inl e \<Rightarrow> Inl e
           | Inr oc \<Rightarrow>
               (case (if ocEffort oc = [] then Inr [] else normalize_anthropic_effort (ocEffort oc)) of
                  Inl e \<Rightarrow> Inl e
                | Inr requested \<Rightarrow>
                    (case resolve_thinking_effort c requested model max_tokens has_tools of
                       Inl e \<Rightarrow> Inl e
                     | Inr effort \<Rightarrow>
                         if effort = [] then Inr None
                         else if is_non_reasoning_model model then Inl (NoReasoningModel model)
                         else Inr (Some \<lparr> rnEffort = grok_reasoning_effort model effort,
                                rnSummary = (if tcType c \<in> set [''adaptive'', ''enabled''] \<and> tcDisplay c \<noteq> ''omitted''
                                             then ''auto'' else []) \<rparr>)))))"

section \<open>The output format\<close>

text \<open>The schema of a structured answer.\<close>

definition translate_output_format :: "json option \<Rightarrow> req_error + json option" where
  "translate_output_format raw =
     (if \<not> has_json_value raw then Inr None
      else case struct_value output_of (the raw) of
        None \<Rightarrow> Inl (InvalidConfig ''output_config'')
      | Some c \<Rightarrow>
          if \<not> has_json_value (ocFormat c) then Inr None
          else (case struct_value (\<lambda>m. map_option (\<lambda>ty. (ty, jget m ''schema'')) (text_field m ''type''))
                       (the (ocFormat c)) of
                  None \<Rightarrow> Inl (InvalidConfig ''output_config.format'')
                | Some (ty, schema) \<Rightarrow>
                    if norm_word ty \<noteq> ''json_schema'' then Inl (BadFormatType (norm_word ty))
                    else (case schema of
                            Some (JObj m) \<Rightarrow> Inr (Some (JObj [(''type'', JStr ''json_schema''),
                               (''name'', JStr ''anthropic_output''), (''schema'', JObj m), (''strict'', JBool True)]))
                          | _ \<Rightarrow> Inl SchemaNotObject)))"

end
