(* ===== verification/Anthropic_Request.thy ===== *)
theory Anthropic_Request
  imports Anthropic_Thinking
begin

text \<open>
  An Anthropic request on the Responses interface (\<open>internal/anthropic/translate_req.go\<close>): the system prompt,
  the messages with their blocks, the tools and the tool choice.  \<open>R\<close> is the text of a JSON value, as it was
  received or as \<open>json.Marshal\<close> writes it; \<open>unm\<close> is \<open>json.Unmarshal\<close> of a text.  Marshalling a struct gives
  the object of its members; the order of the members of an object is not modelled.
\<close>

record anthropic_msg =
  amRole :: string
  amContent :: "json option"

record anthropic_tool =
  atName :: string
  atDescription :: string
  atInputSchema :: "json option"
  atType :: string

record messages_request =
  mqModel :: string
  mqMaxTokens :: int
  mqSystem :: "json option"
  mqMessages :: "anthropic_msg list"
  mqTools :: "anthropic_tool list"
  mqToolChoice :: "json option"
  mqStream :: bool
  mqTemperature :: "json option"
  mqTopP :: "json option"
  mqThinking :: "json option"
  mqOutputConfig :: "json option"

record req_options =
  roModel :: string
  roConvID :: string
  roStrip :: bool

section \<open>Decoding the request\<close>

definition msg_of :: "jobj \<Rightarrow> anthropic_msg option" where
  "msg_of m = map_option (\<lambda>r. \<lparr> amRole = r, amContent = jget m ''content'' \<rparr>) (text_field m ''role'')"

definition tool_of :: "jobj \<Rightarrow> anthropic_tool option" where
  "tool_of m = do {
     nm \<leftarrow> text_field m ''name'';
     desc \<leftarrow> text_field m ''description'';
     ty \<leftarrow> text_field m ''type'';
     Some \<lparr> atName = nm, atDescription = desc, atInputSchema = jget m ''input_schema'', atType = ty \<rparr> }"

text \<open>\<open>top_k\<close>, \<open>stop_sequences\<close> and \<open>metadata\<close> are decoded and dropped.\<close>

definition request_of :: "jobj \<Rightarrow> messages_request option" where
  "request_of m = do {
     model \<leftarrow> text_field m ''model'';
     max_tokens \<leftarrow> count_field m ''max_tokens'';
     msgs \<leftarrow> list_field (struct_value msg_of) m ''messages'';
     tools \<leftarrow> list_field (struct_value tool_of) m ''tools'';
     strm \<leftarrow> flag_field m ''stream'';
     temperature \<leftarrow> opt_num_field m ''temperature'';
     top_p \<leftarrow> opt_num_field m ''top_p'';
     _ \<leftarrow> opt_int_field m ''top_k'';
     _ \<leftarrow> list_field text_value m ''stop_sequences'';
     Some \<lparr> mqModel = model, mqMaxTokens = max_tokens, mqSystem = jget m ''system'', mqMessages = msgs,
       mqTools = tools, mqToolChoice = jget m ''tool_choice'', mqStream = strm, mqTemperature = temperature,
       mqTopP = top_p, mqThinking = jget m ''thinking'', mqOutputConfig = jget m ''output_config'' \<rparr> }"

section \<open>Texts\<close>

text \<open>The texts of text blocks, one per line; \<open>None\<close> when the value is not a list of blocks.\<close>

definition text_block_of :: "jobj \<Rightarrow> string option" where
  "text_block_of m = do {
     ty \<leftarrow> text_field m ''type'';
     s \<leftarrow> text_field m ''text'';
     Some (if ty \<in> set [[], ''text''] then s else []) }"

definition text_blocks :: "json \<Rightarrow> string list option" where
  "text_blocks v = (case v of
       JArr xs \<Rightarrow> all_some (map (struct_value text_block_of) xs) | JNull \<Rightarrow> Some [] | _ \<Rightarrow> None)"

definition extract_system_text :: "json \<Rightarrow> string" where
  "extract_system_text v = (case v of
       JStr s \<Rightarrow> s
     | w \<Rightarrow> (case text_blocks w of Some ss \<Rightarrow> join_lines [] ss | None \<Rightarrow> []))"

definition tool_result_output :: "(json \<Rightarrow> string) \<Rightarrow> json option \<Rightarrow> string" where
  "tool_result_output R raw = (case raw of
       None \<Rightarrow> []
     | Some JNull \<Rightarrow> []
     | Some (JStr s) \<Rightarrow> s
     | Some w \<Rightarrow> (case text_blocks w of Some ss \<Rightarrow> join_lines [] ss | None \<Rightarrow> R w))"

section \<open>Messages\<close>

definition message_of :: "string \<Rightarrow> json list \<Rightarrow> json" where
  "message_of role parts = JObj [(''type'', JStr ''message''), (''role'', JStr role), (''content'', JArr parts)]"

definition text_part_of :: "string \<Rightarrow> string \<Rightarrow> json" where
  "text_part_of role s =
     JObj [(''type'', JStr (if role = ''assistant'' then ''output_text'' else ''input_text'')), (''text'', JStr s)]"

definition image_url :: "jobj \<Rightarrow> string" where
  "image_url bl =
     (let src = sub_obj bl ''source''; mt = jstr src ''media_type'' in
      if jstr src ''url'' \<noteq> [] then jstr src ''url''
      else if jstr src ''data'' \<noteq> []
      then ''data:'' @ (if mt = [] then ''application/octet-stream'' else mt) @ '';base64,'' @ jstr src ''data''
      else [])"

definition tool_use_item :: "(json \<Rightarrow> string) \<Rightarrow> jobj \<Rightarrow> json" where
  "tool_use_item R bl = JObj [(''type'', JStr ''function_call''), (''call_id'', JStr (raw_field R bl ''id'')),
     (''id'', JStr (raw_field R bl ''id'')), (''name'', JStr (raw_field R bl ''name'')),
     (''arguments'', JStr (case raw_value bl ''input'' of None \<Rightarrow> ''{}'' | Some v \<Rightarrow> R v))]"

definition tool_result_item :: "(json \<Rightarrow> string) \<Rightarrow> jobj \<Rightarrow> json" where
  "tool_result_item R bl =
     (let callID = raw_field R bl ''tool_use_id''; output = tool_result_output R (jget bl ''content'') in
      JObj [(''type'', JStr ''function_call_output''),
        (''call_id'', JStr (if callID = [] then raw_field R bl ''id'' else callID)),
        (''output'', JStr (if raw_field R bl ''is_error'' = ''true''
           then R (JObj [(''content'', JStr output), (''is_error'', JBool True)]) else output))])"

definition reasoning_item :: "string \<Rightarrow> json" where
  "reasoning_item signature = JObj [(''type'', JStr ''reasoning''), (''summary'', JArr []),
     (''encrypted_content'', JStr signature)]"

definition flush_text :: "string \<Rightarrow> json list \<Rightarrow> json list" where
  "flush_text role parts = (if parts = [] then [] else [message_of role parts])"

text \<open>\<open>parts\<close> are the text parts not yet written.\<close>

fun convert_blocks :: "(json \<Rightarrow> string) \<Rightarrow> string \<Rightarrow> json list \<Rightarrow> jobj list \<Rightarrow> json list" where
  "convert_blocks R role parts [] = flush_text role parts"
| "convert_blocks R role parts (bl # bls) =
     (let ty = raw_field R bl ''type'' in
      if ty \<in> set [''text'', []]
      then convert_blocks R role (parts @ [text_part_of role (raw_field R bl ''text'')]) bls
      else if ty = ''image'' then
        (if image_url bl = [] then convert_blocks R role parts bls
         else convert_blocks R role
           (parts @ [JObj [(''type'', JStr ''input_image''), (''image_url'', JStr (image_url bl))]]) bls)
      else if ty = ''tool_use'' then flush_text role parts @ tool_use_item R bl # convert_blocks R role [] bls
      else if ty = ''tool_result'' then flush_text role parts @ tool_result_item R bl # convert_blocks R role [] bls
      else if ty = ''thinking'' \<and> raw_field R bl ''signature'' \<noteq> []
      then flush_text role parts @ reasoning_item (raw_field R bl ''signature'') # convert_blocks R role [] bls
      else convert_blocks R role parts bls)"

definition role_of :: "anthropic_msg \<Rightarrow> string" where
  "role_of m = (let r = to_lower (trim_space (amRole m)) in if r = [] then ''user'' else r)"

definition convert_message :: "(json \<Rightarrow> string) \<Rightarrow> anthropic_msg \<Rightarrow> json list" where
  "convert_message R m = (let role = role_of m in
     case amContent m of
       None \<Rightarrow> [message_of role [text_part_of [] []]]
     | Some (JStr s) \<Rightarrow> [message_of role [text_part_of role s]]
     | Some JNull \<Rightarrow> [message_of role [text_part_of role []]]
     | Some v \<Rightarrow> (case decode_items v of
                   Some bls \<Rightarrow> convert_blocks R role [] bls
                 | None \<Rightarrow> [message_of role [text_part_of [] (R v)]]))"

section \<open>Tools\<close>

definition is_anthropic_web_search_tool :: "string \<Rightarrow> bool" where
  "is_anthropic_web_search_tool ty \<longleftrightarrow>
     (let t = to_lower (trim_space ty) in t = ''web_search'' \<or> has_prefix t ''web_search_'')"

definition strip_json_field :: "json \<Rightarrow> string \<Rightarrow> json" where
  "strip_json_field v k = (case v of JObj m \<Rightarrow> JObj (jdel m k) | w \<Rightarrow> w)"

definition convert_tool :: "anthropic_tool \<Rightarrow> json" where
  "convert_tool t =
     (if is_anthropic_web_search_tool (atType t) then JObj [(''type'', JStr ''web_search'')]
      else JObj [(''type'', JStr ''function''), (''name'', JStr (atName t)), (''description'', JStr (atDescription t)),
        (''parameters'', strip_json_field (if has_json_value (atInputSchema t) then the (atInputSchema t) else JObj [])
           ''$schema'')])"

definition tool_choice_forces :: "json \<Rightarrow> string \<Rightarrow> bool" where
  "tool_choice_forces v nm =
     (case struct_value (\<lambda>m. do { ty \<leftarrow> text_field m ''type''; n \<leftarrow> text_field m ''name''; Some (ty, n) }) v of
        None \<Rightarrow> False
      | Some (ty, n) \<Rightarrow> equal_fold (trim_space ty) ''tool'' \<and> equal_fold (trim_space n) (trim_space nm))"

definition convert_tool_choice :: "json \<Rightarrow> json option" where
  "convert_tool_choice v = (case v of
       JStr s \<Rightarrow> Some (JStr (if s = ''any'' then ''required'' else s))
     | JObj m \<Rightarrow>
         (let ty = jstr m ''type'' in
          if ty = ''auto'' then Some (JStr ''auto'')
          else if ty = ''any'' then Some (JStr ''required'')
          else if ty = ''none'' then Some (JStr ''none'')
          else if ty = ''tool'' then Some (JObj [(''type'', JStr ''function''), (''name'', JStr (jstr m ''name''))])
          else Some (JObj m))
     | _ \<Rightarrow> None)"

definition tool_choice_of :: "bool \<Rightarrow> json \<Rightarrow> json option" where
  "tool_choice_of web_search v =
     (if web_search \<and> tool_choice_forces v ''web_search'' then Some (JStr ''auto'') else convert_tool_choice v)"

definition parallel_calls :: "json \<Rightarrow> bool option" where
  "parallel_calls v = (case struct_value (\<lambda>m. opt_flag_field m ''disable_parallel_tool_use'') v of
       Some (Some d) \<Rightarrow> Some (\<not> d) | _ \<Rightarrow> None)"

section \<open>The request\<close>

definition opt_member :: "string \<Rightarrow> json option \<Rightarrow> jobj" where
  "opt_member k v = (case v of None \<Rightarrow> [] | Some w \<Rightarrow> [(k, w)])"

definition filled :: "string \<Rightarrow> json option" where
  "filled s = (if s = [] then None else Some (JStr s))"

definition reasoning_json :: "reasoning \<Rightarrow> json" where
  "reasoning_json r = JObj ((''effort'', JStr (rnEffort r)) # opt_member ''summary'' (filled (rnSummary r)))"

definition build_request ::
  "(json \<Rightarrow> string) \<Rightarrow> req_options \<Rightarrow> string \<Rightarrow> messages_request \<Rightarrow> reasoning option \<Rightarrow> json option \<Rightarrow> jobj" where
  "build_request R opts model rq rsn format =
     (let choice = (if has_json_value (mqToolChoice rq) then mqToolChoice rq else None);
          web = list_ex (\<lambda>t. is_anthropic_web_search_tool (atType t)) (mqTools rq) in
      [(''model'', JStr model)] @
      opt_member ''instructions'' (filled (if has_json_value (mqSystem rq) then extract_system_text (the (mqSystem rq)) else [])) @
      [(''input'', JArr (concat (map (convert_message R) (mqMessages rq))))] @
      (if mqTools rq = [] then [] else [(''tools'', JArr (map convert_tool (mqTools rq)))]) @
      opt_member ''tool_choice'' (Option.bind choice (tool_choice_of web)) @
      opt_member ''reasoning'' (map_option reasoning_json rsn) @
      opt_member ''text'' (map_option (\<lambda>f. JObj [(''format'', f)]) format) @
      (if brEnabled (thinking_bridge_from_raw (mqThinking rq))
       then [(''include'', JArr [JStr ''reasoning.encrypted_content''])] else []) @
      (if mqMaxTokens rq > 0 then [(''max_output_tokens'', JNum (mqMaxTokens rq))] else []) @
      [(''stream'', JBool (mqStream rq))] @
      opt_member ''temperature'' (mqTemperature rq) @
      opt_member ''top_p'' (mqTopP rq) @
      opt_member ''prompt_cache_key'' (filled (roConvID opts)) @
      opt_member ''parallel_tool_calls'' (map_option JBool (Option.bind choice parallel_calls)))"

text \<open>The body, the model the client named and whether it wants a stream.\<close>

definition translate_request ::
  "(json \<Rightarrow> string) \<Rightarrow> (string \<Rightarrow> json option) \<Rightarrow> string \<Rightarrow> req_options \<Rightarrow> req_error + jobj \<times> string \<times> bool" where
  "translate_request R unm raw opts =
     (case Option.bind (unm raw) (struct_value request_of) of
        None \<Rightarrow> Inl InvalidBody
      | Some rq \<Rightarrow>
          (let original = trim_space (mqModel rq);
               model = (if trim_space (roModel opts) = [] then original else trim_space (roModel opts)) in
           case translate_thinking_config (mqThinking rq) (mqOutputConfig rq) model (roStrip opts)
                  (mqMaxTokens rq) (mqTools rq \<noteq> []) of
             Inl e \<Rightarrow> Inl e
           | Inr rsn \<Rightarrow>
               (case translate_output_format (mqOutputConfig rq) of
                  Inl e \<Rightarrow> Inl e
                | Inr format \<Rightarrow> Inr (build_request R opts model rq rsn format, original, mqStream rq))))"

end
