(* ===== verification/Anthropic_Response.thy ===== *)
theory Anthropic_Response
  imports Anthropic_Thinking
begin

text \<open>
  A complete Responses response as an Anthropic message (\<open>internal/anthropic/translate_resp.go\<close>): the output
  items become content blocks, with the reasoning bridged to thinking blocks when the request asked for it.
  \<open>fresh\<close> is the identifier made of the time when the response has none.
\<close>

datatype content_block =
    TextContent string
  | ThinkingContent string string
  | ToolUseContent string string json

record message_response =
  mrID :: string
  mrModel :: string
  mrContent :: "content_block list"
  mrStopReason :: string
  mrUsage :: "int \<times> int"

record resp_options =
  tpRequestModel :: string
  tpFallbackModel :: string
  tpThinking :: bridge

datatype resp_error = EmptyResponse | InvalidResponse | InvalidNestedResponse

section \<open>Stop reason\<close>

definition normalize_stop_reason :: "string \<Rightarrow> bool \<Rightarrow> string" where
  "normalize_stop_reason s has_tool =
     (let r = to_lower (trim_space s) in
      if has_tool then ''tool_use''
      else if r \<in> set [[], ''stop'', ''completed'', ''end_turn''] then ''end_turn''
      else if r \<in> set [''max_tokens'', ''max_output_tokens'', ''length''] then ''max_tokens''
      else if r \<in> set [''tool_use'', ''tool_calls'', ''function_call''] then ''end_turn''
      else if r \<in> set [''stop_sequence'', ''pause_turn'', ''refusal''] then s
      else if r = ''content_filter'' then ''refusal''
      else ''end_turn'')"

definition map_stop_reason :: "(json \<Rightarrow> string) \<Rightarrow> jobj \<Rightarrow> bool \<Rightarrow> string" where
  "map_stop_reason R root has_tool =
     (let reason = (case jget root ''incomplete_details'' of
            None \<Rightarrow> []
          | Some v \<Rightarrow> (case struct_value (\<lambda>m. text_field m ''reason'') v of None \<Rightarrow> [] | Some s \<Rightarrow> s)) in
      if has_tool then ''tool_use''
      else if raw_field R root ''stop_reason'' \<noteq> [] then normalize_stop_reason (raw_field R root ''stop_reason'') False
      else if reason \<noteq> [] then normalize_stop_reason reason False
      else if raw_field R root ''status'' = ''incomplete'' then ''max_tokens''
      else ''end_turn'')"

section \<open>Content\<close>

text \<open>The arguments of a call, as the text of a JSON object.\<close>

definition call_text :: "(json \<Rightarrow> string) \<Rightarrow> json option \<Rightarrow> string" where
  "call_text R v = (case v of
       None \<Rightarrow> ''{}''
     | Some JNull \<Rightarrow> ''{}''
     | Some (JStr s) \<Rightarrow> (if s = [] then ''{}'' else s)
     | Some w \<Rightarrow> R w)"

definition call_input :: "(string \<Rightarrow> json option) \<Rightarrow> string \<Rightarrow> json" where
  "call_input unm args = (case unm args of
       None \<Rightarrow> JObj []
     | Some v \<Rightarrow> if has_prefix (trim_space args) ''{'' then v else JObj [])"

definition tool_use_block :: "(json \<Rightarrow> string) \<Rightarrow> (string \<Rightarrow> json option) \<Rightarrow> jobj \<Rightarrow> content_block" where
  "tool_use_block R unm item =
     (let callID = raw_field R item ''call_id'' in
      ToolUseContent (if callID = [] then raw_field R item ''id'' else callID) (raw_field R item ''name'')
        (call_input unm (call_text R (jget item ''arguments''))))"

definition reasoning_block :: "(json \<Rightarrow> string) \<Rightarrow> bridge \<Rightarrow> jobj \<Rightarrow> content_block list" where
  "reasoning_block R b item =
     (let summary = (if brDisplay b = ''omitted'' then [] else extract_reasoning_summary R (jget item ''summary''));
          signature = raw_field R item ''encrypted_content'' in
      if \<not> brEnabled b then []
      else if summary = [] \<and> signature = [] then []
      else [ThinkingContent summary signature])"

definition item_blocks ::
  "(json \<Rightarrow> string) \<Rightarrow> (string \<Rightarrow> json option) \<Rightarrow> bridge \<Rightarrow> jobj \<Rightarrow> content_block list" where
  "item_blocks R unm b item =
     (let ty = raw_field R item ''type'' in
      if ty = ''message'' then map TextContent (extract_message_texts R (jget item ''content''))
      else if ty = ''function_call'' then [tool_use_block R unm item]
      else if ty = ''reasoning'' then reasoning_block R b item
      else [])"

text \<open>The output items; what is not a list of objects has none.\<close>

definition output_items :: "jobj \<Rightarrow> jobj list" where
  "output_items root = (case jget root ''output'' of
       None \<Rightarrow> [] | Some v \<Rightarrow> (case decode_items v of None \<Rightarrow> [] | Some items \<Rightarrow> items))"

section \<open>The message\<close>

definition message_id :: "(json \<Rightarrow> string) \<Rightarrow> string \<Rightarrow> jobj \<Rightarrow> string" where
  "message_id R fresh root =
     (let id0 = raw_field R root ''id''; id1 = (if id0 = [] then fresh else id0) in
      if has_prefix id1 ''resp_'' then ''msg_'' @ trim_prefix id1 ''resp_'' else id1)"

definition message_model :: "(json \<Rightarrow> string) \<Rightarrow> resp_options \<Rightarrow> jobj \<Rightarrow> string" where
  "message_model R opts root =
     (if tpRequestModel opts \<noteq> [] then tpRequestModel opts
      else if raw_field R root ''model'' \<noteq> [] then raw_field R root ''model'' else tpFallbackModel opts)"

definition response_message ::
  "(json \<Rightarrow> string) \<Rightarrow> (string \<Rightarrow> json option) \<Rightarrow> string \<Rightarrow> resp_options \<Rightarrow> jobj \<Rightarrow> message_response" where
  "response_message R unm fresh opts root =
     (let items = output_items root;
          content = concat (map (item_blocks R unm (tpThinking opts)) items);
          whole = raw_field R root ''output_text'' in
      \<lparr> mrID = message_id R fresh root, mrModel = message_model R opts root,
        mrContent = (if content = [] \<and> whole \<noteq> [] then [TextContent whole] else content),
        mrStopReason = map_stop_reason R root
          (list_ex (\<lambda>item. raw_field R item ''type'' = ''function_call'') items),
        mrUsage = (case jget root ''usage'' of None \<Rightarrow> (0, 0) | Some v \<Rightarrow> extract_usage v) \<rparr>)"

text \<open>An envelope is replaced by the response it holds.\<close>

definition unwrap_response :: "(json \<Rightarrow> string) \<Rightarrow> jobj \<Rightarrow> resp_error + jobj" where
  "unwrap_response R root =
     (if raw_field R root ''type'' \<in> set [''response.completed'', ''response.incomplete'']
      then (case jget root ''response'' of
              None \<Rightarrow> Inr root
            | Some v \<Rightarrow> if is_obj_or_null v then Inr (obj_or_empty v) else Inl InvalidNestedResponse)
      else Inr root)"

definition translate_response ::
  "(json \<Rightarrow> string) \<Rightarrow> (string \<Rightarrow> json option) \<Rightarrow> string \<Rightarrow> resp_options \<Rightarrow> string \<Rightarrow> resp_error + message_response" where
  "translate_response R unm fresh opts raw =
     (if trim_space raw = [] then Inl EmptyResponse
      else case unm (trim_space raw) of
        None \<Rightarrow> Inl InvalidResponse
      | Some v \<Rightarrow>
          if \<not> is_obj_or_null v then Inl InvalidResponse
          else (case unwrap_response R (obj_or_empty v) of
                  Inl e \<Rightarrow> Inl e
                | Inr root \<Rightarrow> Inr (response_message R unm fresh opts root)))"

text \<open>The message as the client receives it.\<close>

definition nonempty_member :: "string \<Rightarrow> string \<Rightarrow> jobj" where
  "nonempty_member k s = (if s = [] then [] else [(k, JStr s)])"

definition block_json :: "content_block \<Rightarrow> json" where
  "block_json b = (case b of
       TextContent s \<Rightarrow> JObj ((''type'', JStr ''text'') # nonempty_member ''text'' s)
     | ThinkingContent s sig \<Rightarrow>
         JObj ([(''type'', JStr ''thinking''), (''thinking'', JStr s)] @ nonempty_member ''signature'' sig)
     | ToolUseContent i n v \<Rightarrow>
         JObj ((''type'', JStr ''tool_use'') # nonempty_member ''id'' i @ nonempty_member ''name'' n @ [(''input'', v)]))"

definition message_body :: "message_response \<Rightarrow> jobj" where
  "message_body m = [(''id'', JStr (mrID m)), (''type'', JStr ''message''), (''role'', JStr ''assistant''),
     (''model'', JStr (mrModel m)), (''content'', JArr (map block_json (mrContent m))),
     (''stop_reason'', JStr (mrStopReason m)), (''stop_sequence'', JNull),
     (''usage'', JObj [(''input_tokens'', JNum (fst (mrUsage m))), (''output_tokens'', JNum (snd (mrUsage m)))])]"

end
