(* ===== verification/Anthropic_Request_Props.thy ===== *)
theory Anthropic_Request_Props
  imports Anthropic_Request Anthropic_Response
begin

text \<open>
  What a translated request says, and what it may ask for.  A conversation is read as a list of turns, from
  the messages of the client and from the input items the upstream receives.
\<close>

datatype turn =
    Says string string
  | Shows string string
  | Calls string string string
  | Answers string string
  | Thinks string

section \<open>Reading\<close>

definition part_turn :: "string \<Rightarrow> json \<Rightarrow> turn list" where
  "part_turn role p = (case p of
       JObj m \<Rightarrow>
         (if jstr m ''type'' = ''input_image'' then [Shows role (jstr m ''image_url'')]
          else [Says role (jstr m ''text'')])
     | _ \<Rightarrow> [])"

definition item_turns :: "json \<Rightarrow> turn list" where
  "item_turns it = (case it of
       JObj m \<Rightarrow>
         (let ty = jstr m ''type'' in
          if ty = ''message''
          then (case jarr_of m ''content'' of None \<Rightarrow> [] | Some ps \<Rightarrow> concat (map (part_turn (jstr m ''role'')) ps))
          else if ty = ''function_call'' then [Calls (jstr m ''call_id'') (jstr m ''name'') (jstr m ''arguments'')]
          else if ty = ''function_call_output'' then [Answers (jstr m ''call_id'') (jstr m ''output'')]
          else if ty = ''reasoning'' \<and> jstr m ''encrypted_content'' \<noteq> [] then [Thinks (jstr m ''encrypted_content'')]
          else [])
     | _ \<Rightarrow> [])"

definition items_turns :: "json list \<Rightarrow> turn list" where
  "items_turns its = concat (map item_turns its)"

text \<open>What a block of a message says by itself.\<close>

definition result_text :: "(json \<Rightarrow> string) \<Rightarrow> jobj \<Rightarrow> string" where
  "result_text R bl =
     (let s = tool_result_output R (jget bl ''content'') in
      if raw_field R bl ''is_error'' = ''true'' then R (JObj [(''content'', JStr s), (''is_error'', JBool True)]) else s)"

definition block_turns :: "(json \<Rightarrow> string) \<Rightarrow> string \<Rightarrow> jobj \<Rightarrow> turn list" where
  "block_turns R role bl =
     (let ty = raw_field R bl ''type''; signature = raw_field R bl ''signature''; i = raw_field R bl ''tool_use_id'' in
      if ty \<in> set [''text'', []] then [Says role (raw_field R bl ''text'')]
      else if ty = ''image'' then (if image_url bl = [] then [] else [Shows role (image_url bl)])
      else if ty = ''tool_use'' then [Calls (raw_field R bl ''id'') (raw_field R bl ''name'')
        (case raw_value bl ''input'' of None \<Rightarrow> ''{}'' | Some v \<Rightarrow> R v)]
      else if ty = ''tool_result'' then [Answers (if i = [] then raw_field R bl ''id'' else i) (result_text R bl)]
      else if ty = ''thinking'' \<and> signature \<noteq> [] then [Thinks signature]
      else [])"

definition message_turns :: "(json \<Rightarrow> string) \<Rightarrow> anthropic_msg \<Rightarrow> turn list" where
  "message_turns R m = (case amContent m of
       None \<Rightarrow> [Says (role_of m) []]
     | Some JNull \<Rightarrow> [Says (role_of m) []]
     | Some (JStr s) \<Rightarrow> [Says (role_of m) s]
     | Some v \<Rightarrow> (case decode_items v of
                   Some bls \<Rightarrow> concat (map (block_turns R (role_of m)) bls)
                 | None \<Rightarrow> [Says (role_of m) (R v)]))"

section \<open>The conversation is kept\<close>

lemma jget_member_cons [simp]: "jget ((j, v) # m) k = (if j = k then Some v else jget m k)"
  by (auto simp: jget_def)

lemma jstr_Cons [simp]:
  "jstr ((j, v) # m) k = (if j = k then (case v of JStr s \<Rightarrow> s | _ \<Rightarrow> []) else jstr m k)"
  by (simp add: jstr_def)

lemma jarr_Cons [simp]:
  "jarr_of ((j, v) # m) k = (if j = k then (case v of JArr xs \<Rightarrow> Some xs | _ \<Rightarrow> None) else jarr_of m k)"
  by (simp add: jarr_of_def)

lemma jnil [simp]: "jstr [] k = []" "jarr_of [] k = None"
  by (simp_all add: jstr_def jarr_of_def)

lemma items_turns_simps [simp]:
  "items_turns [] = []" "items_turns (it # its) = item_turns it @ items_turns its"
  "items_turns (xs @ ys) = items_turns xs @ items_turns ys"
  by (simp_all add: items_turns_def)

lemma turns_of_message [simp]: "item_turns (message_of role ps) = concat (map (part_turn role) ps)"
  by (simp add: item_turns_def message_of_def)

lemma turns_of_flush [simp]: "items_turns (flush_text role ps) = concat (map (part_turn role) ps)"
  by (simp add: flush_text_def)

lemma turns_of_text [simp]: "part_turn role (text_part_of r s) = [Says role s]"
  by (simp add: part_turn_def text_part_of_def)

lemma turns_of_items [simp]:
  "item_turns (tool_use_item R bl) = [Calls (raw_field R bl ''id'') (raw_field R bl ''name'')
     (case raw_value bl ''input'' of None \<Rightarrow> ''{}'' | Some v \<Rightarrow> R v)]"
  "s \<noteq> [] \<Longrightarrow> item_turns (reasoning_item s) = [Thinks s]"
  "item_turns (tool_result_item R bl) =
     [Answers (if raw_field R bl ''tool_use_id'' = [] then raw_field R bl ''id'' else raw_field R bl ''tool_use_id'')
        (result_text R bl)]"
  by (simp_all add: item_turns_def tool_use_item_def reasoning_item_def tool_result_item_def result_text_def Let_def)

lemma turns_of_image [simp]:
  "part_turn role (JObj [(''type'', JStr ''input_image''), (''image_url'', JStr u)]) = [Shows role u]"
  by (simp add: part_turn_def)

text \<open>The blocks a part is made of, those that end the parts, and those that are dropped.\<close>

lemma block_turns_cases:
  obtains (part) p where "\<And>ps bls. convert_blocks R role ps (bl # bls) = convert_blocks R role (ps @ [p]) bls"
      "block_turns R role bl = part_turn role p"
  | (item) it where "\<And>ps bls. convert_blocks R role ps (bl # bls) =
      flush_text role ps @ it # convert_blocks R role [] bls" "block_turns R role bl = item_turns it"
  | (dropped) "\<And>ps bls. convert_blocks R role ps (bl # bls) = convert_blocks R role ps bls"
      "block_turns R role bl = []"
proof -
  let ?ty = "raw_field R bl ''type''"
  consider "?ty \<in> set [''text'', []]" | "?ty = ''image'' \<and> image_url bl = []"
    | "?ty = ''image'' \<and> image_url bl \<noteq> []" | "?ty = ''tool_use''" | "?ty = ''tool_result''"
    | "?ty = ''thinking'' \<and> raw_field R bl ''signature'' \<noteq> []"
    | "?ty \<notin> set [''text'', [], ''image'', ''tool_use'', ''tool_result''] \<and>
       \<not> (?ty = ''thinking'' \<and> raw_field R bl ''signature'' \<noteq> [])" by auto
  then show ?thesis
  proof cases
    case 1
    show ?thesis by (rule part [of "text_part_of role (raw_field R bl ''text'')"]) (use 1 in \<open>auto simp: block_turns_def\<close>)
  next
    case 2
    show ?thesis by (rule dropped) (use 2 in \<open>auto simp: block_turns_def\<close>)
  next
    case 3
    show ?thesis
      by (rule part [of "JObj [(''type'', JStr ''input_image''), (''image_url'', JStr (image_url bl))]"])
        (use 3 in \<open>auto simp: block_turns_def\<close>)
  next
    case 4
    show ?thesis by (rule item [of "tool_use_item R bl"]) (use 4 in \<open>auto simp: block_turns_def\<close>)
  next
    case 5
    show ?thesis by (rule item [of "tool_result_item R bl"]) (use 5 in \<open>auto simp: block_turns_def\<close>)
  next
    case 6
    show ?thesis by (rule item [of "reasoning_item (raw_field R bl ''signature'')"])
        (use 6 in \<open>auto simp: block_turns_def\<close>)
  next
    case 7
    show ?thesis by (rule dropped) (use 7 in \<open>auto simp: block_turns_def\<close>)
  qed
qed

lemma convert_blocks_turns:
  "items_turns (convert_blocks R role ps bls) =
   concat (map (part_turn role) ps) @ concat (map (block_turns R role) bls)"
proof (induction bls arbitrary: ps)
  case (Cons bl bls)
  show ?case
    by (rule block_turns_cases [of R role bl]) (simp_all add: Cons del: convert_blocks.simps)
qed simp

lemma convert_message_turns: "items_turns (convert_message R m) = message_turns R m"
  by (simp add: convert_message_def message_turns_def Let_def convert_blocks_turns
      split: option.splits json.splits)

lemma converted_turns:
  "items_turns (concat (map (convert_message R) ms)) = concat (map (message_turns R) ms)"
  by (induction ms) (simp_all add: convert_message_turns)

text \<open>The input of a body.\<close>

definition body_input :: "jobj \<Rightarrow> json list" where
  "body_input body = (case jarr_of body ''input'' of None \<Rightarrow> [] | Some its \<Rightarrow> its)"

lemma jget_append: "jget (xs @ ys) k = (case jget xs k of None \<Rightarrow> jget ys k | Some v \<Rightarrow> Some v)"
  by (simp add: jget_def map_add_def split: option.splits)

lemma jget_member [simp]: "jget (opt_member j v) k = (if j = k then v else None)"
  by (simp add: opt_member_def split: option.splits)

lemma body_members:
  "jget (build_request R opts model rq rsn format) ''model'' = Some (JStr model)"
  "jget (build_request R opts model rq rsn format) ''input'' = Some (JArr (concat (map (convert_message R) (mqMessages rq))))"
  "jget (build_request R opts model rq rsn format) ''reasoning'' = map_option reasoning_json rsn"
  "jget (build_request R opts model rq rsn format) ''include'' =
     (if brEnabled (thinking_bridge_from_raw (mqThinking rq))
      then Some (JArr [JStr ''reasoning.encrypted_content'']) else None)"
  "jget (build_request R opts model rq rsn format) ''stream'' = Some (JBool (mqStream rq))"
  "jget (build_request R opts model rq rsn format) ''max_output_tokens'' =
     (if mqMaxTokens rq > 0 then Some (JNum (mqMaxTokens rq)) else None)"
  by (simp_all add: build_request_def Let_def jget_append split: option.splits)

lemma translate_request_cases:
  assumes "translate_request R unm raw opts = Inr (body, original, strm)"
  obtains rq rsn format where
    "Option.bind (unm raw) (struct_value request_of) = Some rq"
    "original = trim_space (mqModel rq)" "strm = mqStream rq"
    "translate_thinking_config (mqThinking rq) (mqOutputConfig rq)
       (if trim_space (roModel opts) = [] then original else trim_space (roModel opts)) (roStrip opts)
       (mqMaxTokens rq) (mqTools rq \<noteq> []) = Inr rsn"
    "translate_output_format (mqOutputConfig rq) = Inr format"
    "body = build_request R opts (if trim_space (roModel opts) = [] then original else trim_space (roModel opts))
       rq rsn format"
  using assms by (auto simp: translate_request_def Let_def split: option.splits sum.splits if_splits)

text \<open>
  C19: whatever the messages hold, the input of a translated request says exactly what they say, in their order.
\<close>

theorem conversation_preserved:
  assumes "translate_request R unm raw opts = Inr (body, original, strm)"
  shows "\<exists>rq. Option.bind (unm raw) (struct_value request_of) = Some rq \<and>
    items_turns (body_input body) = concat (map (message_turns R) (mqMessages rq))"
proof -
  obtain rq rsn format where rq: "Option.bind (unm raw) (struct_value request_of) = Some rq"
    and body: "body = build_request R opts (if trim_space (roModel opts) = [] then original
      else trim_space (roModel opts)) rq rsn format"
    using assms by (rule translate_request_cases)
  have "body_input body = concat (map (convert_message R) (mqMessages rq))"
    unfolding body body_input_def jarr_of_def body_members by simp
  then show ?thesis using rq by (simp add: converted_turns)
qed

section \<open>What is asked of the model\<close>

definition effort_rank :: "string \<Rightarrow> nat" where
  "effort_rank e = (case find_index (\<lambda>w. w = e) [''none'', ''low'', ''medium'', ''high'', ''xhigh''] of
     None \<Rightarrow> 5 | Some n \<Rightarrow> n)"

definition model_takes :: "string \<Rightarrow> string \<Rightarrow> bool" where
  "model_takes model effort \<longleftrightarrow> \<not> is_non_reasoning_model model \<and> effort_rank effort < 5 \<and>
     (effort = ''xhigh'' \<longrightarrow> contains_str (to_lower model) ''multi-agent'') \<and>
     (effort = ''none'' \<longrightarrow> supports_disabled_reasoning model)"

lemma model_takes_words:
  "\<not> is_non_reasoning_model model \<Longrightarrow> effort \<in> set [''low'', ''medium'', ''high''] \<Longrightarrow> model_takes model effort"
  by (auto simp: model_takes_def effort_rank_def)

lemma budget_word: "effort_from_thinking_budget b \<in> set [''low'', ''medium'', ''high'']"
  by (simp add: effort_from_thinking_budget_def)

lemma normalized_word: "normalize_anthropic_effort e = Inr w \<Longrightarrow> w \<in> set [''low'', ''medium'', ''high'', ''xhigh'']"
  by (auto simp: normalize_anthropic_effort_def Let_def split: if_splits)

lemma grok_effort_taken:
  assumes "w \<in> set [''low'', ''medium'', ''high'', ''xhigh'']" "\<not> is_non_reasoning_model model"
  shows "model_takes model (grok_reasoning_effort model w)" "grok_reasoning_effort model w \<noteq> ''none''"
  using assms by (auto simp: grok_reasoning_effort_def model_takes_def effort_rank_def)

lemma none_taken:
  assumes "supports_disabled_reasoning model" "\<not> is_non_reasoning_model model"
  shows "model_takes model (grok_reasoning_effort model ''none'')"
  using assms by (simp add: grok_reasoning_effort_def model_takes_def effort_rank_def)

text \<open>The thinking type as it was parsed decides what is bridged.\<close>

lemma bridge_of_parsed:
  assumes "parse_thinking_config raw strip = Inr c"
  shows "brEnabled (thinking_bridge_from_raw raw) \<longleftrightarrow> tcType c \<in> set [''adaptive'', ''enabled'']"
    "brEnabled (thinking_bridge_from_raw raw) \<Longrightarrow>
     brDisplay (thinking_bridge_from_raw raw) = ''summarized'' \<longleftrightarrow> tcDisplay c \<noteq> ''omitted''"
  using assms unfolding parse_thinking_config_def thinking_bridge_from_raw_def Let_def
  by (auto split: if_splits option.splits)

lemma resolved_effort:
  assumes "resolve_thinking_effort c effort model max_tokens has_tools = Inr w"
    and "effort \<in> set [[], ''low'', ''medium'', ''high'', ''xhigh'']"
  shows "w \<in> set [[], ''low'', ''medium'', ''high'', ''xhigh''] \<or>
      w = ''none'' \<and> supports_disabled_reasoning model \<and> tcType c = ''disabled''"
    "tcType c \<in> set [''adaptive'', ''enabled''] \<Longrightarrow> w \<noteq> [] \<and> w \<noteq> ''none''"
    "tcType c = ''enabled'' \<Longrightarrow>
      \<exists>b. tcBudget c = Some b \<and> 1024 \<le> b \<and> (max_tokens > 0 \<and> \<not> has_tools \<longrightarrow> b < max_tokens)"
  using assms
  unfolding resolve_thinking_effort_def disabled_reasoning_effort_def effort_from_thinking_budget_def
  by (auto split: if_splits option.splits)

lemma translated_thinking:
  assumes "translate_thinking_config traw oraw model strip max_tokens has_tools = Inr rsn"
  obtains c w where "parse_thinking_config traw strip = Inr c"
    and "w \<in> set [[], ''low'', ''medium'', ''high'', ''xhigh''] \<or>
      w = ''none'' \<and> supports_disabled_reasoning model \<and> tcType c = ''disabled''"
    and "tcType c \<in> set [''adaptive'', ''enabled''] \<Longrightarrow> w \<noteq> [] \<and> w \<noteq> ''none''"
    and "tcType c = ''enabled'' \<Longrightarrow>
      \<exists>b. tcBudget c = Some b \<and> 1024 \<le> b \<and> (max_tokens > 0 \<and> \<not> has_tools \<longrightarrow> b < max_tokens)"
    and "rsn = (if w = [] then None else Some \<lparr> rnEffort = grok_reasoning_effort model w,
      rnSummary = (if tcType c \<in> set [''adaptive'', ''enabled''] \<and> tcDisplay c \<noteq> ''omitted'' then ''auto'' else []) \<rparr>)"
    and "w \<noteq> [] \<Longrightarrow> \<not> is_non_reasoning_model model"
proof -
  obtain c where parts: "parse_thinking_config traw strip = Inr c"
    using assms unfolding translate_thinking_config_def by (cases "parse_thinking_config traw strip") auto
  obtain oc where oc: "parse_output_config oraw strip = Inr oc"
    using assms parts unfolding translate_thinking_config_def by (cases "parse_output_config oraw strip") auto
  obtain requested where
    req: "(if ocEffort oc = [] then Inr [] else normalize_anthropic_effort (ocEffort oc)) = Inr requested"
    using assms parts oc unfolding translate_thinking_config_def
    by (cases "if ocEffort oc = [] then Inr [] else normalize_anthropic_effort (ocEffort oc)") auto
  obtain w where w: "resolve_thinking_effort c requested model max_tokens has_tools = Inr w"
    using assms parts oc req unfolding translate_thinking_config_def
    by (cases "resolve_thinking_effort c requested model max_tokens has_tools") auto
  have rsn: "(if w = [] then Inr None
      else if is_non_reasoning_model model then Inl (NoReasoningModel model)
      else Inr (Some \<lparr> rnEffort = grok_reasoning_effort model w,
        rnSummary = (if tcType c \<in> set [''adaptive'', ''enabled''] \<and> tcDisplay c \<noteq> ''omitted''
          then ''auto'' else []) \<rparr>)) = Inr rsn"
    using assms parts oc req w unfolding translate_thinking_config_def by simp
  have "requested \<in> set [[], ''low'', ''medium'', ''high'', ''xhigh'']"
    using req normalized_word by (auto split: if_splits)
  note facts = resolved_effort [OF w this]
  show ?thesis
    by (rule that [OF parts facts]) (use rsn in \<open>auto split: if_splits\<close>)
qed

text \<open>
  C21: a translated request asks the model for an effort that this model takes, and asks it for reasoning, its
  summary and its encrypted content just when the reasoning of the answer is going to be bridged; a thinking
  budget is at least 1024 tokens and, without tools, below the limit of the answer.
\<close>

theorem asks_for_what_is_bridged:
  assumes "translate_request R unm raw opts = Inr (body, original, strm)"
  shows "\<exists>rq b. Option.bind (unm raw) (struct_value request_of) = Some rq \<and>
    b = thinking_bridge_from_raw (mqThinking rq) \<and>
    (brEnabled b \<longleftrightarrow> jget body ''include'' = Some (JArr [JStr ''reasoning.encrypted_content''])) \<and>
    (brEnabled b \<longrightarrow> jget body ''reasoning'' \<noteq> None) \<and>
    (\<forall>r. jget body ''reasoning'' = Some r \<longrightarrow> (\<exists>e s. r = reasoning_json \<lparr> rnEffort = e, rnSummary = s \<rparr> \<and>
       model_takes (jstr body ''model'') e \<and> (e = ''none'' \<longrightarrow> \<not> brEnabled b) \<and>
       (s = ''auto'' \<longleftrightarrow> brEnabled b \<and> brDisplay b = ''summarized''))) \<and>
    (\<forall>c. parse_thinking_config (mqThinking rq) (roStrip opts) = Inr c \<and> tcType c = ''enabled'' \<longrightarrow>
       (\<exists>n. tcBudget c = Some n \<and> 1024 \<le> n \<and> (mqTools rq = [] \<and> mqMaxTokens rq > 0 \<longrightarrow> n < mqMaxTokens rq)))"
proof -
  define model where "model = (if trim_space (roModel opts) = [] then original else trim_space (roModel opts))"
  obtain rq rsn format where rq: "Option.bind (unm raw) (struct_value request_of) = Some rq"
    and rsn: "translate_thinking_config (mqThinking rq) (mqOutputConfig rq) model (roStrip opts)
       (mqMaxTokens rq) (mqTools rq \<noteq> []) = Inr rsn"
    and body: "body = build_request R opts model rq rsn format"
    using assms unfolding model_def by (rule translate_request_cases)
  obtain c w where c: "parse_thinking_config (mqThinking rq) (roStrip opts) = Inr c"
    and w: "w \<in> set [[], ''low'', ''medium'', ''high'', ''xhigh''] \<or>
      w = ''none'' \<and> supports_disabled_reasoning model \<and> tcType c = ''disabled''"
    and on: "tcType c \<in> set [''adaptive'', ''enabled''] \<Longrightarrow> w \<noteq> [] \<and> w \<noteq> ''none''"
    and budget: "tcType c = ''enabled'' \<Longrightarrow> \<exists>b. tcBudget c = Some b \<and> 1024 \<le> b \<and>
      (mqMaxTokens rq > 0 \<and> \<not> mqTools rq \<noteq> [] \<longrightarrow> b < mqMaxTokens rq)"
    and asked: "rsn = (if w = [] then None else Some \<lparr> rnEffort = grok_reasoning_effort model w,
      rnSummary = (if tcType c \<in> set [''adaptive'', ''enabled''] \<and> tcDisplay c \<noteq> ''omitted'' then ''auto'' else []) \<rparr>)"
    and able: "w \<noteq> [] \<Longrightarrow> \<not> is_non_reasoning_model model"
    using translated_thinking [OF rsn] by blast
  let ?b = "thinking_bridge_from_raw (mqThinking rq)"
  note bridged = bridge_of_parsed [OF c]
  have summary: "(tcType c \<in> set [''adaptive'', ''enabled''] \<and> tcDisplay c \<noteq> ''omitted'') =
      (brEnabled ?b \<and> brDisplay ?b = ''summarized'')"
    using bridged by blast
  have taken: "model_takes model (grok_reasoning_effort model w)"
    "grok_reasoning_effort model w = ''none'' \<longrightarrow> \<not> brEnabled ?b" if "w \<noteq> []"
  proof -
    have "w \<in> set [''low'', ''medium'', ''high'', ''xhigh''] \<or>
        w = ''none'' \<and> supports_disabled_reasoning model \<and> tcType c = ''disabled''"
      using w that by simp
    then show "model_takes model (grok_reasoning_effort model w)"
      "grok_reasoning_effort model w = ''none'' \<longrightarrow> \<not> brEnabled ?b"
      using grok_effort_taken [OF _ able [OF that]] none_taken [OF _ able [OF that]] on bridged(1) by blast+
  qed
  have "jget body ''include'' = (if brEnabled ?b then Some (JArr [JStr ''reasoning.encrypted_content'']) else None)"
    "jget body ''reasoning'' = map_option reasoning_json rsn" "jstr body ''model'' = model"
    by (simp_all add: body body_members jstr_def)
  note members = this
  have reasoning: "jget body ''reasoning'' \<noteq> None \<longleftrightarrow> w \<noteq> []"
    by (simp add: members asked)
  have "\<exists>e s. r = reasoning_json \<lparr> rnEffort = e, rnSummary = s \<rparr> \<and>
       model_takes (jstr body ''model'') e \<and> (e = ''none'' \<longrightarrow> \<not> brEnabled ?b) \<and>
       (s = ''auto'' \<longleftrightarrow> brEnabled ?b \<and> brDisplay ?b = ''summarized'')" if "jget body ''reasoning'' = Some r" for r
  proof -
    have "w \<noteq> []" using that reasoning by auto
    let ?s = "if brEnabled ?b \<and> brDisplay ?b = ''summarized'' then ''auto'' else []"
    have "r = reasoning_json \<lparr> rnEffort = grok_reasoning_effort model w, rnSummary = ?s \<rparr>"
      using that \<open>w \<noteq> []\<close> unfolding members asked summary by simp
    moreover have "?s = ''auto'' \<longleftrightarrow> brEnabled ?b \<and> brDisplay ?b = ''summarized''" by simp
    ultimately show ?thesis
      using taken [OF \<open>w \<noteq> []\<close>] unfolding members(3) by (intro exI conjI)
  qed
  moreover have "brEnabled ?b \<longleftrightarrow> jget body ''include'' = Some (JArr [JStr ''reasoning.encrypted_content''])"
    by (simp add: members)
  moreover have "brEnabled ?b \<longrightarrow> jget body ''reasoning'' \<noteq> None"
    using on bridged(1) reasoning by blast
  moreover have "\<forall>c'. parse_thinking_config (mqThinking rq) (roStrip opts) = Inr c' \<and> tcType c' = ''enabled'' \<longrightarrow>
       (\<exists>n. tcBudget c' = Some n \<and> 1024 \<le> n \<and> (mqTools rq = [] \<and> mqMaxTokens rq > 0 \<longrightarrow> n < mqMaxTokens rq))"
    using c budget by auto
  ultimately show ?thesis using rq by blast
qed

end
