(* ===== verification/Anthropic_Replay.thy ===== *)
theory Anthropic_Replay
  imports Anthropic_Request_Props
begin

text \<open>
  The output of the upstream, sent to the client as an Anthropic message, comes back in the next request as an
  assistant message: the upstream reads its own turns again.
\<close>

section \<open>Output the upstream writes\<close>

definition proper_text :: "json \<Rightarrow> bool" where
  "proper_text p = (case p of
       JObj m \<Rightarrow> jget m ''type'' = Some (JStr ''output_text'') \<and>
         (case jget m ''text'' of Some (JStr s) \<Rightarrow> s \<noteq> [] | _ \<Rightarrow> False)
     | _ \<Rightarrow> False)"

text \<open>The arguments of a call are the text of an object.\<close>

definition proper_args :: "(json \<Rightarrow> string) \<Rightarrow> (string \<Rightarrow> json option) \<Rightarrow> string \<Rightarrow> bool" where
  "proper_args R unm s = (case unm s of
       Some (JObj m) \<Rightarrow> R (JObj m) = s \<and> has_prefix (trim_space s) ''{'' | _ \<Rightarrow> False)"

definition proper_output :: "(json \<Rightarrow> string) \<Rightarrow> (string \<Rightarrow> json option) \<Rightarrow> jobj \<Rightarrow> bool" where
  "proper_output R unm item = (case jget item ''type'' of
       Some (JStr ty) \<Rightarrow>
         (if ty = ''message'' then jget item ''role'' = Some (JStr ''assistant'') \<and>
            (case jget item ''content'' of Some (JArr ps) \<Rightarrow> list_all proper_text ps | _ \<Rightarrow> False)
          else if ty = ''function_call'' then
            (case jget item ''call_id'' of Some (JStr i) \<Rightarrow> i \<noteq> [] | _ \<Rightarrow> False) \<and> str_or_absent item ''name'' \<and>
            (case jget item ''arguments'' of Some (JStr s) \<Rightarrow> s \<noteq> [] \<and> proper_args R unm s | _ \<Rightarrow> False)
          else if ty = ''reasoning'' then str_or_absent item ''encrypted_content''
          else ty \<noteq> ''function_call_output'')
     | _ \<Rightarrow> False)"

definition echoed :: "message_response \<Rightarrow> anthropic_msg" where
  "echoed msg = \<lparr> amRole = ''assistant'', amContent = jget (message_body msg) ''content'' \<rparr>"

section \<open>Blocks\<close>

definition block_obj :: "content_block \<Rightarrow> jobj" where
  "block_obj b = obj_or_empty (block_json b)"

lemma block_json_obj: "block_json b = JObj (block_obj b)"
  by (cases b) (simp_all add: block_json_def block_obj_def obj_or_empty_def)

lemma decode_blocks: "decode_items (JArr (map block_json bs)) = Some (map block_obj bs)"
  by (simp add: decode_items_def block_json_obj list_all_iff is_obj_or_null_def obj_or_empty_def comp_def)

lemma jget_nonempty [simp]: "jget (nonempty_member j s) k = (if j = k \<and> s \<noteq> [] then Some (JStr s) else None)"
  by (simp add: nonempty_member_def)

lemma raw_field_simps [simp]:
  "raw_field R ((j, v) # m) k = (if j = k then raw_string R (Some v) else raw_field R m k)"
  "raw_field R [] k = []"
  "raw_field R (nonempty_member j s @ m) k = (if j = k \<and> s \<noteq> [] then s else raw_field R m k)"
  "raw_field R (nonempty_member j s) k = (if j = k then s else [])"
  by (auto simp: raw_field_def raw_string_def jget_append)

lemma text_turns: "block_turns R role (block_obj (TextContent s)) = [Says role s]"
  by (simp add: block_turns_def block_obj_def block_json_def obj_or_empty_def raw_string_def)

lemma thinking_turns:
  "block_turns R role (block_obj (ThinkingContent s sig)) = (if sig = [] then [] else [Thinks sig])"
  by (simp add: block_turns_def block_obj_def block_json_def obj_or_empty_def raw_string_def)

lemma tool_use_turns:
  "v \<noteq> JNull \<Longrightarrow> block_turns R role (block_obj (ToolUseContent i n v)) = [Calls i n (R v)]"
  by (cases "n = []"; cases "i = []")
    (auto simp: block_turns_def block_obj_def block_json_def obj_or_empty_def raw_string_def raw_value_def jget_append
      split: json.splits)

definition blocks_turns :: "(json \<Rightarrow> string) \<Rightarrow> content_block list \<Rightarrow> turn list" where
  "blocks_turns R bs = concat (map (\<lambda>b. block_turns R ''assistant'' (block_obj b)) bs)"

lemma blocks_turns_simps [simp]:
  "blocks_turns R [] = []" "blocks_turns R (xs @ ys) = blocks_turns R xs @ blocks_turns R ys"
  by (simp_all add: blocks_turns_def)

lemma echoed_turns: "message_turns R (echoed msg) = blocks_turns R (mrContent msg)"
proof -
  have content: "amContent (echoed msg) = Some (JArr (map block_json (mrContent msg)))"
    and role: "role_of (echoed msg) = ''assistant''"
    by (simp_all add: echoed_def message_body_def role_of_def) (simp add: to_lower_def lower_char_def lower_table_def
        trim_space_def trim_left_def trim_right_def is_space_def)
  then show ?thesis
    by (simp add: message_turns_def blocks_turns_def decode_blocks [unfolded decode_items_def, simplified]
        decode_blocks comp_def)
qed

section \<open>Items\<close>

lemma jstr_jget: "jget m k = Some (JStr s) \<Longrightarrow> jstr m k = s"
  by (simp add: jstr_def)

lemma raw_jget: "jget m k = Some (JStr s) \<Longrightarrow> raw_field R m k = s"
  by (simp add: raw_field_def raw_string_def)

lemma raw_str_or_absent: "str_or_absent m k \<Longrightarrow> raw_field R m k = jstr m k"
  by (auto simp: str_or_absent_def raw_field_def raw_string_def jstr_def split: option.splits json.splits)

lemma proper_textE:
  assumes "proper_text p"
  obtains m s where "p = JObj m" "jget m ''type'' = Some (JStr ''output_text'')" "jget m ''text'' = Some (JStr s)" "s \<noteq> []"
proof -
  obtain m v where "p = JObj m" "jget m ''type'' = Some (JStr ''output_text'')" "jget m ''text'' = Some v"
    "case v of JStr s \<Rightarrow> s \<noteq> [] | _ \<Rightarrow> False"
    using assms by (cases p) (auto simp: proper_text_def split: option.splits)
  then show ?thesis by (cases v) (auto intro: that)
qed

lemma proper_parts:
  assumes "list_all proper_text ps"
  shows "map (Says role) (extract_message_texts R (Some (JArr ps))) = concat (map (part_turn role) ps)"
proof -
  have objs: "list_all is_obj_or_null ps"
    using assms by (fastforce simp: list_all_iff is_obj_or_null_def elim: proper_textE)
  have "map (Says role) (filter (\<lambda>s. s \<noteq> []) (map (text_part R) (map obj_or_empty ps))) =
      concat (map (part_turn role) ps)"
    using assms
  proof (induction ps)
    case (Cons p ps)
    obtain m s where "p = JObj m" "jget m ''type'' = Some (JStr ''output_text'')" "jget m ''text'' = Some (JStr s)" "s \<noteq> []"
      using Cons.prems by (auto elim: proper_textE)
    then show ?case using Cons by (simp add: text_part_def obj_or_empty_def part_turn_def raw_jget jstr_jget)
  qed simp
  then show ?thesis using objs by (simp add: extract_message_texts_def decode_items_def)
qed

lemma texts_turns: "blocks_turns R (map TextContent ss) = map (Says ''assistant'') ss"
  by (induction ss) (simp_all add: blocks_turns_def text_turns)

lemma proper_kinds:
  assumes "proper_output R unm item"
  obtains (message) ps where "jget item ''type'' = Some (JStr ''message'')" "jget item ''role'' = Some (JStr ''assistant'')"
      "jget item ''content'' = Some (JArr ps)" "list_all proper_text ps"
  | (call) i s m where "jget item ''type'' = Some (JStr ''function_call'')" "jget item ''call_id'' = Some (JStr i)"
      "i \<noteq> []" "str_or_absent item ''name''" "jget item ''arguments'' = Some (JStr s)" "s \<noteq> []"
      "unm s = Some (JObj m)" "R (JObj m) = s" "has_prefix (trim_space s) ''{''"
  | (reasoning) "jget item ''type'' = Some (JStr ''reasoning'')" "str_or_absent item ''encrypted_content''"
  | (other) ty where "jget item ''type'' = Some (JStr ty)"
      "ty \<notin> set [''message'', ''function_call'', ''reasoning'', ''function_call_output'']"
proof -
  obtain ty where ty: "jget item ''type'' = Some (JStr ty)"
    using assms by (auto simp: proper_output_def split: option.splits json.splits)
  note facts = assms [unfolded proper_output_def, simplified ty option.case json.case]
  consider "ty = ''message''" | "ty = ''function_call''" | "ty = ''reasoning''"
    | "ty \<notin> set [''message'', ''function_call'', ''reasoning'']" by auto
  then show ?thesis
  proof cases
    case 1
    then show ?thesis using facts ty by (auto split: option.splits json.splits intro: message)
  next
    case 2
    then show ?thesis
      using facts ty by (auto simp: proper_args_def split: option.splits json.splits intro: call)
  next
    case 3
    then show ?thesis using facts ty by (auto intro: reasoning)
  next
    case 4
    then show ?thesis using facts ty by (auto intro: other)
  qed
qed

lemma item_replayed:
  assumes "proper_output R unm item" "brEnabled b"
  shows "blocks_turns R (item_blocks R unm b item) = item_turns (JObj item)"
  using assms(1)
proof (cases rule: proper_kinds)
  case (message ps)
  then show ?thesis
    by (simp add: item_blocks_def item_turns_def raw_jget jstr_jget texts_turns proper_parts jarr_of_def)
next
  case (call i s m)
  then have "tool_use_block R unm item = ToolUseContent i (jstr item ''name'') (JObj m)"
    by (simp add: tool_use_block_def raw_jget raw_str_or_absent call_text_def call_input_def Let_def)
  then show ?thesis
    using call by (simp add: item_blocks_def item_turns_def raw_jget jstr_jget blocks_turns_def tool_use_turns)
next
  case reasoning
  then show ?thesis
    using assms(2)
    by (simp add: item_blocks_def item_turns_def raw_jget jstr_jget reasoning_block_def raw_str_or_absent
        blocks_turns_def thinking_turns Let_def)
next
  case (other ty)
  then show ?thesis by (simp add: item_blocks_def item_turns_def raw_jget jstr_jget)
qed

lemma items_replayed:
  assumes "\<forall>item\<in>set items. proper_output R unm item" "brEnabled b"
  shows "blocks_turns R (concat (map (item_blocks R unm b) items)) = items_turns (map JObj items)"
  using assms(1) by (induction items) (simp_all add: item_replayed assms(2))

text \<open>
  C20: an answer whose reasoning was bridged, sent back by the client between other messages, is translated to
  input items that say just what the output items of the upstream said: its texts, its calls with their
  identifiers and arguments, and its encrypted reasoning, in their order.
\<close>

theorem replayed_output:
  assumes "unm (trim_space raw) = Some v" and "unwrap_response R (obj_or_empty v) = Inr root"
    and "translate_response R unm fresh opts raw = Inr msg"
    and "brEnabled (tpThinking opts)"
    and "\<forall>item\<in>set (output_items root). proper_output R unm item"
    and "items_turns (map JObj (output_items root)) \<noteq> []"
  shows "items_turns (concat (map (convert_message R) (before @ [echoed msg] @ after))) =
    concat (map (message_turns R) before) @ items_turns (map JObj (output_items root)) @
    concat (map (message_turns R) after)"
proof -
  let ?content = "concat (map (item_blocks R unm (tpThinking opts)) (output_items root))"
  have said: "blocks_turns R ?content = items_turns (map JObj (output_items root))"
    using assms(5,4) by (rule items_replayed)
  then have "?content \<noteq> []" using assms(6) by (metis blocks_turns_simps(1))
  moreover have "msg = response_message R unm fresh opts root"
    using assms(1,2,3)
    by (auto simp: translate_response_def split: if_splits option.splits sum.splits)
  ultimately have "mrContent msg = ?content"
    by (auto simp: response_message_def Let_def)
  then have "items_turns (convert_message R (echoed msg)) = items_turns (map JObj (output_items root))"
    by (simp add: convert_message_turns echoed_turns said)
  then show ?thesis by (simp add: converted_turns)
qed

section \<open>An exchange\<close>

definition sample_output :: jobj where
  "sample_output = [(''id'', JStr ''resp_1''), (''output'', JArr
     [JObj [(''type'', JStr ''reasoning''), (''encrypted_content'', JStr ''e'')],
      JObj [(''type'', JStr ''message''), (''role'', JStr ''assistant''),
        (''content'', JArr [JObj [(''type'', JStr ''output_text''), (''text'', JStr ''hi'')]])],
      JObj [(''type'', JStr ''function_call''), (''call_id'', JStr ''c1''), (''name'', JStr ''f''),
        (''arguments'', JStr ''{}'')]])]"

definition sample_messages :: jobj where
  "sample_messages = [(''model'', JStr ''grok-4.5''), (''max_tokens'', JNum 9000),
     (''thinking'', JObj [(''type'', JStr ''enabled''), (''budget_tokens'', JNum 4000)]),
     (''messages'', JArr [JObj [(''role'', JStr ''user''), (''content'', JArr
        [JObj [(''type'', JStr ''text''), (''text'', JStr ''a'')],
         JObj [(''type'', JStr ''tool_result''), (''tool_use_id'', JStr ''c0''), (''content'', JStr ''b'')]])]])]"

definition sample_texts :: "string \<Rightarrow> json option" where
  "sample_texts s = (if s = ''{}'' then Some (JObj []) else if s = ''output'' then Some (JObj sample_output)
     else if s = ''messages'' then Some (JObj sample_messages) else None)"

definition sample_printed :: "json \<Rightarrow> string" where
  "sample_printed v = ''{}''"

definition sample_options :: req_options where
  "sample_options = \<lparr> roModel = [], roConvID = [], roStrip = False \<rparr>"

definition sample_bridged :: resp_options where
  "sample_bridged = \<lparr> tpRequestModel = ''m'', tpFallbackModel = [],
     tpThinking = \<lparr> brEnabled = True, brDisplay = ''summarized'' \<rparr> \<rparr>"

definition sample_body :: jobj where
  "sample_body = fst (projr (translate_request sample_printed sample_texts ''messages'' sample_options))"

definition sample_answer :: message_response where
  "sample_answer = projr (translate_response sample_printed sample_texts [] sample_bridged ''output'')"

lemma sample_request_ok:
  "translate_request sample_printed sample_texts ''messages'' sample_options = Inr (sample_body, ''grok-4.5'', False)"
  by code_simp

lemma sample_turns: "items_turns (body_input sample_body) = [Says ''user'' ''a'', Answers ''c0'' ''b'']"
  by code_simp

theorem conversation_preserved_witness:
  "\<exists>rq. Option.bind (sample_texts ''messages'') (struct_value request_of) = Some rq \<and>
     concat (map (message_turns sample_printed) (mqMessages rq)) = [Says ''user'' ''a'', Answers ''c0'' ''b'']"
  using conversation_preserved [OF sample_request_ok] sample_turns by metis

theorem asks_for_what_is_bridged_witness:
  "\<exists>rq. Option.bind (sample_texts ''messages'') (struct_value request_of) = Some rq \<and>
     (brEnabled (thinking_bridge_from_raw (mqThinking rq)) \<longrightarrow> jget sample_body ''reasoning'' \<noteq> None) \<and>
     jget sample_body ''reasoning'' = Some (reasoning_json \<lparr> rnEffort = ''medium'', rnSummary = ''auto'' \<rparr>)"
proof -
  have "jget sample_body ''reasoning'' = Some (reasoning_json \<lparr> rnEffort = ''medium'', rnSummary = ''auto'' \<rparr>)"
    by code_simp
  then show ?thesis using asks_for_what_is_bridged [OF sample_request_ok] by blast
qed

theorem replayed_output_witness:
  "items_turns (concat (map (convert_message sample_printed) ([] @ [echoed sample_answer] @ []))) =
     [Thinks ''e'', Says ''assistant'' ''hi'', Calls ''c1'' ''f'' ''{}'']"
proof -
  have "sample_texts (trim_space ''output'') = Some (JObj sample_output)"
    and "unwrap_response sample_printed (obj_or_empty (JObj sample_output)) = Inr sample_output"
    by code_simp+
  moreover have "translate_response sample_printed sample_texts [] sample_bridged ''output'' = Inr sample_answer"
    by code_simp
  moreover have "brEnabled (tpThinking sample_bridged)" by code_simp
  moreover have "list_all (proper_output sample_printed sample_texts) (output_items sample_output)" by code_simp
  then have "\<forall>item\<in>set (output_items sample_output). proper_output sample_printed sample_texts item"
    by (simp add: list_all_iff)
  moreover have turns: "items_turns (map JObj (output_items sample_output)) =
      [Thinks ''e'', Says ''assistant'' ''hi'', Calls ''c1'' ''f'' ''{}'']" by code_simp
  then have "items_turns (map JObj (output_items sample_output)) \<noteq> []" by simp
  ultimately show ?thesis
    using replayed_output [of sample_texts "''output''" "JObj sample_output" sample_printed sample_output "[]" sample_bridged sample_answer "[]" "[]"]
    unfolding turns by simp
qed

end
