(* ===== verification/Anthropic_Stream.thy ===== *)
theory Anthropic_Stream
  imports Raw_Json
begin

text \<open>
  The translation of a Responses event stream into an Anthropic event stream
  (\<open>internal/anthropic/stream.go\<close>, \<open>thinking_stream.go\<close>, and the end of a stream in
  \<open>handlers.go\<close>).  The translator is a record that every method takes and returns; \<open>tOut\<close> is what
  was written to the client, one value per event, and \<open>tRoom\<close> how many more writes the client
  will take (\<open>None\<close>: any number) before a write fails.  Methods return the error of the write, if
  any, in the way the code returns it.

  \<open>unm\<close> is \<open>json.Unmarshal\<close>, \<open>R\<close> the raw text of a value, \<open>stext\<close> \<open>http.StatusText\<close>.
\<close>

section \<open>Events and state\<close>

datatype block_kind = KText | KTool | KThinking

datatype delta = TextDelta string | InputJsonDelta string | ThinkingDelta string | SignatureDelta string

datatype block_content = TextBlock | ToolUse string string | ThinkingBlock

datatype sse =
    MessageStart string string int
  | BlockStart nat block_content
  | BlockDelta nat delta
  | BlockStop nat
  | MessageDelta string int int
  | MessageStop
  | ErrorEvent string string

record block =
  bIndex :: nat
  bKind :: block_kind
  bCallID :: string
  bName :: string
  bEmitted :: bool
  bStopped :: bool

record translator =
  tMsgID :: string
  tModel :: string
  tRequestModel :: string
  tHasToolUse :: bool
  tStarted :: bool
  tFinished :: bool
  tFailed :: bool
  tUsageIn :: int
  tUsageOut :: int
  tThinkEnabled :: bool
  tThinkDisplay :: string
  tBlocks :: "(string \<times> block) list"
  tNextIndex :: nat
  tThinking :: "block option"
  tSignature :: string
  tStopPending :: bool
  tReasonKey :: string
  tCompleted :: "string set"
  tFreshID :: string
  tOut :: "sse list"
  tRoom :: "nat option"

type_synonym act = "translator \<Rightarrow> translator \<times> goerr option"

definition new_translator ::
  "string \<Rightarrow> bool \<Rightarrow> string \<Rightarrow> string \<Rightarrow> nat option \<Rightarrow> translator" where
  "new_translator model think display fresh room = \<lparr>
     tMsgID = [], tModel = model, tRequestModel = model, tHasToolUse = False, tStarted = False,
     tFinished = False, tFailed = False, tUsageIn = 0, tUsageOut = 0, tThinkEnabled = think,
     tThinkDisplay = display, tBlocks = [], tNextIndex = 0, tThinking = None, tSignature = [],
     tStopPending = False, tReasonKey = [], tCompleted = {}, tFreshID = fresh, tOut = [],
     tRoom = room \<rparr>"

text \<open>\<open>if err := m(); err != nil { return err }\<close>\<close>

definition and_then :: "act \<Rightarrow> act \<Rightarrow> act" where
  "and_then m k t = (case m t of (t', Some e) \<Rightarrow> (t', Some e) | (t', None) \<Rightarrow> k t')"

definition ret :: act where
  "ret t = (t, None)"

definition set_state :: "(translator \<Rightarrow> translator) \<Rightarrow> act" where
  "set_state f t = (f t, None)"

definition write_event :: "sse \<Rightarrow> act" where
  "write_event e t =
     (case tRoom t of
        Some 0 \<Rightarrow> (t, Some (ErrText ''write''))
      | Some (Suc n) \<Rightarrow> (t\<lparr> tOut := tOut t @ [e], tRoom := Some n \<rparr>, None)
      | None \<Rightarrow> (t\<lparr> tOut := tOut t @ [e] \<rparr>, None))"

definition ensure_start :: "string \<Rightarrow> string \<Rightarrow> act" where
  "ensure_start id0 model0 t =
     (if tStarted t then (t, None)
      else
        let id1 = (if id0 = [] then tFreshID t else id0);
            id2 = (if has_prefix id1 ''resp_'' then ''msg_'' @ trim_prefix id1 ''resp_'' else id1);
            m1 = (if model0 = [] then tRequestModel t else model0);
            m2 = (if m1 = [] then tModel t else m1);
            t1 = t\<lparr> tMsgID := id2, tModel := m2, tStarted := True \<rparr> in
        write_event (MessageStart id2 m2 (tUsageIn t1)) t1)"

section \<open>Keys\<close>

fun first_trimmed :: "string list \<Rightarrow> string" where
  "first_trimmed [] = []"
| "first_trimmed (v # vs) = (if trim_space v \<noteq> [] then trim_space v else first_trimmed vs)"

definition stream_item_key :: "string list \<Rightarrow> string" where
  "stream_item_key vs = (if first_trimmed vs \<noteq> [] then first_trimmed vs else ''default'')"

definition kind_prefix :: "block_kind \<Rightarrow> string" where
  "kind_prefix k = (case k of KText \<Rightarrow> ''text:'' | KTool \<Rightarrow> ''tool:'' | KThinking \<Rightarrow> ''thinking:'')"

definition normalize_block_key :: "block_kind \<Rightarrow> string \<Rightarrow> string" where
  "normalize_block_key kind key0 =
     (let key = (if trim_space key0 = [] then ''default'' else trim_space key0) in
      if has_prefix key (kind_prefix kind) then key else kind_prefix kind @ key)"

definition normalize_reasoning_key :: "string \<Rightarrow> string" where
  "normalize_reasoning_key key0 =
     (let key = trim_space key0 in
      if key = [] then ''reasoning:default''
      else if has_prefix key ''reasoning:'' then key else ''reasoning:'' @ key)"

definition stream_event_key :: "(json \<Rightarrow> string) \<Rightarrow> jobj \<Rightarrow> string" where
  "stream_event_key R root = stream_item_key
     [raw_field R root ''item_id'', raw_field R root ''output_index'', raw_field R root ''content_index'']"

definition reasoning_event_key :: "(json \<Rightarrow> string) \<Rightarrow> jobj \<Rightarrow> string" where
  "reasoning_event_key R root = normalize_reasoning_key
     (first_trimmed [raw_field R root ''item_id'', raw_field R root ''output_index''])"

section \<open>Blocks\<close>

definition find_block :: "translator \<Rightarrow> string \<Rightarrow> block option" where
  "find_block t key = map_of (tBlocks t) key"

definition change_block :: "string \<Rightarrow> (block \<Rightarrow> block) \<Rightarrow> translator \<Rightarrow> translator" where
  "change_block key f t = t\<lparr> tBlocks := map (\<lambda>(k, b). (k, if k = key then f b else b)) (tBlocks t) \<rparr>"

text \<open>\<open>finalizeThinkingBlock\<close>: the signature, the stop, and the bookkeeping.\<close>

definition thinking_done :: "bool \<Rightarrow> translator \<Rightarrow> translator" where
  "thinking_done clear t =
     (let t1 = t\<lparr> tCompleted := (if tReasonKey t \<noteq> [] then insert (tReasonKey t) (tCompleted t)
                                 else tCompleted t),
                  tThinking := None, tStopPending := False \<rparr> in
      if clear then t1\<lparr> tSignature := [], tReasonKey := [] \<rparr> else t1)"

definition finalize_thinking_block :: "bool \<Rightarrow> act" where
  "finalize_thinking_block clear t =
     (if \<not> tThinkEnabled t then (t, None)
      else case tThinking t of
        None \<Rightarrow> (if clear then t\<lparr> tSignature := [] \<rparr> else t, None)
      | Some b \<Rightarrow>
          and_then (if tSignature t \<noteq> [] then write_event (BlockDelta (bIndex b) (SignatureDelta (tSignature t)))
                    else ret)
            (and_then (write_event (BlockStop (bIndex b))) (set_state (thinking_done clear))) t)"

definition finish_thinking_before_content :: act where
  "finish_thinking_before_content t =
     (if tThinking t = None then (t, None) else finalize_thinking_block True t)"

text \<open>The index is taken before the event is written and the block registered after.\<close>

definition open_block :: "string \<Rightarrow> block_kind \<Rightarrow> block_content \<Rightarrow> string \<Rightarrow> string \<Rightarrow> act" where
  "open_block key kind content call name t =
     (let i = tNextIndex t;
          b = \<lparr> bIndex = i, bKind = kind, bCallID = call, bName = name, bEmitted = False,
                bStopped = False \<rparr> in
      and_then (write_event (BlockStart i content))
        (set_state (\<lambda>t. t\<lparr> tBlocks := tBlocks t @ [(key, b)] \<rparr>)) (t\<lparr> tNextIndex := Suc i \<rparr>))"

definition ensure_text_block :: "string \<Rightarrow> act" where
  "ensure_text_block key0 =
     and_then finish_thinking_before_content (\<lambda>t.
       let key = normalize_block_key KText key0 in
       if find_block t key \<noteq> None then (t, None)
       else open_block key KText TextBlock [] [] t)"

definition tool_key :: "string \<Rightarrow> string \<Rightarrow> string" where
  "tool_key key0 call = normalize_block_key KTool (first_trimmed [key0, call])"

definition ensure_tool_block :: "string \<Rightarrow> string \<Rightarrow> string \<Rightarrow> act" where
  "ensure_tool_block key0 call0 name0 =
     and_then finish_thinking_before_content (\<lambda>t.
       let key = tool_key key0 call0 in
       if find_block t key \<noteq> None then (t, None)
       else
         let call = (if call0 = [] then trim_prefix key ''tool:'' else call0);
             name = (if name0 = [] then ''tool'' else name0) in
         and_then (open_block key KTool (ToolUse call name) call name)
           (set_state (\<lambda>t. t\<lparr> tHasToolUse := True \<rparr>)) t)"

definition stop_block :: "string \<Rightarrow> block_kind \<Rightarrow> act" where
  "stop_block key0 kind t =
     (let key = normalize_block_key kind key0 in
      case find_block t key of
        None \<Rightarrow> (t, None)
      | Some b \<Rightarrow>
          if bStopped b then (t, None)
          else and_then (write_event (BlockStop (bIndex b)))
                 (set_state (change_block key (\<lambda>b. b\<lparr> bStopped := True \<rparr>))) t)"

text \<open>\<open>stopAllBlocks\<close> collects the open blocks, orders them by index and stops them.\<close>

fun stop_each :: "(string \<times> block) list \<Rightarrow> act" where
  "stop_each [] t = (t, None)"
| "stop_each ((key, b) # kbs) t =
     and_then (write_event (BlockStop (bIndex b)))
       (and_then (set_state (change_block key (\<lambda>b. b\<lparr> bStopped := True \<rparr>))) (stop_each kbs)) t"

definition stop_all_blocks :: act where
  "stop_all_blocks t =
     stop_each (sort_key (\<lambda>kb. bIndex (snd kb)) (filter (\<lambda>kb. \<not> bStopped (snd kb)) (tBlocks t))) t"

definition delta_to :: "string \<Rightarrow> delta \<Rightarrow> act" where
  "delta_to key d t =
     (case find_block t key of
        None \<Rightarrow> (t, None)
      | Some b \<Rightarrow>
          if bStopped b then (t, None)
          else and_then (write_event (BlockDelta (bIndex b) d))
                 (set_state (change_block key (\<lambda>b. b\<lparr> bEmitted := True \<rparr>))) t)"

definition text_delta :: "string \<Rightarrow> string \<Rightarrow> act" where
  "text_delta key0 text =
     (if text = [] then ret
      else and_then (ensure_text_block key0) (delta_to (normalize_block_key KText key0) (TextDelta text)))"

definition tool_args_delta :: "string \<Rightarrow> string \<Rightarrow> string \<Rightarrow> string \<Rightarrow> act" where
  "tool_args_delta key0 call name args =
     (if args = [] then ret
      else and_then (ensure_tool_block key0 call name)
             (delta_to (tool_key key0 call) (InputJsonDelta args)))"

section \<open>Thinking\<close>

definition ensure_thinking_block :: act where
  "ensure_thinking_block t =
     (if \<not> tThinkEnabled t \<or> tThinking t \<noteq> None then (t, None)
      else and_then (ensure_start (tMsgID t) (tModel t)) (\<lambda>t.
        let i = tNextIndex t;
            b = \<lparr> bIndex = i, bKind = KThinking, bCallID = [], bName = [], bEmitted = False,
                  bStopped = False \<rparr> in
        and_then (write_event (BlockStart i ThinkingBlock))
          (set_state (\<lambda>t. t\<lparr> tThinking := Some b, tStopPending := False \<rparr>))
          (t\<lparr> tNextIndex := Suc i \<rparr>)) t)"

definition start_thinking_part :: "string \<Rightarrow> act" where
  "start_thinking_part key t =
     (if \<not> tThinkEnabled t then (t, None)
      else and_then (if tThinking t \<noteq> None \<and> tStopPending t then finalize_thinking_block False else ret)
             (and_then (set_state (\<lambda>t. t\<lparr> tReasonKey := normalize_reasoning_key key \<rparr>))
                ensure_thinking_block) t)"

definition thinking_delta :: "string \<Rightarrow> act" where
  "thinking_delta text t =
     (if \<not> tThinkEnabled t \<or> tThinkDisplay t = ''omitted'' \<or> text = [] then (t, None)
      else and_then ensure_thinking_block (\<lambda>t. case tThinking t of
          None \<Rightarrow> (t, None)
        | Some b \<Rightarrow> and_then (write_event (BlockDelta (bIndex b) (ThinkingDelta text)))
            (set_state (\<lambda>t. t\<lparr> tThinking := Some (b\<lparr> bEmitted := True \<rparr>) \<rparr>)) t) t)"

definition capture_signature :: "string \<Rightarrow> string \<Rightarrow> translator \<Rightarrow> translator" where
  "capture_signature key sig t =
     (if \<not> tThinkEnabled t \<or> sig = [] then t
      else t\<lparr> tReasonKey := (if trim_space key \<noteq> [] then normalize_reasoning_key (trim_space key)
                             else tReasonKey t), tSignature := sig \<rparr>)"

text \<open>The three fields of a reasoning item \<open>emitFinalReasoningItem\<close> reads: the identifier, the
  summary and the encrypted content.\<close>

definition emit_final_reasoning :: "string \<Rightarrow> string \<Rightarrow> string \<Rightarrow> string \<Rightarrow> act" where
  "emit_final_reasoning item_id summary0 encrypted fallback t =
     (if \<not> tThinkEnabled t then (t, None)
      else
        let key = normalize_reasoning_key (first_trimmed [item_id, fallback]) in
        if key \<in> tCompleted t then (t, None)
        else
          let summary = (if tThinkDisplay t = ''omitted'' then [] else summary0);
              sig = (if encrypted = [] then tSignature t else encrypted) in
          if summary = [] \<and> sig = [] then (t, None)
          else and_then ensure_thinking_block
                 (and_then (thinking_delta summary) (finalize_thinking_block True))
                 (t\<lparr> tReasonKey := key, tSignature := (if sig \<noteq> [] then sig else tSignature t) \<rparr>))"

section \<open>The end of a message\<close>

definition pick_nonzero :: "int \<Rightarrow> int \<Rightarrow> int" where
  "pick_nonzero given known = (if given = 0 \<and> known > 0 then known else given)"

definition finish :: "string \<Rightarrow> int \<Rightarrow> int \<Rightarrow> act" where
  "finish stop uin uout t =
     (if tFinished t then (t, None)
      else and_then (ensure_start (tMsgID t) (tModel t))
        (and_then (finalize_thinking_block True)
          (and_then stop_all_blocks (\<lambda>t.
             let reason = (if stop \<noteq> [] then stop
                           else if tHasToolUse t then ''tool_use'' else ''end_turn'') in
             and_then (write_event (MessageDelta reason (pick_nonzero uin (tUsageIn t))
                                      (pick_nonzero uout (tUsageOut t))))
               (and_then (write_event MessageStop)
                 (set_state (\<lambda>t. t\<lparr> tFinished := True \<rparr>))) t))) t)"

definition fail_stream ::
  "(string \<Rightarrow> json option) \<Rightarrow> (int \<Rightarrow> string) \<Rightarrow> int \<Rightarrow> string \<Rightarrow> act" where
  "fail_stream unm stext status message t =
     (if tFinished t then (t, None)
      else and_then (finalize_thinking_block True)
        (and_then stop_all_blocks
          (and_then (let (ty, msg) = new_error_envelope unm stext status message in
                     write_event (ErrorEvent ty msg))
            (set_state (\<lambda>t. t\<lparr> tFailed := True, tFinished := True \<rparr>)))) t)"

definition block_emitted :: "translator \<Rightarrow> string \<Rightarrow> bool" where
  "block_emitted t key = (case find_block t key of None \<Rightarrow> False | Some b \<Rightarrow> bEmitted b)"

definition has_emitted_kind :: "block_kind \<Rightarrow> translator \<Rightarrow> bool" where
  "has_emitted_kind kind t = list_ex (\<lambda>(_, b). bKind b = kind \<and> bEmitted b) (tBlocks t)"

section \<open>Output items\<close>

fun text_deltas :: "string \<Rightarrow> string list \<Rightarrow> act" where
  "text_deltas key [] t = (t, None)"
| "text_deltas key (s # ss) t = and_then (text_delta key s) (text_deltas key ss) t"

definition final_message :: "string \<Rightarrow> string list \<Rightarrow> act" where
  "final_message key texts t =
     (let nkey = normalize_block_key KText key in
      if find_block t nkey = None \<and> has_emitted_kind KText t then (t, None)
      else if block_emitted t nkey then stop_block key KText t
      else and_then (text_deltas key texts) (stop_block key KText) t)"

definition final_call :: "string \<Rightarrow> string \<Rightarrow> string \<Rightarrow> string \<Rightarrow> act" where
  "final_call key call name args0 =
     and_then (ensure_tool_block key call name) (\<lambda>t.
       and_then (if \<not> block_emitted t (tool_key key call)
                 then tool_args_delta key call name (if args0 = [] then ''{}'' else args0) else ret)
         (stop_block key KTool) t)"

definition final_item :: "(json \<Rightarrow> string) \<Rightarrow> nat \<Rightarrow> jobj \<Rightarrow> act" where
  "final_item R i item =
     (let ty = raw_field R item ''type''; iid = raw_field R item ''id'';
          fallback = ''final-'' @ dec_int (int i) in
      if ty = ''reasoning'' then
        emit_final_reasoning iid (extract_reasoning_summary R (jget item ''summary''))
          (raw_field R item ''encrypted_content'') (''final-reasoning-'' @ dec_int (int i))
      else if ty = ''message'' then
        final_message (stream_item_key [iid, fallback]) (extract_message_texts R (jget item ''content''))
      else if ty = ''function_call'' then
        (let call = first_trimmed [raw_field R item ''call_id'', iid] in
         final_call (stream_item_key [iid, call, fallback]) call (raw_field R item ''name'')
           (raw_field R item ''arguments''))
      else ret)"

fun final_items :: "(json \<Rightarrow> string) \<Rightarrow> nat \<Rightarrow> jobj list \<Rightarrow> act" where
  "final_items R i [] t = (t, None)"
| "final_items R i (x # xs) t = and_then (final_item R i x) (final_items R (Suc i) xs) t"

definition emit_final_output :: "(json \<Rightarrow> string) \<Rightarrow> json \<Rightarrow> act" where
  "emit_final_output R raw =
     (case decode_items raw of None \<Rightarrow> ret | Some items \<Rightarrow> final_items R 0 items)"

section \<open>One upstream event\<close>

definition start_current :: act where
  "start_current t = ensure_start (tMsgID t) (tModel t) t"

definition on_created :: "jobj \<Rightarrow> act" where
  "on_created root t =
     (let has = jhas root ''response''; resp = sub_obj root ''response'';
          id = (if has then jstr resp ''id'' else []);
          rm = (if has then jstr resp ''model'' else []);
          model = (if rm \<noteq> [] \<and> tRequestModel t = [] then rm else tRequestModel t);
          uin = (if has then int_field (sub_obj resp ''usage'') ''input_tokens'' else 0) in
      ensure_start id model (if uin > 0 then t\<lparr> tUsageIn := uin \<rparr> else t))"

definition on_reasoning_delta :: "(json \<Rightarrow> string) \<Rightarrow> jobj \<Rightarrow> act" where
  "on_reasoning_delta R root =
     and_then start_current
       (and_then (\<lambda>t. if tThinking t = None then start_thinking_part (reasoning_event_key R root) t
                      else (t, None))
         (thinking_delta (raw_field R root ''delta'')))"

definition on_content_part_done :: "(json \<Rightarrow> string) \<Rightarrow> jobj \<Rightarrow> act" where
  "on_content_part_done R root t =
     (let part = sub_obj root ''part'' in
      if jstr part ''type'' = ''output_text'' then
        (let key = stream_event_key R root in
         and_then (if \<not> block_emitted t (normalize_block_key KText key) \<and> jstr part ''text'' \<noteq> []
                   then and_then start_current (text_delta key (jstr part ''text'')) else ret)
           (stop_block key KText) t)
      else (t, None))"

definition item_call :: "jobj \<Rightarrow> string" where
  "item_call item = (if jstr item ''call_id'' = [] then jstr item ''id'' else jstr item ''call_id'')"

definition on_item_added :: "(json \<Rightarrow> string) \<Rightarrow> jobj \<Rightarrow> act" where
  "on_item_added R root =
     (let item = sub_obj root ''item'' in
      and_then start_current
        (if jstr item ''type'' = ''reasoning'' then
           set_state (\<lambda>t.
             let key = normalize_reasoning_key
                         (first_trimmed [jstr item ''id'', reasoning_event_key R root]) in
             capture_signature key (jstr item ''encrypted_content'') (t\<lparr> tReasonKey := key \<rparr>))
         else if jstr item ''type'' = ''function_call'' then
           (let call = item_call item;
                key = stream_item_key [jstr item ''id'', call, stream_event_key R root] in
            and_then (ensure_tool_block key call (jstr item ''name''))
              (tool_args_delta key call (jstr item ''name'') (jstr item ''arguments'')))
         else ret))"

definition root_call :: "(json \<Rightarrow> string) \<Rightarrow> jobj \<Rightarrow> string" where
  "root_call R root = (if raw_field R root ''call_id'' = [] then raw_field R root ''item_id''
                       else raw_field R root ''call_id'')"

definition root_call_key :: "(json \<Rightarrow> string) \<Rightarrow> jobj \<Rightarrow> string" where
  "root_call_key R root =
     stream_item_key [raw_field R root ''item_id'', root_call R root, stream_event_key R root]"

definition on_args_done :: "(json \<Rightarrow> string) \<Rightarrow> jobj \<Rightarrow> act" where
  "on_args_done R root =
     (let call = root_call R root; key = root_call_key R root; name = raw_field R root ''name'' in
      and_then start_current
        (and_then (ensure_tool_block key call name) (\<lambda>t.
           and_then (if \<not> block_emitted t (tool_key key call)
                     then tool_args_delta key call name (raw_field R root ''arguments'') else ret)
             (stop_block key KTool) t)))"

definition on_item_done :: "(json \<Rightarrow> string) \<Rightarrow> jobj \<Rightarrow> act" where
  "on_item_done R root t =
     (let item = sub_obj root ''item''; ty = jstr item ''type'' in
      if ty = ''reasoning'' then
        (let key = normalize_reasoning_key
                     (first_trimmed [jstr item ''id'', reasoning_event_key R root]);
             t1 = capture_signature key (jstr item ''encrypted_content'') (t\<lparr> tReasonKey := key \<rparr>) in
         if tThinking t1 = None
         then emit_final_reasoning (jstr item ''id'') (extract_reasoning_summary R (jget item ''summary''))
                (jstr item ''encrypted_content'') key t1
         else finalize_thinking_block True t1)
      else if ty = ''function_call'' then
        (let call = item_call item;
             key = stream_item_key [jstr item ''id'', call, stream_event_key R root] in
         and_then start_current
           (and_then (ensure_tool_block key call (jstr item ''name'')) (\<lambda>t.
              and_then (if \<not> block_emitted t (tool_key key call)
                        then tool_args_delta key call (jstr item ''name'') (jstr item ''arguments'') else ret)
                (stop_block key KTool) t)) t)
      else if ty = ''message'' then
        (let key = stream_item_key [jstr item ''id'', stream_event_key R root] in
         if block_emitted t (normalize_block_key KText key) then stop_block key KText t
         else
           let texts = extract_message_texts R (jget item ''content'') in
           and_then (if texts = [] then ret else and_then start_current (text_deltas key texts))
             (stop_block key KText) t)
      else (t, None))"

definition on_completed :: "(json \<Rightarrow> string) \<Rightarrow> string \<Rightarrow> jobj \<Rightarrow> act" where
  "on_completed R ty root t =
     (let resp = sub_obj root ''response'';
          t1 = fst (if jstr resp ''id'' \<noteq> [] \<and> tMsgID t = []
                    then ensure_start (jstr resp ''id'') (tRequestModel t) t
                    else start_current t);
          (uin, uout) = (case jget resp ''usage'' of Some u \<Rightarrow> extract_usage u
                         | None \<Rightarrow> (tUsageIn t, tUsageOut t));
          t2 = (case jget resp ''usage'' of
                  Some u \<Rightarrow> t1\<lparr> tUsageIn := uin, tUsageOut := uout \<rparr> | None \<Rightarrow> t1) in
      and_then (case jget resp ''output'' of Some out \<Rightarrow> emit_final_output R out | None \<Rightarrow> ret)
        (\<lambda>t. finish (if tHasToolUse t then ''tool_use''
                      else if ty = ''response.incomplete'' then ''max_tokens'' else ''end_turn'')
               uin uout t) t2)"

definition stream_failure :: "(json \<Rightarrow> string) \<Rightarrow> jobj \<Rightarrow> int \<times> string" where
  "stream_failure R root =
     (let code = raw_field R root ''status_code'';
          status = (case atoi code of Some n \<Rightarrow> if 400 \<le> n \<and> n \<le> 599 then n else 502 | None \<Rightarrow> 502);
          e = sub_obj (sub_obj root ''response'') ''error'';
          m1 = trim_space (jstr e ''message'');
          m2 = (if m1 = [] then trim_space (jstr e ''code'') else m1) in
      (status, if m2 = [] then ''upstream response failed'' else m2))"

definition process_root ::
  "(string \<Rightarrow> json option) \<Rightarrow> (json \<Rightarrow> string) \<Rightarrow> (int \<Rightarrow> string) \<Rightarrow> string \<Rightarrow> jobj \<Rightarrow> act" where
  "process_root unm R stext data root t =
     (let ty = raw_field R root ''type'' in
      if ty = ''response.created'' \<or> ty = ''response.in_progress'' then on_created root t
      else if ty = ''response.output_text.delta'' then
        and_then start_current (text_delta (stream_event_key R root) (raw_field R root ''delta'')) t
      else if ty = ''response.reasoning_summary_part.added'' then
        and_then start_current (start_thinking_part (reasoning_event_key R root)) t
      else if ty = ''response.reasoning_summary_text.delta'' \<or> ty = ''response.reasoning_text.delta'' then
        on_reasoning_delta R root t
      else if ty = ''response.reasoning_summary_part.done'' then (t\<lparr> tStopPending := True \<rparr>, None)
      else if ty = ''response.content_part.added'' then
        (if jstr (sub_obj root ''part'') ''type'' = ''output_text''
         then and_then start_current (ensure_text_block (stream_event_key R root)) t else (t, None))
      else if ty = ''response.content_part.done'' then on_content_part_done R root t
      else if ty = ''response.output_item.added'' then on_item_added R root t
      else if ty = ''response.function_call_arguments.delta'' then
        and_then start_current
          (tool_args_delta (root_call_key R root) (root_call R root) (raw_field R root ''name'')
             (raw_field R root ''delta'')) t
      else if ty = ''response.function_call_arguments.done'' then on_args_done R root t
      else if ty = ''response.output_item.done'' then on_item_done R root t
      else if ty = ''response.completed'' \<or> ty = ''response.incomplete'' then on_completed R ty root t
      else if ty = ''response.failed'' then
        (let (status, msg) = stream_failure R root in fail_stream unm stext status msg t)
      else if ty = ''error'' then
        fail_stream unm stext 502 (format_error_message unm stext 500 data) t
      else (t, None))"

definition process_data ::
  "(string \<Rightarrow> json option) \<Rightarrow> (json \<Rightarrow> string) \<Rightarrow> (int \<Rightarrow> string) \<Rightarrow> string \<Rightarrow> act" where
  "process_data unm R stext data0 t =
     (let data = trim_space data0 in
      if data = [] then (t, None)
      else if data = ''[DONE]'' then
        (if tStarted t \<and> \<not> tFinished t then finish [] (tUsageIn t) (tUsageOut t) t else (t, None))
      else case unm data of
        Some (JObj root) \<Rightarrow> process_root unm R stext data root t
      | Some JNull \<Rightarrow> process_root unm R stext data [] t
      | _ \<Rightarrow> (t, Some (ErrText ''anthropic stream: invalid JSON event'')))"

section \<open>The whole stream\<close>

text \<open>The scanner yields the lines of the upstream body, then possibly an error.  \<open>data:\<close> lines
  accumulate until a blank line hands them on.\<close>

definition trim_suffix_nl :: "string \<Rightarrow> string" where
  "trim_suffix_nl s = (if s \<noteq> [] \<and> last s = CHR 0x0A then butlast s else s)"

definition flush_data ::
  "(string \<Rightarrow> json option) \<Rightarrow> (json \<Rightarrow> string) \<Rightarrow> (int \<Rightarrow> string) \<Rightarrow> string \<Rightarrow> act" where
  "flush_data unm R stext buf t =
     (if buf = [] then (t, None) else process_data unm R stext (trim_suffix_nl buf) t)"

definition add_data_line :: "string \<Rightarrow> string \<Rightarrow> string" where
  "add_data_line buf line =
     (if has_prefix line ''data:''
      then (if buf = [] then buf else buf @ [CHR 0x0A]) @ trim_space (trim_prefix line ''data:'')
      else buf)"

fun pipe_lines ::
  "(string \<Rightarrow> json option) \<Rightarrow> (json \<Rightarrow> string) \<Rightarrow> (int \<Rightarrow> string) \<Rightarrow> goerr option \<Rightarrow>
   string \<Rightarrow> string list \<Rightarrow> act" where
  "pipe_lines unm R stext scan_err buf [] t =
     (case scan_err of
        Some e \<Rightarrow> (t, Some e)
      | None \<Rightarrow> and_then (flush_data unm R stext buf)
          (\<lambda>t. if tFinished t then (t, None) else (t, Some ErrUnexpectedEOF)) t)"
| "pipe_lines unm R stext scan_err buf (line # lines) t =
     (if line = [] then
        and_then (flush_data unm R stext buf) (pipe_lines unm R stext scan_err [] lines) t
      else pipe_lines unm R stext scan_err (add_data_line buf line) lines t)"

definition pipe_responses_sse ::
  "(string \<Rightarrow> json option) \<Rightarrow> (json \<Rightarrow> string) \<Rightarrow> (int \<Rightarrow> string) \<Rightarrow> string list \<Rightarrow> goerr option \<Rightarrow>
   act" where
  "pipe_responses_sse unm R stext lines scan_err = pipe_lines unm R stext scan_err [] lines"

definition process_line ::
  "(string \<Rightarrow> json option) \<Rightarrow> (json \<Rightarrow> string) \<Rightarrow> (int \<Rightarrow> string) \<Rightarrow> string \<Rightarrow> act" where
  "process_line unm R stext line0 t =
     (let line = trim_space line0 in
      if line = [] then (t, None)
      else if has_prefix line ''data:''
      then process_data unm R stext (trim_space (trim_prefix line ''data:'')) t
      else if hd line = CHR ''{'' then process_data unm R stext line t
      else (t, None))"

text \<open>The streaming end of \<open>HandleMessages\<close>: the pipe, and what its error becomes.  \<open>Some m\<close> is a
  JSON error response in place of a stream.\<close>

definition serve_stream ::
  "(string \<Rightarrow> json option) \<Rightarrow> (json \<Rightarrow> string) \<Rightarrow> (int \<Rightarrow> string) \<Rightarrow> (goerr \<Rightarrow> string) \<Rightarrow>
   string list \<Rightarrow> goerr option \<Rightarrow> translator \<Rightarrow> translator \<times> string option" where
  "serve_stream unm R stext msg lines scan_err t =
     (case pipe_responses_sse unm R stext lines scan_err t of
        (t', None) \<Rightarrow> (t', None)
      | (t', Some e) \<Rightarrow>
          if tStarted t' \<and> \<not> tFinished t'
          then (fst (fail_stream unm stext 502 (msg e) t'), None)
          else if tFinished t' then (t', None)
          else (t', Some (msg e)))"

end
