(* ===== verification/Prompt_Cache.thy ===== *)
theory Prompt_Cache
  imports Json
begin

text \<open>
  Prompt cache keys (\<open>internal/promptcache/promptcache.go\<close>): an authenticated request is given an opaque key
  made of the client, the model and either the session it names or the part of the prompt that a longer
  conversation keeps.

  \<open>H\<close> is the hexadecimal text of the first half of \<open>sha256\<close>, \<open>M\<close> is \<open>json.Marshal\<close> of a map, which writes the
  members of an object in the order of their names: \<open>prefix_of\<close> lists them in that order.
\<close>

definition string_value :: "json option \<Rightarrow> string" where
  "string_value v = (case v of Some (JStr s) \<Rightarrow> s | _ \<Rightarrow> [])"

definition has_content :: "json \<Rightarrow> bool" where
  "has_content v = (case v of
       JStr s \<Rightarrow> trim_space s \<noteq> [] | JArr xs \<Rightarrow> xs \<noteq> [] | JNull \<Rightarrow> False | _ \<Rightarrow> True)"

text \<open>The content of a user message, of one item of the input.\<close>

definition user_content :: "json \<Rightarrow> json option" where
  "user_content item = (case item of
       JObj m \<Rightarrow>
         (if equal_fold (trim_space (string_value (jget m ''role''))) ''user''
          then (case jget m ''content'' of Some c \<Rightarrow> if has_content c then Some c else None | None \<Rightarrow> None)
          else None)
     | _ \<Rightarrow> None)"

fun first_some :: "('a \<Rightarrow> 'b option) \<Rightarrow> 'a list \<Rightarrow> 'b option" where
  "first_some f [] = None"
| "first_some f (x # xs) = (case f x of Some y \<Rightarrow> Some y | None \<Rightarrow> first_some f xs)"

definition first_user_content :: "json option \<Rightarrow> json option" where
  "first_user_content input = (case input of
       Some (JStr s) \<Rightarrow> if trim_space s \<noteq> [] then Some (JStr s) else None
     | Some (JArr items) \<Rightarrow> first_some user_content items
     | _ \<Rightarrow> None)"

definition kept_member :: "jobj \<Rightarrow> string \<Rightarrow> jobj" where
  "kept_member rq k = (case jget rq k of None \<Rightarrow> [] | Some v \<Rightarrow> [(k, v)])"

definition stable_prefix :: "jobj \<Rightarrow> jobj option" where
  "stable_prefix rq = (case first_user_content (jget rq ''input'') of
       None \<Rightarrow> None
     | Some c \<Rightarrow> Some ((''first_user'', c) #
         concat (map (kept_member rq) [''instructions'', ''reasoning'', ''text'', ''tool_choice'', ''tools''])))"

definition cache_seed :: "(json \<Rightarrow> string) \<Rightarrow> jobj \<Rightarrow> string \<Rightarrow> string option" where
  "cache_seed M rq session =
     (let own = trim_space (string_value (jget rq ''prompt_cache_key'')) in
      if trim_space session \<noteq> [] then Some (trim_space session)
      else if own \<noteq> [] then Some own
      else map_option (\<lambda>p. M (JObj p)) (stable_prefix rq))"

definition cache_text :: "string \<Rightarrow> string \<Rightarrow> string \<Rightarrow> string" where
  "cache_text client model seed =
     ''grok-prompt-cache:v1'' @ [CHR 0x00] @ client @ [CHR 0x00] @ model @ [CHR 0x00] @ seed"

definition cache_key :: "(string \<Rightarrow> string) \<Rightarrow> string \<Rightarrow> string \<Rightarrow> string \<Rightarrow> string" where
  "cache_key H client model seed = ''grokcache-v1-'' @ H (cache_text client model seed)"

text \<open>\<open>Apply\<close> on the members of the body; the key is empty when there is none.\<close>

definition apply_cache ::
  "(string \<Rightarrow> string) \<Rightarrow> (json \<Rightarrow> string) \<Rightarrow> jobj \<Rightarrow> string \<Rightarrow> string \<Rightarrow> string \<Rightarrow> jobj \<times> string" where
  "apply_cache H M rq client0 model0 session =
     (let client = trim_space client0; model = trim_space model0 in
      if client = [] \<or> model = [] then (rq, [])
      else case cache_seed M rq session of
        None \<Rightarrow> (rq, [])
      | Some seed \<Rightarrow>
          (let key = cache_key H client model seed in (jput rq ''prompt_cache_key'' (JStr key), key)))"

section \<open>Keys\<close>

lemma until_nul:
  assumes "CHR 0x00 \<notin> set a" "CHR 0x00 \<notin> set b" "a @ CHR 0x00 # s = b @ CHR 0x00 # t"
  shows "a = b \<and> s = t"
  using assms
proof (induction a arbitrary: b)
  case Nil
  then show ?case by (cases b) auto
next
  case (Cons x a)
  then show ?case by (cases b) auto
qed

lemma set_trim: "set (trim_space s) \<subseteq> set s"
  unfolding trim_space_def trim_left_def trim_right_def
  by (metis (no_types, lifting) set_dropWhileD set_rev subsetI)

lemma cache_text_inj:
  assumes "CHR 0x00 \<notin> set c" "CHR 0x00 \<notin> set c'" "CHR 0x00 \<notin> set m" "CHR 0x00 \<notin> set m'"
    and "cache_text c m s = cache_text c' m' s'"
  shows "c = c' \<and> m = m' \<and> s = s'"
proof -
  have "c @ CHR 0x00 # (m @ CHR 0x00 # s) = c' @ CHR 0x00 # (m' @ CHR 0x00 # s')"
    using assms(5) by (simp add: cache_text_def)
  then show ?thesis using until_nul assms(1-4) by blast
qed

lemma apply_cache_cases:
  obtains (none) "apply_cache H M rq client model session = (rq, [])"
  | (some) seed where "trim_space client \<noteq> []" "trim_space model \<noteq> []" "cache_seed M rq session = Some seed"
      "apply_cache H M rq client model session =
        (jput rq ''prompt_cache_key'' (JStr (cache_key H (trim_space client) (trim_space model) seed)),
         cache_key H (trim_space client) (trim_space model) seed)"
  by (cases "trim_space client = [] \<or> trim_space model = []"; cases "cache_seed M rq session")
    (auto simp: apply_cache_def Let_def)

lemma cache_key_nonempty: "cache_key H c m s \<noteq> []"
  by (simp add: cache_key_def)

text \<open>
  C22: two requests are given the same key only if they are of the same client, for the same model and of the
  same session or stable prompt, or two different texts have the same hash.
\<close>

theorem cache_keys_isolated:
  assumes "apply_cache H M rq client model session = (body, key)" "apply_cache H M rq' client' model' session' = (body', key)"
    and "key \<noteq> []"
    and "\<forall>w\<in>set [client, model, client', model']. CHR 0x00 \<notin> set w"
  shows "trim_space client = trim_space client' \<and> trim_space model = trim_space model' \<and>
      cache_seed M rq session = cache_seed M rq' session' \<or>
    (\<exists>t t'. t \<noteq> t' \<and> H t = H t' \<and> key = ''grokcache-v1-'' @ H t)"
proof -
  obtain seed where a: "cache_seed M rq session = Some seed"
    "key = cache_key H (trim_space client) (trim_space model) seed"
    by (rule apply_cache_cases [of H M rq client model session]) (use assms(1,3) in auto)
  obtain seed' where b: "cache_seed M rq' session' = Some seed'"
    "key = cache_key H (trim_space client') (trim_space model') seed'"
    by (rule apply_cache_cases [of H M rq' client' model' session']) (use assms(2,3) in auto)
  let ?t = "cache_text (trim_space client) (trim_space model) seed"
  let ?t' = "cache_text (trim_space client') (trim_space model') seed'"
  have free: "CHR 0x00 \<notin> set (trim_space client)" "CHR 0x00 \<notin> set (trim_space client')"
    "CHR 0x00 \<notin> set (trim_space model)" "CHR 0x00 \<notin> set (trim_space model')"
    using assms(4) set_trim by force+
  show ?thesis
  proof (cases "?t = ?t'")
    case True
    then show ?thesis using cache_text_inj [OF free True] a(1) b(1) by simp
  next
    case False
    moreover have "H ?t = H ?t'" "key = ''grokcache-v1-'' @ H ?t" using a(2) b(2) by (simp_all add: cache_key_def)
    ultimately show ?thesis by blast
  qed
qed

section \<open>A conversation that goes on\<close>

lemma first_some_append: "first_some f xs = Some y \<Longrightarrow> first_some f (xs @ ys) = Some y"
  by (induction xs) (auto split: option.splits)

text \<open>What a later request of the conversation has: the same members, and more input.\<close>

definition goes_on :: "jobj \<Rightarrow> jobj \<Rightarrow> bool" where
  "goes_on rq rq' \<longleftrightarrow> (\<exists>items more. jget rq ''input'' = Some (JArr items) \<and> jget rq' ''input'' = Some (JArr (items @ more))) \<and>
     (\<forall>k\<in>set [''prompt_cache_key'', ''instructions'', ''reasoning'', ''text'', ''tool_choice'', ''tools''].
        jget rq' k = jget rq k)"

lemma prefix_goes_on:
  assumes "goes_on rq rq'" "stable_prefix rq = Some p"
  shows "stable_prefix rq' = Some p"
proof -
  obtain items more c where input: "jget rq ''input'' = Some (JArr items)" "jget rq' ''input'' = Some (JArr (items @ more))"
    and c: "first_some user_content items = Some c"
    using assms by (auto simp: goes_on_def stable_prefix_def first_user_content_def split: option.splits)
  have "kept_member rq' k = kept_member rq k"
    if "k \<in> set [''instructions'', ''reasoning'', ''text'', ''tool_choice'', ''tools'']" for k
    using assms(1) that by (auto simp: goes_on_def kept_member_def)
  then have "map (kept_member rq') [''instructions'', ''reasoning'', ''text'', ''tool_choice'', ''tools''] =
      map (kept_member rq) [''instructions'', ''reasoning'', ''text'', ''tool_choice'', ''tools'']"
    by (intro map_cong) auto
  then show ?thesis
    using assms(2) input c first_some_append [OF c] by (simp add: stable_prefix_def first_user_content_def)
qed

text \<open>
  C23: a conversation that goes on keeps the key it had, and the key replaces what the request itself named: the
  body is changed in that member only.
\<close>

theorem cache_key_stable:
  assumes "apply_cache H M rq client model session = (body, key)" "key \<noteq> []" "goes_on rq rq'"
  shows "apply_cache H M rq' client model session = (jput rq' ''prompt_cache_key'' (JStr key), key) \<and>
    (\<forall>k. jget body k = (if k = ''prompt_cache_key'' then Some (JStr key) else jget rq k))"
proof -
  obtain seed where names: "trim_space client \<noteq> []" "trim_space model \<noteq> []" and seed: "cache_seed M rq session = Some seed"
    and key: "key = cache_key H (trim_space client) (trim_space model) seed"
    and body: "body = jput rq ''prompt_cache_key'' (JStr key)"
    by (rule apply_cache_cases [of H M rq client model session]) (use assms(1,2) in auto)
  have "jget rq' ''prompt_cache_key'' = jget rq ''prompt_cache_key''" using assms(3) by (simp add: goes_on_def)
  then have "cache_seed M rq' session = Some seed"
    using seed prefix_goes_on [OF assms(3)] by (auto simp: cache_seed_def Let_def split: if_splits)
  then show ?thesis using names key body by (simp add: apply_cache_def Let_def)
qed

definition sample_turn :: jobj where
  "sample_turn = [(''instructions'', JStr ''be brief''),
     (''input'', JArr [JObj [(''role'', JStr ''user''), (''content'', JStr ''q'')]])]"

definition sample_next :: jobj where
  "sample_next = [(''instructions'', JStr ''be brief''),
     (''input'', JArr [JObj [(''role'', JStr ''user''), (''content'', JStr ''q'')],
        JObj [(''role'', JStr ''assistant''), (''content'', JStr ''a'')]])]"

lemma sample_apply:
  "apply_cache (\<lambda>t. t) (\<lambda>_. ''p'') sample_turn ''client-a'' ''grok'' [] =
   (jput sample_turn ''prompt_cache_key'' (JStr (cache_key (\<lambda>t. t) ''client-a'' ''grok'' ''p'')),
    cache_key (\<lambda>t. t) ''client-a'' ''grok'' ''p'')"
  by code_simp

theorem cache_keys_isolated_witness:
  "snd (apply_cache (\<lambda>t. t) (\<lambda>_. ''p'') sample_turn ''client-a'' ''grok'' []) \<noteq>
   snd (apply_cache (\<lambda>t. t) (\<lambda>_. ''p'') sample_turn ''client-b'' ''grok'' [])"
proof
  assume same: "snd (apply_cache (\<lambda>t. t) (\<lambda>_. ''p'') sample_turn ''client-a'' ''grok'' []) =
   snd (apply_cache (\<lambda>t. t) (\<lambda>_. ''p'') sample_turn ''client-b'' ''grok'' [])"
  let ?b = "apply_cache (\<lambda>t. t) (\<lambda>_. ''p'') sample_turn ''client-b'' ''grok'' []"
  have "?b = (fst ?b, cache_key (\<lambda>t. t) ''client-a'' ''grok'' ''p'')"
    using same by (simp add: sample_apply prod_eq_iff)
  moreover have "\<forall>w\<in>set [''client-a'', ''grok'', ''client-b'', ''grok'']. CHR 0x00 \<notin> set w" by code_simp
  ultimately have "trim_space ''client-a'' = trim_space ''client-b''"
    using cache_keys_isolated [OF sample_apply _ cache_key_nonempty] by blast
  then show False by code_simp
qed

theorem cache_key_stable_witness:
  "snd (apply_cache (\<lambda>t. t) (\<lambda>_. ''p'') sample_next ''client-a'' ''grok'' []) = cache_key (\<lambda>t. t) ''client-a'' ''grok'' ''p''"
proof -
  have "goes_on sample_turn sample_next" by (simp add: goes_on_def sample_turn_def sample_next_def jget_def)
  then show ?thesis using cache_key_stable [OF sample_apply cache_key_nonempty] by simp
qed

end
