(* ===== verification/Anthropic_Handler.thy ===== *)
theory Anthropic_Handler
  imports Anthropic_Replay Anthropic_Stream Prompt_Cache
begin

text \<open>
  \<open>POST /v1/messages\<close> (\<open>internal/anthropic/handlers.go\<close>), from the body of the client to the answer: the model is
  resolved (\<open>internal/config/config.go\<close>), the request translated and given its cache key, posted once, and the
  answer of the upstream translated back.  The upstream is the operation \<open>hePost\<close> on a world \<open>'w\<close>.
\<close>

section \<open>The model\<close>

definition resolve_model :: "string list \<Rightarrow> (string \<rightharpoonup> string) \<Rightarrow> string \<Rightarrow> string" where
  "resolve_model passthrough aliases model0 =
     (let model = trim_space model0 in
      if model = [] then model
      else if list_ex (\<lambda>p. p \<noteq> [] \<and> has_prefix model p) passthrough then model
      else case aliases model of Some a \<Rightarrow> if a \<noteq> [] then a else model | None \<Rightarrow> model)"

section \<open>The request\<close>

text \<open>A body that cannot be read is \<open>Inl\<close>, whether because it is too large.\<close>

record http_request =
  hqMethod :: string
  hqHeader :: "string \<Rightarrow> string"
  hqBody :: "bool + string"

record upstream_answer =
  uaStatus :: int
  uaContentType :: string
  uaBody :: "string option"
  uaLines :: "string list"
  uaScanErr :: "goerr option"

record 'w handler_env =
  hePost :: "('w \<Rightarrow> string \<Rightarrow> string \<Rightarrow> jobj \<Rightarrow> bool \<Rightarrow> 'w \<times> (goerr + upstream_answer)) option"
  heResolve :: "string \<Rightarrow> string"
  heStrip :: bool
  heClient :: string
  heSession :: string
  heFreshID :: string
  heHash :: "string \<Rightarrow> string"
  heText :: "json \<Rightarrow> string"
  heParse :: "string \<Rightarrow> json option"
  heStatusText :: "int \<Rightarrow> string"
  heErrText :: "goerr \<Rightarrow> string"
  heReqText :: "req_error \<Rightarrow> string"
  heRespText :: "resp_error \<Rightarrow> string"
  heRoom :: "nat option"

text \<open>A JSON error with its status and message, and whether the client is told to retry; a message; the
  events of a stream, or the error written in place of one.\<close>

datatype answer =
    ErrorAnswer int string bool
  | MessageAnswer message_response
  | StreamAnswer "sse list" "string option"

definition session_id_from_request :: "string \<Rightarrow> (string \<Rightarrow> string) \<Rightarrow> string" where
  "session_id_from_request fresh header =
     (case filter (\<lambda>v. v \<noteq> []) (map (\<lambda>k. trim_space (header k))
             [''x-claude-code-session-id'', ''X-Claude-Code-Session-Id'', ''x-session-id'', ''x-grok-conv-id'']) of
        v # _ \<Rightarrow> v | [] \<Rightarrow> fresh)"

text \<open>The probe decodes what it can: its errors are ignored.\<close>

definition probe_of :: "(string \<Rightarrow> json option) \<Rightarrow> string \<Rightarrow> string \<times> json option" where
  "probe_of unm raw = (case unm raw of
       Some (JObj m) \<Rightarrow> (jstr m ''model'', jget m ''thinking'') | _ \<Rightarrow> ([], None))"

section \<open>The answer\<close>

definition post_failed :: "(goerr \<Rightarrow> string) \<Rightarrow> goerr \<Rightarrow> answer" where
  "post_failed etext e =
     (if err_root e = ErrNoCredential then ErrorAnswer 503 ''no usable upstream credentials'' True
      else ErrorAnswer 502 (etext e) False)"

definition answer_upstream ::
  "'w handler_env \<Rightarrow> string \<Rightarrow> string \<Rightarrow> bridge \<Rightarrow> bool \<Rightarrow> upstream_answer \<Rightarrow> answer" where
  "answer_upstream he model resolved b strm a =
     (if uaStatus a \<ge> 400
      then ErrorAnswer (uaStatus a) (format_error_message (heParse he) (heStatusText he) (uaStatus a)
             (case uaBody a of None \<Rightarrow> [] | Some s \<Rightarrow> s)) False
      else if strm \<or> contains_str (uaContentType a) ''text/event-stream''
      then (case serve_stream (heParse he) (heText he) (heStatusText he) (heErrText he) (uaLines a) (uaScanErr a)
                   (new_translator model (brEnabled b) (brDisplay b) (heFreshID he) (heRoom he)) of
              (t, err) \<Rightarrow> StreamAnswer (tOut t) err)
      else case uaBody a of
        None \<Rightarrow> ErrorAnswer 502 ''failed to read upstream body'' False
      | Some raw \<Rightarrow>
          (case translate_response (heText he) (heParse he) (heFreshID he)
                  \<lparr> tpRequestModel = model, tpFallbackModel = resolved, tpThinking = b \<rparr> raw of
             Inl e \<Rightarrow> ErrorAnswer 502 (heRespText he e) False
           | Inr msg \<Rightarrow> MessageAnswer msg))"

section \<open>The handler\<close>

definition answer_post ::
  "'w handler_env \<Rightarrow> string \<Rightarrow> string \<Rightarrow> bridge \<Rightarrow> bool \<Rightarrow> goerr + upstream_answer \<Rightarrow> answer" where
  "answer_post he model resolved b strm r = (case r of
       Inl e \<Rightarrow> post_failed (heErrText he) e | Inr a \<Rightarrow> answer_upstream he model resolved b strm a)"

text \<open>The request with its body read.\<close>

definition exchange ::
  "'w handler_env \<Rightarrow> ('w \<Rightarrow> string \<Rightarrow> string \<Rightarrow> jobj \<Rightarrow> bool \<Rightarrow> 'w \<times> (goerr + upstream_answer)) \<Rightarrow>
   string \<Rightarrow> string \<Rightarrow> 'w \<Rightarrow> 'w \<times> answer" where
  "exchange he post session raw w =
     (let model = fst (probe_of (heParse he) raw); resolved = heResolve he model;
          b = thinking_bridge_from_raw (snd (probe_of (heParse he) raw)) in
      if length session > 512 then (w, ErrorAnswer 400 ''session id must be at most 512 bytes'' False)
      else case translate_request (heText he) (heParse he) raw
                  \<lparr> roModel = resolved, roConvID = session, roStrip = heStrip he \<rparr> of
        Inl e \<Rightarrow> (w, ErrorAnswer 400 (heReqText he e) False)
      | Inr (body0, original, strm) \<Rightarrow>
          (let cached = apply_cache (heHash he) (heText he) body0 (heClient he) resolved session;
               conv = (if snd cached = [] then session else snd cached);
               posted = post w resolved conv (fst cached) strm in
           (fst posted, answer_post he (if model = [] then original else model) resolved b strm (snd posted))))"

definition handle_messages :: "'w handler_env \<Rightarrow> http_request \<Rightarrow> 'w \<Rightarrow> 'w \<times> answer" where
  "handle_messages he hq w =
     (if hqMethod hq \<noteq> ''POST'' then (w, ErrorAnswer 405 ''method not allowed'' False)
      else case hePost he of
        None \<Rightarrow> (w, ErrorAnswer 500 ''upstream not configured'' False)
      | Some post \<Rightarrow>
          (case hqBody hq of
             Inl too_large \<Rightarrow> (w, ErrorAnswer (if too_large then 413 else 400) ''failed to read body'' False)
           | Inr raw \<Rightarrow> exchange he post (session_id_from_request (heSession he) (hqHeader hq)) raw w))"

section \<open>One exchange\<close>

text \<open>The same handler, with the requests it posts recorded.\<close>

type_synonym posts = "(string \<times> string \<times> jobj \<times> bool) list"

definition record_post ::
  "('w \<Rightarrow> string \<Rightarrow> string \<Rightarrow> jobj \<Rightarrow> bool \<Rightarrow> 'w \<times> (goerr + upstream_answer)) \<Rightarrow>
   'w \<times> posts \<Rightarrow> string \<Rightarrow> string \<Rightarrow> jobj \<Rightarrow> bool \<Rightarrow> ('w \<times> posts) \<times> (goerr + upstream_answer)" where
  "record_post post wl model conv body strm =
     (case post (fst wl) model conv body strm of (w, r) \<Rightarrow> ((w, snd wl @ [(model, conv, body, strm)]), r))"

definition recorded :: "'w handler_env \<Rightarrow> ('w \<times> posts) handler_env" where
  "recorded he = \<lparr> hePost = map_option record_post (hePost he),
     heResolve = heResolve he, heStrip = heStrip he, heClient = heClient he, heSession = heSession he,
     heFreshID = heFreshID he, heHash = heHash he, heText = heText he, heParse = heParse he,
     heStatusText = heStatusText he, heErrText = heErrText he, heReqText = heReqText he,
     heRespText = heRespText he, heRoom = heRoom he \<rparr>"

definition error_of :: "answer \<Rightarrow> bool" where
  "error_of a = (case a of ErrorAnswer st _ _ \<Rightarrow> st \<ge> 400 | _ \<Rightarrow> False)"

definition is_thinking :: "content_block \<Rightarrow> bool" where
  "is_thinking b = (case b of ThinkingContent _ _ \<Rightarrow> True | _ \<Rightarrow> False)"

definition thinks :: "answer \<Rightarrow> bool" where
  "thinks a = (case a of
       MessageAnswer m \<Rightarrow> list_ex is_thinking (mrContent m)
     | _ \<Rightarrow> False)"

lemma recorded_simps [simp]:
  "hePost (recorded he) = map_option record_post (hePost he)"
  "heResolve (recorded he) = heResolve he" "heStrip (recorded he) = heStrip he" "heClient (recorded he) = heClient he"
  "heSession (recorded he) = heSession he" "heFreshID (recorded he) = heFreshID he" "heHash (recorded he) = heHash he"
  "heText (recorded he) = heText he" "heParse (recorded he) = heParse he" "heStatusText (recorded he) = heStatusText he"
  "heErrText (recorded he) = heErrText he" "heReqText (recorded he) = heReqText he"
  "heRespText (recorded he) = heRespText he" "heRoom (recorded he) = heRoom he"
  by (simp_all add: recorded_def)

lemma answer_recorded [simp]: "answer_upstream (recorded he) = answer_upstream he"
  by (simp add: answer_upstream_def fun_eq_iff split: option.splits sum.splits)

lemma post_recorded [simp]: "answer_post (recorded he) = answer_post he"
  by (simp add: answer_post_def fun_eq_iff split: sum.splits)

lemma snd_record_post [simp]:
  "snd (fst (record_post post wl model conv body strm)) = snd wl @ [(model, conv, body, strm)]"
  by (simp add: record_post_def split: prod.splits)

lemma jarr_jput [simp]: "j \<noteq> k \<Longrightarrow> jarr_of (jput m k v) j = jarr_of m j"
  by (simp add: jarr_of_def)

lemma body_input_jput [simp]: "body_input (jput m ''prompt_cache_key'' v) = body_input m"
  by (simp add: body_input_def)

lemma body_cache_key:
  "jget (build_request R opts model rq rsn format) ''prompt_cache_key'' = filled (roConvID opts)"
  by (simp add: build_request_def Let_def jget_append split: option.splits)

text \<open>The probe sees the thinking controls the translation sees.\<close>

lemma probe_thinking:
  assumes "Option.bind (unm raw) (struct_value request_of) = Some rq"
  shows "snd (probe_of unm raw) = mqThinking rq"
proof -
  obtain v where v: "unm raw = Some v" "struct_value request_of v = Some rq"
    using assms by (cases "unm raw") auto
  have of: "request_of m = Some rq \<Longrightarrow> mqThinking rq = jget m ''thinking''" for m
    by (auto simp: request_of_def Option.bind_eq_Some_conv)
  show ?thesis using v of by (cases v) (auto simp: probe_of_def struct_value_def)
qed

lemma thinks_message:
  assumes "thinks (answer_post he model resolved b strm r)"
  obtains R unm fresh opts root where "tpThinking opts = b"
    "thinks (MessageAnswer (response_message R unm fresh opts root))"
proof (cases r)
  case (Inl e)
  then show ?thesis using assms by (simp add: answer_post_def post_failed_def thinks_def split: if_splits)
next
  case (Inr a)
  define opts where "opts = \<lparr> tpRequestModel = model, tpFallbackModel = resolved, tpThinking = b \<rparr>"
  have opts: "tpThinking opts = b" by (simp add: opts_def)
  have up: "thinks (answer_upstream he model resolved b strm a)" using assms Inr by (simp add: answer_post_def)
  have "uaStatus a < 400" "\<not> (strm \<or> contains_str (uaContentType a) ''text/event-stream'')"
    using up by (auto simp: answer_upstream_def thinks_def split: if_splits prod.splits)
  then obtain raw msg where msg: "translate_response (heText he) (heParse he) (heFreshID he) opts raw = Inr msg"
    and "thinks (MessageAnswer msg)"
    using up unfolding answer_upstream_def opts_def [symmetric]
    by (cases "uaBody a") (auto simp: thinks_def split: sum.splits)
  moreover obtain root where "msg = response_message (heText he) (heParse he) (heFreshID he) opts root"
    using msg unfolding translate_response_def by (auto split: if_splits option.splits sum.splits)
  ultimately show ?thesis using that opts by blast
qed

lemma no_thinking_unless_bridged:
  assumes "thinks (answer_post he model resolved b strm r)"
  shows "brEnabled b"
proof -
  obtain R unm fresh opts root where b: "tpThinking opts = b"
    and "thinks (MessageAnswer (response_message R unm fresh opts root))"
    using assms by (rule thinks_message)
  then obtain item c where "c \<in> set (item_blocks R unm b item)" "is_thinking c"
    by (auto simp: thinks_def response_message_def Let_def list_ex_iff is_thinking_def [of "TextContent _"] split: if_splits)
  then show ?thesis
    by (auto simp: is_thinking_def item_blocks_def reasoning_block_def tool_use_block_def Let_def split: if_splits)
qed

lemma failed_is_error: "error_of (post_failed etext e)"
  by (simp add: post_failed_def error_of_def)

lemma cached_conversation:
  assumes "apply_cache H M body0 client model session = (body, key)" "jget body0 ''prompt_cache_key'' = filled session"
  shows "jget body ''prompt_cache_key'' = filled (if key = [] then session else key)"
    "body_input body = body_input body0" "jget body ''include'' = jget body0 ''include''"
  by (rule apply_cache_cases [of H M body0 client model session];
      use assms in \<open>auto simp: cache_key_nonempty filled_def\<close>)+

lemma exchanged:
  assumes "exchange (recorded he) (record_post post) session raw (w, []) = ((w', log), ans)"
  shows "log = [] \<and> error_of ans \<or>
    (\<exists>model conv body strm rq. log = [(model, conv, body, strm)] \<and>
       Option.bind (heParse he raw) (struct_value request_of) = Some rq \<and> strm = mqStream rq \<and>
       model = heResolve he (fst (probe_of (heParse he) raw)) \<and>
       items_turns (body_input body) = concat (map (message_turns (heText he)) (mqMessages rq)) \<and>
       jget body ''prompt_cache_key'' = filled conv \<and>
       (thinks ans \<longrightarrow> jget body ''include'' = Some (JArr [JStr ''reasoning.encrypted_content''])))"
proof -
  let ?resolved = "heResolve he (fst (probe_of (heParse he) raw))"
  let ?opts = "\<lparr> roModel = ?resolved, roConvID = session, roStrip = heStrip he \<rparr>"
  show ?thesis
  proof (cases "translate_request (heText he) (heParse he) raw ?opts")
    case (Inl e)
    then have "log = [] \<and> error_of ans"
      using assms by (auto simp: exchange_def Let_def error_of_def split: if_splits)
    then show ?thesis ..
  next
    case (Inr r)
    obtain body0 original strm where r: "r = (body0, original, strm)" by (cases r)
    obtain body key where cache:
      "apply_cache (heHash he) (heText he) body0 (heClient he) ?resolved session = (body, key)"
      by fastforce
    obtain rq rsn format where rq: "Option.bind (heParse he raw) (struct_value request_of) = Some rq"
      and strm: "strm = mqStream rq" and body0: "body0 = build_request (heText he) ?opts
        (if trim_space (roModel ?opts) = [] then original else trim_space (roModel ?opts)) rq rsn format"
      using Inr [unfolded r] by (rule translate_request_cases)
    have key0: "jget body0 ''prompt_cache_key'' = filled session"
      by (simp add: body0 body_cache_key)
    note cached = cached_conversation [OF cache key0]
    have turns: "items_turns (body_input body0) = concat (map (message_turns (heText he)) (mqMessages rq))"
      unfolding body0 body_input_def jarr_of_def body_members by (simp add: converted_turns)
    have encrypted: "jget body0 ''include'' = Some (JArr [JStr ''reasoning.encrypted_content''])"
      if "thinks (answer_post he m f (thinking_bridge_from_raw (snd (probe_of (heParse he) raw))) s a)" for m f s a
      unfolding body0 body_members
      using no_thinking_unless_bridged [OF that] by (simp add: probe_thinking [of "heParse he" raw, OF rq])
    show ?thesis
    proof (cases "length session > 512")
      case True
      then have "log = [] \<and> error_of ans" using assms by (auto simp: exchange_def Let_def error_of_def)
      then show ?thesis ..
    next
      case False
      let ?post = "record_post post (w, []) ?resolved (if key = [] then session else key) body strm"
      have "fst ?post = (w', log)" and ans: "ans = answer_post he
          (if fst (probe_of (heParse he) raw) = [] then original else fst (probe_of (heParse he) raw)) ?resolved
          (thinking_bridge_from_raw (snd (probe_of (heParse he) raw))) strm (snd ?post)"
        using assms False Inr r cache by (simp_all add: exchange_def Let_def cong: if_cong)
      then have "log = [(?resolved, if key = [] then session else key, body, strm)]"
        using snd_record_post [of post "(w, [])"] by (metis append_Nil snd_conv)
      then show ?thesis
        unfolding ans
        by (intro disjI2 exI [of _ ?resolved] exI [of _ "if key = [] then session else key"] exI [of _ body]
            exI [of _ strm] exI [of _ rq] conjI impI rq strm refl)
          (simp_all only: cached turns encrypted)
    qed
  qed
qed


definition sample_handler :: "unit handler_env" where
  "sample_handler = \<lparr> hePost = Some (\<lambda>w _ _ _ _. (w, Inr \<lparr> uaStatus = 200, uaContentType = ''application/json'',
       uaBody = Some ''output'', uaLines = [], uaScanErr = None \<rparr>)),
     heResolve = (\<lambda>m. m), heStrip = False, heClient = ''client'', heSession = ''sess'', heFreshID = ''f'',
     heHash = (\<lambda>_. ''h''), heText = sample_printed, heParse = sample_texts, heStatusText = (\<lambda>_. ''t''),
     heErrText = (\<lambda>_. ''e''), heReqText = (\<lambda>_. ''e''), heRespText = (\<lambda>_. ''e''), heRoom = None \<rparr>"

definition sample_http :: http_request where
  "sample_http = \<lparr> hqMethod = ''POST'', hqHeader = (\<lambda>_. []), hqBody = Inr ''messages'' \<rparr>"

definition sample_exchange :: "(unit \<times> posts) \<times> answer" where
  "sample_exchange = handle_messages (recorded sample_handler) sample_http ((), [])"

lemma sample_exchanged:
  "map (\<lambda>(m, c, _, _). (m, c)) (snd (fst sample_exchange)) = [(''grok-4.5'', ''grokcache-v1-h'')]"
  "thinks (snd sample_exchange)"
  by code_simp+


end
