(* ===== verification/Refresher.thy ===== *)
theory Refresher
  imports Credential Json
begin

text \<open>
  \<open>internal/auth\<close>: token sets (\<open>oauth.go\<close>), the refresher with its cache, generation and per-key epochs
  (\<open>refresh.go\<close>) and the classification of OAuth errors (\<open>status_error.go\<close>).

  The callbacks of the refresher (load, client resolution, the grant of \<open>OAuthClient.Refresh\<close>,
  persist) and the caller's context act on the refresher and the world \<open>'w\<close> together: the refresher's
  lock is not held while they run, so an invalidation may happen inside any of them.  A caller that
  joins a flight in progress gets that flight's result (\<open>singleflight\<close>); modelled is the caller that
  runs it.  A nil receiver is left out.
\<close>

section \<open>Token sets\<close>

record token_set =
  tkAccess :: string
  tkRefresh :: string
  tkType :: string
  tkIDToken :: string
  tkExpiresIn :: int
  tkExpiresAt :: gotime
  tkScope :: string

definition no_tokens :: token_set where
  "no_tokens = \<lparr> tkAccess = [], tkRefresh = [], tkType = [], tkIDToken = [], tkExpiresIn = 0,
     tkExpiresAt = zero_time, tkScope = [] \<rparr>"

definition token_expired :: "token_set \<Rightarrow> gotime \<Rightarrow> duration \<Rightarrow> bool" where
  "token_expired t now skew \<longleftrightarrow>
     (if tkExpiresAt t = zero_time then False
      else \<not> now < tkExpiresAt t - (if skew < 0 then 0 else skew))"

definition token_material_changed :: "token_set \<Rightarrow> token_set \<Rightarrow> bool" where
  "token_material_changed l r \<longleftrightarrow>
     trim_space (tkAccess l) \<noteq> trim_space (tkAccess r) \<or>
     trim_space (tkRefresh l) \<noteq> trim_space (tkRefresh r)"

section \<open>The refresher\<close>

record refresher =
  rfSkew :: duration
  rfCache :: "string \<rightharpoonup> token_set"
  rfGeneration :: u64
  rfEpoch :: "string \<rightharpoonup> u64"

type_synonym 'w rst = "refresher \<times> 'w"

record ('w, 'c) refresh_env =
  reLoad :: "('w rst \<Rightarrow> 'w rst \<times> (goerr + token_set)) option"
  reOAuth :: "'c option"
  reOAuthFor :: "('w rst \<Rightarrow> string \<Rightarrow> 'w rst \<times> (goerr + 'c option)) option"
  reGrant :: "'c \<Rightarrow> 'w rst \<Rightarrow> string \<Rightarrow> 'w rst \<times> (goerr + token_set)"
  rePersist :: "('w rst \<Rightarrow> token_set \<Rightarrow> token_set \<Rightarrow> 'w rst \<times> goerr option) option"
  reCtxErr :: "'w rst \<Rightarrow> goerr option"

definition refresh_skew :: "refresher \<Rightarrow> duration" where
  "refresh_skew r = (if rfSkew r > 0 then rfSkew r else 180 * second)"

definition epoch_of :: "refresher \<Rightarrow> string \<Rightarrow> u64" where
  "epoch_of r key = (case rfEpoch r key of Some n \<Rightarrow> n | None \<Rightarrow> 0)"

definition cached_tokens :: "refresher \<Rightarrow> string \<Rightarrow> token_set option" where
  "cached_tokens r key = rfCache r key"

definition invalidate :: "refresher \<Rightarrow> string \<Rightarrow> refresher" where
  "invalidate r key0 =
     (let key = trim_space key0 in
      r\<lparr> rfEpoch := (rfEpoch r)(key \<mapsto> epoch_of r key + 1), rfCache := map_delete (rfCache r) key \<rparr>)"

definition invalidate_all :: "refresher \<Rightarrow> refresher" where
  "invalidate_all r = r\<lparr> rfCache := Map.empty, rfGeneration := rfGeneration r + 1, rfEpoch := Map.empty \<rparr>"

definition generations_current :: "refresher \<Rightarrow> string \<Rightarrow> u64 \<Rightarrow> u64 \<Rightarrow> bool" where
  "generations_current r key generation epoch \<longleftrightarrow> rfGeneration r = generation \<and> epoch_of r key = epoch"

text \<open>The persist callback comes before the epoch is looked at.\<close>

definition commit_cache :: "refresher \<Rightarrow> string \<Rightarrow> token_set \<Rightarrow> u64 \<Rightarrow> u64 \<Rightarrow> refresher \<times> goerr option" where
  "commit_cache r key ts generation epoch =
     (if \<not> generations_current r key generation epoch then (r, Some ErrRefreshInvalidated)
      else (r\<lparr> rfCache := (rfCache r)(key \<mapsto> ts) \<rparr>, None))"

definition commit_if_current ::
  "('w, 'c) refresh_env \<Rightarrow> 'w rst \<Rightarrow> string \<Rightarrow> token_set \<Rightarrow> token_set \<Rightarrow> u64 \<Rightarrow> u64 \<Rightarrow>
   'w rst \<times> goerr option" where
  "commit_if_current env s key previous ts generation epoch =
     (case (case rePersist env of None \<Rightarrow> (s, None) | Some persist \<Rightarrow> persist s previous ts) of
        (s1, Some e) \<Rightarrow>
          (s1, Some (if is_invalidated e then e else ErrWrap ''auth refresh: persist'' e))
      | ((r, w), None) \<Rightarrow>
          (let (r', e) = commit_cache r key ts generation epoch in ((r', w), e)))"

section \<open>A refresh\<close>

definition borrow_cached :: "token_set option \<Rightarrow> token_set \<Rightarrow> token_set" where
  "borrow_cached cached current = (case cached of
       None \<Rightarrow> current
     | Some c \<Rightarrow>
         if trim_space (tkRefresh c) = [] then current
         else current\<lparr> tkRefresh := trim_space (tkRefresh c),
                tkAccess := (if trim_space (tkAccess c) \<noteq> [] then tkAccess c else tkAccess current),
                tkExpiresAt := (if tkExpiresAt c \<noteq> zero_time then tkExpiresAt c
                                else tkExpiresAt current) \<rparr>)"

definition resolve_client ::
  "('w, 'c) refresh_env \<Rightarrow> 'w rst \<Rightarrow> string \<Rightarrow> 'w rst \<times> (goerr + 'c)" where
  "resolve_client env s key =
     (case reOAuthFor env of
        None \<Rightarrow> (s, case reOAuth env of
                      Some c \<Rightarrow> Inr c | None \<Rightarrow> Inl (ErrText ''auth refresh: nil oauth client''))
      | Some f \<Rightarrow>
          (case f s key of
             (s1, Inl e) \<Rightarrow> (s1, Inl (ErrWrap ''auth refresh: resolve client'' e))
           | (s1, Inr None) \<Rightarrow> (s1, Inl (ErrText ''auth refresh: nil oauth client''))
           | (s1, Inr (Some c)) \<Rightarrow> (s1, Inr c)))"

definition keep_refresh :: "string \<Rightarrow> token_set \<Rightarrow> token_set" where
  "keep_refresh sent next = (if trim_space (tkRefresh next) = [] then next\<lparr> tkRefresh := sent \<rparr> else next)"

definition grant_step ::
  "('w, 'c) refresh_env \<Rightarrow> string \<Rightarrow> token_set \<Rightarrow> u64 \<Rightarrow> u64 \<Rightarrow> 'w rst \<Rightarrow>
   'w rst \<times> token_set option \<times> goerr option" where
  "grant_step env key previous generation epoch s =
     (let sent = trim_space (tkRefresh previous) in
      if \<not> generations_current (fst s) key generation epoch
      then (s, Some previous, Some ErrRefreshInvalidated)
      else if sent = []
      then (s, None, Some (ErrText ''auth refresh: durable refresh_token is required''))
      else case resolve_client env s key of
        (s1, Inl e) \<Rightarrow> (s1, None, Some e)
      | (s1, Inr client) \<Rightarrow>
          (case reGrant env client s1 sent of
             (s2, Inl e) \<Rightarrow> (s2, None, Some e)
           | (s2, Inr got) \<Rightarrow>
               (let next = keep_refresh sent got;
                    (s3, e) = commit_if_current env s2 key previous next generation epoch in
                (s3, Some next, e))))"

definition flight ::
  "('w, 'c) refresh_env \<Rightarrow> string \<Rightarrow> token_set \<Rightarrow> u64 \<Rightarrow> u64 \<Rightarrow> 'w rst \<Rightarrow>
   'w rst \<times> token_set option \<times> goerr option" where
  "flight env key current generation epoch s =
     (let previous = borrow_cached (cached_tokens (fst s) key) current in
      case reLoad env of
        None \<Rightarrow> grant_step env key previous generation epoch s
      | Some load \<Rightarrow>
          (case load s of
             (s1, Inl e) \<Rightarrow> (s1, None, Some (ErrWrap ''auth refresh: load durable token'' e))
           | (s1, Inr durable) \<Rightarrow>
               if token_material_changed previous durable
               then (s1, Some durable, Some ErrRefreshInvalidated)
               else grant_step env key durable generation epoch s1))"

definition flight_result :: "token_set option \<times> goerr option \<Rightarrow> token_set \<times> goerr option" where
  "flight_result res = (case res of
       (Some ts, Some e) \<Rightarrow> (if trim_space (tkAccess ts) \<noteq> [] then ts else no_tokens, Some e)
     | (None, Some e) \<Rightarrow> (no_tokens, Some e)
     | (Some ts, None) \<Rightarrow> (ts, None)
     | (None, None) \<Rightarrow> (no_tokens, Some (ErrText ''auth refresh: invalid singleflight result'')))"

definition flight_key :: "string \<Rightarrow> token_set \<Rightarrow> string" where
  "flight_key key current =
     (if trim_space key = [] then trim_space (tkRefresh current) else trim_space key)"

definition force_refresh ::
  "('w, 'c) refresh_env \<Rightarrow> string \<Rightarrow> token_set \<Rightarrow> 'w rst \<Rightarrow> 'w rst \<times> token_set \<times> goerr option" where
  "force_refresh env key current s =
     (if reOAuth env = None \<and> reOAuthFor env = None
      then (s, no_tokens, Some (ErrText ''auth refresh: nil oauth client''))
      else if trim_space (tkRefresh current) = []
      then (s, no_tokens, Some (ErrText ''auth refresh: refresh_token is required''))
      else
        let k = flight_key key current;
            (s1, res) = flight env k current (rfGeneration (fst s)) (epoch_of (fst s) k) s in
        case reCtxErr env s1 of
          Some e \<Rightarrow> (s1, no_tokens, Some e)
        | None \<Rightarrow> (s1, flight_result res))"

text \<open>\<open>EnsureAccess\<close> looks at the cache before the caller's snapshot.\<close>

definition adopt_cached :: "token_set option \<Rightarrow> token_set \<Rightarrow> token_set" where
  "adopt_cached cached current = (case cached of
       None \<Rightarrow> current
     | Some c \<Rightarrow>
         if trim_space (tkRefresh c) = [] then current
         else current\<lparr> tkRefresh := tkRefresh c,
                tkAccess := (if trim_space (tkAccess c) \<noteq> [] then tkAccess c else tkAccess current),
                tkExpiresAt := (if tkExpiresAt c \<noteq> zero_time then tkExpiresAt c
                                else tkExpiresAt current) \<rparr>)"

definition usable_access :: "token_set \<Rightarrow> gotime \<Rightarrow> duration \<Rightarrow> bool" where
  "usable_access t now skew \<longleftrightarrow> trim_space (tkAccess t) \<noteq> [] \<and> \<not> token_expired t now skew"

definition ensure_access ::
  "('w, 'c) refresh_env \<Rightarrow> gotime \<Rightarrow> string \<Rightarrow> token_set \<Rightarrow> 'w rst \<Rightarrow>
   'w rst \<times> token_set \<times> goerr option" where
  "ensure_access env now key current0 s =
     (let skew = refresh_skew (fst s); k = flight_key key current0;
          cached = (if k = [] then None else cached_tokens (fst s) k);
          current = adopt_cached cached current0 in
      case cached of
        Some c \<Rightarrow>
          (if usable_access c now skew then (s, c, None)
           else if usable_access current now skew then (s, current, None)
           else if trim_space (tkRefresh current) = []
           then (s, no_tokens, Some (ErrText ''auth refresh: access expired and no refresh_token''))
           else force_refresh env key current s)
      | None \<Rightarrow>
          (if usable_access current now skew then (s, current, None)
           else if trim_space (tkRefresh current) = []
           then (s, no_tokens, Some (ErrText ''auth refresh: access expired and no refresh_token''))
           else force_refresh env key current s))"

section \<open>Errors\<close>

datatype error_kind = ErrorTerminal | ErrorSystem | ErrorTransient | ErrorUnknown

definition auth_status_code :: "goerr \<Rightarrow> int" where
  "auth_status_code e = (case err_root e of AuthHTTPError _ code _ \<Rightarrow> code | _ \<Rightarrow> 0)"

definition is_invalid_grant :: "goerr \<Rightarrow> bool" where
  "is_invalid_grant e = (case err_root e of
       AuthHTTPError _ _ body \<Rightarrow>
         (let b = to_lower body in
          contains_str b ''invalid_grant'' \<or> contains_str b ''invalid refresh'' \<or>
          (contains_str b ''refresh token'' \<and> contains_str b ''invalid''))
     | _ \<Rightarrow> False)"

definition transient_cause :: "goerr \<Rightarrow> bool" where
  "transient_cause e = (case err_root e of
       ErrNetwork \<Rightarrow> True | ErrDeadline \<Rightarrow> True | ErrCanceled \<Rightarrow> True | _ \<Rightarrow> False)"

definition classify_error :: "goerr option \<Rightarrow> error_kind" where
  "classify_error err = (case err of
       None \<Rightarrow> ErrorUnknown
     | Some e \<Rightarrow>
         (case err_root e of
            AuthHTTPError _ code body \<Rightarrow>
              (let b = to_lower body in
               if contains_str b ''invalid_client'' then ErrorSystem
               else if contains_str b ''invalid_grant'' \<or> contains_str b ''invalid_token'' \<or>
                       contains_str b ''invalid refresh'' then ErrorTerminal
               else if code = 429 \<or> code \<ge> 500 then ErrorTransient
               else ErrorUnknown)
          | _ \<Rightarrow> if transient_cause e then ErrorTransient else ErrorUnknown))"

definition is_terminal_credential_error :: "goerr option \<Rightarrow> bool" where
  "is_terminal_credential_error err \<longleftrightarrow> classify_error err = ErrorTerminal"

definition safe_code_char :: "char \<Rightarrow> bool" where
  "safe_code_char c \<longleftrightarrow> c \<in> set ''abcdefghijklmnopqrstuvwxyz0123456789_-''"

definition is_safe_oauth_code :: "string \<Rightarrow> bool" where
  "is_safe_oauth_code code \<longleftrightarrow> code \<noteq> [] \<and> length code \<le> 64 \<and> list_all safe_code_char code"

fun first_contained :: "string \<Rightarrow> string list \<Rightarrow> string" where
  "first_contained body [] = []"
| "first_contained body (c # cs) = (if contains_str body c then c else first_contained body cs)"

definition oauth_error_code :: "(string \<Rightarrow> json option) \<Rightarrow> string \<Rightarrow> string" where
  "oauth_error_code unm body =
     (let code = (case unm (trim_space body) of
                    Some (JObj m) \<Rightarrow> to_lower (trim_space (jstr m ''error'')) | _ \<Rightarrow> []) in
      if is_safe_oauth_code code then code
      else first_contained (to_lower body)
        [''invalid_grant'', ''invalid_token'', ''invalid_client'', ''authorization_pending'',
         ''slow_down'', ''expired_token'', ''access_denied'', ''temporarily_unavailable''])"

end
