(* ===== verification/Atomic_Store.thy ===== *)
theory Atomic_Store
  imports Prelude
begin

text \<open>
  The file layer of \<open>internal/storage/store.go\<close>: \<open>atomicWrite\<close> with \<open>writeBackup\<close>, and
  \<open>readJSONFile\<close> with its recovery from the backup.

  A file's content is what \<open>encoding/json\<close> makes of it: nothing, bytes that are not JSON, JSON of
  another shape, or a document of the type read.  A write is the sequence of system calls the code
  makes; each may fail, and the machine may stop after any of them.  A file that was written but
  not yet synced may hold anything after the machine stops; a rename is atomic.
\<close>

datatype 'd content = Empty | Garbage string | Foreign string | Doc 'd

datatype fname = Primary | Backup | Tmp | BakTmp

record 'd entry =
  eContent :: "'d content"
  eSynced :: bool

type_synonym 'd fs = "fname \<Rightarrow> 'd entry option"

text \<open>\<open>json.Valid\<close> and \<open>unmarshalFresh\<close>.\<close>

definition json_valid :: "'d content \<Rightarrow> bool" where
  "json_valid c = (case c of Foreign _ \<Rightarrow> True | Doc _ \<Rightarrow> True | _ \<Rightarrow> False)"

definition unmarshal_fresh :: "'d content \<Rightarrow> 'd option" where
  "unmarshal_fresh c = (case c of Doc d \<Rightarrow> Some d | _ \<Rightarrow> None)"

section \<open>Writing\<close>

datatype 'd syscall =
    Create fname
  | Chmod fname
  | Write fname "'d content"
  | Sync fname
  | Close fname
  | ReadPrevious
  | Rename fname fname

fun exec_call :: "'d syscall \<Rightarrow> 'd fs \<Rightarrow> 'd fs" where
  "exec_call (Create f) fs = fs(f \<mapsto> \<lparr> eContent = Empty, eSynced = False \<rparr>)"
| "exec_call (Write f c) fs = fs(f \<mapsto> \<lparr> eContent = c, eSynced = False \<rparr>)"
| "exec_call (Sync f) fs = fs(f := map_option (\<lambda>e. e\<lparr> eSynced := True \<rparr>) (fs f))"
| "exec_call (Rename f g) fs = (fs(g := fs f))(f := None)"
| "exec_call _ fs = fs"

definition write_backup :: "'d content \<Rightarrow> 'd syscall list" where
  "write_backup data =
     [Create BakTmp, Chmod BakTmp, Write BakTmp data, Sync BakTmp, Close BakTmp,
      Rename BakTmp Backup]"

text \<open>The calls of \<open>atomicWrite\<close> when the file holds \<open>previous\<close>: the new data in a synced temporary
  file, the backup of a previous content that is valid JSON, and the rename.\<close>

definition atomic_write_calls :: "'d entry option \<Rightarrow> 'd content \<Rightarrow> 'd syscall list" where
  "atomic_write_calls previous data =
     [Create Tmp, Chmod Tmp, Write Tmp data, Sync Tmp, Close Tmp, ReadPrevious] @
     (case previous of
        Some e \<Rightarrow> if json_valid (eContent e) then write_backup (eContent e) else []
      | None \<Rightarrow> []) @
     [Rename Tmp Primary]"

fun exec_calls :: "'d syscall list \<Rightarrow> 'd fs \<Rightarrow> 'd fs" where
  "exec_calls [] fs = fs"
| "exec_calls (c # cs) fs = exec_calls cs (exec_call c fs)"

text \<open>\<open>fault = Some n\<close>: the call number \<open>n\<close> fails; the deferred functions then remove the temporary
  files and the error is returned.  A fault past the last call is none.\<close>

definition atomic_write :: "nat option \<Rightarrow> 'd content \<Rightarrow> 'd fs \<Rightarrow> goerr option \<times> 'd fs" where
  "atomic_write fault data fs =
     (let calls = atomic_write_calls (fs Primary) data in
      case fault of
        Some n \<Rightarrow>
          if n < length calls
          then (Some (ErrText ''atomic write''),
                (exec_calls (take n calls) fs)(Tmp := None, BakTmp := None))
          else (None, exec_calls calls fs)
      | None \<Rightarrow> (None, exec_calls calls fs))"

section \<open>Reading\<close>

text \<open>\<open>unreadable f\<close>: \<open>ReadFile\<close> fails although the file exists.  The error \<open>ErrNotFound\<close> is the
  one \<open>os.IsNotExist\<close> recognises.\<close>

definition read_backup_json :: "(fname \<Rightarrow> bool) \<Rightarrow> 'd fs \<Rightarrow> 'd option" where
  "read_backup_json unreadable fs =
     (case fs Backup of
        None \<Rightarrow> None
      | Some e \<Rightarrow> if unreadable Backup then None else unmarshal_fresh (eContent e))"

definition read_json_file :: "(fname \<Rightarrow> bool) \<Rightarrow> 'd \<Rightarrow> 'd fs \<Rightarrow> goerr + 'd" where
  "read_json_file unreadable zero fs =
     (let recover = (\<lambda>e. case read_backup_json unreadable fs of Some d \<Rightarrow> Inr d | None \<Rightarrow> Inl e) in
      case fs Primary of
        None \<Rightarrow> recover (ErrNotFound ''file'')
      | Some e \<Rightarrow>
          if unreadable Primary then recover (ErrText ''read'')
          else if eContent e = Empty then Inr zero
          else (case unmarshal_fresh (eContent e) of
                  Some d \<Rightarrow> Inr d
                | None \<Rightarrow> recover (ErrText ''decode'')))"

section \<open>Stopping the machine\<close>

text \<open>The temporary files have random names and are never read again; what a later start sees is the
  primary and the backup.  A file that was not synced holds anything after the stop.\<close>

definition crash_of :: "'d fs \<Rightarrow> 'd fs \<Rightarrow> bool" where
  "crash_of fs fs' \<longleftrightarrow> (\<forall>f. case fs f of
       None \<Rightarrow> fs' f = None
     | Some e \<Rightarrow> if eSynced e then fs' f = Some e else fs' f \<noteq> None)"

definition settled :: "'d fs \<Rightarrow> bool" where
  "settled fs \<longleftrightarrow> (\<forall>f \<in> {Primary, Backup}. \<forall>e. fs f = Some e \<longrightarrow> eSynced e)"

lemma exec_calls_append: "exec_calls (xs @ ys) fs = exec_calls ys (exec_calls xs fs)"
  by (induction xs arbitrary: fs) auto

lemma calls_before_rename:
  assumes "n \<le> length (atomic_write_calls (fs Primary) data) - 1"
    and "settled fs"
  defines "fs' \<equiv> exec_calls (take n (atomic_write_calls (fs Primary) data)) fs"
  shows "fs' Primary = fs Primary \<and>
         (fs' Backup = fs Backup \<or>
          (\<exists>e. fs Primary = Some e \<and> json_valid (eContent e) \<and>
               fs' Backup = Some \<lparr> eContent = eContent e, eSynced = True \<rparr>))"
proof (cases "\<exists>e. fs Primary = Some e \<and> json_valid (eContent e)")
  case True
  then obtain e where e: "fs Primary = Some e" "json_valid (eContent e)" by blast
  have "n \<le> 12" using assms(1) e by (simp add: atomic_write_calls_def write_backup_def)
  then have "n \<in> {0,1,2,3,4,5,6,7,8,9,10,11,12}"
    unfolding insert_iff empty_iff by presburger
  then show ?thesis
    unfolding fs'_def by (elim insertE emptyE)
      (simp_all add: atomic_write_calls_def write_backup_def e)
next
  case False
  then have calls: "atomic_write_calls (fs Primary) data =
      [Create Tmp, Chmod Tmp, Write Tmp data, Sync Tmp, Close Tmp, ReadPrevious, Rename Tmp Primary]"
    by (auto simp: atomic_write_calls_def split: option.splits)
  have "n \<in> {0,1,2,3,4,5,6}" using assms(1) by (auto simp: calls)
  then show ?thesis unfolding fs'_def calls by (elim insertE emptyE) simp_all
qed

lemma calls_done:
  "exec_calls (atomic_write_calls (fs Primary) data) fs Primary =
     Some \<lparr> eContent = data, eSynced = True \<rparr>"
  by (simp add: atomic_write_calls_def write_backup_def exec_calls_append split: option.splits)

abbreviation readable :: "fname \<Rightarrow> bool" where
  "readable \<equiv> (\<lambda>_. False)"

text \<open>The primary is not JSON of another shape, which \<open>atomicWrite\<close> takes for a good backup.\<close>

definition own_shape :: "'d fs \<Rightarrow> bool" where
  "own_shape fs \<longleftrightarrow> (\<forall>e t. fs Primary = Some e \<longrightarrow> eContent e \<noteq> Foreign t)"

lemma read_depends:
  assumes "fs' Primary = fs Primary"
    and "fs' Backup = fs Backup \<or> (\<exists>e d. fs Primary = Some e \<and> eContent e = Doc d)"
  shows "read_json_file readable zero fs' = read_json_file readable zero fs"
  using assms
  by (auto simp: read_json_file_def read_backup_json_def unmarshal_fresh_def Let_def
        split: option.splits content.splits)

lemma json_valid_iff: "json_valid c \<longleftrightarrow> (\<exists>t. c = Foreign t) \<or> (\<exists>d. c = Doc d)"
  by (auto simp: json_valid_def split: content.splits)

lemma prefix_keeps_read:
  assumes "n \<le> length (atomic_write_calls (fs Primary) data) - 1" "settled fs" "own_shape fs"
  shows "read_json_file readable zero (exec_calls (take n (atomic_write_calls (fs Primary) data)) fs) =
         read_json_file readable zero fs"
proof (rule read_depends)
  let ?fs' = "exec_calls (take n (atomic_write_calls (fs Primary) data)) fs"
  note c = calls_before_rename [OF assms(1,2)]
  show "?fs' Primary = fs Primary" using c by simp
  show "?fs' Backup = fs Backup \<or> (\<exists>e d. fs Primary = Some e \<and> eContent e = Doc d)"
    using c assms(3) unfolding own_shape_def json_valid_iff by blast
qed

lemma prefix_settled:
  assumes "settled fs"
  shows "settled (exec_calls (take n (atomic_write_calls (fs Primary) data)) fs)"
proof (cases "n \<le> length (atomic_write_calls (fs Primary) data) - 1")
  case True
  then show ?thesis using calls_before_rename [OF True assms] assms
    by (auto simp: settled_def)
next
  case False
  let ?calls = "atomic_write_calls (fs Primary) data"
  obtain pre where pre: "?calls = pre @ [Rename Tmp Primary]"
    by (auto simp: atomic_write_calls_def)
  have "take (length ?calls - 1) ?calls = pre" by (simp add: pre)
  then have b: "exec_calls pre fs Backup = fs Backup \<or>
      (\<exists>c. exec_calls pre fs Backup = Some \<lparr> eContent = c, eSynced = True \<rparr>)"
    using calls_before_rename [OF order_refl assms, of data] by auto
  have "exec_calls ?calls fs Backup = exec_calls pre fs Backup"
    unfolding pre exec_calls_append by simp
  moreover have "take n ?calls = ?calls" using False by simp
  ultimately show ?thesis using b calls_done [of fs data] assms
    by (auto simp: settled_def)
qed


definition sample_fs :: "nat fs" where
  "sample_fs = [Primary \<mapsto> \<lparr> eContent = Doc 1, eSynced = True \<rparr>]"

lemma sample_fs_ok: "settled sample_fs" "own_shape sample_fs"
  by (auto simp: settled_def own_shape_def sample_fs_def)


lemma atomic_write_error:
  assumes "settled fs" "own_shape fs" "atomic_write fault data fs = (Some e, fs')"
  shows "read_json_file readable zero fs' = read_json_file readable zero fs"
    and "settled fs'" and "own_shape fs'"
proof -
  let ?calls = "atomic_write_calls (fs Primary) data"
  obtain n where n: "n < length ?calls"
      "fs' = (exec_calls (take n ?calls) fs)(Tmp := None, BakTmp := None)"
    using assms(3) by (auto simp: atomic_write_def Let_def split: option.splits if_splits)
  have le: "n \<le> length ?calls - 1" using n(1) by simp
  show "read_json_file readable zero fs' = read_json_file readable zero fs"
    using prefix_keeps_read [OF le assms(1,2), of zero] unfolding n(2)
    by (simp add: read_json_file_def read_backup_json_def)
  show "settled fs'"
    using prefix_settled [OF assms(1), of n data] unfolding n(2) by (simp add: settled_def)
  show "own_shape fs'"
    using calls_before_rename [OF le assms(1)] assms(2) unfolding n(2) by (simp add: own_shape_def)
qed

lemma atomic_write_ok:
  assumes "settled fs" "atomic_write fault (Doc d) fs = (None, fs')"
  shows "read_json_file readable zero fs' = Inr d" and "settled fs'" and "own_shape fs'"
    and "fs' = exec_calls (atomic_write_calls (fs Primary) (Doc d)) fs"
proof -
  let ?calls = "atomic_write_calls (fs Primary) (Doc d)"
  show fs': "fs' = exec_calls ?calls fs"
    using assms(2) by (auto simp: atomic_write_def Let_def split: option.splits if_splits)
  have prim: "fs' Primary = Some \<lparr> eContent = Doc d, eSynced = True \<rparr>"
    unfolding fs' by (rule calls_done)
  then show "read_json_file readable zero fs' = Inr d" "own_shape fs'"
    by (simp_all add: read_json_file_def unmarshal_fresh_def own_shape_def)
  show "settled fs'" using prefix_settled [OF assms(1), of "length ?calls" "Doc d"] fs' by simp
qed

text \<open>
  A write that reports an error changes nothing that is read, one that reports success is read
  back, and the version before it is the backup: if the file is damaged afterwards, the previous
  version is recovered.
\<close>

theorem write_result:
  assumes "settled fs" and "own_shape fs"
  shows "(case atomic_write fault (Doc d) fs of
            (Some e, fs') \<Rightarrow> read_json_file readable zero fs' = read_json_file readable zero fs
          | (None, fs') \<Rightarrow> read_json_file readable zero fs' = Inr d \<and> settled fs' \<and> own_shape fs' \<and>
              (\<forall>p s t. fs Primary = Some \<lparr> eContent = Doc p, eSynced = s \<rparr> \<longrightarrow>
                 read_json_file readable zero
                   (fs'(Primary \<mapsto> \<lparr> eContent = Garbage t, eSynced = True \<rparr>)) = Inr p))"
proof (cases "atomic_write fault (Doc d) fs")
  case (Pair r fs')
  show ?thesis
  proof (cases r)
    case (Some e)
    then show ?thesis using atomic_write_error(1) [OF assms] Pair by simp
  next
    case None
    note ok = atomic_write_ok [OF assms(1) Pair [unfolded None]]
    have "read_json_file readable zero (fs'(Primary \<mapsto> \<lparr> eContent = Garbage t, eSynced = True \<rparr>)) = Inr p"
      if "fs Primary = Some \<lparr> eContent = Doc p, eSynced = s \<rparr>" for p s t
      using that unfolding ok(4)
      by (simp add: atomic_write_calls_def write_backup_def json_valid_def read_json_file_def
            read_backup_json_def unmarshal_fresh_def)
    then show ?thesis using ok(1-3) Pair None by auto
  qed
qed

theorem write_result_witness:
  "read_json_file readable 0 (snd (atomic_write None (Doc 2) sample_fs)) = Inr 2"
  using write_result [OF sample_fs_ok, where fault = None and d = 2 and zero = 0]
  by (auto simp: atomic_write_def Let_def)


end
