(* ===== verification/Cred_Store.thy ===== *)
theory Cred_Store
  imports Credential Atomic_Store
begin

text \<open>
  The credential store of \<open>internal/storage\<close>: \<open>store.go\<close>'s lock and file stamp, and the operations of
  \<open>credentials.go\<close> on \<open>credentials.json\<close> with their in-memory cache.  An operation takes the store
  and what its environment does (\<open>io\<close>: the clock, a failing system call of the write, the result
  of \<open>Stat\<close>, the identifier drawn) and returns the store and an error or a value.

  \<open>view\<close> is the abstract state: the list of normalised credentials a reader of the file sees.
\<close>

section \<open>State\<close>

record file_stamp =
  fsExists :: bool
  fsSize :: int
  fsModified :: int
  fsInode :: int

record store =
  stOpen :: bool
  stFs :: "credential list fs"
  stCache :: "credential list"
  stIndex :: "string \<rightharpoonup> credential"
  stStamp :: file_stamp
  stValid :: bool
  stCacheAt :: gotime

record io =
  ioNow :: gotime
  ioLockError :: "goerr option"
  ioUnreadable :: "fname \<Rightarrow> bool"
  ioFault :: "nat option"
  ioStat :: "goerr + file_stamp"
  ioNewID :: "string option"

definition zero_stamp :: file_stamp where
  "zero_stamp = \<lparr> fsExists = False, fsSize = 0, fsModified = 0, fsInode = 0 \<rparr>"

definition same_stamp :: "file_stamp \<Rightarrow> file_stamp \<Rightarrow> bool" where
  "same_stamp l r \<longleftrightarrow>
     (if fsExists l \<noteq> fsExists r \<or> fsSize l \<noteq> fsSize r \<or> fsModified l \<noteq> fsModified r then False
      else if \<not> fsExists l then True else fsInode l = fsInode r)"

definition now_utc :: "io \<Rightarrow> gotime" where
  "now_utc w = trunc_sec (ioNow w)"

text \<open>\<open>withLock\<close>: a closed store or a lock that cannot be taken, before the function runs.\<close>

definition with_lock ::
  "io \<Rightarrow> store \<Rightarrow> (store \<Rightarrow> store \<times> (goerr + 'a)) \<Rightarrow> store \<times> (goerr + 'a)" where
  "with_lock w st body =
     (if \<not> stOpen st then (st, Inl ErrStoreClosed)
      else case ioLockError w of Some e \<Rightarrow> (st, Inl e) | None \<Rightarrow> body st)"

definition close_store :: "store \<Rightarrow> store" where
  "close_store st = st\<lparr> stOpen := False \<rparr>"

section \<open>Loading, saving, cache\<close>

definition load_credentials :: "(string \<Rightarrow> string) \<Rightarrow> io \<Rightarrow> store \<Rightarrow> goerr + credential list" where
  "load_credentials H w st =
     (case read_json_file (ioUnreadable w) [] (stFs st) of
        Inl (ErrNotFound _) \<Rightarrow> Inr []
      | Inl e \<Rightarrow> Inl e
      | Inr doc \<Rightarrow> Inr (map (normalize_credential H) doc))"

fun first_by_id :: "credential list \<Rightarrow> string \<rightharpoonup> credential" where
  "first_by_id [] = Map.empty"
| "first_by_id (c # cs) = (first_by_id cs)(cID c \<mapsto> c)"

definition set_credentials_cache ::
  "io \<Rightarrow> store \<Rightarrow> credential list \<Rightarrow> file_stamp \<Rightarrow> store" where
  "set_credentials_cache w st doc stamp =
     st\<lparr> stCache := doc, stIndex := first_by_id doc, stStamp := stamp, stValid := True,
         stCacheAt := ioNow w \<rparr>"

definition credential_cache_max_age :: duration where
  "credential_cache_max_age = second"

definition ensure_credentials_cache ::
  "(string \<Rightarrow> string) \<Rightarrow> io \<Rightarrow> store \<Rightarrow> store \<times> goerr option" where
  "ensure_credentials_cache H w st =
     (case ioStat w of
        Inl e \<Rightarrow> (st, Some (ErrWrap ''storage: stat credentials'' e))
      | Inr stamp \<Rightarrow>
          if stValid st \<and> same_stamp stamp (stStamp st) \<and>
             time_sub (ioNow w) (stCacheAt st) < credential_cache_max_age
          then (st, None)
          else case load_credentials H w st of
            Inl e \<Rightarrow> (st, Some e)
          | Inr doc \<Rightarrow> (set_credentials_cache w st doc stamp, None))"

definition save_credentials ::
  "(string \<Rightarrow> string) \<Rightarrow> io \<Rightarrow> store \<Rightarrow> credential list \<Rightarrow> store \<times> goerr option" where
  "save_credentials H w st doc0 =
     (let doc = map (normalize_credential H) doc0 in
      case atomic_write (ioFault w) (Doc doc) (stFs st) of
        (Some e, fs) \<Rightarrow> (st\<lparr> stFs := fs \<rparr>, Some e)
      | (None, fs) \<Rightarrow>
          (case ioStat w of
             Inl _ \<Rightarrow> (st\<lparr> stFs := fs, stValid := False \<rparr>, None)
           | Inr stamp \<Rightarrow> (set_credentials_cache w (st\<lparr> stFs := fs \<rparr>) doc stamp, None)))"

text \<open>The shape of every mutation: load, compute a document or an error, save.\<close>

definition mutate_doc ::
  "(string \<Rightarrow> string) \<Rightarrow> io \<Rightarrow> (credential list \<Rightarrow> goerr + (credential list \<times> 'a)) \<Rightarrow> store \<Rightarrow>
   store \<times> (goerr + 'a)" where
  "mutate_doc H w f st =
     with_lock w st (\<lambda>st.
       case load_credentials H w st of
         Inl e \<Rightarrow> (st, Inl e)
       | Inr doc \<Rightarrow>
           (case f doc of
              Inl e \<Rightarrow> (st, Inl e)
            | Inr (doc', r) \<Rightarrow>
                (case save_credentials H w st doc' of
                   (st', Some e) \<Rightarrow> (st', Inl e)
                 | (st', None) \<Rightarrow> (st', Inr r))))"

section \<open>Reading\<close>

text \<open>Byte-wise order of strings.\<close>

definition cred_before :: "credential \<Rightarrow> credential \<Rightarrow> bool" where
  "cred_before a b \<longleftrightarrow>
     (if cPriority a \<noteq> cPriority b then cPriority a > cPriority b else str_less (cID a) (cID b))"

definition with_cache ::
  "(string \<Rightarrow> string) \<Rightarrow> io \<Rightarrow> store \<Rightarrow> (store \<Rightarrow> goerr + 'a) \<Rightarrow> store \<times> (goerr + 'a)" where
  "with_cache H w st f =
     with_lock w st (\<lambda>st. case ensure_credentials_cache H w st of
         (st', Some e) \<Rightarrow> (st', Inl e)
       | (st', None) \<Rightarrow> (st', f st'))"

definition list_credentials ::
  "(string \<Rightarrow> string) \<Rightarrow> io \<Rightarrow> store \<Rightarrow> store \<times> (goerr + credential list)" where
  "list_credentials H w st = with_cache H w st (\<lambda>st. Inr (sort_stable cred_before (stCache st)))"

definition candidate_of :: "credential \<Rightarrow> credential" where
  "candidate_of c = zero_credential\<lparr> cID := cID c, cEnabled := cEnabled c, cPriority := cPriority c,
     cCooldownUntil := cCooldownUntil c,
     cRateLimitRemainingRequests := cRateLimitRemainingRequests c,
     cRateLimitRemainingTokens := cRateLimitRemainingTokens c \<rparr>"

definition list_candidates ::
  "(string \<Rightarrow> string) \<Rightarrow> io \<Rightarrow> store \<Rightarrow> store \<times> (goerr + credential list)" where
  "list_candidates H w st =
     with_cache H w st (\<lambda>st. Inr (sort_stable cred_before (map candidate_of (stCache st))))"

definition get_credential ::
  "(string \<Rightarrow> string) \<Rightarrow> io \<Rightarrow> store \<Rightarrow> string \<Rightarrow> store \<times> (goerr + credential)" where
  "get_credential H w st cid =
     with_cache H w st (\<lambda>st. case stIndex st cid of
         None \<Rightarrow> Inl (ErrNotFound cid)
       | Some c \<Rightarrow> Inr c)"

section \<open>Creating\<close>

definition create_credential ::
  "(string \<Rightarrow> string) \<Rightarrow> url_parser \<Rightarrow> io \<Rightarrow> store \<Rightarrow> cred_input \<Rightarrow> store \<times> (goerr + credential)" where
  "create_credential H parse w st i =
     (case validate_input parse i of
        Some e \<Rightarrow> (st, Inl e)
      | None \<Rightarrow> mutate_doc H w (\<lambda>doc.
          case find (\<lambda>c. same_credential_identity H c i) doc of
            Some c \<Rightarrow> Inl (ErrCredentialExists (cID c))
          | None \<Rightarrow>
              (case new_credential H (ioNewID w) i (now_utc w) of
                 Inl e \<Rightarrow> Inl e | Inr c \<Rightarrow> Inr (doc @ [c], c))) st)"

definition upsert_credential ::
  "(string \<Rightarrow> string) \<Rightarrow> url_parser \<Rightarrow> io \<Rightarrow> store \<Rightarrow> cred_input \<Rightarrow>
   store \<times> (goerr + credential \<times> bool)" where
  "upsert_credential H parse w st i =
     (case validate_input parse i of
        Some e \<Rightarrow> (st, Inl e)
      | None \<Rightarrow> mutate_doc H w (\<lambda>doc. upsert_doc H (ioNewID w) doc i (now_utc w)) st)"

text \<open>\<open>ids\<close> are the identifiers the creations of the batch draw.\<close>

fun bulk_doc ::
  "(string \<Rightarrow> string) \<Rightarrow> (nat \<Rightarrow> string option) \<Rightarrow> gotime \<Rightarrow> nat \<Rightarrow> credential list \<Rightarrow> cred_input list \<Rightarrow>
   goerr + (credential list \<times> (credential \<times> bool) list)" where
  "bulk_doc H ids now n doc [] = Inr (doc, [])"
| "bulk_doc H ids now n doc (i # is) =
     (case upsert_doc H (ids n) doc i now of
        Inl e \<Rightarrow> Inl e
      | Inr (doc', c, created) \<Rightarrow>
          (case bulk_doc H ids now (Suc n) doc' is of
             Inl e \<Rightarrow> Inl e
           | Inr (doc'', rs) \<Rightarrow> Inr (doc'', (c, created) # rs)))"

fun first_error :: "('a \<Rightarrow> goerr option) \<Rightarrow> 'a list \<Rightarrow> goerr option" where
  "first_error v [] = None"
| "first_error v (x # xs) = (case v x of Some e \<Rightarrow> Some e | None \<Rightarrow> first_error v xs)"

definition bulk_upsert_credentials ::
  "(string \<Rightarrow> string) \<Rightarrow> url_parser \<Rightarrow> (nat \<Rightarrow> string option) \<Rightarrow> io \<Rightarrow> store \<Rightarrow> cred_input list \<Rightarrow>
   store \<times> (goerr + (credential \<times> bool) list)" where
  "bulk_upsert_credentials H parse ids w st is =
     (if is = [] then (st, Inr [])
      else case first_error (validate_input parse) is of
        Some e \<Rightarrow> (st, Inl e)
      | None \<Rightarrow> mutate_doc H w (\<lambda>doc. bulk_doc H ids (now_utc w) 0 doc is) st)"

section \<open>Updating and deleting\<close>

definition err_id_required :: goerr where
  "err_id_required = ErrText ''storage: credential id required''"

definition index_of :: "credential list \<Rightarrow> string \<Rightarrow> nat option" where
  "index_of doc cid = find_index (\<lambda>c. cID c = cid) doc"

text \<open>What \<open>UpdateCredential\<close> and \<open>PatchCredential\<close> write whatever the caller put there.\<close>

definition stamp_mutation :: "credential \<Rightarrow> gotime \<Rightarrow> credential \<Rightarrow> credential" where
  "stamp_mutation old now c = c\<lparr> cID := cID old, cCreatedAt := cCreatedAt old,
     cRevision := cRevision old + 1, cUpdatedAt := now,
     cExpiresAt := (if cExpiresAt c \<noteq> zero_time then trunc_sec (cExpiresAt c) else cExpiresAt c) \<rparr>"

definition update_credential ::
  "(string \<Rightarrow> string) \<Rightarrow> io \<Rightarrow> store \<Rightarrow> credential \<Rightarrow> store \<times> (goerr + credential)" where
  "update_credential H w st c =
     (if cID c = [] then (st, Inl err_id_required)
      else mutate_doc H w (\<lambda>doc. case index_of doc (cID c) of
          None \<Rightarrow> Inl (ErrNotFound (cID c))
        | Some k \<Rightarrow> (let c' = stamp_mutation (doc ! k) (now_utc w) c in Inr (doc[k := c'], c'))) st)"

definition patch_credential ::
  "(string \<Rightarrow> string) \<Rightarrow> io \<Rightarrow> store \<Rightarrow> string \<Rightarrow> (credential \<Rightarrow> goerr + credential) \<Rightarrow>
   store \<times> (goerr + credential)" where
  "patch_credential H w st cid mutate =
     (if cid = [] then (st, Inl err_id_required)
      else mutate_doc H w (\<lambda>doc. case index_of doc cid of
          None \<Rightarrow> Inl (ErrNotFound cid)
        | Some k \<Rightarrow>
            (case mutate (doc ! k) of
               Inl e \<Rightarrow> Inl e
             | Inr c \<Rightarrow> (let c' = stamp_mutation (doc ! k) (now_utc w) c in Inr (doc[k := c'], c')))) st)"

definition delete_credential ::
  "(string \<Rightarrow> string) \<Rightarrow> io \<Rightarrow> store \<Rightarrow> string \<Rightarrow> store \<times> (goerr + unit)" where
  "delete_credential H w st cid =
     mutate_doc H w (\<lambda>doc.
       if list_ex (\<lambda>c. cID c = cid) doc then Inr (filter (\<lambda>c. cID c \<noteq> cid) doc, ())
       else Inl (ErrNotFound cid)) st"

text \<open>The evidence a deletion of a quarantined credential needs, compared under the lock.\<close>

definition purge_eligible ::
  "(string \<Rightarrow> string) \<Rightarrow> gotime \<Rightarrow> gotime \<Rightarrow> string \<Rightarrow> credential \<Rightarrow> bool" where
  "purge_eligible H now expected_after expected_fp c \<longleftrightarrow>
     \<not> (cManualDisabled c \<or> cEnabled c \<or> cLifecycleState c \<noteq> st_quarantined \<or>
        cDisableReason c \<noteq> reason_invalid_auth \<or>
        (case cPurgeAfter c of None \<Rightarrow> True | Some t \<Rightarrow> t > now \<or> t \<noteq> expected_after) \<or>
        cQuarantineTokenFingerprint c \<noteq> expected_fp \<or> token_fingerprint H c \<noteq> expected_fp)"

definition delete_if_purge_eligible ::
  "(string \<Rightarrow> string) \<Rightarrow> io \<Rightarrow> store \<Rightarrow> string \<Rightarrow> u64 \<Rightarrow> gotime \<Rightarrow> string \<Rightarrow> store \<times> (goerr + bool)" where
  "delete_if_purge_eligible H w st cid expected_rev after0 fp0 =
     (if trim_space cid = [] then (st, Inl err_id_required)
      else
        let after = trunc_sec after0; fp = trim_space fp0 in
        if after = zero_time \<or> fp = [] then (st, Inl (ErrText ''storage: purge evidence required''))
        else with_lock w st (\<lambda>st.
          case load_credentials H w st of
            Inl e \<Rightarrow> (st, Inl e)
          | Inr doc \<Rightarrow>
              (case index_of doc cid of
                 None \<Rightarrow> (st, Inl (ErrNotFound cid))
               | Some k \<Rightarrow>
                   if cRevision (doc ! k) \<noteq> expected_rev \<or> \<not> purge_eligible H (now_utc w) after fp (doc ! k)
                   then (st, Inr False)
                   else (case save_credentials H w st (take k doc @ drop (Suc k) doc) of
                           (st', Some e) \<Rightarrow> (st', Inl e)
                         | (st', None) \<Rightarrow> (st', Inr True)))))"

section \<open>Named mutations\<close>

definition enabled_mutation :: "bool \<Rightarrow> credential \<Rightarrow> goerr + credential" where
  "enabled_mutation enabled c = Inr
     (let c1 = c\<lparr> cEnabled := enabled, cManualDisabled := \<not> enabled \<rparr> in
      if enabled
      then c1\<lparr> cLifecycleState := st_active, cDisableReason := [], cQuarantinedAt := None,
               cPurgeAfter := None, cQuarantineTokenFingerprint := [], cConsecutiveUnauthorized := 0 \<rparr>
      else c1\<lparr> cDisableReason := reason_manual \<rparr>)"

definition set_credential_enabled ::
  "(string \<Rightarrow> string) \<Rightarrow> io \<Rightarrow> store \<Rightarrow> string \<Rightarrow> bool \<Rightarrow> store \<times> (goerr + credential)" where
  "set_credential_enabled H w st cid enabled = patch_credential H w st cid (enabled_mutation enabled)"

definition quarantine_mutation ::
  "(string \<Rightarrow> string) \<Rightarrow> string \<Rightarrow> gotime \<Rightarrow> gotime option \<Rightarrow> credential \<Rightarrow> goerr + credential" where
  "quarantine_mutation H reason at purge_after c = Inr
     (if cManualDisabled c then c
      else (let c1 = c\<lparr> cEnabled := False, cLifecycleState := st_quarantined,
                 cDisableReason := first_non_empty [trim_space reason, reason_invalid_auth],
                 cQuarantinedAt := Some (trunc_sec at),
                 cPurgeAfter := map_option trunc_sec purge_after \<rparr> in
            c1\<lparr> cQuarantineTokenFingerprint := token_fingerprint H c1 \<rparr>))"

definition quarantine_credential ::
  "(string \<Rightarrow> string) \<Rightarrow> io \<Rightarrow> store \<Rightarrow> string \<Rightarrow> string \<Rightarrow> gotime \<Rightarrow> gotime option \<Rightarrow>
   store \<times> (goerr + credential)" where
  "quarantine_credential H w st cid reason at purge_after =
     patch_credential H w st cid (quarantine_mutation H reason at purge_after)"

definition set_credential_priority ::
  "(string \<Rightarrow> string) \<Rightarrow> io \<Rightarrow> store \<Rightarrow> string \<Rightarrow> int \<Rightarrow> store \<times> (goerr + credential)" where
  "set_credential_priority H w st cid p = patch_credential H w st cid (\<lambda>c. Inr (c\<lparr> cPriority := p \<rparr>))"

section \<open>Inspection actions\<close>

datatype insp_kind =
  KindHealthy | KindFailure | KindQuarantine | KindPurge | KindAttempt | KindOther string

record insp_action =
  aID :: string
  aExpectedRevision :: u64
  aKind :: insp_kind
  aAt :: gotime
  aStatus :: string
  aMessage :: string
  aPurgeAfter :: "gotime option"
  aCooldownUntil :: "gotime option"
  aExpectedPurgeAfter :: "gotime option"
  aExpectedTokenFingerprint :: string
  aResetQuarantineEvidence :: bool

record insp_result =
  irID :: string
  irKind :: insp_kind
  irApplied :: bool
  irDeleted :: bool
  irReactivated :: bool
  irQuarantined :: bool
  irAttemptRecorded :: bool

definition no_result :: "insp_action \<Rightarrow> insp_result" where
  "no_result a = \<lparr> irID = aID a, irKind = aKind a, irApplied = False, irDeleted = False,
     irReactivated = False, irQuarantined = False, irAttemptRecorded = False \<rparr>"

fun check_actions :: "string list \<Rightarrow> insp_action list \<Rightarrow> goerr option" where
  "check_actions seen [] = None"
| "check_actions seen (a # as) =
     (let k = trim_space (aID a) in
      if k = [] then Some (ErrText ''storage: inspection action credential id required'')
      else if k \<in> set seen then Some (ErrText ''storage: duplicate inspection action for credential'')
      else case aKind a of
        KindOther _ \<Rightarrow> Some (ErrText ''storage: invalid inspection action'')
      | _ \<Rightarrow> check_actions (k # seen) as)"

definition attempt_changed :: "gotime \<Rightarrow> gotime \<Rightarrow> credential \<Rightarrow> credential" where
  "attempt_changed now at c = c\<lparr> cLastInspectionAt := Some at,
     cLastInspectionStatus := ''state_changed'',
     cLastInspectionError := ''credential changed during inspection'',
     cRevision := cRevision c + 1, cUpdatedAt := now \<rparr>"

definition reset_evidence ::
  "(string \<Rightarrow> string) \<Rightarrow> gotime \<Rightarrow> insp_action \<Rightarrow> credential \<Rightarrow> credential" where
  "reset_evidence H at a c =
     (let matches = (case (cPurgeAfter c, aExpectedPurgeAfter a) of
                       (None, None) \<Rightarrow> True
                     | (Some p, Some e) \<Rightarrow> p = trunc_sec e
                     | _ \<Rightarrow> False) in
      if aResetQuarantineEvidence a \<and> \<not> cEnabled c \<and> \<not> cManualDisabled c \<and>
         cLifecycleState c = st_quarantined \<and> cDisableReason c = reason_invalid_auth \<and> matches \<and>
         cQuarantineTokenFingerprint c = aExpectedTokenFingerprint a
      then (let c1 = c\<lparr> cQuarantinedAt := Some at, cPurgeAfter := map_option trunc_sec (aPurgeAfter a) \<rparr>
            in c1\<lparr> cQuarantineTokenFingerprint := token_fingerprint H c1 \<rparr>)
      else c)"

definition act_healthy :: "gotime \<Rightarrow> credential \<Rightarrow> credential \<times> bool" where
  "act_healthy at c =
     (let c1 = c\<lparr> cLastInspectionAt := Some at, cLastInspectionStatus := ''healthy'',
                   cLastInspectionError := [], cConsecutiveUnauthorized := 0 \<rparr> in
      if cLifecycleState c1 = st_quarantined \<and> cDisableReason c1 = reason_invalid_auth \<and>
         \<not> cManualDisabled c1
      then (c1\<lparr> cEnabled := True, cLifecycleState := st_active, cDisableReason := [],
                cQuarantinedAt := None, cPurgeAfter := None, cQuarantineTokenFingerprint := [] \<rparr>, True)
      else (c1, False))"

definition act_failure :: "gotime \<Rightarrow> insp_action \<Rightarrow> credential \<Rightarrow> credential" where
  "act_failure at a c =
     (let status = trim_space (aStatus a) in
      c\<lparr> cLastInspectionAt := Some at, cLastInspectionStatus := status,
         cLastInspectionError := trim_space (aMessage a),
         cConsecutiveUnauthorized :=
           (if status = ''mass_failure_guard'' then cConsecutiveUnauthorized c + 1
            else if status \<noteq> ''unauthorized'' then 0 else cConsecutiveUnauthorized c),
         cCooldownUntil := (case aCooldownUntil a of Some u \<Rightarrow> Some (trunc_sec u)
                            | None \<Rightarrow> cCooldownUntil c) \<rparr>)"

definition act_quarantine ::
  "(string \<Rightarrow> string) \<Rightarrow> gotime \<Rightarrow> insp_action \<Rightarrow> credential \<Rightarrow> credential" where
  "act_quarantine H at a c =
     (let c1 = c\<lparr> cEnabled := False, cLifecycleState := st_quarantined,
                   cDisableReason := reason_invalid_auth,
                   cQuarantinedAt := (case cQuarantinedAt c of None \<Rightarrow> Some at | Some t \<Rightarrow> Some t),
                   cPurgeAfter := (case cPurgeAfter c of Some t \<Rightarrow> Some t
                                   | None \<Rightarrow> map_option trunc_sec (aPurgeAfter a)) \<rparr> in
      c1\<lparr> cQuarantineTokenFingerprint :=
             (if cQuarantineTokenFingerprint c1 = [] then token_fingerprint H c1
              else cQuarantineTokenFingerprint c1),
          cLastInspectionAt := Some at, cLastInspectionStatus := ''unauthorized'',
          cLastInspectionError := ''confirmed unauthorized'',
          cConsecutiveUnauthorized := cConsecutiveUnauthorized c1 + 1 \<rparr>)"

text \<open>The loop state: the document, the indexes deleted so far, whether anything changed.  One
  iteration also yields the action's result.\<close>

type_synonym insp_state = "credential list \<times> nat set \<times> bool"

definition last_index_of :: "credential list \<Rightarrow> string \<Rightarrow> nat option" where
  "last_index_of doc cid =
     (case find_index (\<lambda>c. cID c = cid) (rev doc) of
        None \<Rightarrow> None | Some k \<Rightarrow> Some (length doc - 1 - k))"

definition apply_kind ::
  "(string \<Rightarrow> string) \<Rightarrow> gotime \<Rightarrow> gotime \<Rightarrow> insp_action \<Rightarrow> credential \<Rightarrow> credential \<times> insp_result" where
  "apply_kind H now at a c =
     (let r = no_result a in
      case aKind a of
        KindHealthy \<Rightarrow>
          (let (c', re) = act_healthy at c in (c', r\<lparr> irApplied := True, irReactivated := re \<rparr>))
      | KindAttempt \<Rightarrow>
          (c\<lparr> cLastInspectionAt := Some at, cLastInspectionStatus := trim_space (aStatus a),
              cLastInspectionError := trim_space (aMessage a) \<rparr>, r\<lparr> irApplied := True \<rparr>)
      | KindFailure \<Rightarrow> (act_failure at a c, r\<lparr> irApplied := True \<rparr>)
      | KindQuarantine \<Rightarrow>
          (if cManualDisabled c then (c, r)
           else (act_quarantine H at a c, r\<lparr> irApplied := True,
                 irQuarantined := \<not> (cLifecycleState c = st_quarantined \<and>
                                     cDisableReason c = reason_invalid_auth) \<rparr>))
      | KindPurge \<Rightarrow>
          (let fp = trim_space (aExpectedTokenFingerprint a) in
           case aExpectedPurgeAfter a of
             None \<Rightarrow> (c, r)
           | Some e \<Rightarrow>
               if fp = [] \<or> \<not> purge_eligible H now (trunc_sec e) fp c then (c, r)
               else (c, r\<lparr> irApplied := True, irDeleted := True \<rparr>))
      | KindOther _ \<Rightarrow> (c, r))"

definition inspect_step ::
  "(string \<Rightarrow> string) \<Rightarrow> gotime \<Rightarrow> (string \<Rightarrow> nat option) \<Rightarrow> insp_action \<Rightarrow> insp_state \<Rightarrow>
   insp_state \<times> insp_result" where
  "inspect_step H now index a s =
     (case s of (doc, deleted, changed) \<Rightarrow>
        case index (aID a) of
          None \<Rightarrow> (s, no_result a)
        | Some k \<Rightarrow>
            let c = doc ! k; at = (if trunc_sec (aAt a) = zero_time then now else trunc_sec (aAt a)) in
            if cRevision c \<noteq> aExpectedRevision a
            then ((doc[k := attempt_changed now at c], deleted, True),
                  (no_result a)\<lparr> irAttemptRecorded := True \<rparr>)
            else
              let (c1, r) = apply_kind H now at a (reset_evidence H at a c);
                  c2 = c1\<lparr> cRevision := cRevision c1 + 1, cUpdatedAt := now,
                           cExpiresAt := (if cExpiresAt c1 \<noteq> zero_time then trunc_sec (cExpiresAt c1)
                                          else cExpiresAt c1) \<rparr> in
              ((if irApplied r \<and> \<not> irDeleted r then doc[k := c2] else doc,
                if irDeleted r then insert k deleted else deleted,
                changed \<or> irApplied r), r))"

fun inspect_steps ::
  "(string \<Rightarrow> string) \<Rightarrow> gotime \<Rightarrow> (string \<Rightarrow> nat option) \<Rightarrow> insp_action list \<Rightarrow> insp_state \<Rightarrow>
   insp_state \<times> insp_result list" where
  "inspect_steps H now index [] s = (s, [])"
| "inspect_steps H now index (a # as) s =
     (let (s1, r) = inspect_step H now index a s; (s2, rs) = inspect_steps H now index as s1 in
      (s2, r # rs))"

definition drop_deleted :: "credential list \<Rightarrow> nat set \<Rightarrow> credential list" where
  "drop_deleted doc deleted = map snd (filter (\<lambda>(k, _). k \<notin> deleted) (zip [0..<length doc] doc))"

definition apply_inspection_actions ::
  "(string \<Rightarrow> string) \<Rightarrow> io \<Rightarrow> store \<Rightarrow> insp_action list \<Rightarrow> store \<times> (goerr + insp_result list)" where
  "apply_inspection_actions H w st as =
     (if as = [] then (st, Inr [])
      else case check_actions [] as of
        Some e \<Rightarrow> (st, Inl e)
      | None \<Rightarrow> with_lock w st (\<lambda>st.
          case load_credentials H w st of
            Inl e \<Rightarrow> (st, Inl e)
          | Inr doc \<Rightarrow>
              (let ((doc1, deleted, changed), rs) =
                     inspect_steps H (now_utc w) (last_index_of doc) as (doc, {}, False) in
               if \<not> changed then (st, Inr rs)
               else (case save_credentials H w st (drop_deleted doc1 deleted) of
                       (st', Some e) \<Rightarrow> (st', Inl e)
                     | (st', None) \<Rightarrow> (st', Inr rs)))))"

end
