(* ===== verification/Store_Interface.thy ===== *)
theory Store_Interface
  imports Credential
begin

text \<open>
  The interface through which the selector (\<open>lb.healthStore\<close>), the refresher (\<open>auth.CredentialStore\<close>)
  and the executor see the credential store: the stored credential of an identifier and the
  mutation of one credential under the lock.  The laws are what these clients rely on.
\<close>

locale credential_store =
  fixes ok :: "'st \<Rightarrow> bool"
    and stored :: "'st \<Rightarrow> string \<Rightarrow> credential option"
    and patch :: "'st \<Rightarrow> string \<Rightarrow> (credential \<Rightarrow> goerr + credential) \<Rightarrow> 'st \<times> (goerr + credential)"
    and stamp :: "credential \<Rightarrow> credential \<Rightarrow> credential"
    and norm :: "credential \<Rightarrow> credential"
  assumes patch_ok: "ok st \<Longrightarrow> ok (fst (patch st cid f))"
    and patch_other: "ok st \<Longrightarrow> k \<noteq> cid \<Longrightarrow> stored (fst (patch st cid f)) k = stored st k"
    and patch_fails: "ok st \<Longrightarrow> snd (patch st cid f) = Inl e \<Longrightarrow>
          stored (fst (patch st cid f)) cid = stored st cid"
    and patch_applies: "ok st \<Longrightarrow> snd (patch st cid f) = Inr r \<Longrightarrow>
          \<exists>old new. stored st cid = Some old \<and> f old = Inr new \<and> r = stamp old new \<and>
                    stored (fst (patch st cid f)) cid = Some (norm r)"
    and stamp_id: "cID (stamp old new) = cID old"
    and stamp_revision: "cRevision (stamp old new) = cRevision old + 1"
    and stamp_tokens: "cAccessToken (stamp old new) = cAccessToken new"
          "cRefreshToken (stamp old new) = cRefreshToken new"
    and stamp_enabled: "cEnabled (stamp old new) = cEnabled new"
    and stamp_health: "cFailureCount (stamp old new) = cFailureCount new"
          "cCooldownUntil (stamp old new) = cCooldownUntil new"
          "cLastError (stamp old new) = cLastError new"
          "cLastSuccessAt (stamp old new) = cLastSuccessAt new"
    and norm_fields: "cID (norm c) = cID c" "cRevision (norm c) = cRevision c"
          "cAccessToken (norm c) = cAccessToken c" "cRefreshToken (norm c) = cRefreshToken c"
          "cEnabled (norm c) = cEnabled c" "cFailureCount (norm c) = cFailureCount c"
          "cCooldownUntil (norm c) = cCooldownUntil c" "cLastError (norm c) = cLastError c"
          "cLastSuccessAt (norm c) = cLastSuccessAt c"
begin

text \<open>A mutation leaves the stored credential as it was or replaces it by the stamped result.\<close>

lemma patch_cases:
  assumes "ok st"
  shows "stored (fst (patch st cid f)) cid = stored st cid \<or>
         (\<exists>old new. stored st cid = Some old \<and> f old = Inr new \<and>
                    stored (fst (patch st cid f)) cid = Some (norm (stamp old new)))"
proof (cases "snd (patch st cid f)")
  case (Inl e)
  then show ?thesis using patch_fails [OF assms] by blast
next
  case (Inr r)
  then show ?thesis using patch_applies [OF assms] by blast
qed

lemma patch_never_creates:
  assumes "ok st" "stored st cid = None"
  shows "stored (fst (patch st cid f)) k = stored st k"
proof (cases "k = cid")
  case True
  then show ?thesis using patch_cases [OF assms(1), of cid f] assms(2) by auto
qed (use patch_other [OF assms(1)] in simp)

text \<open>A successful mutation always raises the revision, so that evidence taken before it no longer
  matches.\<close>

lemma patch_moves_revision:
  assumes "ok st" "snd (patch st cid f) = Inr r" "stored st cid = Some old"
  shows "cRevision r = cRevision old + 1 \<and> cRevision r \<noteq> cRevision old"
  using patch_applies [OF assms(1,2)] assms(3) stamp_revision by auto

end

end
