(* ===== verification/Cred_Store_Props.thy ===== *)
theory Cred_Store_Props
  imports Cred_Store Store_Interface
begin

text \<open>
  The credential store refines a list of credentials: \<open>view\<close> is that list, \<open>store_ok\<close> the invariant of
  file and cache, every mutation acts on the view as its document function says or leaves it alone,
  and reads answer from the view.
\<close>

section \<open>The abstract state\<close>

definition quiet :: "io \<Rightarrow> bool" where
  "quiet w \<longleftrightarrow> ioUnreadable w = readable"

definition view :: "(string \<Rightarrow> string) \<Rightarrow> store \<Rightarrow> credential list option" where
  "view H st = (case read_json_file readable [] (stFs st) of
       Inr doc \<Rightarrow> Some (map (normalize_credential H) doc)
     | Inl (ErrNotFound _) \<Rightarrow> Some []
     | Inl _ \<Rightarrow> None)"

definition store_ok :: "(string \<Rightarrow> string) \<Rightarrow> store \<Rightarrow> bool" where
  "store_ok H st \<longleftrightarrow> settled (stFs st) \<and> own_shape (stFs st) \<and>
     (stValid st \<longrightarrow> view H st = Some (stCache st) \<and> stIndex st = first_by_id (stCache st))"

lemma load_view:
  assumes "quiet w"
  shows "load_credentials H w st = Inr doc \<longleftrightarrow> view H st = Some doc"
  using assms
  unfolding load_credentials_def view_def quiet_def
  by (cases "read_json_file readable [] (stFs st)") (auto split: goerr.splits)

lemma with_lock_closed:
  assumes "\<not> (stOpen st \<and> ioLockError w = None)" "with_lock w st f = (st', r)"
  shows "st' = st \<and> (\<exists>e. r = Inl e)"
  using assms by (cases "stOpen st"; cases "ioLockError w") (auto simp: with_lock_def)

lemma view_normal: "view H st = Some doc \<Longrightarrow> map (normalize_credential H) doc = doc"
  by (auto simp: view_def split: sum.splits goerr.splits)

lemma first_by_id_find: "first_by_id cs cid = find (\<lambda>c. cID c = cid) cs"
  by (induction cs) auto

lemma set_cache_fields [frame, simp]:
  "stFs (set_credentials_cache w st doc stamp) = stFs st"
  "stOpen (set_credentials_cache w st doc stamp) = stOpen st"
  "stCache (set_credentials_cache w st doc stamp) = doc"
  "stIndex (set_credentials_cache w st doc stamp) = first_by_id doc"
  "stValid (set_credentials_cache w st doc stamp) = True"
  by (simp_all add: set_credentials_cache_def)

lemma view_cong: "stFs st' = stFs st \<Longrightarrow> view H st' = view H st"
  by (simp add: view_def)

lemma set_cache_view [simp]: "view H (set_credentials_cache w st doc stamp) = view H st"
  by (rule view_cong) simp

lemma ensure_ok:
  assumes "quiet w" "store_ok H st" "ensure_credentials_cache H w st = (st', r)"
  shows "store_ok H st' \<and> view H st' = view H st \<and>
         (r = None \<longrightarrow> view H st = Some (stCache st') \<and> stIndex st' = first_by_id (stCache st'))"
proof (cases "ioStat w")
  case (Inl e)
  then show ?thesis using assms by (auto simp: ensure_credentials_cache_def)
next
  case (Inr stamp)
  let ?hit = "stValid st \<and> same_stamp stamp (stStamp st) \<and>
      time_sub (ioNow w) (stCacheAt st) < credential_cache_max_age"
  show ?thesis
  proof (cases ?hit)
    case True
    then show ?thesis using assms Inr by (simp add: ensure_credentials_cache_def store_ok_def)
  next
    case False
    then have e: "ensure_credentials_cache H w st = (case load_credentials H w st of
        Inl e \<Rightarrow> (st, Some e) | Inr doc \<Rightarrow> (set_credentials_cache w st doc stamp, None))"
      unfolding ensure_credentials_cache_def Inr by (simp only: sum.case if_False)
    show ?thesis
    proof (cases "load_credentials H w st")
      case (Inl x)
      then have "st' = st \<and> r = Some x" using assms(3) e by simp
      then show ?thesis using assms(2) by simp
    next
      case doc: (Inr doc)
      then have "view H st = Some doc" using load_view [OF assms(1)] by blast
      moreover have "st' = set_credentials_cache w st doc stamp" using assms(3) e doc by simp
      ultimately show ?thesis using assms(2) by (simp add: store_ok_def)
    qed
  qed
qed

lemma save_ok:
  assumes "store_ok H st" "save_credentials H w st doc = (st', r)"
  shows "store_ok H st' \<and>
         (case r of None \<Rightarrow> view H st' = Some (map (normalize_credential H) doc)
          | Some _ \<Rightarrow> view H st' = view H st)"
proof -
  let ?doc = "map (normalize_credential H) doc"
  have fs: "settled (stFs st)" "own_shape (stFs st)" using assms(1) by (auto simp: store_ok_def)
  obtain e fs' where wr: "atomic_write (ioFault w) (Doc ?doc) (stFs st) = (e, fs')" by fastforce
  show ?thesis
  proof (cases e)
    case (Some err)
    note er = atomic_write_error [OF fs wr [unfolded Some]]
    have "st' = st\<lparr>stFs := fs'\<rparr>" "r = Some err"
      using assms(2) wr Some by (auto simp: save_credentials_def Let_def)
    then show ?thesis using assms(1) er by (simp add: store_ok_def view_def)
  next
    case None
    note okw = atomic_write_ok [OF fs(1) wr [unfolded None]]
    show ?thesis
      using assms(2) wr None okw(1-3)
      by (auto simp: save_credentials_def Let_def store_ok_def view_def set_credentials_cache_def
            split: sum.splits)
  qed
qed

text \<open>The refinement of every mutation that is an application of \<open>mutate_doc\<close>.\<close>

lemma mutate_refines:
  assumes "quiet w" "store_ok H st" "mutate_doc H w f st = (st', r)"
  shows "store_ok H st' \<and>
         (case r of
            Inr x \<Rightarrow> \<exists>doc doc'. view H st = Some doc \<and> f doc = Inr (doc', x) \<and>
                       view H st' = Some (map (normalize_credential H) doc')
          | Inl e \<Rightarrow> view H st' = view H st)"
proof (cases "stOpen st \<and> ioLockError w = None")
  case False
  then have "st' = st \<and> (\<exists>e. r = Inl e)"
    using assms(3) with_lock_closed unfolding mutate_doc_def by blast
  then show ?thesis using assms(2) by auto
next
  case open': True
  show ?thesis
  proof (cases "load_credentials H w st")
    case (Inl e)
    then have "st' = st \<and> r = Inl e" using assms(3) open' by (simp add: mutate_doc_def with_lock_def)
    then show ?thesis using assms(2) by simp
  next
    case doc: (Inr doc)
    then have v: "view H st = Some doc" using load_view [OF assms(1)] by blast
    show ?thesis
    proof (cases "f doc")
      case (Inl e)
      then have "st' = st \<and> r = Inl e"
        using assms(3) open' doc by (simp add: mutate_doc_def with_lock_def)
      then show ?thesis using assms(2) by simp
    next
      case (Inr p)
      obtain doc' x where p: "p = (doc', x)" by fastforce
      obtain st1 e where sv: "save_credentials H w st doc' = (st1, e)" by fastforce
      have "st' = st1" "r = (case e of None \<Rightarrow> Inr x | Some er \<Rightarrow> Inl er)"
        using assms(3) open' doc Inr p sv
        by (auto simp: mutate_doc_def with_lock_def split: option.splits)
      then show ?thesis using save_ok [OF assms(2) sv] v Inr p by (cases e) auto
    qed
  qed
qed

lemma with_cache_reads:
  assumes "quiet w" "store_ok H st" "with_cache H w st f = (st', r)"
  shows "store_ok H st' \<and> view H st' = view H st \<and>
         (\<forall>x. r = Inr x \<longrightarrow> (\<exists>doc. view H st = Some doc \<and> stCache st' = doc \<and>
                stIndex st' = first_by_id doc \<and> f st' = Inr x))"
proof (cases "stOpen st \<and> ioLockError w = None")
  case False
  then have "st' = st \<and> (\<exists>e. r = Inl e)"
    using assms(3) with_lock_closed unfolding with_cache_def by blast
  then show ?thesis using assms(2) by auto
next
  case True
  obtain st1 e where en: "ensure_credentials_cache H w st = (st1, e)" by fastforce
  have "st' = st1 \<and> r = (case e of None \<Rightarrow> f st1 | Some er \<Rightarrow> Inl er)"
    using assms(3) True en by (cases e) (auto simp: with_cache_def with_lock_def)
  then show ?thesis using ensure_ok [OF assms(1,2) en] by (cases e) auto
qed

section \<open>Reads\<close>

lemma cred_before_asym: "cred_before a b \<Longrightarrow> \<not> cred_before b a"
  using str_less_asym by (auto simp: cred_before_def split: if_splits)

lemma cred_before_neg_trans: "\<not> cred_before b a \<Longrightarrow> \<not> cred_before c b \<Longrightarrow> \<not> cred_before c a"
  using str_less_neg_trans by (fastforce simp: cred_before_def split: if_splits)

lemma sorted_by_cred_before: "sorted_wrt (\<lambda>a b. \<not> cred_before b a) (sort_stable cred_before cs)"
  by (rule sort_stable_sorted [OF cred_before_neg_trans cred_before_asym])

lemma get_reads:
  assumes "quiet w" "store_ok H st" "get_credential H w st cid = (st', r)"
  shows "store_ok H st' \<and> view H st' = view H st \<and>
         (\<forall>c. r = Inr c \<longrightarrow> (\<exists>doc. view H st = Some doc \<and> find (\<lambda>c. cID c = cid) doc = Some c))"
  using with_cache_reads [OF assms(1,2) assms(3) [unfolded get_credential_def]]
  by (auto simp: first_by_id_find split: option.splits)


section \<open>Single-credential mutations\<close>

definition stored :: "(string \<Rightarrow> string) \<Rightarrow> store \<Rightarrow> string \<Rightarrow> credential option" where
  "stored H st cid = (case view H st of None \<Rightarrow> None | Some doc \<Rightarrow> find (\<lambda>c. cID c = cid) doc)"

lemma find_update_same:
  assumes "index_of doc cid = Some k" "cID c' = cid"
  shows "find (\<lambda>c. cID c = cid) (doc[k := c']) = Some c' \<and> find (\<lambda>c. cID c = cid) doc = Some (doc ! k)"
  using assms unfolding index_of_def
  by (induction doc arbitrary: k) (auto split: if_splits)

lemma find_update_other:
  assumes "index_of doc cid = Some k" "cID c' = cid" "j \<noteq> cid"
  shows "find (\<lambda>c. cID c = j) (doc[k := c']) = find (\<lambda>c. cID c = j) doc"
  using assms unfolding index_of_def
  by (induction doc arbitrary: k) (auto split: if_splits)

lemma find_map_normalize:
  "find (\<lambda>c. cID c = j) (map (normalize_credential H) doc) =
     map_option (normalize_credential H) (find (\<lambda>c. cID c = j) doc)"
  by (induction doc) auto

lemma index_of_find: "index_of doc cid = None \<longleftrightarrow> find (\<lambda>c. cID c = cid) doc = None"
  unfolding index_of_def by (induction doc) auto

lemma index_of_id: "index_of doc cid = Some k \<Longrightarrow> cID (doc ! k) = cid \<and> k < length doc"
  unfolding index_of_def by (drule find_index_SomeD) auto

text \<open>What a stored credential becomes when a mutation computed \<open>new\<close> from it.\<close>

definition stored_stamp :: "(string \<Rightarrow> string) \<Rightarrow> io \<Rightarrow> credential \<Rightarrow> credential \<Rightarrow> credential" where
  "stored_stamp H w old new = normalize_credential H (stamp_mutation old (now_utc w) new)"

lemma stamp_mutation_id [simp]: "cID (stamp_mutation old now c) = cID old"
  by (simp add: stamp_mutation_def)

lemma patch_refines:
  assumes "quiet w" "store_ok H st" "patch_credential H w st cid f = (st', r)"
  shows "store_ok H st' \<and>
         (case r of
            Inr c \<Rightarrow> \<exists>old new. stored H st cid = Some old \<and> f old = Inr new \<and>
                       c = stamp_mutation old (now_utc w) new \<and>
                       stored H st' cid = Some (normalize_credential H c) \<and>
                       (\<forall>j. j \<noteq> cid \<longrightarrow> stored H st' j = stored H st j)
          | Inl e \<Rightarrow> view H st' = view H st)"
proof (cases "cid = []")
  case True
  then show ?thesis using assms by (auto simp: patch_credential_def)
next
  case False
  note m = mutate_refines [OF assms(1,2)
      assms(3) [unfolded patch_credential_def if_not_P [OF False]]]
  show ?thesis
  proof (cases r)
    case (Inl e)
    then show ?thesis using m by simp
  next
    case (Inr c)
    with m obtain doc doc' where d: "view H st = Some doc" "view H st' = Some (map (normalize_credential H) doc')"
      "(case index_of doc cid of None \<Rightarrow> Inl (ErrNotFound cid)
        | Some k \<Rightarrow> (case f (doc ! k) of Inl e \<Rightarrow> Inl e
           | Inr c \<Rightarrow> (let c' = stamp_mutation (doc ! k) (now_utc w) c in Inr (doc[k := c'], c')))) = Inr (doc', c)"
      by auto
    then obtain k new where k: "index_of doc cid = Some k" "f (doc ! k) = Inr new"
      "c = stamp_mutation (doc ! k) (now_utc w) new" "doc' = doc[k := c]"
      by (auto simp: Let_def split: option.splits sum.splits)
    have idc: "cID c = cid" using k index_of_id [OF k(1)] by simp
    note upd = find_update_same [OF k(1) idc] find_update_other [OF k(1) idc]
    have norm: "find (\<lambda>c. cID c = j) doc = map_option (normalize_credential H) (find (\<lambda>c. cID c = j) doc)" for j
      using find_map_normalize [of j H doc] view_normal [OF d(1)] by simp
    have "stored H st cid = Some (doc ! k)" "stored H st' cid = Some (normalize_credential H c)"
      using upd(1) d(1,2) k(4) by (simp_all add: stored_def find_map_normalize)
    moreover have "stored H st' j = stored H st j" if "j \<noteq> cid" for j
      using upd(2) [OF that] d(1,2) k(4) norm [of j] by (simp add: stored_def find_map_normalize)
    ultimately show ?thesis using m Inr k by auto
  qed
qed

lemma stored_view_cong: "view H st' = view H st \<Longrightarrow> stored H st' j = stored H st j"
  by (simp add: stored_def)

lemma patch_quiet_cases:
  assumes "quiet w" "store_ok H st"
  shows "store_ok H (fst (patch_credential H w st cid f))"
    and "k \<noteq> cid \<Longrightarrow> stored H (fst (patch_credential H w st cid f)) k = stored H st k"
    and "snd (patch_credential H w st cid f) = Inl e \<Longrightarrow>
         stored H (fst (patch_credential H w st cid f)) cid = stored H st cid"
    and "snd (patch_credential H w st cid f) = Inr r \<Longrightarrow>
         \<exists>old new. stored H st cid = Some old \<and> f old = Inr new \<and>
            r = stamp_mutation old (now_utc w) new \<and>
            stored H (fst (patch_credential H w st cid f)) cid = Some (normalize_credential H r)"
proof -
  obtain st' r' where p: "patch_credential H w st cid f = (st', r')" by fastforce
  note ref = patch_refines [OF assms p]
  show "store_ok H (fst (patch_credential H w st cid f))" using ref p by simp
  show "k \<noteq> cid \<Longrightarrow> stored H (fst (patch_credential H w st cid f)) k = stored H st k"
    using ref p by (cases r') (auto dest: stored_view_cong)
  show "snd (patch_credential H w st cid f) = Inl e \<Longrightarrow>
      stored H (fst (patch_credential H w st cid f)) cid = stored H st cid"
    using ref p by (auto dest: stored_view_cong)
  show "snd (patch_credential H w st cid f) = Inr r \<Longrightarrow>
      \<exists>old new. stored H st cid = Some old \<and> f old = Inr new \<and>
        r = stamp_mutation old (now_utc w) new \<and>
        stored H (fst (patch_credential H w st cid f)) cid = Some (normalize_credential H r)"
    using ref p by auto
qed

text \<open>The file-backed store is a credential store in the sense of the interface, for every
  environment whose reads succeed.\<close>

definition quiet_io :: "io \<Rightarrow> io" where
  "quiet_io w = w\<lparr> ioUnreadable := readable \<rparr>"

lemma quiet_quiet_io [simp]: "quiet (quiet_io w)"
  by (simp add: quiet_def quiet_io_def)

interpretation cs: credential_store "store_ok H" "stored H" "patch_credential H (quiet_io w)"
    "\<lambda>old new. stamp_mutation old (now_utc (quiet_io w)) new" "normalize_credential H" for H w
  by unfold_locales
     (blast intro: patch_quiet_cases [OF quiet_quiet_io] | simp add: stamp_mutation_def
        | simp add: patch_quiet_cases [OF quiet_quiet_io])+

section \<open>Properties of the mutations\<close>

lemma get_stored:
  assumes "quiet w" "store_ok H st" "get_credential H w st cid = (st', r)"
  shows "store_ok H st' \<and> view H st' = view H st \<and> (\<forall>c. r = Inr c \<longrightarrow> stored H st cid = Some c)"
  using get_reads [OF assms] by (auto simp: stored_def)

text \<open>
  C26: A mutation is atomic and is seen by every later read.  After a patch that reports success, a
  lookup of the credential that succeeds returns exactly the credential the patch computed (with
  the identifier, creation time and next revision of the stored one), whether it comes from the
  cache or the file; after one that reports an error it returns what was stored before; and no
  other credential is affected.
\<close>

theorem patch_then_get:
  assumes "quiet w" and "quiet w'" and "store_ok H st"
    and "patch_credential H w st cid f = (st1, r)" and "get_credential H w' st1 k = (st2, Inr c)"
  shows "(k \<noteq> cid \<longrightarrow> stored H st k = Some c) \<and>
    (case r of
       Inl e \<Rightarrow> stored H st k = Some c
     | Inr p \<Rightarrow> k = cid \<longrightarrow> c = normalize_credential H p \<and>
         (\<exists>old new. stored H st cid = Some old \<and> f old = Inr new \<and>
                    p = stamp_mutation old (now_utc w) new))"
proof -
  have p: "fst (patch_credential H w st cid f) = st1" "snd (patch_credential H w st cid f) = r"
    using assms(4) by simp_all
  note q = patch_quiet_cases [OF assms(1,3), where cid = cid and f = f, unfolded p]
  have c: "stored H st1 k = Some c" using get_stored [OF assms(2) q(1) assms(5)] by simp
  show ?thesis
  proof (cases r)
    case (Inl e)
    then show ?thesis using q(2) [of k] q(3) c by (cases "k = cid") auto
  next
    case (Inr x)
    then show ?thesis using q(2) [of k] q(4) c by (cases "k = cid") auto
  qed
qed

definition sample_store :: store where
  "sample_store = \<lparr> stOpen = True,
     stFs = [Primary \<mapsto> \<lparr> eContent = Doc [zero_credential\<lparr> cID := ''c1'', cRevision := 4,
               cEnabled := True, cAccessToken := ''at'' \<rparr>], eSynced = True \<rparr>],
     stCache = [], stIndex = Map.empty, stStamp = zero_stamp, stValid = False, stCacheAt = 0 \<rparr>"

definition sample_io :: "gotime \<Rightarrow> io" where
  "sample_io t = \<lparr> ioNow = t, ioLockError = None, ioUnreadable = readable, ioFault = None,
     ioStat = Inr \<lparr> fsExists = True, fsSize = 10, fsModified = t, fsInode = 1 \<rparr>, ioNewID = None \<rparr>"

lemma sample_store_ok: "store_ok H sample_store" "quiet (sample_io t)"
  by (auto simp: store_ok_def sample_store_def settled_def own_shape_def quiet_def sample_io_def)

lemma sample_patch:
  "(case patch_credential id (sample_io 9000000000) sample_store ''c1'' (\<lambda>c. Inr (c\<lparr> cPriority := 7 \<rparr>)) of
      (st, Inr p) \<Rightarrow>
        (case get_credential id (sample_io 9500000000) st ''c1'' of
           (st2, Inr c) \<Rightarrow> cPriority c = 7 \<and> cRevision c = 5 | _ \<Rightarrow> False)
    | _ \<Rightarrow> False)"
  by code_simp

theorem patch_then_get_witness:
  "\<exists>st1 st2 p c. patch_credential id (sample_io 9000000000) sample_store ''c1''
       (\<lambda>c. Inr (c\<lparr> cPriority := 7 \<rparr>)) = (st1, Inr p) \<and>
     get_credential id (sample_io 9500000000) st1 ''c1'' = (st2, Inr c) \<and>
     c = normalize_credential id p"
proof -
  obtain st1 p st2 c where
    p: "patch_credential id (sample_io 9000000000) sample_store ''c1''
       (\<lambda>c. Inr (c\<lparr> cPriority := 7 \<rparr>)) = (st1, Inr p)" and
    g: "get_credential id (sample_io 9500000000) st1 ''c1'' = (st2, Inr c)"
    using sample_patch by (auto split: prod.splits sum.splits)
  show ?thesis
    using patch_then_get [OF sample_store_ok(2) sample_store_ok(2) sample_store_ok(1) p g] p g by auto
qed


section \<open>Deleting a quarantined credential\<close>

lemma purge_evidence:
  assumes "quiet w" "store_ok H st"
    and "delete_if_purge_eligible H w st cid expected after fp = (st', Inr True)"
  shows "\<exists>c. stored H st cid = Some c \<and> cRevision c = expected \<and> \<not> cEnabled c \<and> \<not> cManualDisabled c \<and>
    cLifecycleState c = st_quarantined \<and> cDisableReason c = reason_invalid_auth \<and>
    cPurgeAfter c = Some (trunc_sec after) \<and> trunc_sec after \<le> now_utc w \<and>
    cQuarantineTokenFingerprint c = trim_space fp \<and> token_fingerprint H c = trim_space fp"
proof -
  have lock: "stOpen st \<and> ioLockError w = None" and ids: "trim_space cid \<noteq> []"
    using assms(3) by (auto simp: delete_if_purge_eligible_def with_lock_def Let_def
        split: if_splits option.splits)
  obtain doc where doc: "load_credentials H w st = Inr doc"
    using assms(3) lock by (auto simp: delete_if_purge_eligible_def with_lock_def Let_def
        split: if_splits option.splits sum.splits)
  then have v: "view H st = Some doc" using load_view [OF assms(1)] by blast
  obtain k where k: "index_of doc cid = Some k" "cRevision (doc ! k) = expected"
      "purge_eligible H (now_utc w) (trunc_sec after) (trim_space fp) (doc ! k)"
    using assms(3) lock doc by (auto simp: delete_if_purge_eligible_def with_lock_def Let_def
        split: if_splits option.splits)
  have "stored H st cid = Some (doc ! k)"
    using v find_update_same [OF k(1), of "doc ! k"] index_of_id [OF k(1)] by (simp add: stored_def)
  then show ?thesis using k(2,3) by (auto simp: purge_eligible_def split: option.splits)
qed


definition doomed_cred :: credential where
  "doomed_cred = zero_credential\<lparr> cID := ''c1'', cRevision := 4, cLifecycleState := st_quarantined,
     cDisableReason := reason_invalid_auth, cPurgeAfter := Some 5000000000, cAccessToken := ''at'',
     cQuarantineTokenFingerprint := ''at'' @ [CHR 0x00], cProxyMode := ''inherit'',
     cIdentityKey := ''k'' \<rparr>"

definition doomed_store :: store where
  "doomed_store = sample_store\<lparr> stFs :=
     [Primary \<mapsto> \<lparr> eContent = Doc [doomed_cred], eSynced = True \<rparr>] \<rparr>"

lemma doomed_ok: "store_ok id doomed_store"
  by (auto simp: store_ok_def doomed_store_def sample_store_def settled_def own_shape_def)

lemma doomed_purge:
  "snd (delete_if_purge_eligible id (sample_io 9000000000) doomed_store ''c1'' 4 5000000000
      (''at'' @ [CHR 0x00])) = Inr True"
  by code_simp


end
