(* ===== verification/Token_Store.thy ===== *)
theory Token_Store
  imports Refresher Cred_Store_Props
begin

text \<open>
  How the executor (\<open>internal/proxy/executor.go\<close>) ties the refresher to the credential store: the
  load and persist callbacks it hands to it, and the checks that bind a request or an inspection to
  one durable credential.  The lemmas on the compare-and-patch are proved once for every credential
  store and used on the file-backed one.
\<close>

section \<open>Callbacks\<close>

definition tokens_of :: "credential \<Rightarrow> token_set" where
  "tokens_of c = no_tokens\<lparr> tkAccess := cAccessToken c, tkRefresh := cRefreshToken c,
     tkExpiresAt := cExpiresAt c, tkType := ''Bearer'' \<rparr>"

definition token_patch :: "token_set \<Rightarrow> token_set \<Rightarrow> credential \<Rightarrow> goerr + credential" where
  "token_patch previous next c =
     (if trim_space (cRefreshToken c) \<noteq> trim_space (tkRefresh previous) then Inl ErrRefreshInvalidated
      else Inr (c\<lparr> cAccessToken := tkAccess next,
             cRefreshToken := (if trim_space (tkRefresh next) \<noteq> [] then tkRefresh next
                               else cRefreshToken c),
             cExpiresAt := (if tkExpiresAt next \<noteq> zero_time then tkExpiresAt next
                            else cExpiresAt c) \<rparr>))"

definition persist_tokens ::
  "('st \<Rightarrow> string \<Rightarrow> (credential \<Rightarrow> goerr + credential) \<Rightarrow> 'st \<times> (goerr + credential)) \<Rightarrow>
   'st \<Rightarrow> string \<Rightarrow> token_set \<Rightarrow> token_set \<Rightarrow> 'st \<times> goerr option" where
  "persist_tokens patch st cid previous next =
     (case patch st cid (token_patch previous next) of
        (st', Inl e) \<Rightarrow> (st', Some e) | (st', Inr _) \<Rightarrow> (st', None))"

definition load_tokens ::
  "('st \<Rightarrow> string \<Rightarrow> 'st \<times> (goerr + credential)) \<Rightarrow> 'st \<Rightarrow> string \<Rightarrow> 'st \<times> (goerr + token_set)" where
  "load_tokens get st cid =
     (case get st cid of (st', Inl e) \<Rightarrow> (st', Inl e) | (st', Inr c) \<Rightarrow> (st', Inr (tokens_of c)))"

section \<open>Checks\<close>

definition token_matches_credential :: "token_set \<Rightarrow> credential \<Rightarrow> bool" where
  "token_matches_credential t c \<longleftrightarrow>
     trim_space (tkAccess t) = trim_space (cAccessToken c) \<and>
     trim_space (tkRefresh t) = trim_space (cRefreshToken c)"

definition inspection_credential_usable :: "credential \<Rightarrow> bool" where
  "inspection_credential_usable c \<longleftrightarrow>
     \<not> cManualDisabled c \<and> (cEnabled c \<or> cLifecycleState c = st_quarantined)"

definition inspection_guard_matches :: "credential \<Rightarrow> credential \<Rightarrow> bool" where
  "inspection_guard_matches expected current \<longleftrightarrow>
     inspection_credential_usable current \<and> cID expected = cID current \<and>
     cEnabled expected = cEnabled current \<and> cManualDisabled expected = cManualDisabled current \<and>
     cLifecycleState expected = cLifecycleState current \<and>
     trim_space (cAccessToken expected) = trim_space (cAccessToken current) \<and>
     trim_space (cRefreshToken expected) = trim_space (cRefreshToken current) \<and>
     trim_space (cProxyMode expected) = trim_space (cProxyMode current) \<and>
     trim_space (cProxyURL expected) = trim_space (cProxyURL current) \<and>
     trim_space (cOIDCIssuer expected) = trim_space (cOIDCIssuer current) \<and>
     trim_space (cOIDCClientID expected) = trim_space (cOIDCClientID current)"

section \<open>The compare-and-patch, on any credential store\<close>

context credential_store
begin

lemma persist_done:
  assumes "ok st" "persist_tokens patch st cid prev next = (st', None)"
  shows "ok st' \<and> (\<exists>old c. stored st cid = Some old \<and> stored st' cid = Some c \<and>
     trim_space (cRefreshToken old) = trim_space (tkRefresh prev) \<and>
     cAccessToken c = tkAccess next \<and> cRevision c = cRevision old + 1 \<and>
     cRefreshToken c = (if trim_space (tkRefresh next) \<noteq> [] then tkRefresh next else cRefreshToken old))"
proof -
  obtain r where r: "patch st cid (token_patch prev next) = (st', Inr r)"
    using assms(2) by (auto simp: persist_tokens_def split: prod.splits sum.splits)
  then obtain old new where o: "stored st cid = Some old" "token_patch prev next old = Inr new"
      "r = stamp old new" "stored st' cid = Some (norm r)"
    using patch_applies [OF assms(1), of cid "token_patch prev next" r] by auto
  have "ok st'" using patch_ok [OF assms(1), of cid "token_patch prev next"] r by simp
  moreover have "trim_space (cRefreshToken old) = trim_space (tkRefresh prev)" "cAccessToken new = tkAccess next"
    "cRefreshToken new = (if trim_space (tkRefresh next) \<noteq> [] then tkRefresh next else cRefreshToken old)"
    using o(2) by (auto simp: token_patch_def split: if_splits)
  ultimately show ?thesis using o by (auto simp: stamp_tokens stamp_revision norm_fields)
qed

lemma persist_refused:
  assumes "ok st" "persist_tokens patch st cid prev next = (st', Some e)"
  shows "ok st' \<and> stored st' = stored st"
proof -
  have r: "patch st cid (token_patch prev next) = (st', Inl e)"
    using assms(2) by (auto simp: persist_tokens_def split: prod.splits sum.splits)
  have "ok st'" using patch_ok [OF assms(1), of cid "token_patch prev next"] r by simp
  moreover have "stored st' k = stored st k" for k
    using patch_other [OF assms(1), of k cid "token_patch prev next"]
      patch_fails [OF assms(1), of cid "token_patch prev next" e] r by (cases "k = cid") auto
  ultimately show ?thesis by blast
qed

end

section \<open>On the file-backed store\<close>

text \<open>The callback \<open>persistFunc(cid)\<close>, in an environment \<open>w\<close> of the store.\<close>

definition store_persist ::
  "(string \<Rightarrow> string) \<Rightarrow> io \<Rightarrow> string \<Rightarrow> store rst \<Rightarrow> token_set \<Rightarrow> token_set \<Rightarrow> store rst \<times> goerr option" where
  "store_persist H w cid s previous next =
     (let (st', e) = persist_tokens (patch_credential H (quiet_io w)) (snd s) cid previous next in
      ((fst s, st'), e))"

definition store_load ::
  "(string \<Rightarrow> string) \<Rightarrow> io \<Rightarrow> string \<Rightarrow> store rst \<Rightarrow> store rst \<times> (goerr + token_set)" where
  "store_load H w cid s =
     (let (st', r) = load_tokens (get_credential H (quiet_io w)) (snd s) cid in ((fst s, st'), r))"

text \<open>What a commit leaves, on every path: the tokens are durable, or nothing was stored and the
  refusal is reported; the cache changes only when no invalidation came in between.\<close>

definition holds_tokens :: "credential \<Rightarrow> token_set \<Rightarrow> bool" where
  "holds_tokens c ts \<longleftrightarrow> cAccessToken c = tkAccess ts \<and> cRefreshToken c = tkRefresh ts"

lemma commit_result:
  assumes ok: "store_ok H (snd s)" and env: "rePersist env = Some (store_persist H w cid)"
    and next_rt: "trim_space (tkRefresh next) \<noteq> []"
    and run: "commit_if_current env s k prev next g e = (s', err)"
  shows "store_ok H (snd s')"
    "if generations_current (fst s) k g e \<and> err = None then rfCache (fst s') k = Some next
     else fst s' = fst s"
    "err = None \<Longrightarrow> generations_current (fst s) k g e"
    "(\<exists>old c. stored H (snd s) cid = Some old \<and> stored H (snd s') cid = Some c \<and> holds_tokens c next \<and>
        trim_space (cRefreshToken old) = trim_space (tkRefresh prev) \<and> cRevision c = cRevision old + 1 \<and>
        (\<forall>x. err = Some x \<longrightarrow> x = ErrRefreshInvalidated \<and> \<not> generations_current (fst s) k g e)) \<or>
     err \<noteq> None \<and> stored H (snd s') = stored H (snd s)"
proof -
  obtain st' pe where p: "persist_tokens (patch_credential H (quiet_io w)) (snd s) cid prev next = (st', pe)"
    by fastforce
  have all: "store_ok H (snd s') \<and>
    (if generations_current (fst s) k g e \<and> err = None then rfCache (fst s') k = Some next else fst s' = fst s) \<and>
    (err = None \<longrightarrow> generations_current (fst s) k g e) \<and>
    ((\<exists>old c. stored H (snd s) cid = Some old \<and> stored H (snd s') cid = Some c \<and> holds_tokens c next \<and>
        trim_space (cRefreshToken old) = trim_space (tkRefresh prev) \<and> cRevision c = cRevision old + 1 \<and>
        (\<forall>x. err = Some x \<longrightarrow> x = ErrRefreshInvalidated \<and> \<not> generations_current (fst s) k g e)) \<or>
     err \<noteq> None \<and> stored H (snd s') = stored H (snd s))"
  proof (cases pe)
    case None
    note d = cs.persist_done [OF ok p [unfolded None]]
    obtain r' x where c: "commit_cache (fst s) k next g e = (r', x)" by fastforce
    have "s' = (r', st')" "err = x"
      using run env p None c by (simp_all add: commit_if_current_def store_persist_def)
    moreover have "if generations_current (fst s) k g e then r' = (fst s)\<lparr>rfCache := (rfCache (fst s))(k \<mapsto> next)\<rparr> \<and> x = None
        else r' = fst s \<and> x = Some ErrRefreshInvalidated"
      using c by (auto simp: commit_cache_def)
    ultimately show ?thesis using d next_rt by (auto simp: holds_tokens_def split: if_splits)
  next
    case (Some x)
    note d = cs.persist_refused [OF ok p [unfolded Some]]
    have "s' = (fst s, st')" "err \<noteq> None"
      using run env p Some by (auto simp: commit_if_current_def store_persist_def split: if_splits)
    then show ?thesis using d by auto
  qed
  then show "store_ok H (snd s')"
    "if generations_current (fst s) k g e \<and> err = None then rfCache (fst s') k = Some next
     else fst s' = fst s"
    "err = None \<Longrightarrow> generations_current (fst s) k g e"
    "(\<exists>old c. stored H (snd s) cid = Some old \<and> stored H (snd s') cid = Some c \<and> holds_tokens c next \<and>
        trim_space (cRefreshToken old) = trim_space (tkRefresh prev) \<and> cRevision c = cRevision old + 1 \<and>
        (\<forall>x. err = Some x \<longrightarrow> x = ErrRefreshInvalidated \<and> \<not> generations_current (fst s) k g e)) \<or>
     err \<noteq> None \<and> stored H (snd s') = stored H (snd s)" by blast+
qed

section \<open>Properties of a refresh\<close>

text \<open>Whatever runs while the callbacks block keeps the store in order.\<close>

definition callbacks_keep :: "(string \<Rightarrow> string) \<Rightarrow> (store, 'c) refresh_env \<Rightarrow> bool" where
  "callbacks_keep H env \<longleftrightarrow>
     (\<forall>load s. reLoad env = Some load \<and> store_ok H (snd s) \<longrightarrow> store_ok H (snd (fst (load s)))) \<and>
     (\<forall>f s k. reOAuthFor env = Some f \<and> store_ok H (snd s) \<longrightarrow> store_ok H (snd (fst (f s k)))) \<and>
     (\<forall>c s t. store_ok H (snd s) \<longrightarrow> store_ok H (snd (fst (reGrant env c s t))))"

lemma callbacks_keepD:
  assumes "callbacks_keep H env" "store_ok H (snd s)"
  shows "reLoad env = Some load \<Longrightarrow> load s = (s1, x) \<Longrightarrow> store_ok H (snd s1)"
    "resolve_client env s k = (s1, y) \<Longrightarrow> store_ok H (snd s1)"
    "reGrant env c s t = (s1, z) \<Longrightarrow> store_ok H (snd s1)"
proof -
  note keep = assms(1) [unfolded callbacks_keep_def]
  show "reLoad env = Some load \<Longrightarrow> load s = (s1, x) \<Longrightarrow> store_ok H (snd s1)"
    using keep assms(2) by (metis fst_conv)
  show "reGrant env c s t = (s1, z) \<Longrightarrow> store_ok H (snd s1)"
    using keep assms(2) by (metis fst_conv)
  assume r: "resolve_client env s k = (s1, y)"
  show "store_ok H (snd s1)"
  proof (cases "reOAuthFor env")
    case None
    then show ?thesis using r assms(2) by (auto simp: resolve_client_def)
  next
    case (Some f)
    obtain s2 z where f: "f s k = (s2, z)" by fastforce
    then have "s1 = s2" using r Some by (auto simp: resolve_client_def split: sum.splits option.splits)
    then show ?thesis using keep assms(2) Some f by (metis fst_conv)
  qed
qed

lemma keep_refresh_nonempty: "trim_space sent \<noteq> [] \<Longrightarrow> trim_space (tkRefresh (keep_refresh sent got)) \<noteq> []"
  by (simp add: keep_refresh_def)

lemma grant_step_success:
  assumes ok: "store_ok H (snd s)" and keep: "callbacks_keep H env"
    and env: "rePersist env = Some (store_persist H w cid)"
    and run: "grant_step env k prev g e s = (s', res, None)"
  shows "\<exists>ts c. res = Some ts \<and> stored H (snd s') cid = Some c \<and> holds_tokens c ts \<and> rfCache (fst s') k = Some ts"
proof -
  let ?sent = "trim_space (tkRefresh prev)"
  have pre: "generations_current (fst s) k g e" "?sent \<noteq> []"
    using run by (auto simp: grant_step_def Let_def split: if_splits)
  obtain s1 client where cl: "resolve_client env s k = (s1, Inr client)"
    using run pre by (auto simp: grant_step_def Let_def split: prod.splits sum.splits)
  obtain s2 got where gr: "reGrant env client s1 ?sent = (s2, Inr got)"
    using run pre cl by (auto simp: grant_step_def Let_def split: prod.splits sum.splits)
  let ?next = "keep_refresh ?sent got"
  have cm: "commit_if_current env s2 k prev ?next g e = (s', None)" "res = Some ?next"
    using run pre cl gr by (auto simp: grant_step_def Let_def split: prod.splits)
  have ok2: "store_ok H (snd s2)"
    using callbacks_keepD(3) [OF keep callbacks_keepD(2) [OF keep ok cl] gr] .
  have rt: "trim_space (tkRefresh ?next) \<noteq> []" by (rule keep_refresh_nonempty) (use pre in simp)
  note c = commit_result [OF ok2 env rt cm(1)]
  show ?thesis using c(2,4) c(3) cm(2) by auto
qed

text \<open>A store with one refreshable credential, and an endpoint that rotates its token.\<close>

definition rt_store :: store where
  "rt_store = sample_store\<lparr> stFs :=
     [Primary \<mapsto> \<lparr> eContent = Doc [zero_credential\<lparr> cID := ''c1'', cRevision := 4, cEnabled := True,
        cAccessToken := ''at'', cRefreshToken := ''rt'', cExpiresAt := 5000000000 \<rparr>], eSynced = True \<rparr>] \<rparr>"

definition no_refresher :: refresher where
  "no_refresher = \<lparr> rfSkew = 0, rfCache = Map.empty, rfGeneration = 0, rfEpoch = Map.empty \<rparr>"

definition rotate :: "unit \<Rightarrow> store rst \<Rightarrow> string \<Rightarrow> store rst \<times> (goerr + token_set)" where
  "rotate u s sent = (s, if sent = ''rt''
     then Inr (no_tokens\<lparr> tkAccess := ''at2'', tkRefresh := ''rt2'', tkExpiresAt := 90000000000 \<rparr>)
     else Inl (AuthHTTPError ''refresh'' 400 ''invalid_grant''))"

definition rt_env :: "(store, unit) refresh_env" where
  "rt_env = \<lparr> reLoad = Some (store_load id (sample_io 6000000000) ''c1''), reOAuth = Some (),
     reOAuthFor = None, reGrant = rotate,
     rePersist = Some (store_persist id (sample_io 6000000000) ''c1''), reCtxErr = (\<lambda>_. None) \<rparr>"

definition rt_current :: token_set where
  "rt_current = no_tokens\<lparr> tkAccess := ''at'', tkRefresh := ''rt'' \<rparr>"

lemma rt_store_ok: "store_ok id rt_store"
  by (auto simp: store_ok_def rt_store_def sample_store_def settled_def own_shape_def)

lemma rt_keeps: "callbacks_keep id rt_env"
proof -
  have load: "store_ok id (snd (fst (store_load id w cid s)))" if "store_ok id (snd s)" for w cid s
  proof -
    obtain st' r where g: "get_credential id (quiet_io w) (snd s) cid = (st', r)" by fastforce
    have "store_ok id st'" using get_stored [OF quiet_quiet_io that g] by simp
    then show ?thesis using g by (auto simp: store_load_def load_tokens_def split: sum.splits)
  qed
  then show ?thesis by (simp add: callbacks_keep_def rt_env_def rotate_def)
qed

lemma rt_refresh:
  "snd (force_refresh rt_env ''c1'' rt_current (no_refresher, rt_store)) =
     (no_tokens\<lparr> tkAccess := ''at2'', tkRefresh := ''rt2'', tkExpiresAt := 90000000000 \<rparr>, None)"
  by code_simp

text \<open>
  C29: A refresh that reports success has made its tokens durable.  Whatever the token endpoint
  answered and whatever imports or operators did to the store and the refresher while the callbacks
  blocked, when \<open>ForceRefresh\<close> returns no error the stored credential holds exactly the returned
  access and refresh token, and so does the cache.
\<close>
theorem refresh_success_is_durable:
  assumes "store_ok H (snd s)" and "callbacks_keep H env"
    and "rePersist env = Some (store_persist H w cid)"
    and "force_refresh env cid current s = (s', ts, None)"
  shows "\<exists>c. stored H (snd s') cid = Some c \<and> holds_tokens c ts \<and>
    rfCache (fst s') (flight_key cid current) = Some ts"
proof -
  let ?k = "flight_key cid current" and ?g = "rfGeneration (fst s)" and ?e = "epoch_of (fst s) (flight_key cid current)"
  obtain res err where fl: "flight env ?k current ?g ?e s = (s', res, err)" "flight_result (res, err) = (ts, None)"
    using assms(4) by (auto simp: force_refresh_def Let_def split: if_splits prod.splits option.splits)
  then have err: "err = None" "res = Some ts"
    by (auto simp: flight_result_def split: option.splits)
  let ?prev = "borrow_cached (cached_tokens (fst s) ?k) current"
  show ?thesis
  proof (cases "reLoad env")
    case None
    then have "grant_step env ?k ?prev ?g ?e s = (s', Some ts, None)"
      using fl(1) err by (simp add: flight_def Let_def)
    from grant_step_success [OF assms(1-3) this] show ?thesis by auto
  next
    case (Some load)
    obtain s1 durable where l: "load s = (s1, Inr durable)"
      using fl(1) err Some by (auto simp: flight_def Let_def split: prod.splits sum.splits)
    then have "grant_step env ?k durable ?g ?e s1 = (s', Some ts, None)"
      using fl(1) err Some by (auto simp: flight_def Let_def split: if_splits)
    from grant_step_success [OF callbacks_keepD(1) [OF assms(2,1) Some l] assms(2,3) this]
    show ?thesis by auto
  qed
qed

theorem refresh_success_is_durable_witness:
  "\<exists>s' c. force_refresh rt_env ''c1'' rt_current (no_refresher, rt_store) =
       (s', no_tokens\<lparr> tkAccess := ''at2'', tkRefresh := ''rt2'', tkExpiresAt := 90000000000 \<rparr>, None) \<and>
     stored id (snd s') ''c1'' = Some c \<and> cAccessToken c = ''at2'' \<and> cRefreshToken c = ''rt2''"
proof -
  obtain s' where run: "force_refresh rt_env ''c1'' rt_current (no_refresher, rt_store) =
      (s', no_tokens\<lparr> tkAccess := ''at2'', tkRefresh := ''rt2'', tkExpiresAt := 90000000000 \<rparr>, None)"
    using rt_refresh by (metis prod.collapse)
  have ok: "store_ok id (snd (no_refresher, rt_store))" using rt_store_ok by simp
  have "rePersist rt_env = Some (store_persist id (sample_io 6000000000) ''c1'')" by (simp add: rt_env_def)
  from refresh_success_is_durable [OF ok rt_keeps this run] run show ?thesis
    by (auto simp: holds_tokens_def)
qed

text \<open>
  Only the durable refresh token is ever sent to the token endpoint.  With the load callback of
  the executor, what \<open>ForceRefresh\<close> does depends on the endpoint's answer to one token only, the one
  stored at that moment: a caller holding an old snapshot, or a cache entry left behind, never replays
  a rotated token.
\<close>
theorem only_durable_token_sent:
  assumes "store_ok H (snd s)" and "reLoad env = Some (store_load H w cid)"
    and "stored H (snd s) cid = Some c"
    and "\<And>client u. grant client u (trim_space (cRefreshToken c)) =
                    reGrant env client u (trim_space (cRefreshToken c))"
  shows "force_refresh (env\<lparr> reGrant := grant \<rparr>) cid current s = force_refresh env cid current s"
proof -
  have same: "resolve_client (env\<lparr>reGrant := grant\<rparr>) = resolve_client env"
    "commit_if_current (env\<lparr>reGrant := grant\<rparr>) = commit_if_current env"
    by (intro ext; simp add: resolve_client_def commit_if_current_def split: option.split)+
  have step: "grant_step (env\<lparr>reGrant := grant\<rparr>) k (tokens_of c) g e u = grant_step env k (tokens_of c) g e u"
    for k g e u
    by (simp add: grant_step_def same tokens_of_def no_tokens_def assms(4) Let_def split: prod.splits sum.splits)
  have "flight (env\<lparr>reGrant := grant\<rparr>) k current g e s = flight env k current g e s" for k g e
  proof -
    obtain st' r where get: "get_credential H (quiet_io w) (snd s) cid = (st', r)" by fastforce
    show ?thesis
    proof (cases r)
      case (Inl x)
      then have "store_load H w cid s = ((fst s, st'), Inl x)"
        using get by (simp add: store_load_def load_tokens_def)
      then show ?thesis using assms(2) by (simp add: flight_def Let_def)
    next
      case (Inr d)
      have "stored H (snd s) cid = Some d" using get_stored [OF quiet_quiet_io assms(1) get] Inr by simp
      then have "d = c" using assms(3) by simp
      then have "store_load H w cid s = ((fst s, st'), Inr (tokens_of c))"
        using get Inr by (simp add: store_load_def load_tokens_def)
      then show ?thesis using assms(2) step by (simp add: flight_def Let_def)
    qed
  qed
  then show ?thesis by (simp add: force_refresh_def Let_def)
qed

theorem only_durable_token_sent_witness:
  "force_refresh (rt_env\<lparr> reGrant := (\<lambda>u s sent. if sent = ''rt'' then rotate u s sent else (s, Inl ErrNetwork)) \<rparr>)
       ''c1'' (rt_current\<lparr> tkRefresh := ''old'' \<rparr>) (no_refresher, rt_store) =
     force_refresh rt_env ''c1'' (rt_current\<lparr> tkRefresh := ''old'' \<rparr>) (no_refresher, rt_store)"
proof (rule only_durable_token_sent [where H = id and w = "sample_io 6000000000" and s = "(no_refresher, rt_store)"])
  show "store_ok id (snd (no_refresher, rt_store))" using rt_store_ok by simp
  show "reLoad rt_env = Some (store_load id (sample_io 6000000000) ''c1'')" by (simp add: rt_env_def)
  have "find (\<lambda>c. cID c = ''c1'') (the (view id rt_store)) = Some (the (stored id rt_store ''c1'')) \<and>
      cRefreshToken (the (stored id rt_store ''c1'')) = ''rt'' \<and> stored id rt_store ''c1'' \<noteq> None" by code_simp
  then show "stored id (snd (no_refresher, rt_store)) ''c1'' = Some (the (stored id rt_store ''c1''))"
    "\<And>client u. (if trim_space (cRefreshToken (the (stored id rt_store ''c1''))) = ''rt''
        then rotate client u (trim_space (cRefreshToken (the (stored id rt_store ''c1'')))) else (u, Inl ErrNetwork)) =
       reGrant rt_env client u (trim_space (cRefreshToken (the (stored id rt_store ''c1''))))"
    by (auto simp: rt_env_def trim_space_def trim_left_def trim_right_def is_space_def)
qed



text \<open>
  \<open>EnsureAccess\<close> never hands out a token it knows to be stale.  When it reports success the token is
  unexpired with the configured skew, and was either held already, in which case nothing was called
  and the cache wins over the caller's snapshot, or it is the result of a forced refresh, which is
  made only when neither the cache nor the snapshot is usable.
\<close>
theorem ensure_access_result:
  assumes "ensure_access env now key current s = (s', ts, None)"
  shows "(s' = s \<and> usable_access ts now (refresh_skew (fst s)) \<and>
      (case cached_tokens (fst s) (flight_key key current) of
         Some c \<Rightarrow> flight_key key current = [] \<or> \<not> usable_access c now (refresh_skew (fst s)) \<or> ts = c
       | None \<Rightarrow> ts = current)) \<or>
    (\<not> usable_access (adopt_cached (if flight_key key current = [] then None
         else cached_tokens (fst s) (flight_key key current)) current) now (refresh_skew (fst s)) \<and>
     (\<exists>current'. force_refresh env key current' s = (s', ts, None)))"
  using assms
  by (auto simp: ensure_access_def Let_def adopt_cached_def split: if_splits option.splits)

theorem ensure_access_result_witness:
  "\<exists>s' ts. ensure_access rt_env 3000000000 ''c1'' (tokens_of zero_credential\<lparr> tkAccess := ''at'' \<rparr>)
      (no_refresher, rt_store) = (s', ts, None) \<and> tkAccess ts = ''at'' \<and> s' = (no_refresher, rt_store)"
proof -
  let ?cur = "tokens_of zero_credential\<lparr> tkAccess := ''at'' \<rparr>"
  have run: "ensure_access rt_env 3000000000 ''c1'' ?cur (no_refresher, rt_store) = ((no_refresher, rt_store), ?cur, None)"
    by (simp add: ensure_access_def adopt_cached_def no_refresher_def cached_tokens_def flight_key_def
        usable_access_def token_expired_def tokens_of_def zero_credential_def no_tokens_def trim_space_def
        trim_left_def trim_right_def is_space_def Let_def)
  have "usable_access ?cur 3000000000 (refresh_skew no_refresher) \<or>
      (\<exists>current'. force_refresh rt_env ''c1'' current' (no_refresher, rt_store) = ((no_refresher, rt_store), ?cur, None))"
    using ensure_access_result [OF run] by auto
  then show ?thesis using run by auto
qed

end
