(* ===== verification/Rate_Limit.thy ===== *)
theory Rate_Limit
  imports Credential
begin

text \<open>
  The rate-limit headers of an upstream response (\<open>internal/upstream/ratelimit.go\<close>), its status errors
  (\<open>status_error.go\<close>) and the \<open>Retry-After\<close> header (\<open>internal/proxy/executor.go\<close>).  A header is the
  function \<open>Get\<close>; \<open>time.ParseDuration\<close>, \<open>time.Parse(time.RFC3339)\<close> and \<open>http.ParseTime\<close> are arguments.
\<close>

type_synonym header = "string \<Rightarrow> string"

record clock_parsers =
  cpDuration :: "string \<Rightarrow> duration option"
  cpRFC3339 :: "string \<Rightarrow> gotime option"
  cpHTTP :: "string \<Rightarrow> gotime option"

record rate_limit =
  rlLimitRequests :: "int option"
  rlRemainingRequests :: "int option"
  rlLimitTokens :: "int option"
  rlRemainingTokens :: "int option"
  rlResetRequestsAt :: "gotime option"
  rlResetTokensAt :: "gotime option"

definition header_int64 :: "header \<Rightarrow> string \<Rightarrow> int option" where
  "header_int64 h name =
     (let raw = trim_space (h name) in
      if raw = [] then None else atoi (takeWhile (\<lambda>c. \<not> is_space c) raw))"

definition thirty_days :: duration where
  "thirty_days = 30 * 24 * 3600 * second"

text \<open>\<open>time.Unix(v, 0)\<close>: its seconds count from the year 1, in an \<open>int64\<close>.\<close>

definition unix_time :: "int \<Rightarrow> gotime" where
  "unix_time v = wrap64 (v + 62135596800) * second"

definition reset_from_rfc3339 :: "clock_parsers \<Rightarrow> string \<Rightarrow> gotime \<Rightarrow> gotime option" where
  "reset_from_rfc3339 P raw now = (case cpRFC3339 P raw of
       Some at \<Rightarrow> if at > now \<and> at < now + thirty_days then Some at else None
     | None \<Rightarrow> None)"

definition reset_from_number :: "clock_parsers \<Rightarrow> string \<Rightarrow> gotime \<Rightarrow> gotime option" where
  "reset_from_number P raw now = (case atoi raw of
       Some v \<Rightarrow>
         (if v \<le> 0 then reset_from_rfc3339 P raw now
          else if v \<ge> 1000000000 then
            (let at = unix_time v in if at > now \<and> at < now + thirty_days then Some at else None)
          else if v \<le> 30 * 24 * 3600 then Some (now + v * second)
          else reset_from_rfc3339 P raw now)
     | None \<Rightarrow> reset_from_rfc3339 P raw now)"

definition header_reset_at :: "clock_parsers \<Rightarrow> header \<Rightarrow> string \<Rightarrow> gotime \<Rightarrow> gotime option" where
  "header_reset_at P h name now =
     (let raw = trim_space (h name) in
      if raw = [] then None
      else case cpDuration P raw of
        Some d \<Rightarrow> if 0 < d \<and> d \<le> thirty_days then Some (now + d) else reset_from_number P raw now
      | None \<Rightarrow> reset_from_number P raw now)"

text \<open>\<open>now1\<close> and \<open>now2\<close>: the clock as it is read for the two reset headers.\<close>

definition parse_rate_limit_headers ::
  "clock_parsers \<Rightarrow> header \<Rightarrow> gotime \<Rightarrow> gotime \<Rightarrow> rate_limit option" where
  "parse_rate_limit_headers P h now1 now2 =
     (let rl = \<lparr> rlLimitRequests = header_int64 h ''X-Ratelimit-Limit-Requests'',
                 rlRemainingRequests = header_int64 h ''X-Ratelimit-Remaining-Requests'',
                 rlLimitTokens = header_int64 h ''X-Ratelimit-Limit-Tokens'',
                 rlRemainingTokens = header_int64 h ''X-Ratelimit-Remaining-Tokens'',
                 rlResetRequestsAt = header_reset_at P h ''X-Ratelimit-Reset-Requests'' now1,
                 rlResetTokensAt = header_reset_at P h ''X-Ratelimit-Reset-Tokens'' now2 \<rparr> in
      if rlLimitRequests rl = None \<and> rlRemainingRequests rl = None \<and> rlLimitTokens rl = None \<and>
         rlRemainingTokens rl = None \<and> rlResetRequestsAt rl = None \<and> rlResetTokensAt rl = None
      then None else Some rl)"

definition spent :: "int option \<Rightarrow> bool" where
  "spent v = (case v of None \<Rightarrow> False | Some n \<Rightarrow> n \<le> 0)"

definition exhausted :: "rate_limit \<Rightarrow> bool" where
  "exhausted rl \<longleftrightarrow> spent (rlRemainingRequests rl) \<or> spent (rlRemainingTokens rl)"

definition reset_after :: "rate_limit \<Rightarrow> gotime \<Rightarrow> duration" where
  "reset_after rl now =
     (let r1 = (case rlResetRequestsAt rl of
                  Some t \<Rightarrow> if spent (rlRemainingRequests rl) then t else zero_time
                | None \<Rightarrow> zero_time);
          r2 = (case rlResetTokensAt rl of
                  Some t \<Rightarrow> if spent (rlRemainingTokens rl) \<and> t > r1 then t else r1
                | None \<Rightarrow> r1) in
      if \<not> r2 > now then 0 else time_sub r2 now)"

definition upstream_status_code :: "goerr \<Rightarrow> int" where
  "upstream_status_code e = (case err_root e of UpstreamHTTPError _ code _ \<Rightarrow> code | _ \<Rightarrow> 0)"

definition parse_retry_after_at :: "clock_parsers \<Rightarrow> string \<Rightarrow> gotime \<Rightarrow> duration" where
  "parse_retry_after_at P v0 now =
     (let v = trim_space v0 in
      if v = [] then 0
      else case atoi v of
        Some sec \<Rightarrow> if sec < 0 then 0 else wrap64 (sec * second)
      | None \<Rightarrow>
          (case cpHTTP P v of
             Some t \<Rightarrow> let d = time_sub t now in if d < 0 then 0 else d
           | None \<Rightarrow> 0))"

section \<open>Bounds\<close>

lemma rfc3339_bounds: "reset_from_rfc3339 P raw now = Some t \<Longrightarrow> now < t \<and> t \<le> now + thirty_days"
  by (auto simp: reset_from_rfc3339_def split: option.splits if_splits)

lemma number_bounds: "reset_from_number P raw now = Some t \<Longrightarrow> now < t \<and> t \<le> now + thirty_days"
  by (auto simp: reset_from_number_def Let_def thirty_days_def dest: rfc3339_bounds
      split: option.splits if_splits)

lemma header_reset_bounds: "header_reset_at P h name now = Some t \<Longrightarrow> now < t \<and> t \<le> now + thirty_days"
  by (auto simp: header_reset_at_def Let_def dest: number_bounds split: option.splits if_splits)

lemma reset_after_source:
  assumes "reset_after rl now > 0" "0 \<le> now"
  shows "\<exists>t. (rlResetRequestsAt rl = Some t \<and> spent (rlRemainingRequests rl) \<or>
              rlResetTokensAt rl = Some t \<and> spent (rlRemainingTokens rl)) \<and>
             now < t \<and> reset_after rl now = time_sub t now"
  using assms by (auto simp: reset_after_def Let_def split: option.splits if_splits)

text \<open>
  Whatever the upstream puts into the reset headers, the cooldown taken from them never exceeds
  thirty days: a positive reset comes from an exhausted counter, ends in the future and at most
  thirty days after the headers were read.
\<close>
theorem reset_is_bounded:
  assumes "parse_rate_limit_headers P h now1 now2 = Some rl" and "reset_after rl now > 0"
    and "0 \<le> now" and "now1 \<le> now" and "now2 \<le> now"
  shows "exhausted rl \<and> reset_after rl now \<le> thirty_days"
proof -
  obtain t where t: "(rlResetRequestsAt rl = Some t \<and> spent (rlRemainingRequests rl) \<or>
              rlResetTokensAt rl = Some t \<and> spent (rlRemainingTokens rl))"
    "now < t" "reset_after rl now = time_sub t now"
    using reset_after_source [OF assms(2,3)] by blast
  have "rlResetRequestsAt rl = header_reset_at P h ''X-Ratelimit-Reset-Requests'' now1"
    "rlResetTokensAt rl = header_reset_at P h ''X-Ratelimit-Reset-Tokens'' now2"
    using assms(1) by (auto simp: parse_rate_limit_headers_def Let_def split: if_splits)
  then have "t \<le> now1 + thirty_days \<or> t \<le> now2 + thirty_days"
    using t(1) header_reset_bounds by metis
  then have "t \<le> now + thirty_days" using assms(4,5) by linarith
  then have "time_sub t now \<le> thirty_days" using t(2) by (simp add: time_sub_def thirty_days_def)
  then show ?thesis using t by (auto simp: exhausted_def)
qed

definition sample_parsers :: clock_parsers where
  "sample_parsers = \<lparr> cpDuration = (\<lambda>s. if s = ''1m30s'' then Some (90 * second) else None),
     cpRFC3339 = (\<lambda>_. None), cpHTTP = (\<lambda>_. None) \<rparr>"

definition sample_limits :: header where
  "sample_limits name = (if name = ''X-Ratelimit-Remaining-Requests'' then ''0''
     else if name = ''X-Ratelimit-Reset-Requests'' then ''1m30s'' else [])"

theorem reset_is_bounded_witness:
  "\<exists>rl. parse_rate_limit_headers sample_parsers sample_limits 5 5 = Some rl \<and>
     reset_after rl 5 = 90 * second \<and> exhausted rl"
proof -
  have "(case parse_rate_limit_headers sample_parsers sample_limits 5 5 of None \<Rightarrow> False
      | Some rl \<Rightarrow> reset_after rl 5 = 90 * second)" by code_simp
  then obtain rl where rl: "parse_rate_limit_headers sample_parsers sample_limits 5 5 = Some rl"
      "reset_after rl 5 = 90 * second" by (auto split: option.splits)
  then show ?thesis using reset_is_bounded [OF rl(1), of 5] by auto
qed

text \<open>
  \<open>Retry-After\<close> in seconds is multiplied without a bound: a value of 9223372037 seconds overflows
  the duration and is read as a negative delay, so that the header is ignored, and 18446744074 seconds
  is read as less than a second.
\<close>
theorem retry_after_overflows:
  "parse_retry_after_at P ''9223372037'' now < 0 \<and>
   0 < parse_retry_after_at P ''18446744074'' now \<and> parse_retry_after_at P ''18446744074'' now < second"
proof -
  have "atoi ''9223372037'' = Some 9223372037" "atoi ''18446744074'' = Some 18446744074" by code_simp+
  moreover have "trim_space ''9223372037'' = ''9223372037''" "trim_space ''18446744074'' = ''18446744074''" by code_simp+
  ultimately show ?thesis by (simp add: parse_retry_after_at_def wrap64_def)
qed

end
