(* ===== verification/Executor.thy ===== *)
theory Executor
  imports Token_Store Rate_Limit Json "HOL-Library.State_Monad"
begin

text \<open>
  The executor of \<open>internal/proxy/executor.go\<close>: credential selection with failover, token and route
  verification, the 401 retry, discovery, billing and inspection probes.

  Its collaborators are interfaces in the code (\<open>Store\<close>, \<open>Selector\<close> and its optional extensions,
  \<open>Upstream\<close>, \<open>TokenRefresher\<close>, the route and clock functions), and the fields of \<open>ops\<close> here: each takes
  the world \<open>'w\<close> and returns it, so that whatever other requests, imports and operators do between
  two calls is part of the world's answer.  \<open>exec\<close> is the world with the executor's own fields, and
  \<open>xLog\<close> the calls made on the collaborators with their answers.  A missing Store or Selector is
  left out; logging has no effect.  A response body is never nil (\<open>net/http\<close>); \<open>rsHeld\<close> is the
  credential that closing the body releases.
\<close>

section \<open>Collaborators\<close>

record response =
  rsStatus :: int
  rsHeader :: header
  rsBody :: string
  rsHeld :: "string option"

record post_options =
  poAccessToken :: string
  poModel :: string
  poConvID :: string
  poStream :: bool
  poIdempotencyKey :: string

text \<open>A finite \<open>float64\<close> is \<open>m / 2 ^ n\<close> for a pair \<open>(m, n)\<close>; JSON has no others.\<close>

type_synonym dyadic = "int \<times> nat"

definition at_least :: "int \<Rightarrow> dyadic \<Rightarrow> bool" where
  "at_least k x \<longleftrightarrow> fst x \<ge> k * 2 ^ snd x"

datatype 'c event =
    EvPick "goerr + credential"
  | EvGet string "goerr + credential"
  | EvRelease string
  | EvSuccess string
  | EvHold string
  | EvFailure string int
  | EvQuota string "gotime option"
  | EvTokens string "token_set \<times> goerr option"
  | EvRoute u64
  | EvResolve credential "goerr + 'c"
  | EvPost 'c bool post_options "goerr + response"
  | EvModels 'c string "goerr + json"
  | EvCredits 'c string "goerr + dyadic option"
  | EvSnapshot 'c string "goerr + json"
  | EvPatch string "goerr + credential"

type_synonym 'w loader = "'w \<Rightarrow> 'w \<times> (goerr + token_set)"
type_synonym 'w persister = "'w \<Rightarrow> token_set \<Rightarrow> token_set \<Rightarrow> 'w \<times> goerr option"
type_synonym 'w refreshing =
  "'w \<Rightarrow> string \<Rightarrow> token_set \<Rightarrow> 'w loader \<Rightarrow> 'w persister \<Rightarrow> 'w \<times> token_set \<times> goerr option"

record ('w, 'c) ops =
  opNow :: "'w \<Rightarrow> 'w \<times> gotime"
  opCtxErr :: "'w \<Rightarrow> 'w \<times> goerr option"
  opBodyPatch :: "(string \<Rightarrow> string \<Rightarrow> goerr + string) option"
  opMaxAttempts :: int
  opCandidateTTL :: duration
  opCandidates :: "'w \<Rightarrow> 'w \<times> (goerr + credential list)"
  opList :: "'w \<Rightarrow> 'w \<times> (goerr + credential list)"
  opGet :: "'w \<Rightarrow> string \<Rightarrow> 'w \<times> (goerr + credential)"
  opPatch :: "'w \<Rightarrow> string \<Rightarrow> (credential \<Rightarrow> goerr + credential) \<Rightarrow> 'w \<times> (goerr + credential)"
  opPick :: "'w \<Rightarrow> credential list \<Rightarrow> string \<Rightarrow> gotime \<Rightarrow> 'w \<times> (goerr + credential)"
  opMarkSuccess :: "'w \<Rightarrow> string \<Rightarrow> string \<Rightarrow> gotime \<Rightarrow> 'w"
  opMarkFailure :: "'w \<Rightarrow> string \<Rightarrow> int \<Rightarrow> duration \<Rightarrow> gotime \<Rightarrow> 'w"
  opRelease :: "('w \<Rightarrow> string \<Rightarrow> 'w) option"
  opQuota :: "('w \<Rightarrow> string \<Rightarrow> gotime \<Rightarrow> 'w) option"
  opQuotaUntil :: "('w \<Rightarrow> string \<Rightarrow> gotime \<Rightarrow> gotime \<Rightarrow> 'w) option"
  opHold :: "(('w \<Rightarrow> bool) \<times> ('w \<Rightarrow> string \<Rightarrow> string \<Rightarrow> gotime \<Rightarrow> 'w)) option"
  opUpstream :: "'c option"
  opUpstreamFor :: "('w \<Rightarrow> credential \<Rightarrow> 'w \<times> (goerr + 'c option)) option"
  opPost :: "'w \<Rightarrow> 'c \<Rightarrow> bool \<Rightarrow> string \<Rightarrow> post_options \<Rightarrow> 'w \<times> (goerr + response)"
  opCompact :: "'c \<Rightarrow> bool"
  opModels :: "'w \<Rightarrow> 'c \<Rightarrow> string \<Rightarrow> 'w \<times> (goerr + json)"
  opCredits :: "'w \<Rightarrow> 'c \<Rightarrow> string \<Rightarrow> 'w \<times> (goerr + dyadic option)"
  opSnapshot :: "'w \<Rightarrow> 'c \<Rightarrow> string \<Rightarrow> 'w \<times> (goerr + json)"
  opRefresher :: "('w refreshing \<times> 'w refreshing) option"
  opRoute :: "('w \<Rightarrow> 'w \<times> u64) option"
  opParsers :: clock_parsers

record ('w, 'c) exec =
  xWorld :: 'w
  xCandidates :: "credential list"
  xCandidatesTill :: gotime
  xLastUsed :: "string \<rightharpoonup> gotime"
  xDone :: bool
  xLog :: "'c event list"

type_synonym ('w, 'c, 'a) xm = "(('w, 'c) exec, 'a) state"

abbreviation ret_x :: "'a \<Rightarrow> ('w, 'c, 'a) xm" where
  "ret_x \<equiv> State_Monad.return"

text \<open>A call on a collaborator, logged or not; a change of the executor's own fields.\<close>

definition call :: "('w \<Rightarrow> 'w \<times> 'a) \<Rightarrow> ('a \<Rightarrow> 'c event list) \<Rightarrow> ('w, 'c, 'a) xm" where
  "call f ev = State (\<lambda>x. let (w, a) = f (xWorld x) in
     (a, x\<lparr> xWorld := w, xLog := xLog x @ ev a \<rparr>))"

definition silently :: "('w \<Rightarrow> 'w \<times> 'a) \<Rightarrow> ('w, 'c, 'a) xm" where
  "silently f = call f (\<lambda>_. [])"

definition own :: "(('w, 'c) exec \<Rightarrow> 'a) \<Rightarrow> ('w, 'c, 'a) xm" where
  "own f = State (\<lambda>x. (f x, x))"

definition change :: "(('w, 'c) exec \<Rightarrow> ('w, 'c) exec) \<Rightarrow> ('w, 'c, unit) xm" where
  "change f = State (\<lambda>x. ((), f x))"

definition now_x :: "('w, 'c) ops \<Rightarrow> ('w, 'c, gotime) xm" where
  "now_x ops = silently (opNow ops)"

definition get_x :: "('w, 'c) ops \<Rightarrow> string \<Rightarrow> ('w, 'c, goerr + credential) xm" where
  "get_x ops cid = call (\<lambda>w. opGet ops w cid) (\<lambda>r. [EvGet cid r])"

definition patch_x ::
  "('w, 'c) ops \<Rightarrow> string \<Rightarrow> (credential \<Rightarrow> goerr + credential) \<Rightarrow> ('w, 'c, goerr + credential) xm" where
  "patch_x ops cid f = call (\<lambda>w. opPatch ops w cid f) (\<lambda>r. [EvPatch cid r])"

definition route_revision :: "('w, 'c) ops \<Rightarrow> ('w, 'c, u64) xm" where
  "route_revision ops = (case opRoute ops of
     None \<Rightarrow> ret_x 0 | Some f \<Rightarrow> call f (\<lambda>n. [EvRoute n]))"

definition wrap_client :: "goerr + 'c option \<Rightarrow> goerr + 'c" where
  "wrap_client r = (case r of
       Inl e \<Rightarrow> Inl (ErrWrap ''proxy: resolve upstream client'' e)
     | Inr None \<Rightarrow> Inl (ErrText ''proxy: resolved nil upstream client'')
     | Inr (Some c) \<Rightarrow> Inr c)"

definition upstream_for :: "('w, 'c) ops \<Rightarrow> credential \<Rightarrow> ('w, 'c, goerr + 'c) xm" where
  "upstream_for ops cred = (case opUpstreamFor ops of
       Some f \<Rightarrow> call (\<lambda>w. let (w', r) = f w cred in (w', wrap_client r)) (\<lambda>r. [EvResolve cred r])
     | None \<Rightarrow> call (\<lambda>w. (w, case opUpstream ops of
           Some c \<Rightarrow> Inr c | None \<Rightarrow> Inl (ErrText ''proxy: upstream not configured'')))
         (\<lambda>r. [EvResolve cred r]))"

definition post_upstream ::
  "('w, 'c) ops \<Rightarrow> 'c \<Rightarrow> bool \<Rightarrow> string \<Rightarrow> post_options \<Rightarrow> ('w, 'c, goerr + response) xm" where
  "post_upstream ops client compact body opts =
     (if compact \<and> \<not> opCompact ops client
      then ret_x (Inl (ErrText ''proxy: upstream compact endpoint is not configured''))
      else call (\<lambda>w. opPost ops w client compact body opts) (\<lambda>r. [EvPost client compact opts r]))"

section \<open>Tokens\<close>

definition no_refresher_result :: "credential \<Rightarrow> token_set \<times> goerr option" where
  "no_refresher_result cred = (tokens_of cred, None)"

definition ensure_token :: "('w, 'c) ops \<Rightarrow> credential \<Rightarrow> ('w, 'c, token_set \<times> goerr option) xm" where
  "ensure_token ops cred = (case opRefresher ops of
       None \<Rightarrow> ret_x (no_refresher_result cred)
     | Some (ensure, force) \<Rightarrow>
         call (\<lambda>w. ensure w (cID cred) (tokens_of cred)
                (\<lambda>w. load_tokens (opGet ops) w (cID cred))
                (\<lambda>w prev next. persist_tokens (opPatch ops) w (cID cred) prev next))
              (\<lambda>r. [EvTokens (cID cred) r]))"

definition no_refresher_error :: "token_set \<times> goerr option" where
  "no_refresher_error = (no_tokens, Some (ErrText ''proxy: refresher not configured''))"

definition force_refresh_x :: "('w, 'c) ops \<Rightarrow> credential \<Rightarrow> ('w, 'c, token_set \<times> goerr option) xm" where
  "force_refresh_x ops cred = (case opRefresher ops of
       None \<Rightarrow> ret_x no_refresher_error
     | Some (ensure, force) \<Rightarrow>
         call (\<lambda>w. force w (cID cred) (tokens_of cred)
                (\<lambda>w. load_tokens (opGet ops) w (cID cred))
                (\<lambda>w prev next. persist_tokens (opPatch ops) w (cID cred) prev next))
              (\<lambda>r. [EvTokens (cID cred) r]))"

section \<open>Selection outcomes\<close>

definition mark_done :: "('w, 'c) ops \<Rightarrow> ('w, 'c, unit) xm" where
  "mark_done ops = change (\<lambda>x. x\<lparr> xDone := True \<rparr>)"

definition release_selection :: "('w, 'c) ops \<Rightarrow> string \<Rightarrow> ('w, 'c, unit) xm" where
  "release_selection ops cid = do {
     over \<leftarrow> own xDone;
     if over then ret_x ()
     else do {
       (case opRelease ops of None \<Rightarrow> ret_x ()
        | Some f \<Rightarrow> call (\<lambda>w. (f w cid, ())) (\<lambda>_. [EvRelease cid]));
       mark_done ops } }"

definition plain_success :: "('w, 'c) ops \<Rightarrow> string \<Rightarrow> string \<Rightarrow> ('w, 'c, unit) xm" where
  "plain_success ops cid conv = do {
     now \<leftarrow> now_x ops;
     call (\<lambda>w. (opMarkSuccess ops w cid conv now, ())) (\<lambda>_. [EvSuccess cid]) }"

definition mark_success_x ::
  "('w, 'c) ops \<Rightarrow> string \<Rightarrow> string \<Rightarrow> response \<Rightarrow> ('w, 'c, response) xm" where
  "mark_success_x ops cid conv resp = do {
     hold \<leftarrow> (case opHold ops of None \<Rightarrow> ret_x False | Some (h, _) \<Rightarrow> own (\<lambda>x. h (xWorld x)));
     resp' \<leftarrow> (case opHold ops of
         Some (_, m) \<Rightarrow>
           if hold then do {
             now \<leftarrow> now_x ops;
             call (\<lambda>w. (m w cid conv now, ())) (\<lambda>_. [EvHold cid]);
             (case opRelease ops of
                Some _ \<Rightarrow> ret_x (resp\<lparr> rsHeld := Some cid \<rparr>)
              | None \<Rightarrow> do { plain_success ops cid conv; ret_x resp }) }
           else do { plain_success ops cid conv; ret_x resp }
       | None \<Rightarrow> do { plain_success ops cid conv; ret_x resp });
     mark_done ops;
     ret_x resp' }"

definition mark_failure_x :: "('w, 'c) ops \<Rightarrow> string \<Rightarrow> int \<Rightarrow> duration \<Rightarrow> ('w, 'c, unit) xm" where
  "mark_failure_x ops cid status retry_after = do {
     now \<leftarrow> now_x ops;
     call (\<lambda>w. (opMarkFailure ops w cid status retry_after now, ())) (\<lambda>_. [EvFailure cid status]);
     mark_done ops }"

text \<open>\<open>markQuotaExhausted\<close> does not set \<open>selectionCompleted\<close>; no release follows it.\<close>

definition mark_quota_x :: "('w, 'c) ops \<Rightarrow> string \<Rightarrow> duration \<Rightarrow> ('w, 'c, unit) xm" where
  "mark_quota_x ops cid reset =
     (if cid = [] then ret_x ()
      else case (opQuotaUntil ops, opQuota ops) of
        (Some f, q) \<Rightarrow>
          (if reset > 0 then do {
             now \<leftarrow> now_x ops;
             later \<leftarrow> now_x ops;
             call (\<lambda>w. (f w cid now (later + reset), ())) (\<lambda>_. [EvQuota cid (Some (later + reset))]) }
           else (case q of
               Some g \<Rightarrow> do { now \<leftarrow> now_x ops; call (\<lambda>w. (g w cid now, ())) (\<lambda>_. [EvQuota cid None]) }
             | None \<Rightarrow> do { now \<leftarrow> now_x ops;
                 call (\<lambda>w. (opMarkFailure ops w cid 402 0 now, ())) (\<lambda>_. [EvFailure cid 402]) }))
      | (None, Some g) \<Rightarrow> do { now \<leftarrow> now_x ops; call (\<lambda>w. (g w cid now, ())) (\<lambda>_. [EvQuota cid None]) }
      | (None, None) \<Rightarrow> do { now \<leftarrow> now_x ops;
          call (\<lambda>w. (opMarkFailure ops w cid 402 0 now, ())) (\<lambda>_. [EvFailure cid 402]) })"

section \<open>Observations\<close>

definition rate_limit_patch :: "rate_limit \<Rightarrow> gotime \<Rightarrow> credential \<Rightarrow> goerr + credential" where
  "rate_limit_patch rl now c = Inr (c\<lparr>
     cRateLimitLimitRequests := rlLimitRequests rl,
     cRateLimitRemainingRequests := rlRemainingRequests rl,
     cRateLimitLimitTokens := rlLimitTokens rl,
     cRateLimitRemainingTokens := rlRemainingTokens rl,
     cRateLimitObservedAt := Some now \<rparr>)"

definition observe_rate_limit ::
  "('w, 'c) ops \<Rightarrow> string \<Rightarrow> header \<Rightarrow> ('w, 'c, bool \<times> duration) xm" where
  "observe_rate_limit ops cid h =
     (if cid = [] then ret_x (False, 0)
      else do {
        n1 \<leftarrow> now_x ops;
        n2 \<leftarrow> now_x ops;
        case parse_rate_limit_headers (opParsers ops) h n1 n2 of
          None \<Rightarrow> ret_x (False, 0)
        | Some rl \<Rightarrow> do {
            now \<leftarrow> now_x ops;
            patch_x ops cid (rate_limit_patch rl (trunc_sec now));
            later \<leftarrow> now_x ops;
            ret_x (exhausted rl, reset_after rl later) } })"

definition last_used_patch :: "gotime \<Rightarrow> credential \<Rightarrow> goerr + credential" where
  "last_used_patch now c = Inr (c\<lparr> cLastUsedAt := Some now \<rparr>)"

definition touch_last_used :: "('w, 'c) ops \<Rightarrow> credential \<Rightarrow> ('w, 'c, unit) xm" where
  "touch_last_used ops cred =
     (if cID cred = [] then ret_x ()
      else do {
        t \<leftarrow> now_x ops;
        known \<leftarrow> own (\<lambda>x. case xLastUsed x (cID cred) of Some t \<Rightarrow> t | None \<Rightarrow> zero_time);
        let now = trunc_sec t;
            previous = (case cLastUsedAt cred of Some u \<Rightarrow> if u > known then u else known
                        | None \<Rightarrow> known) in
        if previous \<noteq> zero_time \<and> (now < previous \<or> time_sub now previous < 30 * second) then ret_x ()
        else do {
          change (\<lambda>x. x\<lparr> xLastUsed := (xLastUsed x)(cID cred \<mapsto> now) \<rparr>);
          r \<leftarrow> patch_x ops (cID cred) (last_used_patch now);
          (case r of
             Inr _ \<Rightarrow> ret_x ()
           | Inl _ \<Rightarrow> change (\<lambda>x. if xLastUsed x (cID cred) = Some now
                                 then x\<lparr> xLastUsed := map_delete (xLastUsed x) (cID cred) \<rparr> else x)) } })"

definition max_error_body :: nat where
  "max_error_body = 2 ^ 20"

definition buffer_error_response :: "response \<Rightarrow> response" where
  "buffer_error_response r = r\<lparr> rsBody := take max_error_body (rsBody r), rsHeld := None \<rparr>"

definition is_chat_endpoint_quota_denied :: "response \<Rightarrow> bool" where
  "is_chat_endpoint_quota_denied r \<longleftrightarrow> rsStatus r = 403 \<and>
     contains_str (to_lower (take max_error_body (rsBody r))) ''access to the chat endpoint is denied''"

definition is_retryable_status :: "int \<Rightarrow> bool" where
  "is_retryable_status code \<longleftrightarrow> code = 402 \<or> code = 429 \<or> code = 403 \<or> (500 \<le> code \<and> code \<le> 599)"

definition is_success_status :: "int \<Rightarrow> bool" where
  "is_success_status code \<longleftrightarrow> 200 \<le> code \<and> code < 300"

section \<open>One request\<close>

text \<open>The request's constants, the variables of the loop, and how an attempt ends.\<close>

record request =
  rqModel :: string
  rqConv :: string
  rqBody :: string
  rqStream :: bool
  rqCompact :: bool
  rqKey :: string

record loop =
  lpTried :: "string set"
  lpErr :: "goerr option"
  lpResp :: "response option"

datatype outcome = Return "goerr + response" | Continue

definition go_on :: "loop \<Rightarrow> ('w, 'c, outcome \<times> loop) xm" where
  "go_on lp = ret_x (Continue, lp)"

definition stop_with :: "loop \<Rightarrow> goerr + response \<Rightarrow> ('w, 'c, outcome \<times> loop) xm" where
  "stop_with lp r = ret_x (Return r, lp)"

definition untry :: "string \<Rightarrow> loop \<Rightarrow> loop" where
  "untry cid lp = lp\<lparr> lpTried := lpTried lp - {cid} \<rparr>"

definition failed_with :: "goerr \<Rightarrow> loop \<Rightarrow> loop" where
  "failed_with e lp = lp\<lparr> lpErr := Some e \<rparr>"

definition keep_resp :: "response \<Rightarrow> loop \<Rightarrow> loop" where
  "keep_resp r lp = lp\<lparr> lpResp := Some r \<rparr>"

definition live :: "credential \<Rightarrow> bool" where
  "live c \<longleftrightarrow> cEnabled c \<and> \<not> cManualDisabled c"

definition live_result :: "goerr + credential \<Rightarrow> bool" where
  "live_result r = (case r of Inl _ \<Rightarrow> False | Inr c \<Rightarrow> live c)"

definition untry_if :: "bool \<Rightarrow> string \<Rightarrow> loop \<Rightarrow> loop" where
  "untry_if b cid lp = (if b then untry cid lp else lp)"

definition post_opts :: "request \<Rightarrow> credential \<Rightarrow> post_options" where
  "post_opts rq c = \<lparr> poAccessToken = cAccessToken c, poModel = rqModel rq, poConvID = rqConv rq,
     poStream = rqStream rq, poIdempotencyKey = rqKey rq \<rparr>"

definition retry_after_of :: "('w, 'c) ops \<Rightarrow> response \<Rightarrow> ('w, 'c, duration) xm" where
  "retry_after_of ops resp = do {
     now \<leftarrow> now_x ops;
     ret_x (parse_retry_after_at (opParsers ops) (rsHeader resp ''Retry-After'') now) }"

text \<open>The success path, of the first response and of the retry.\<close>

definition deliver ::
  "('w, 'c) ops \<Rightarrow> request \<Rightarrow> credential \<Rightarrow> loop \<Rightarrow> response \<Rightarrow> ('w, 'c, outcome \<times> loop) xm" where
  "deliver ops rq cred lp resp = do {
     ex \<leftarrow> observe_rate_limit ops (cID cred) (rsHeader resp);
     resp' \<leftarrow> (if fst ex then do { mark_quota_x ops (cID cred) (snd ex); ret_x resp }
              else mark_success_x ops (cID cred) (rqConv rq) resp);
     touch_last_used ops cred;
     stop_with lp (Inr resp') }"

text \<open>A status that costs the credential: quota or cooldown, then the next attempt.\<close>

definition penalise ::
  "('w, 'c) ops \<Rightarrow> credential \<Rightarrow> loop \<Rightarrow> response \<Rightarrow> string \<Rightarrow> ('w, 'c, outcome \<times> loop) xm" where
  "penalise ops cred lp resp suffix = do {
     ra \<leftarrow> retry_after_of ops resp;
     let kept = buffer_error_response resp;
     ex \<leftarrow> observe_rate_limit ops (cID cred) (rsHeader resp);
     (if fst ex \<or> is_chat_endpoint_quota_denied kept then mark_quota_x ops (cID cred) (snd ex)
      else mark_failure_x ops (cID cred) (rsStatus resp) ra);
     go_on (failed_with (ErrText (''proxy: upstream status '' @ dec_int (rsStatus resp) @ suffix))
              (keep_resp kept lp)) }"

text \<open>The retry after a refresh, on a credential and a route verified once more.\<close>

definition retry_post ::
  "('w, 'c) ops \<Rightarrow> request \<Rightarrow> credential \<Rightarrow> loop \<Rightarrow> credential \<Rightarrow> 'c \<Rightarrow> ('w, 'c, outcome \<times> loop) xm" where
  "retry_post ops rq cred lp verified client = do {
     r \<leftarrow> post_upstream ops client (rqCompact rq) (rqBody rq) (post_opts rq verified);
     case r of
       Inl e \<Rightarrow> do { mark_failure_x ops (cID cred) 401 0; go_on (failed_with e lp) }
     | Inr retry \<Rightarrow>
         if is_success_status (rsStatus retry) then deliver ops rq cred lp retry
         else if rsStatus retry = 426
         then do { release_selection ops (cID cred); stop_with lp (Inr retry) }
         else penalise ops cred lp retry '' after refresh'' }"

definition retry_route ::
  "('w, 'c) ops \<Rightarrow> request \<Rightarrow> credential \<Rightarrow> loop \<Rightarrow> response \<Rightarrow> token_set \<Rightarrow> credential \<Rightarrow>
   ('w, 'c, outcome \<times> loop) xm" where
  "retry_route ops rq cred lp unauthorized refreshed retry_cred = do {
     route0 \<leftarrow> route_revision ops;
     u \<leftarrow> upstream_for ops retry_cred;
     case u of
       Inl e \<Rightarrow> do {
         release_selection ops (cID cred);
         go_on (keep_resp unauthorized (failed_with e lp)) }
     | Inr client \<Rightarrow> do {
         v \<leftarrow> get_x ops (cID cred);
         ok \<leftarrow> (case v of
             Inl _ \<Rightarrow> ret_x None
           | Inr verified \<Rightarrow>
               if cRevision verified \<noteq> cRevision retry_cred \<or> \<not> live verified then ret_x None
               else do {
                 after \<leftarrow> route_revision ops;
                 ret_x (if after \<noteq> route0 \<or> \<not> token_matches_credential refreshed verified then None
                        else Some verified) });
         case ok of
           None \<Rightarrow> do {
             release_selection ops (cID cred);
             go_on (untry_if (live_result v) (cID cred)
                      (keep_resp unauthorized (failed_with ErrRefreshInvalidated lp))) }
         | Some verified \<Rightarrow> retry_post ops rq cred lp verified client } }"

definition after_force ::
  "('w, 'c) ops \<Rightarrow> request \<Rightarrow> credential \<Rightarrow> loop \<Rightarrow> response \<Rightarrow> token_set \<times> goerr option \<Rightarrow>
   ('w, 'c, outcome \<times> loop) xm" where
  "after_force ops rq cred lp unauthorized t = (case snd t of
       Some e \<Rightarrow>
         (let lp' = keep_resp unauthorized (failed_with e lp) in
          if is_invalidated e
          then do { release_selection ops (cID cred); go_on (untry (cID cred) lp') }
          else do { mark_failure_x ops (cID cred) 401 0; go_on lp' })
     | None \<Rightarrow> do {
         g \<leftarrow> get_x ops (cID cred);
         (case g of
            Inr retry_cred \<Rightarrow>
              (if live retry_cred \<and> token_matches_credential (fst t) retry_cred
               then retry_route ops rq cred lp unauthorized (fst t) retry_cred
               else do {
                 release_selection ops (cID cred);
                 go_on (untry_if (live retry_cred) (cID cred)
                          (keep_resp unauthorized (failed_with ErrRefreshInvalidated lp))) })
          | Inl _ \<Rightarrow> do {
              release_selection ops (cID cred);
              go_on (keep_resp unauthorized (failed_with ErrRefreshInvalidated lp)) }) })"

definition unauthorized_retry ::
  "('w, 'c) ops \<Rightarrow> request \<Rightarrow> credential \<Rightarrow> u64 \<Rightarrow> loop \<Rightarrow> response \<Rightarrow> ('w, 'c, outcome \<times> loop) xm" where
  "unauthorized_retry ops rq cred route lp resp = do {
     let unauthorized = buffer_error_response resp;
     g \<leftarrow> get_x ops (cID cred);
     case g of
       Inl e \<Rightarrow> do {
         release_selection ops (cID cred);
         go_on (keep_resp unauthorized (failed_with e lp)) }
     | Inr latest \<Rightarrow> do {
         moved \<leftarrow> (if \<not> live latest \<or> cRevision latest \<noteq> cRevision cred then ret_x True
                  else do { now_route \<leftarrow> route_revision ops; ret_x (now_route \<noteq> route) });
         if moved then do {
           release_selection ops (cID cred);
           go_on (untry_if (live latest) (cID cred)
                    (keep_resp unauthorized (failed_with ErrRefreshInvalidated lp))) }
         else do {
           t \<leftarrow> force_refresh_x ops latest;
           after_force ops rq cred lp unauthorized t } } }"

definition on_response ::
  "('w, 'c) ops \<Rightarrow> request \<Rightarrow> credential \<Rightarrow> u64 \<Rightarrow> loop \<Rightarrow> response \<Rightarrow> ('w, 'c, outcome \<times> loop) xm" where
  "on_response ops rq cred route lp resp =
     (if rsStatus resp = 426
      then do { release_selection ops (cID cred); stop_with lp (Inr resp) }
      else if is_success_status (rsStatus resp) then deliver ops rq cred lp resp
      else if rsStatus resp = 401 then unauthorized_retry ops rq cred route lp resp
      else if is_retryable_status (rsStatus resp) then penalise ops cred lp resp []
      else do { release_selection ops (cID cred); stop_with lp (Inr resp) })"

definition first_post ::
  "('w, 'c) ops \<Rightarrow> request \<Rightarrow> credential \<Rightarrow> u64 \<Rightarrow> loop \<Rightarrow> 'c \<Rightarrow> ('w, 'c, outcome \<times> loop) xm" where
  "first_post ops rq verified route lp client = do {
     r \<leftarrow> post_upstream ops client (rqCompact rq) (rqBody rq) (post_opts rq verified);
     case r of
       Inl e \<Rightarrow> do { mark_failure_x ops (cID verified) 0 0; go_on (failed_with e lp) }
     | Inr resp \<Rightarrow> on_response ops rq verified route lp resp }"

text \<open>Resolution of the client between two reads of route and credential.\<close>

definition attempt_route ::
  "('w, 'c) ops \<Rightarrow> request \<Rightarrow> credential \<Rightarrow> token_set \<Rightarrow> loop \<Rightarrow> ('w, 'c, outcome \<times> loop) xm" where
  "attempt_route ops rq cred tokens lp = do {
     route0 \<leftarrow> route_revision ops;
     u \<leftarrow> upstream_for ops cred;
     case u of
       Inl e \<Rightarrow> do { mark_failure_x ops (cID cred) 0 0; go_on (failed_with e lp) }
     | Inr client \<Rightarrow> do {
         route \<leftarrow> route_revision ops;
         v \<leftarrow> get_x ops (cID cred);
         ok \<leftarrow> (case v of
             Inl _ \<Rightarrow> ret_x None
           | Inr verified \<Rightarrow>
               if route \<noteq> route0 then ret_x None
               else do {
                 again \<leftarrow> route_revision ops;
                 ret_x (if again \<noteq> route \<or> cRevision verified \<noteq> cRevision cred \<or> \<not> live verified \<or>
                           \<not> token_matches_credential tokens verified
                        then None else Some verified) });
         case ok of
           None \<Rightarrow> do {
             release_selection ops (cID cred);
             go_on (untry_if (live_result v) (cID cred) (failed_with ErrRefreshInvalidated lp)) }
         | Some verified \<Rightarrow> first_post ops rq verified route lp client } }"

text \<open>The failed token of a selected credential.\<close>

definition token_failed ::
  "('w, 'c) ops \<Rightarrow> credential \<Rightarrow> loop \<Rightarrow> goerr \<Rightarrow> ('w, 'c, outcome \<times> loop) xm" where
  "token_failed ops cred lp e =
     (if is_invalidated e
      then do { release_selection ops (cID cred); go_on (untry (cID cred) (failed_with e lp)) }
      else do {
        g \<leftarrow> get_x ops (cID cred);
        let rotated = (case g of
            Inl _ \<Rightarrow> False
          | Inr latest \<Rightarrow> trim_space (cRefreshToken latest) \<noteq> [] \<and>
              trim_space (cRefreshToken latest) \<noteq> trim_space (cRefreshToken cred));
        if rotated
        then do { release_selection ops (cID cred); go_on (untry (cID cred) (failed_with e lp)) }
        else do { mark_failure_x ops (cID cred) 401 0; go_on (failed_with e lp) } })"

definition attempt_token ::
  "('w, 'c) ops \<Rightarrow> request \<Rightarrow> credential \<Rightarrow> loop \<Rightarrow> ('w, 'c, outcome \<times> loop) xm" where
  "attempt_token ops rq cred lp = do {
     t \<leftarrow> ensure_token ops cred;
     case snd t of
       Some e \<Rightarrow> token_failed ops cred lp e
     | None \<Rightarrow> do {
         g \<leftarrow> get_x ops (cID cred);
         case g of
           Inl e \<Rightarrow> do { release_selection ops (cID cred); go_on (failed_with e lp) }
         | Inr latest \<Rightarrow>
             if \<not> live latest \<or> \<not> token_matches_credential (fst t) latest
             then do {
               release_selection ops (cID cred);
               go_on (untry_if (live latest) (cID cred) (failed_with ErrRefreshInvalidated lp)) }
             else attempt_route ops rq latest (fst t) lp } }"

definition attempt_selected ::
  "('w, 'c) ops \<Rightarrow> request \<Rightarrow> string \<Rightarrow> loop \<Rightarrow> ('w, 'c, outcome \<times> loop) xm" where
  "attempt_selected ops rq cid lp = do {
     g \<leftarrow> get_x ops cid;
     case g of
       Inl e \<Rightarrow> do { release_selection ops cid; go_on (failed_with e lp) }
     | Inr cred \<Rightarrow> attempt_token ops rq cred lp }"

definition no_pick :: "loop \<Rightarrow> goerr \<Rightarrow> goerr + response" where
  "no_pick lp e = (case lpResp lp of Some r \<Rightarrow> Inr r | None \<Rightarrow>
     (case lpErr lp of Some e' \<Rightarrow> Inl e' | None \<Rightarrow> Inl e))"

definition pick_x ::
  "('w, 'c) ops \<Rightarrow> credential list \<Rightarrow> string \<Rightarrow> ('w, 'c, goerr + credential) xm" where
  "pick_x ops cs conv = do {
     now \<leftarrow> now_x ops;
     change (\<lambda>x. x\<lparr> xDone := False \<rparr>);
     call (\<lambda>w. opPick ops w cs conv now) (\<lambda>r. [EvPick r]) }"

definition attempt ::
  "('w, 'c) ops \<Rightarrow> request \<Rightarrow> credential list \<Rightarrow> loop \<Rightarrow> ('w, 'c, outcome \<times> loop) xm" where
  "attempt ops rq candidates lp = do {
     e \<leftarrow> silently (opCtxErr ops);
     case e of
       Some e \<Rightarrow> stop_with lp (Inl e)
     | None \<Rightarrow> do {
         p \<leftarrow> pick_x ops (filter (\<lambda>c. cID c \<notin> lpTried lp) candidates) (rqConv rq);
         case p of
           Inl e \<Rightarrow> stop_with lp (no_pick lp e)
         | Inr c \<Rightarrow> attempt_selected ops rq (cID c) (lp\<lparr> lpTried := insert (cID c) (lpTried lp) \<rparr>) } }"

fun attempts ::
  "('w, 'c) ops \<Rightarrow> request \<Rightarrow> credential list \<Rightarrow> nat \<Rightarrow> loop \<Rightarrow> ('w, 'c, goerr + response) xm" where
  "attempts ops rq candidates 0 lp = ret_x (no_pick lp ErrNoCredential)"
| "attempts ops rq candidates (Suc n) lp = do {
     r \<leftarrow> attempt ops rq candidates lp;
     (case r of (Return x, _) \<Rightarrow> ret_x x | (Continue, lp') \<Rightarrow> attempts ops rq candidates n lp') }"

section \<open>The candidate view\<close>

definition list_credential_candidates :: "('w, 'c) ops \<Rightarrow> ('w, 'c, goerr + credential list) xm" where
  "list_credential_candidates ops = do {
     let ttl = (if opCandidateTTL ops \<le> 0 then 250000000 else opCandidateTTL ops);
     now \<leftarrow> now_x ops;
     till \<leftarrow> own xCandidatesTill;
     if now < till then do { cs \<leftarrow> own xCandidates; ret_x (Inr cs) }
     else do {
       again \<leftarrow> now_x ops;
       till \<leftarrow> own xCandidatesTill;
       if again < till then do { cs \<leftarrow> own xCandidates; ret_x (Inr cs) }
       else do {
         r \<leftarrow> silently (opCandidates ops);
         (case r of
            Inl e \<Rightarrow> ret_x (Inl e)
          | Inr cs \<Rightarrow> do {
              change (\<lambda>x. x\<lparr> xCandidates := cs, xCandidatesTill := again + ttl \<rparr>);
              ret_x (Inr cs) }) } } }"

definition max_attempts :: "('w, 'c) ops \<Rightarrow> nat" where
  "max_attempts ops = (if opMaxAttempts ops \<le> 0 then 10 else nat (opMaxAttempts ops))"

definition first_loop :: loop where
  "first_loop = \<lparr> lpTried = {}, lpErr = None, lpResp = None \<rparr>"

definition post_request ::
  "('w, 'c) ops \<Rightarrow> request \<Rightarrow> ('w, 'c, goerr + response) xm" where
  "post_request ops rq =
     (if opUpstream ops = None \<and> opUpstreamFor ops = None
      then ret_x (Inl (ErrText ''proxy: executor not configured''))
      else case (case opBodyPatch ops of None \<Rightarrow> Inr (rqBody rq) | Some f \<Rightarrow> f (rqBody rq) (rqModel rq)) of
        Inl e \<Rightarrow> ret_x (Inl e)
      | Inr body \<Rightarrow> do {
          cs \<leftarrow> list_credential_candidates ops;
          (case cs of
             Inl e \<Rightarrow> ret_x (Inl (ErrWrap ''proxy: list credential candidates'' e))
           | Inr candidates \<Rightarrow> attempts ops (rq\<lparr> rqBody := body \<rparr>) candidates (max_attempts ops) first_loop) })"

definition post_plain ::
  "('w, 'c) ops \<Rightarrow> string \<Rightarrow> string \<Rightarrow> string \<Rightarrow> string \<Rightarrow> bool \<Rightarrow> ('w, 'c, goerr + response) xm" where
  "post_plain ops key model conv body stream = post_request ops
     \<lparr> rqModel = model, rqConv = conv, rqBody = body, rqStream = stream, rqCompact = False, rqKey = key \<rparr>"

definition post_compact ::
  "('w, 'c) ops \<Rightarrow> string \<Rightarrow> string \<Rightarrow> string \<Rightarrow> string \<Rightarrow> bool \<Rightarrow> ('w, 'c, goerr + response) xm" where
  "post_compact ops key model conv body stream =
     (if stream then ret_x (Inl (ErrText ''proxy: responses compact does not support streaming''))
      else post_request ops \<lparr> rqModel = model, rqConv = conv, rqBody = body, rqStream = False,
             rqCompact = True, rqKey = key \<rparr>)"

text \<open>Closing a delivered body releases the reservation it holds, once.\<close>

definition close_body :: "('w, 'c) ops \<Rightarrow> response \<Rightarrow> ('w, 'c, response) xm" where
  "close_body ops resp = (case (rsHeld resp, opRelease ops) of
       (Some cid, Some f) \<Rightarrow> do {
         call (\<lambda>w. (f w cid, ())) (\<lambda>_. [EvRelease cid]);
         ret_x (resp\<lparr> rsHeld := None \<rparr>) }
     | _ \<Rightarrow> ret_x resp)"

end
