(* ===== verification/Runner.thy ===== *)
theory Runner
  imports Executor Cred_Store
begin

text \<open>
  The inspection runner of \<open>internal/inspection/runner.go\<close>: which credentials a run takes, how one is
  inspected, the mass-failure guard, the actions sent to the store and the summary.

  The interfaces \<open>Store\<close>, \<open>Prober\<close> and \<open>Settings\<close> are the fields of \<open>probing\<close>, over a world \<open>'w\<close> that
  carries whatever else happens between two calls; \<open>rnLog\<close> records the calls with their answers.  The
  workers of a run are taken in the order in which they finish (\<open>prOrder\<close>), the calls of the others being
  part of the world's answers.  Contexts, logging and the notification have no effect on the result.
\<close>

section \<open>Settings and ratios\<close>

record inspection_settings =
  isEnabled :: bool
  isIntervalSec :: int
  isTimeoutSec :: int
  isConcurrency :: int
  isConfirmUnauthorized :: int
  isPurgeAfterSec :: int
  isMassFailureMinimum :: int
  isMassFailureRatio :: dyadic
  isInitialDelaySec :: int
  isInspectQuarantined :: bool
  isSkipRecentSuccessSec :: int
  isMaxCredentialsPerRun :: int
  isMaxPersistedRunResults :: int

text \<open>The quotient of two counts in \<open>float64\<close>: 53 bits, rounded to the nearest, ties to even.\<close>

fun bit_length :: "nat \<Rightarrow> nat" where
  "bit_length n = (if n = 0 then 0 else Suc (bit_length (n div 2)))"

declare bit_length.simps [simp del]

definition float_div :: "nat \<Rightarrow> nat \<Rightarrow> dyadic" where
  "float_div u n =
     (if u = 0 then (0, 0)
      else
        let e = 54 + bit_length n - bit_length u;
            t = u * 2 ^ e;
            q = t div n;
            s = bit_length q - 53;
            low = q mod 2 ^ s;
            half = 2 ^ (s - 1);
            up = low > half \<or> (low = half \<and> (t mod n \<noteq> 0 \<or> odd (q div 2 ^ s)))
        in (int (q div 2 ^ s + (if up then 1 else 0)), e - s))"

definition dyadic_ge :: "dyadic \<Rightarrow> dyadic \<Rightarrow> bool" where
  "dyadic_ge x y \<longleftrightarrow> fst x * 2 ^ snd y \<ge> fst y * 2 ^ snd x"

section \<open>Results\<close>

record result =
  roCredentialID :: string
  roStatus :: string
  roAction :: string
  roError :: string

record summary =
  suStartedAt :: gotime
  suFinishedAt :: gotime
  suInspected :: int
  suHealthy :: int
  suUnauthorized :: int
  suRateLimited :: int
  suErrors :: int
  suSkipped :: int
  suQuarantined :: int
  suReactivated :: int
  suPurged :: int
  suMassFailureGuard :: bool
  suResults :: "result list"

record progress =
  pgStartedAt :: gotime
  pgEligible :: int
  pgScheduled :: int
  pgCompleted :: int
  pgSkipped :: int
  pgHealthy :: int
  pgUnauthorized :: int
  pgRateLimited :: int
  pgErrors :: int

definition no_summary :: summary where
  "no_summary = \<lparr> suStartedAt = zero_time, suFinishedAt = zero_time, suInspected = 0, suHealthy = 0,
     suUnauthorized = 0, suRateLimited = 0, suErrors = 0, suSkipped = 0, suQuarantined = 0,
     suReactivated = 0, suPurged = 0, suMassFailureGuard = False, suResults = [] \<rparr>"

section \<open>The runner\<close>

datatype insp_event =
    RvSettings inspection_settings
  | RvClock gotime
  | RvList "goerr + credential list"
  | RvProbe credential "int \<times> credential \<times> goerr option"
  | RvRefresh credential "token_set \<times> credential \<times> goerr option"
  | RvInvalidate string
  | RvApply "insp_action list" "goerr + insp_result list"

record 'w probing =
  prList :: "'w \<Rightarrow> 'w \<times> (goerr + credential list)"
  prApply :: "'w \<Rightarrow> insp_action list \<Rightarrow> 'w \<times> (goerr + insp_result list)"
  prProbe :: "'w \<Rightarrow> credential \<Rightarrow> 'w \<times> int \<times> credential \<times> goerr option"
  prRefresh :: "'w \<Rightarrow> credential \<Rightarrow> 'w \<times> token_set \<times> credential \<times> goerr option"
  prInvalidate :: "('w \<Rightarrow> string \<Rightarrow> 'w) option"
  prRevision :: "'w \<Rightarrow> 'w \<times> u64"
  prSettings :: "'w \<Rightarrow> 'w \<times> inspection_settings"
  prNow :: "'w \<Rightarrow> 'w \<times> gotime"
  prOrder :: "'w \<Rightarrow> nat \<Rightarrow> nat list"
  prHash :: "string \<Rightarrow> string"
  prRateLimitCooldown :: duration
  prQuotaCooldown :: duration

record 'w runner =
  rnWorld :: 'w
  rnRunning :: bool
  rnLast :: "summary option"
  rnProgress :: "progress option"
  rnLog :: "insp_event list"

type_synonym ('w, 'a) rm = "('w runner, 'a) state"

definition rcall :: "('w \<Rightarrow> 'w \<times> 'a) \<Rightarrow> ('a \<Rightarrow> insp_event list) \<Rightarrow> ('w, 'a) rm" where
  "rcall f ev = State (\<lambda>r. let (w, a) = f (rnWorld r) in
     (a, r\<lparr> rnWorld := w, rnLog := rnLog r @ ev a \<rparr>))"

definition rchange :: "('w runner \<Rightarrow> 'w runner) \<Rightarrow> ('w, unit) rm" where
  "rchange f = State (\<lambda>r. ((), f r))"

definition probe_x :: "'w probing \<Rightarrow> credential \<Rightarrow> ('w, int \<times> credential \<times> goerr option) rm" where
  "probe_x pr c = rcall (\<lambda>w. prProbe pr w c) (\<lambda>a. [RvProbe c a])"

definition refresh_x :: "'w probing \<Rightarrow> credential \<Rightarrow> ('w, token_set \<times> credential \<times> goerr option) rm" where
  "refresh_x pr c = rcall (\<lambda>w. prRefresh pr w c) (\<lambda>a. [RvRefresh c a])"

definition settings_revision_current :: "'w probing \<Rightarrow> u64 \<Rightarrow> ('w, bool) rm" where
  "settings_revision_current pr expected = do {
     n \<leftarrow> rcall (prRevision pr) (\<lambda>_. []);
     State_Monad.return (n = expected) }"

section \<open>The inspection of one credential\<close>

definition status_label :: "int \<Rightarrow> string" where
  "status_label status = (if status > 0 then ''http_error'' else ''probe_error'')"

definition safe_probe_error :: "int \<Rightarrow> goerr option \<Rightarrow> string" where
  "safe_probe_error status e =
     (if status > 0 then ''status '' @ dec_int status
      else if e = Some ErrDeadline then ''timeout'' else ''network or protocol error'')"

definition finding :: "string \<Rightarrow> string \<Rightarrow> string \<Rightarrow> result" where
  "finding cid status err = \<lparr> roCredentialID = cid, roStatus = status, roAction = [], roError = err \<rparr>"

definition settings_changed :: "string \<Rightarrow> result" where
  "settings_changed cid = (finding cid ''settings_changed'' ''runtime settings changed during inspection'')
     \<lparr> roAction := ''inspection_result_held'' \<rparr>"

definition state_changed :: "string \<Rightarrow> result" where
  "state_changed cid = (finding cid ''state_changed'' ''credential or route changed during inspection'')
     \<lparr> roAction := ''inspection_result_held'' \<rparr>"

definition invalidated :: "goerr option \<Rightarrow> bool" where
  "invalidated e = (case e of None \<Rightarrow> False | Some x \<Rightarrow> is_invalidated x)"

text \<open>What the first probe says, and what a confirming probe says: \<open>None\<close> is a 401.\<close>

definition first_verdict :: "string \<Rightarrow> int \<Rightarrow> goerr option \<Rightarrow> result option" where
  "first_verdict cid status e =
     (if invalidated e then Some (state_changed cid)
      else if status = 200 \<and> e = None then Some (finding cid ''healthy'' [])
      else if status = 429 then Some (finding cid ''rate_limited'' ''status 429'')
      else if status = 402 then Some (finding cid ''quota_exhausted'' ''status 402'')
      else if status \<noteq> 401 then Some (finding cid (status_label status) (safe_probe_error status e))
      else None)"

definition confirm_verdict :: "string \<Rightarrow> int \<Rightarrow> goerr option \<Rightarrow> result option" where
  "confirm_verdict cid status e =
     (if invalidated e then Some (state_changed cid)
      else if status = 200 \<and> e = None then Some (finding cid ''healthy'' [])
      else if status = 429 then Some (finding cid ''rate_limited'' ''status 429'')
      else if status \<noteq> 401 then Some (finding cid (status_label status) (safe_probe_error status e))
      else None)"

definition final_verdict :: "string \<Rightarrow> bool \<Rightarrow> result" where
  "final_verdict cid terminal =
     (if terminal then finding cid ''unauthorized'' ''confirmed unauthorized after terminal refresh failure''
      else finding cid ''unauthorized_unconfirmed'' ''authorization remained unavailable after successful refresh'')"

fun confirm :: "'w probing \<Rightarrow> string \<Rightarrow> u64 \<Rightarrow> bool \<Rightarrow> nat \<Rightarrow> credential \<Rightarrow> ('w, result \<times> credential) rm" where
  "confirm pr cid revn terminal 0 observed = State_Monad.return (final_verdict cid terminal, observed)"
| "confirm pr cid revn terminal (Suc n) observed = do {
     current \<leftarrow> settings_revision_current pr revn;
     if \<not> current then State_Monad.return (settings_changed cid, observed)
     else do {
       p \<leftarrow> probe_x pr observed;
       (case p of (status, observed', e) \<Rightarrow>
          (case confirm_verdict cid status e of
             Some r \<Rightarrow> State_Monad.return (r, observed')
           | None \<Rightarrow> confirm pr cid revn terminal n observed')) } }"

text \<open>The outcome of the refresh: a final result, or whether it failed for good.\<close>

definition refresh_verdict :: "string \<Rightarrow> goerr option \<Rightarrow> result + bool" where
  "refresh_verdict cid err = (case err of
       None \<Rightarrow> Inr False
     | Some e \<Rightarrow>
         if is_invalidated e then Inl (state_changed cid)
         else if classify_error err = ErrorTerminal then Inr True
         else if classify_error err = ErrorSystem
         then Inl (finding cid ''system_error'' (safe_probe_error (auth_status_code e) err))
         else Inl (finding cid ''refresh_error'' (safe_probe_error (auth_status_code e) err)))"

definition inspect_one :: "'w probing \<Rightarrow> int \<Rightarrow> u64 \<Rightarrow> credential \<Rightarrow> ('w, result \<times> credential) rm" where
  "inspect_one pr confirmations revn cred = do {
     current \<leftarrow> settings_revision_current pr revn;
     if \<not> current then State_Monad.return (settings_changed (cID cred), cred)
     else do {
       p \<leftarrow> probe_x pr cred;
       (case p of (status, observed, e) \<Rightarrow>
          (case first_verdict (cID cred) status e of
             Some r \<Rightarrow> State_Monad.return (r, observed)
           | None \<Rightarrow> do {
               still \<leftarrow> settings_revision_current pr revn;
               if \<not> still then State_Monad.return (settings_changed (cID cred), observed)
               else do {
                 f \<leftarrow> refresh_x pr observed;
                 (case f of (_, refreshed, err) \<Rightarrow>
                    (case refresh_verdict (cID cred) err of
                       Inl r \<Rightarrow> State_Monad.return (r, refreshed)
                     | Inr terminal \<Rightarrow>
                         confirm pr (cID cred) revn terminal
                           (nat ((if confirmations < 2 then 2 else confirmations) - 1)) refreshed)) } })) } }"

section \<open>The credentials of a run\<close>

definition eligible :: "inspection_settings \<Rightarrow> gotime \<Rightarrow> credential \<Rightarrow> bool" where
  "eligible s now c \<longleftrightarrow>
     \<not> cManualDisabled c \<and>
     \<not> (cLifecycleState c = st_quarantined \<and> \<not> isInspectQuarantined s) \<and>
     (cEnabled c \<or> cLifecycleState c = st_quarantined) \<and>
     \<not> (isSkipRecentSuccessSec s > 0 \<and>
        (case cLastSuccessAt c of None \<Rightarrow> False
         | Some t \<Rightarrow> time_sub now t < wrap64 (isSkipRecentSuccessSec s * second)))"

definition purge_due :: "gotime \<Rightarrow> credential \<Rightarrow> bool" where
  "purge_due now c \<longleftrightarrow>
     \<not> cManualDisabled c \<and> cLifecycleState c = st_quarantined \<and> cDisableReason c = reason_invalid_auth \<and>
     (case cPurgeAfter c of None \<Rightarrow> False | Some t \<Rightarrow> \<not> t > now)"

text \<open>Due purges first, then the least recently inspected, then by identifier.\<close>

type_synonym candidate = "credential \<times> bool"

definition candidate_before :: "candidate \<Rightarrow> candidate \<Rightarrow> bool" where
  "candidate_before a b =
     (if snd a \<noteq> snd b then snd a
      else case (cLastInspectionAt (fst a), cLastInspectionAt (fst b)) of
        (None, Some _) \<Rightarrow> True
      | (Some _, None) \<Rightarrow> False
      | (None, None) \<Rightarrow> str_less (cID (fst a)) (cID (fst b))
      | (Some s, Some t) \<Rightarrow> if s \<noteq> t then s < t else str_less (cID (fst a)) (cID (fst b)))"

definition eligible_candidates :: "inspection_settings \<Rightarrow> gotime \<Rightarrow> credential list \<Rightarrow> candidate list" where
  "eligible_candidates s now cs =
     map (\<lambda>c. (c, purge_due now c)) (filter (\<lambda>c. purge_due now c \<or> eligible s now c) cs)"

definition run_limit :: "inspection_settings \<Rightarrow> nat" where
  "run_limit s = nat (if isMaxCredentialsPerRun s \<le> 0 then 100 else isMaxCredentialsPerRun s)"

definition scheduled :: "inspection_settings \<Rightarrow> gotime \<Rightarrow> credential list \<Rightarrow> candidate list" where
  "scheduled s now cs = take (run_limit s) (sort_stable candidate_before (eligible_candidates s now cs))"

section \<open>One worker\<close>

record checked =
  ckCredential :: credential
  ckResult :: result
  ckPurge :: bool
  ckFingerprint :: string
  ckReset :: bool
  ckStaleAfter :: "gotime option"
  ckStaleFingerprint :: string

text \<open>Evidence that names other tokens than the record holds is stale.\<close>

definition stale_evidence :: "(string \<Rightarrow> string) \<Rightarrow> gotime \<Rightarrow> candidate \<Rightarrow> bool" where
  "stale_evidence H now ca = (case ca of (c, purge) \<Rightarrow>
     purge \<and> (\<not> purge_due now c \<or> cQuarantineTokenFingerprint c = [] \<or>
              cQuarantineTokenFingerprint c \<noteq> token_fingerprint H c))"

definition checked_of :: "(string \<Rightarrow> string) \<Rightarrow> gotime \<Rightarrow> candidate \<Rightarrow> result \<Rightarrow> credential \<Rightarrow> checked" where
  "checked_of H now ca r observed0 = (case ca of (c, purge) \<Rightarrow>
     let stale = stale_evidence H now ca;
         observed = (if cID observed0 = [] then c else observed0) in
     \<lparr> ckCredential = observed, ckResult = r, ckPurge = purge \<and> \<not> stale,
       ckFingerprint = token_fingerprint H observed,
       ckReset = stale \<and> \<not> cEnabled observed \<and> \<not> cManualDisabled observed \<and>
                 cLifecycleState observed = st_quarantined \<and> cDisableReason observed = reason_invalid_auth,
       ckStaleAfter = (if stale then cPurgeAfter c else None),
       ckStaleFingerprint = (if stale then cQuarantineTokenFingerprint c else []) \<rparr>)"

definition record_progress :: "result \<Rightarrow> progress \<Rightarrow> progress" where
  "record_progress r p0 =
     (let p = p0\<lparr> pgCompleted := pgCompleted p0 + 1 \<rparr> in
      if roStatus r = ''healthy'' then p\<lparr> pgHealthy := pgHealthy p + 1 \<rparr>
      else if roStatus r = ''unauthorized'' then p\<lparr> pgUnauthorized := pgUnauthorized p + 1 \<rparr>
      else if roStatus r = ''rate_limited'' \<or> roStatus r = ''quota_exhausted''
      then p\<lparr> pgRateLimited := pgRateLimited p + 1 \<rparr>
      else p\<lparr> pgErrors := pgErrors p + 1 \<rparr>)"

definition inspect_candidate ::
  "'w probing \<Rightarrow> inspection_settings \<Rightarrow> u64 \<Rightarrow> gotime \<Rightarrow> candidate \<Rightarrow> ('w, checked) rm" where
  "inspect_candidate pr s revn now ca = do {
     io \<leftarrow> inspect_one pr (isConfirmUnauthorized s) revn (fst ca);
     rchange (\<lambda>r. r\<lparr> rnProgress := map_option (record_progress (fst io)) (rnProgress r) \<rparr>);
     State_Monad.return (checked_of (prHash pr) now ca (fst io) (snd io)) }"

fun inspect_all ::
  "'w probing \<Rightarrow> inspection_settings \<Rightarrow> u64 \<Rightarrow> gotime \<Rightarrow> candidate list \<Rightarrow> ('w, checked list) rm" where
  "inspect_all pr s revn now [] = State_Monad.return []"
| "inspect_all pr s revn now (ca # cas) = do {
     k \<leftarrow> inspect_candidate pr s revn now ca;
     ks \<leftarrow> inspect_all pr s revn now cas;
     State_Monad.return (k # ks) }"

text \<open>The order in which the workers finish, as positions of the schedule.\<close>

definition finishing :: "'w probing \<Rightarrow> 'w \<Rightarrow> candidate list \<Rightarrow> candidate list" where
  "finishing pr w cas =
     (let ks = prOrder pr w (length cas) in
      if distinct ks \<and> set ks = {..<length cas} then map (\<lambda>k. cas ! k) ks else cas)"

section \<open>The summary and the guard\<close>

definition count_result :: "result \<Rightarrow> summary \<Rightarrow> summary" where
  "count_result r s0 =
     (let s = s0\<lparr> suInspected := suInspected s0 + 1 \<rparr> in
      if roStatus r = ''healthy'' then s\<lparr> suHealthy := suHealthy s + 1 \<rparr>
      else if roStatus r = ''unauthorized'' then s\<lparr> suUnauthorized := suUnauthorized s + 1 \<rparr>
      else if roStatus r = ''rate_limited'' \<or> roStatus r = ''quota_exhausted''
      then s\<lparr> suRateLimited := suRateLimited s + 1 \<rparr>
      else if roStatus r = ''state_changed'' \<or> roStatus r = ''settings_changed''
      then s\<lparr> suSkipped := suSkipped s + 1 \<rparr>
      else s\<lparr> suErrors := suErrors s + 1 \<rparr>)"

definition mass_failure :: "inspection_settings \<Rightarrow> summary \<Rightarrow> bool" where
  "mass_failure s su \<longleftrightarrow>
     suUnauthorized su \<ge> isMassFailureMinimum s \<and> suInspected su > 0 \<and>
     dyadic_ge (float_div (nat (suUnauthorized su)) (nat (suInspected su))) (isMassFailureRatio s)"

section \<open>The actions\<close>

record pending =
  pdResult :: result
  pdAction :: insp_action
  pdHeld :: string

definition retention :: "inspection_settings \<Rightarrow> gotime \<Rightarrow> gotime option" where
  "retention s now = (if isPurgeAfterSec s > 0
     then Some (now + wrap64 (isPurgeAfterSec s * second)) else None)"

definition base_action :: "inspection_settings \<Rightarrow> gotime \<Rightarrow> checked \<Rightarrow> insp_action" where
  "base_action s now k =
     \<lparr> aID = roCredentialID (ckResult k), aExpectedRevision = cRevision (ckCredential k),
       aKind = KindOther [], aAt = now, aStatus = [], aMessage = [],
       aPurgeAfter = (if ckReset k then retention s now else None), aCooldownUntil = None,
       aExpectedPurgeAfter = (if ckReset k then ckStaleAfter k else None),
       aExpectedTokenFingerprint = (if ckReset k then ckStaleFingerprint k else []),
       aResetQuarantineEvidence = ckReset k \<rparr>"

definition cooldown_of :: "'w probing \<Rightarrow> string \<Rightarrow> duration" where
  "cooldown_of pr status =
     (let d = (if status = ''quota_exhausted'' \<and> prQuotaCooldown pr > 0 then prQuotaCooldown pr
               else prRateLimitCooldown pr) in
      if d \<le> 0 then 60 * second else d)"

definition plan_action ::
  "'w probing \<Rightarrow> inspection_settings \<Rightarrow> gotime \<Rightarrow> bool \<Rightarrow> checked \<Rightarrow> pending" where
  "plan_action pr s now guard k =
     (let r = ckResult k; a = base_action s now k;
          failure = a\<lparr> aKind := KindFailure, aStatus := roStatus r, aMessage := roError r \<rparr> in
      if roStatus r = ''healthy''
      then \<lparr> pdResult = r, pdAction = a\<lparr> aKind := KindHealthy \<rparr>, pdHeld = ''healthy_result_held'' \<rparr>
      else if roStatus r = ''unauthorized'' then
        if guard
        then \<lparr> pdResult = r\<lparr> roAction := ''held_by_mass_failure_guard'' \<rparr>,
               pdAction = a\<lparr> aKind := KindFailure, aStatus := ''mass_failure_guard'',
                             aMessage := ''confirmed unauthorized'' \<rparr>,
               pdHeld = ''mass_failure_result_held'' \<rparr>
        else if ckPurge k
        then \<lparr> pdResult = r,
               pdAction = a\<lparr> aKind := KindPurge, aExpectedPurgeAfter := cPurgeAfter (ckCredential k),
                             aExpectedTokenFingerprint := ckFingerprint k \<rparr>,
               pdHeld = ''purge_held'' \<rparr>
        else \<lparr> pdResult = r,
               pdAction = a\<lparr> aKind := KindQuarantine,
                             aPurgeAfter := (case aPurgeAfter a of None \<Rightarrow> retention s now | Some t \<Rightarrow> Some t) \<rparr>,
               pdHeld = ''quarantine_held'' \<rparr>
      else if roStatus r = ''rate_limited'' \<or> roStatus r = ''quota_exhausted''
      then \<lparr> pdResult = r,
             pdAction = failure\<lparr> aCooldownUntil := Some (now + cooldown_of pr (roStatus r)) \<rparr>,
             pdHeld = ''rate_limit_result_held'' \<rparr>
      else if roStatus r = ''state_changed'' \<or> roStatus r = ''settings_changed''
      then \<lparr> pdResult = r, pdAction = failure\<lparr> aKind := KindAttempt \<rparr>, pdHeld = ''inspection_result_held'' \<rparr>
      else \<lparr> pdResult = r, pdAction = failure, pdHeld = ''inspection_result_held'' \<rparr>)"

text \<open>The purges are announced to the refresher before the store is asked, the deletions after it.\<close>

definition invalidate_x :: "'w probing \<Rightarrow> string \<Rightarrow> ('w, unit) rm" where
  "invalidate_x pr cid = (case prInvalidate pr of
       None \<Rightarrow> State_Monad.return ()
     | Some f \<Rightarrow> rcall (\<lambda>w. (f w cid, ())) (\<lambda>_. [RvInvalidate cid]))"

fun invalidate_each :: "'w probing \<Rightarrow> string list \<Rightarrow> ('w, unit) rm" where
  "invalidate_each pr [] = State_Monad.return ()"
| "invalidate_each pr (k # ks) = do { invalidate_x pr k; invalidate_each pr ks }"

definition apply_actions :: "'w probing \<Rightarrow> insp_action list \<Rightarrow> ('w, goerr + insp_result list) rm" where
  "apply_actions pr as = do {
     invalidate_each pr (map aID (filter (\<lambda>a. aKind a = KindPurge) as));
     r \<leftarrow> rcall (\<lambda>w. prApply pr w as) (\<lambda>r. [RvApply as r]);
     (case r of
        Inl e \<Rightarrow> State_Monad.return (Inl e)
      | Inr rs \<Rightarrow> do {
          invalidate_each pr (map irID (filter irDeleted rs));
          State_Monad.return (Inr rs) }) }"

text \<open>\<open>WithRevision\<close>: nothing is applied unless the settings are still those the run began with.\<close>

definition with_settings_revision ::
  "'w probing \<Rightarrow> u64 \<Rightarrow> ('w, goerr + insp_result list) rm \<Rightarrow> ('w, bool \<times> (goerr + insp_result list)) rm" where
  "with_settings_revision pr expected m = do {
     n \<leftarrow> rcall (prRevision pr) (\<lambda>_. []);
     if n \<noteq> expected then State_Monad.return (False, Inr [])
     else do { r \<leftarrow> m; State_Monad.return (True, r) } }"

section \<open>The outcome of a run\<close>

definition applied_result :: "pending \<Rightarrow> insp_result \<Rightarrow> summary \<Rightarrow> result \<times> summary" where
  "applied_result p ar su =
     (case aKind (pdAction p) of
        KindHealthy \<Rightarrow>
          if irReactivated ar
          then ((pdResult p)\<lparr> roAction := ''reactivated'' \<rparr>, su\<lparr> suReactivated := suReactivated su + 1 \<rparr>)
          else (pdResult p, su)
      | KindQuarantine \<Rightarrow>
          if irQuarantined ar
          then ((pdResult p)\<lparr> roAction := ''quarantined'' \<rparr>, su\<lparr> suQuarantined := suQuarantined su + 1 \<rparr>)
          else ((pdResult p)\<lparr> roAction := ''quarantine_retained'' \<rparr>, su)
      | KindPurge \<Rightarrow> ((pdResult p)\<lparr> roAction := ''purged'' \<rparr>, su\<lparr> suPurged := suPurged su + 1 \<rparr>)
      | _ \<Rightarrow> (pdResult p, su))"

definition resolve_one ::
  "bool \<times> (goerr + insp_result list) \<Rightarrow> nat \<Rightarrow> pending \<Rightarrow> summary \<Rightarrow> result \<times> summary" where
  "resolve_one ar k p su = (case snd ar of
       Inl _ \<Rightarrow> ((pdResult p)\<lparr> roStatus := ''storage_error'', roAction := pdHeld p,
                  roError := ''failed to persist inspection result'' \<rparr>, su\<lparr> suErrors := suErrors su + 1 \<rparr>)
     | Inr rs \<Rightarrow>
         if \<not> fst ar
         then ((pdResult p)\<lparr> roStatus := ''settings_changed'', roAction := pdHeld p,
                roError := ''runtime settings changed during inspection'' \<rparr>, su)
         else if k \<ge> length rs \<or> \<not> irApplied (rs ! k)
         then ((pdResult p)\<lparr> roStatus := ''state_changed'', roAction := pdHeld p,
                roError := ''credential changed during inspection'' \<rparr>, su)
         else applied_result p (rs ! k) su)"

fun resolve_all ::
  "bool \<times> (goerr + insp_result list) \<Rightarrow> nat \<Rightarrow> pending list \<Rightarrow> summary \<Rightarrow> (string \<rightharpoonup> result) \<Rightarrow>
   (string \<rightharpoonup> result) \<times> summary" where
  "resolve_all ar k [] su m = (m, su)"
| "resolve_all ar k (p # ps) su m =
     (let (r, su') = resolve_one ar k p su in
      resolve_all ar (Suc k) ps su' (m(aID (pdAction p) \<mapsto> r)))"

definition no_result_of :: result where
  "no_result_of = finding [] [] []"

definition conclude :: "inspection_settings \<Rightarrow> checked list \<Rightarrow> (string \<rightharpoonup> result) \<Rightarrow> summary \<Rightarrow> summary" where
  "conclude s ks m su =
     (let rs = map (\<lambda>k. case m (cID (ckCredential k)) of Some r \<Rightarrow> r | None \<Rightarrow> no_result_of) ks;
          n = isMaxPersistedRunResults s in
      su\<lparr> suResults := (if n > 0 \<and> int (length rs) > n then take (nat n) rs else rs) \<rparr>)"

definition run_checked ::
  "'w probing \<Rightarrow> inspection_settings \<Rightarrow> u64 \<Rightarrow> gotime \<Rightarrow> summary \<Rightarrow> checked list \<Rightarrow> ('w, summary) rm" where
  "run_checked pr s revn now su0 ks = do {
     let su1 = fold count_result (map ckResult ks) su0;
     let guard = mass_failure s su1;
     let ps = map (plan_action pr s now guard) ks;
     ar \<leftarrow> with_settings_revision pr revn (apply_actions pr (map pdAction ps));
     let (m, su2) = resolve_all ar 0 ps (su1\<lparr> suMassFailureGuard := guard \<rparr>) Map.empty;
     fin \<leftarrow> rcall (prNow pr) (\<lambda>t. [RvClock t]);
     State_Monad.return ((conclude s ks m su2)\<lparr> suFinishedAt := trunc_sec fin \<rparr>) }"

definition run_body :: "'w probing \<Rightarrow> ('w, goerr + summary) rm" where
  "run_body pr = do {
     revn \<leftarrow> rcall (prRevision pr) (\<lambda>_. []);
     s \<leftarrow> rcall (prSettings pr) (\<lambda>s. [RvSettings s]);
     t \<leftarrow> rcall (prNow pr) (\<lambda>t. [RvClock t]);
     let now = trunc_sec t;
     cs \<leftarrow> rcall (prList pr) (\<lambda>cs. [RvList cs]);
     (case cs of
        Inl e \<Rightarrow> State_Monad.return (Inl e)
      | Inr all \<Rightarrow> do {
          let chosen = scheduled s now all;
          let skipped = int (length all) - int (length chosen);
          rchange (\<lambda>r. r\<lparr> rnProgress := Some \<lparr> pgStartedAt = now,
            pgEligible = int (length (eligible_candidates s now all)), pgScheduled = int (length chosen),
            pgCompleted = 0, pgSkipped = skipped, pgHealthy = 0, pgUnauthorized = 0, pgRateLimited = 0,
            pgErrors = 0 \<rparr> \<rparr>);
          r0 \<leftarrow> State_Monad.get;
          ks \<leftarrow> inspect_all pr s revn now (finishing pr (rnWorld r0) chosen);
          su \<leftarrow> run_checked pr s revn now (no_summary\<lparr> suStartedAt := now, suSkipped := skipped \<rparr>) ks;
          rchange (\<lambda>r. r\<lparr> rnLast := Some su \<rparr>);
          State_Monad.return (Inr su) }) }"

text \<open>One run at a time.\<close>

definition run_once :: "'w probing \<Rightarrow> ('w, goerr + summary) rm" where
  "run_once pr = do {
     r0 \<leftarrow> State_Monad.get;
     if rnRunning r0 then State_Monad.return (Inl (ErrText ''inspection: run already in progress''))
     else do {
       rchange (\<lambda>r. r\<lparr> rnRunning := True, rnProgress := None \<rparr>);
       out \<leftarrow> run_body pr;
       rchange (\<lambda>r. r\<lparr> rnRunning := False, rnProgress := None \<rparr>);
       State_Monad.return out } }"

text \<open>How long the background loop waits before its first run and after each.\<close>

definition initial_delay :: "inspection_settings \<Rightarrow> duration" where
  "initial_delay s = max 0 (wrap64 (isInitialDelaySec s * second))"

definition wait_after :: "inspection_settings \<Rightarrow> duration" where
  "wait_after s =
     (let w = wrap64 (isIntervalSec s * second);
          w = (if \<not> isEnabled s \<and> w > 15 * second then 15 * second else w) in
      if w \<le> 0 then 60 * second else w)"

definition last_summary :: "'w runner \<Rightarrow> summary option" where
  "last_summary r = rnLast r"

definition progress_of :: "'w runner \<Rightarrow> progress option" where
  "progress_of r = (if rnRunning r then rnProgress r else None)"

end
