(* ===== verification/Lb.thy ===== *)
theory Lb
  imports Credential
begin

text \<open>
  The credential selector, \<open>internal/lb\<close> (\<open>selector.go\<close>, \<open>cooldown.go\<close>, \<open>sticky.go\<close>): the choice of
  a credential by strategy, sticky session, cooldown and load, and the process-local runtime state
  that success and failure leave.  Every operation takes the selector and returns it updated.  A
  marking also returns the health snapshot it wants persisted; \<open>persist_stale\<close> is the check made
  under the persist lock before that snapshot is written, and \<open>health_patch\<close> the mutation written.

  \<open>K\<close> stands for \<open>stickyMapKey\<close> (hex SHA-256) and \<open>rnd n\<close> for \<open>rand.Int63n n\<close>.
\<close>

section \<open>State\<close>

record rt_state =
  rtFailureCount :: int
  rtCooldownUntil :: gotime
  rtLastError :: string
  rtLastSuccessPersistedAt :: gotime
  rtVersion :: u64

definition zero_state :: rt_state where
  "zero_state = \<lparr> rtFailureCount = 0, rtCooldownUntil = zero_time, rtLastError = [],
     rtLastSuccessPersistedAt = zero_time, rtVersion = 0 \<rparr>"

record sticky_binding =
  sbCredID :: string
  sbExpiresAt :: gotime

record snapshot =
  hsVersion :: u64
  hsFailureCount :: int
  hsCooldownUntil :: "gotime option"
  hsLastError :: string
  hsLastSuccessAt :: "gotime option"

record selector =
  selStrategy :: string
  selStickyTTL :: duration
  selCooldownBase :: duration
  selCooldownMax :: duration
  selQuotaCooldown :: duration
  selQuotaReserve :: int
  selMaxConcurrent :: int
  selRrIndex :: int
  selPriorityRR :: "int \<rightharpoonup> int"
  selSticky :: "string \<rightharpoonup> sticky_binding"
  selSlots :: "string list"
  selCursor :: nat
  selStates :: "string \<rightharpoonup> rt_state"
  selInFlight :: "string \<rightharpoonup> int"

record lb_config =
  lbStrategy :: string
  lbStickyTTLSec :: int
  lbBaseSec :: int
  lbMaxSec :: int
  lbQuotaCooldownSec :: int
  lbQuotaReserveRequests :: int
  lbCredentialMaxConcurrent :: int

definition max_sticky_bindings :: nat where
  "max_sticky_bindings = 10000"

definition success_persistence_interval :: duration where
  "success_persistence_interval = 30 * second"

definition seconds :: "int \<Rightarrow> duration" where
  "seconds n = wrap64 (n * second)"

definition new_selector :: "lb_config \<Rightarrow> selector" where
  "new_selector cfg =
     (let base = seconds (lbBaseSec cfg); mx = seconds (lbMaxSec cfg);
          quota = seconds (lbQuotaCooldownSec cfg) in
      \<lparr> selStrategy = (if lbStrategy cfg = [] then ''priority_rr'' else lbStrategy cfg),
        selStickyTTL = seconds (lbStickyTTLSec cfg),
        selCooldownBase = (if base \<le> 0 then 300 * second else base),
        selCooldownMax = (if mx \<le> 0 then 3600 * second else mx),
        selQuotaCooldown = (if quota \<le> 0 then 7 * 24 * 3600 * second else quota),
        selQuotaReserve = (if lbQuotaReserveRequests cfg < 0 then 0 else lbQuotaReserveRequests cfg),
        selMaxConcurrent = lbCredentialMaxConcurrent cfg,
        selRrIndex = 0, selPriorityRR = Map.empty, selSticky = Map.empty, selSlots = [],
        selCursor = 0, selStates = Map.empty, selInFlight = Map.empty \<rparr>)"

definition hold_successful_response :: "selector \<Rightarrow> bool" where
  "hold_successful_response s \<longleftrightarrow> selMaxConcurrent s > 0"

section \<open>Cooldown\<close>

definition jitter :: "(int \<Rightarrow> int) \<Rightarrow> duration \<Rightarrow> duration" where
  "jitter rnd d =
     (if d \<le> 0 then 0
      else (let span = go_div d 10 in if span \<le> 0 then 0 else rnd (span + 1)))"

definition cooldown_base_of :: "selector \<Rightarrow> duration" where
  "cooldown_base_of s = (if selCooldownBase s \<le> 0 then 300 * second else selCooldownBase s)"

definition cooldown_max_of :: "selector \<Rightarrow> duration" where
  "cooldown_max_of s =
     (let mx = (if selCooldownMax s \<le> 0 then 3600 * second else selCooldownMax s) in
      if mx < cooldown_base_of s then cooldown_base_of s else mx)"

definition cooldown_raw :: "selector \<Rightarrow> int \<Rightarrow> duration \<Rightarrow> int \<Rightarrow> duration" where
  "cooldown_raw s status retry_after failures =
     (let base = cooldown_base_of s; mx = cooldown_max_of s in
      if status = 429 then
        (if retry_after > 0 then retry_after
         else (let shift = (if failures < 0 then 0 else if failures > 10 then 10 else failures);
                   d = wrap64 (base * 2 ^ nat shift) in
               if d > mx \<or> d \<le> 0 then mx else d))
      else if status = 402 then (if retry_after > 0 then retry_after else mx)
      else if status = 403 then mx
      else if status = 401 then (let d = wrap64 (base * 4) in if d > mx then mx else d)
      else if 500 \<le> status \<and> status \<le> 599 then
        (let d = go_div base 10; d = (if d < 15 * second then 15 * second else d) in
         if d > base then base else d)
      else base)"

definition cooldown_duration ::
  "(int \<Rightarrow> int) \<Rightarrow> selector \<Rightarrow> int \<Rightarrow> duration \<Rightarrow> int \<Rightarrow> duration" where
  "cooldown_duration rnd s status retry_after failures =
     (let d = cooldown_raw s status retry_after failures in wrap64 (d + jitter rnd d))"

definition effective_cooldown :: "selector \<Rightarrow> credential \<Rightarrow> gotime" where
  "effective_cooldown s c =
     (let until = (case cCooldownUntil c of Some t \<Rightarrow> if t \<noteq> zero_time then t else zero_time
                   | None \<Rightarrow> zero_time) in
      case selStates s (cID c) of
        Some st \<Rightarrow> if rtCooldownUntil st > until then rtCooldownUntil st else until
      | None \<Rightarrow> until)"

definition in_cooldown :: "selector \<Rightarrow> credential \<Rightarrow> gotime \<Rightarrow> bool" where
  "in_cooldown s c now \<longleftrightarrow>
     (let until = effective_cooldown s c in until \<noteq> zero_time \<and> until > now)"

definition apply_cooldown_to_credential :: "selector \<Rightarrow> credential \<Rightarrow> credential" where
  "apply_cooldown_to_credential s c =
     (if cID c = [] then c
      else case selStates s (cID c) of
        None \<Rightarrow> c
      | Some st \<Rightarrow> c\<lparr> cFailureCount := rtFailureCount st, cLastError := rtLastError st,
          cCooldownUntil := (if rtCooldownUntil st = zero_time then None
                             else Some (rtCooldownUntil st)) \<rparr>)"

section \<open>Sticky sessions\<close>

definition get_sticky ::
  "(string \<Rightarrow> string) \<Rightarrow> selector \<Rightarrow> string \<Rightarrow> gotime \<Rightarrow> selector \<times> string option" where
  "get_sticky K s key now =
     (if key = [] \<or> selStickyTTL s \<le> 0 then (s, None)
      else case selSticky s (K key) of
        None \<Rightarrow> (s, None)
      | Some b \<Rightarrow>
          if \<not> sbExpiresAt b > now
          then (s\<lparr> selSticky := map_delete (selSticky s) (K key) \<rparr>, None)
          else (s, Some (sbCredID b)))"

definition reserve_slot :: "selector \<Rightarrow> string \<Rightarrow> selector" where
  "reserve_slot s k =
     (if length (selSlots s) < max_sticky_bindings
      then s\<lparr> selSlots := selSlots s @ [k] \<rparr>
      else s\<lparr> selSticky := map_delete (selSticky s) (selSlots s ! selCursor s),
              selSlots := (selSlots s)[selCursor s := k],
              selCursor := (selCursor s + 1) mod length (selSlots s) \<rparr>)"

definition bind_sticky ::
  "(string \<Rightarrow> string) \<Rightarrow> selector \<Rightarrow> string \<Rightarrow> string \<Rightarrow> gotime \<Rightarrow> selector" where
  "bind_sticky K s key cid now =
     (if key = [] \<or> cid = [] \<or> selStickyTTL s \<le> 0 then s
      else (let k = K key;
                s' = (if selSticky s k = None then reserve_slot s k else s) in
            s'\<lparr> selSticky := (selSticky s')(k \<mapsto>
                  \<lparr> sbCredID = cid, sbExpiresAt = now + selStickyTTL s' \<rparr>) \<rparr>))"

definition prune_sticky :: "selector \<Rightarrow> gotime \<Rightarrow> selector" where
  "prune_sticky s now = s\<lparr> selSticky := (\<lambda>k. case selSticky s k of
       Some b \<Rightarrow> if \<not> sbExpiresAt b > now then None else Some b | None \<Rightarrow> None) \<rparr>"

definition clear_sticky_for_cred :: "selector \<Rightarrow> string \<Rightarrow> selector" where
  "clear_sticky_for_cred s cid =
     (if cid = [] then s
      else s\<lparr> selSticky := (\<lambda>k. case selSticky s k of
             Some b \<Rightarrow> if sbCredID b = cid then None else Some b | None \<Rightarrow> None) \<rparr>)"

section \<open>Reservations and availability\<close>

definition reserve_locked :: "selector \<Rightarrow> string \<Rightarrow> selector" where
  "reserve_locked s cid =
     (if cid \<noteq> [] then s\<lparr> selInFlight := (selInFlight s)(cid \<mapsto> count_of (selInFlight s) cid + 1) \<rparr>
      else s)"

definition release_locked :: "selector \<Rightarrow> string \<Rightarrow> selector" where
  "release_locked s cid =
     (let n = count_of (selInFlight s) cid in
      if n > 1 then s\<lparr> selInFlight := (selInFlight s)(cid \<mapsto> n - 1) \<rparr>
      else s\<lparr> selInFlight := map_delete (selInFlight s) cid \<rparr>)"

definition release :: "selector \<Rightarrow> string \<Rightarrow> selector" where
  "release s cid = (if cid = [] then s else release_locked s cid)"

definition state_of :: "selector \<Rightarrow> string \<Rightarrow> rt_state" where
  "state_of s cid = (case selStates s cid of Some st \<Rightarrow> st | None \<Rightarrow> zero_state)"

definition seed_state :: "selector \<Rightarrow> credential \<Rightarrow> selector" where
  "seed_state s c =
     (if selStates s (cID c) \<noteq> None then s
      else s\<lparr> selStates := (selStates s)(cID c \<mapsto>
             \<lparr> rtFailureCount = cFailureCount c,
               rtCooldownUntil = (case cCooldownUntil c of Some t \<Rightarrow> t | None \<Rightarrow> zero_time),
               rtLastError = cLastError c,
               rtLastSuccessPersistedAt = (case cLastSuccessAt c of Some t \<Rightarrow> t | None \<Rightarrow> zero_time),
               rtVersion = 0 \<rparr>) \<rparr>)"

definition available_now :: "selector \<Rightarrow> gotime \<Rightarrow> credential \<Rightarrow> bool" where
  "available_now s now c \<longleftrightarrow>
     \<not> in_cooldown s c now \<and>
     \<not> (selMaxConcurrent s > 0 \<and> count_of (selInFlight s) (cID c) \<ge> selMaxConcurrent s)"

fun available_locked ::
  "selector \<Rightarrow> credential list \<Rightarrow> gotime \<Rightarrow> selector \<times> credential list" where
  "available_locked s [] now = (s, [])"
| "available_locked s (c # cs) now =
     (if \<not> cEnabled c then available_locked s cs now
      else (let s' = seed_state s c; (s'', out) = available_locked s' cs now in
            (s'', if available_now s' now c then c # out else out)))"

text \<open>\<open>Available\<close>: by the stored fields only.\<close>

definition available_stored :: "credential list \<Rightarrow> gotime \<Rightarrow> credential list" where
  "available_stored cs now =
     filter (\<lambda>c. cEnabled c \<and> (case cCooldownUntil c of Some t \<Rightarrow> \<not> t > now | None \<Rightarrow> True)) cs"

section \<open>The choice\<close>

definition quota_preferred :: "selector \<Rightarrow> credential list \<Rightarrow> credential list" where
  "quota_preferred s avail =
     filter (\<lambda>c. case cRateLimitRemainingRequests c of
               None \<Rightarrow> True
             | Some r \<Rightarrow> r > count_of (selInFlight s) (cID c) + selQuotaReserve s) avail"

definition pick_round_robin :: "selector \<Rightarrow> credential list \<Rightarrow> selector \<times> credential" where
  "pick_round_robin s avail =
     (let start = (if selRrIndex s < 0 then 0 else selRrIndex s);
          n = int (length avail);
          idx = start mod n;
          nxt = (idx + 1) mod n in
      (s\<lparr> selRrIndex := (if nxt \<ge> n then 0 else nxt) \<rparr>, avail ! nat idx))"

text \<open>The highest priority present; the group of it in the given order; the least load of the
  group; the first member of that load from the cursor on, cyclically.\<close>

definition top_priority :: "credential list \<Rightarrow> int" where
  "top_priority avail = Max (set (map cPriority avail))"

definition top_group :: "credential list \<Rightarrow> credential list" where
  "top_group avail = filter (\<lambda>c. cPriority c = top_priority avail) avail"

fun min_in_flight :: "(string \<rightharpoonup> int) \<Rightarrow> int \<Rightarrow> credential list \<Rightarrow> int" where
  "min_in_flight m acc [] = acc"
| "min_in_flight m acc (c # cs) =
     (let n = count_of m (cID c) in min_in_flight m (if acc < 0 \<or> n < acc then n else acc) cs)"

definition pick_priority_rr :: "selector \<Rightarrow> credential list \<Rightarrow> selector \<times> credential" where
  "pick_priority_rr s avail =
     (let top = top_priority avail;
          group = top_group avail;
          least = min_in_flight (selInFlight s) (- 1) group;
          n = length group;
          cur = count_of (selPriorityRR s) top;
          start = nat ((if cur < 0 then 0 else cur) mod int n) in
      case find_index (\<lambda>off. count_of (selInFlight s) (cID (group ! ((start + off) mod n))) = least)
             [0..<n] of
        Some off \<Rightarrow>
          (let idx = (start + off) mod n in
           (s\<lparr> selPriorityRR := (selPriorityRR s)(top \<mapsto> int ((idx + 1) mod n)) \<rparr>, group ! idx))
      | None \<Rightarrow> (s, group ! start))"

definition pick_by_strategy :: "selector \<Rightarrow> credential list \<Rightarrow> (selector \<times> credential) option" where
  "pick_by_strategy s avail =
     (if avail = [] then None
      else (let pool = (if quota_preferred s avail \<noteq> [] then quota_preferred s avail else avail) in
            Some (if selStrategy s = ''round_robin'' then pick_round_robin s pool
                  else pick_priority_rr s pool)))"

definition find_by_id :: "credential list \<Rightarrow> string \<Rightarrow> credential option" where
  "find_by_id cs cid = find (\<lambda>c. cID c = cid) cs"

definition pick_fresh ::
  "(string \<Rightarrow> string) \<Rightarrow> selector \<Rightarrow> credential list \<Rightarrow> string \<Rightarrow> gotime \<Rightarrow>
   selector \<times> (goerr + credential)" where
  "pick_fresh K s avail key now =
     (case pick_by_strategy s avail of
        None \<Rightarrow> (s, Inl ErrNoCredential)
      | Some (s1, c) \<Rightarrow>
          (let s2 = (if key \<noteq> [] then bind_sticky K s1 key (cID c) now else s1) in
           (reserve_locked s2 (cID c), Inr c)))"

definition pick ::
  "(string \<Rightarrow> string) \<Rightarrow> selector \<Rightarrow> credential list \<Rightarrow> string \<Rightarrow> gotime \<Rightarrow>
   selector \<times> (goerr + credential)" where
  "pick K s creds key now =
     (let (s1, avail) = available_locked s creds now in
      if avail = [] then (s1, Inl ErrNoCredential)
      else if key = [] then pick_fresh K s1 avail key now
      else (case get_sticky K s1 key now of
          (s2, Some cid) \<Rightarrow>
            (case find_by_id avail cid of
               Some c \<Rightarrow> (reserve_locked s2 (cID c), Inr c)
             | None \<Rightarrow> pick_fresh K s2 avail key now)
        | (s2, None) \<Rightarrow> pick_fresh K s2 avail key now))"

section \<open>Success and failure\<close>

definition needs_persist :: "rt_state \<Rightarrow> gotime \<Rightarrow> bool" where
  "needs_persist st now \<longleftrightarrow>
     rtFailureCount st \<noteq> 0 \<or> rtCooldownUntil st \<noteq> zero_time \<or> rtLastError st \<noteq> [] \<or>
     rtLastSuccessPersistedAt st = zero_time \<or> now < rtLastSuccessPersistedAt st \<or>
     time_sub now (rtLastSuccessPersistedAt st) \<ge> success_persistence_interval"

definition mark_success_gen ::
  "(string \<Rightarrow> string) \<Rightarrow> selector \<Rightarrow> string \<Rightarrow> string \<Rightarrow> gotime \<Rightarrow> bool \<Rightarrow>
   selector \<times> snapshot option" where
  "mark_success_gen K s cid key now rel =
     (if cid = [] then (s, None)
      else
        let s1 = (if rel then release_locked s cid else s);
            st = state_of s1 cid;
            np = needs_persist st now;
            cleared = st\<lparr> rtFailureCount := 0, rtCooldownUntil := zero_time, rtLastError := [] \<rparr>;
            final = (if np then cleared\<lparr> rtLastSuccessPersistedAt := trunc_sec now,
                                         rtVersion := rtVersion cleared + 1 \<rparr> else cleared);
            s2 = s1\<lparr> selStates := (selStates s1)(cid \<mapsto> final) \<rparr>;
            s3 = (if key \<noteq> [] then bind_sticky K s2 key cid now else s2) in
        (s3, if np then Some \<lparr> hsVersion = rtVersion final, hsFailureCount = 0,
                               hsCooldownUntil = None, hsLastError = [],
                               hsLastSuccessAt = Some (trunc_sec now) \<rparr>
             else None))"

definition mark_success ::
  "(string \<Rightarrow> string) \<Rightarrow> selector \<Rightarrow> string \<Rightarrow> string \<Rightarrow> gotime \<Rightarrow> selector \<times> snapshot option" where
  "mark_success K s cid key now = mark_success_gen K s cid key now True"

definition mark_success_hold ::
  "(string \<Rightarrow> string) \<Rightarrow> selector \<Rightarrow> string \<Rightarrow> string \<Rightarrow> gotime \<Rightarrow> selector \<times> snapshot option" where
  "mark_success_hold K s cid key now = mark_success_gen K s cid key now False"

definition clears_sticky :: "int \<Rightarrow> bool" where
  "clears_sticky status \<longleftrightarrow> status = 401 \<or> status = 402 \<or> status = 403 \<or> status = 429"

definition mark_failure ::
  "(int \<Rightarrow> int) \<Rightarrow> selector \<Rightarrow> string \<Rightarrow> int \<Rightarrow> duration \<Rightarrow> gotime \<Rightarrow> selector \<times> snapshot option" where
  "mark_failure rnd s cid status retry_after now =
     (if cid = [] then (s, None)
      else
        let s1 = release_locked s cid;
            st = state_of s1 cid;
            fc = rtFailureCount st + 1;
            d = cooldown_duration rnd s1 status retry_after (fc - 1);
            st' = st\<lparr> rtFailureCount := fc, rtCooldownUntil := now + d,
                      rtLastError := (if status > 0 then ''http '' @ dec_int status
                                      else ''network error''),
                      rtVersion := rtVersion st + 1 \<rparr>;
            s2 = s1\<lparr> selStates := (selStates s1)(cid \<mapsto> st') \<rparr>;
            s3 = (if clears_sticky status then clear_sticky_for_cred s2 cid else s2) in
        (s3, Some \<lparr> hsVersion = rtVersion st', hsFailureCount = fc,
                    hsCooldownUntil = Some (trunc_sec (rtCooldownUntil st')),
                    hsLastError = rtLastError st', hsLastSuccessAt = None \<rparr>))"

definition mark_quota_exhausted_until ::
  "selector \<Rightarrow> string \<Rightarrow> gotime \<Rightarrow> gotime \<Rightarrow> selector \<times> snapshot option" where
  "mark_quota_exhausted_until s cid now reset_at =
     (if cid = [] then (s, None)
      else
        let s1 = release_locked s cid;
            st = state_of s1 cid;
            until = (if reset_at > now then reset_at else now + selQuotaCooldown s1);
            st' = st\<lparr> rtFailureCount := rtFailureCount st + 1, rtCooldownUntil := until,
                      rtLastError := ''quota_exhausted'', rtVersion := rtVersion st + 1 \<rparr>;
            s2 = clear_sticky_for_cred (s1\<lparr> selStates := (selStates s1)(cid \<mapsto> st') \<rparr>) cid in
        (s2, Some \<lparr> hsVersion = rtVersion st', hsFailureCount = rtFailureCount st',
                    hsCooldownUntil = Some (trunc_sec until), hsLastError = rtLastError st',
                    hsLastSuccessAt = None \<rparr>))"

definition mark_quota_exhausted ::
  "selector \<Rightarrow> string \<Rightarrow> gotime \<Rightarrow> selector \<times> snapshot option" where
  "mark_quota_exhausted s cid now = mark_quota_exhausted_until s cid now zero_time"

section \<open>Persisting health\<close>

definition persist_stale :: "selector \<Rightarrow> string \<Rightarrow> snapshot \<Rightarrow> bool" where
  "persist_stale s cid snap \<longleftrightarrow>
     (case selStates s cid of None \<Rightarrow> True | Some st \<Rightarrow> rtVersion st \<noteq> hsVersion snap)"

definition health_patch :: "snapshot \<Rightarrow> credential \<Rightarrow> goerr + credential" where
  "health_patch snap c = Inr (c\<lparr>
     cFailureCount := hsFailureCount snap, cCooldownUntil := hsCooldownUntil snap,
     cLastError := hsLastError snap,
     cLastSuccessAt := (case hsLastSuccessAt snap of Some t \<Rightarrow> Some t
                        | None \<Rightarrow> cLastSuccessAt c) \<rparr>)"

text \<open>The store operation the selector calls is an argument: it runs a mutation on the stored
  credential and returns the store.\<close>

definition persist_health ::
  "('st \<Rightarrow> string \<Rightarrow> (credential \<Rightarrow> goerr + credential) \<Rightarrow> 'st \<times> (goerr + credential)) \<Rightarrow>
   selector \<Rightarrow> 'st \<Rightarrow> string \<Rightarrow> snapshot \<Rightarrow> 'st" where
  "persist_health patch s st cid snap =
     (if persist_stale s cid snap then st else fst (patch st cid (health_patch snap)))"

section \<open>What the operations leave alone\<close>

lemma seed_state_frame [frame, simp]:
  "selInFlight (seed_state s c) = selInFlight s"
  "selSticky (seed_state s c) = selSticky s"
  "selSlots (seed_state s c) = selSlots s"
  "selCursor (seed_state s c) = selCursor s"
  "selMaxConcurrent (seed_state s c) = selMaxConcurrent s"
  "selStrategy (seed_state s c) = selStrategy s"
  "selStickyTTL (seed_state s c) = selStickyTTL s"
  "selQuotaReserve (seed_state s c) = selQuotaReserve s"
  "selRrIndex (seed_state s c) = selRrIndex s"
  "selPriorityRR (seed_state s c) = selPriorityRR s"
  by (simp_all add: seed_state_def)

lemma available_locked_frame [frame, simp]:
  "selInFlight (fst (available_locked s cs now)) = selInFlight s"
  "selSticky (fst (available_locked s cs now)) = selSticky s"
  "selSlots (fst (available_locked s cs now)) = selSlots s"
  "selCursor (fst (available_locked s cs now)) = selCursor s"
  "selMaxConcurrent (fst (available_locked s cs now)) = selMaxConcurrent s"
  "selStrategy (fst (available_locked s cs now)) = selStrategy s"
  "selStickyTTL (fst (available_locked s cs now)) = selStickyTTL s"
  "selQuotaReserve (fst (available_locked s cs now)) = selQuotaReserve s"
  "selRrIndex (fst (available_locked s cs now)) = selRrIndex s"
  "selPriorityRR (fst (available_locked s cs now)) = selPriorityRR s"
  by (induction s cs now rule: available_locked.induct) (simp_all add: Let_def split_beta)

lemma reserve_locked_frame [frame, simp]:
  "selSticky (reserve_locked s cid) = selSticky s"
  "selSlots (reserve_locked s cid) = selSlots s"
  "selCursor (reserve_locked s cid) = selCursor s"
  "selStates (reserve_locked s cid) = selStates s"
  "selStickyTTL (reserve_locked s cid) = selStickyTTL s"
  by (simp_all add: reserve_locked_def)

lemma release_locked_frame [frame, simp]:
  "selSticky (release_locked s cid) = selSticky s"
  "selSlots (release_locked s cid) = selSlots s"
  "selCursor (release_locked s cid) = selCursor s"
  "selStates (release_locked s cid) = selStates s"
  "selStickyTTL (release_locked s cid) = selStickyTTL s"
  "selCooldownBase (release_locked s cid) = selCooldownBase s"
  "selCooldownMax (release_locked s cid) = selCooldownMax s"
  "selQuotaCooldown (release_locked s cid) = selQuotaCooldown s"
  by (simp_all add: release_locked_def Let_def)

lemma reserve_slot_frame [frame, simp]:
  "selInFlight (reserve_slot s k) = selInFlight s"
  "selStates (reserve_slot s k) = selStates s"
  "selStickyTTL (reserve_slot s k) = selStickyTTL s"
  by (simp_all add: reserve_slot_def)

lemma bind_sticky_frame [frame, simp]:
  "selInFlight (bind_sticky K s key cid now) = selInFlight s"
  "selStates (bind_sticky K s key cid now) = selStates s"
  "selStickyTTL (bind_sticky K s key cid now) = selStickyTTL s"
  by (simp_all add: bind_sticky_def Let_def)

lemma clear_sticky_frame [frame, simp]:
  "selInFlight (clear_sticky_for_cred s cid) = selInFlight s"
  "selStates (clear_sticky_for_cred s cid) = selStates s"
  "selSlots (clear_sticky_for_cred s cid) = selSlots s"
  "selCursor (clear_sticky_for_cred s cid) = selCursor s"
  by (simp_all add: clear_sticky_for_cred_def)

lemma get_sticky_frame [frame, simp]:
  "selInFlight (fst (get_sticky K s key now)) = selInFlight s"
  "selStates (fst (get_sticky K s key now)) = selStates s"
  "selSlots (fst (get_sticky K s key now)) = selSlots s"
  "selCursor (fst (get_sticky K s key now)) = selCursor s"
  "selMaxConcurrent (fst (get_sticky K s key now)) = selMaxConcurrent s"
  "selStickyTTL (fst (get_sticky K s key now)) = selStickyTTL s"
  "selStrategy (fst (get_sticky K s key now)) = selStrategy s"
  "selQuotaReserve (fst (get_sticky K s key now)) = selQuotaReserve s"
  by (simp_all add: get_sticky_def split: option.splits)

lemma pick_round_robin_frame [frame, simp]:
  "selInFlight (fst (pick_round_robin s cs)) = selInFlight s"
  "selStates (fst (pick_round_robin s cs)) = selStates s"
  "selSticky (fst (pick_round_robin s cs)) = selSticky s"
  "selSlots (fst (pick_round_robin s cs)) = selSlots s"
  "selCursor (fst (pick_round_robin s cs)) = selCursor s"
  "selStickyTTL (fst (pick_round_robin s cs)) = selStickyTTL s"
  by (simp_all add: pick_round_robin_def Let_def)

lemma pick_priority_rr_frame [frame, simp]:
  "selInFlight (fst (pick_priority_rr s cs)) = selInFlight s"
  "selStates (fst (pick_priority_rr s cs)) = selStates s"
  "selSticky (fst (pick_priority_rr s cs)) = selSticky s"
  "selSlots (fst (pick_priority_rr s cs)) = selSlots s"
  "selCursor (fst (pick_priority_rr s cs)) = selCursor s"
  "selStickyTTL (fst (pick_priority_rr s cs)) = selStickyTTL s"
  by (simp_all add: pick_priority_rr_def Let_def split: option.splits)

lemma pick_by_strategy_frame:
  assumes "pick_by_strategy s cs = Some (s', c)"
  shows "selInFlight s' = selInFlight s" "selStates s' = selStates s" "selSticky s' = selSticky s"
    "selSlots s' = selSlots s" "selCursor s' = selCursor s" "selStickyTTL s' = selStickyTTL s"
proof -
  obtain pool where "s' = fst (pick_round_robin s pool) \<or> s' = fst (pick_priority_rr s pool)"
    using assms by (auto simp: pick_by_strategy_def Let_def split: if_splits) (metis fst_conv)+
  then show "selInFlight s' = selInFlight s" "selStates s' = selStates s" "selSticky s' = selSticky s"
    "selSlots s' = selSlots s" "selCursor s' = selCursor s" "selStickyTTL s' = selStickyTTL s"
    by auto
qed

lemma count_reserve [simp]:
  "count_of (selInFlight (reserve_locked s cid)) j =
     (if j = cid \<and> cid \<noteq> [] then count_of (selInFlight s) j + 1 else count_of (selInFlight s) j)"
  by (simp add: reserve_locked_def)

lemma count_release [simp]:
  "count_of (selInFlight (release_locked s cid)) j =
     (if j = cid then (if count_of (selInFlight s) j > 1 then count_of (selInFlight s) j - 1 else 0)
      else count_of (selInFlight s) j)"
  by (simp add: release_locked_def Let_def)

end
