(* ===== verification/Lb_Props.thy ===== *)
theory Lb_Props
  imports Lb
begin

text \<open>
  What the selector of \<open>internal/lb\<close> guarantees: a pick is sound and complete with respect to the
  availability of the credentials, sticky sessions hold, strategies choose what they promise, the
  bookkeeping stays within its bounds, a failure keeps a credential out, and a stale health
  snapshot is never written over a newer one.
\<close>

section \<open>Availability\<close>

lemma seed_state_keeps: "selStates s j = Some st \<Longrightarrow> selStates (seed_state s c) j = Some st"
  by (auto simp: seed_state_def)

lemma available_keeps:
  "selStates s j = Some st \<Longrightarrow> selStates (fst (available_locked s cs now)) j = Some st"
  by (induction s cs now rule: available_locked.induct)
     (simp_all add: Let_def split_beta seed_state_keeps)

lemma seed_state_some: "\<exists>st. selStates (seed_state s c) (cID c) = Some st"
  by (auto simp: seed_state_def)

lemma available_seeded_eq:
  assumes "selStates s (cID c) = Some st"
  shows "available_now (fst (available_locked s cs now)) t c = available_now s t c"
  using available_keeps [OF assms, of cs now] assms
  by (simp add: available_now_def in_cooldown_def effective_cooldown_def Let_def)

lemma available_locked_sound:
  assumes "c \<in> set (snd (available_locked s cs now))"
  shows "c \<in> set cs \<and> cEnabled c \<and> available_now (fst (available_locked s cs now)) now c"
  using assms
proof (induction s cs now rule: available_locked.induct)
  case (2 s d cs now)
  show ?case
  proof (cases "cEnabled d")
    case True
    let ?s = "seed_state s d"
    obtain st where st: "selStates ?s (cID d) = Some st" using seed_state_some by blast
    have "c = d \<and> available_now ?s now d \<or> c \<in> set (snd (available_locked ?s cs now))"
      using 2(3) True by (auto simp: Let_def split_beta split: if_splits)
    then show ?thesis
      using 2(2) [OF _ refl] True available_seeded_eq [OF st] by (auto simp: Let_def split_beta)
  qed (use 2 in auto)
qed simp

text \<open>Seeding a credential's state from its stored health does not change whether that credential
  is available.\<close>

lemma available_seed_self:
  "available_now (seed_state s c) now c = available_now s now c"
  by (auto simp: available_now_def in_cooldown_def effective_cooldown_def seed_state_def Let_def
        split: option.splits)

lemma available_seed_other:
  "cID d \<noteq> cID c \<Longrightarrow> available_now (seed_state s c) now d = available_now s now d"
  by (auto simp: available_now_def in_cooldown_def effective_cooldown_def seed_state_def Let_def
        split: option.splits)

lemma available_locked_filter:
  assumes "distinct (map cID cs)"
  shows "snd (available_locked s cs now) = filter (\<lambda>c. cEnabled c \<and> available_now s now c) cs"
  using assms
proof (induction s cs now rule: available_locked.induct)
  case (2 s d cs now)
  have other: "available_now (seed_state s d) now c = available_now s now c" if "c \<in> set cs" for c
  proof -
    have "cID c \<in> cID ` set cs" using that by simp
    with 2(3) have "cID c \<noteq> cID d" by auto
    then show ?thesis by (rule available_seed_other)
  qed
  have "filter (\<lambda>c. cEnabled c \<and> available_now (seed_state s d) now c) cs =
        filter (\<lambda>c. cEnabled c \<and> available_now s now c) cs"
    using other by (auto intro!: filter_cong)
  with 2 show ?case
    by (simp add: Let_def split_beta available_seed_self)
qed simp

section \<open>The strategies choose from the pool\<close>

lemma quota_preferred_subset: "set (quota_preferred s cs) \<subseteq> set cs"
  by (auto simp: quota_preferred_def)

lemma pick_round_robin_mem:
  assumes "cs \<noteq> []"
  shows "snd (pick_round_robin s cs) \<in> set cs"
proof -
  have "nat (x mod int (length cs)) < length cs" for x
    using assms by (simp add: nat_less_iff)
  then show ?thesis by (simp add: pick_round_robin_def Let_def)
qed

lemma top_group_nonempty:
  assumes "cs \<noteq> []"
  shows "top_group cs \<noteq> []"
proof -
  have "top_priority cs \<in> set (map cPriority cs)"
    unfolding top_priority_def using assms by (intro Max_in) auto
  then show ?thesis by (auto simp: top_group_def filter_empty_conv)
qed

lemma min_in_flight_le:
  assumes nn: "\<And>k. 0 \<le> count_of m k"
  shows "(acc < 0 \<or> min_in_flight m acc cs \<le> acc) \<and>
         (\<forall>c \<in> set cs. min_in_flight m acc cs \<le> count_of m (cID c)) \<and>
         (min_in_flight m acc cs = acc \<or> (\<exists>c \<in> set cs. min_in_flight m acc cs = count_of m (cID c)))"
proof (induction cs arbitrary: acc)
  case (Cons c cs)
  let ?acc = "if acc < 0 \<or> count_of m (cID c) < acc then count_of m (cID c) else acc"
  have "\<not> ?acc < 0" using nn [of "cID c"] by simp
  with Cons.IH [of ?acc] nn [of "cID c"] show ?case
    by (auto simp: Let_def split: if_splits)
qed simp

lemma min_in_flight_attained:
  assumes nn: "\<And>k. 0 \<le> count_of m k" and "cs \<noteq> []"
  shows "\<exists>c \<in> set cs. min_in_flight m (- 1) cs = count_of m (cID c)"
proof (cases cs)
  case (Cons c ds)
  then show ?thesis
    using min_in_flight_le [OF nn, where acc = "count_of m (cID c)" and cs = ds] by auto
qed (use assms in simp)

lemma rotate_reaches:
  assumes "i < n" "start < n"
  shows "\<exists>off < n. (start + off) mod n = (i::nat)"
proof -
  let ?off = "(i + (n - start)) mod n"
  have "(start + ?off) mod n = (start + (i + (n - start))) mod n"
    by (simp add: mod_simps)
  also have "\<dots> = (i + n) mod n" using assms by simp
  finally have "(start + ?off) mod n = i" using assms by simp
  moreover have "?off < n" using assms by simp
  ultimately show ?thesis by blast
qed

lemma pick_priority_rr_choice:
  assumes nn: "\<And>k. 0 \<le> count_of (selInFlight s) k" and ne: "cs \<noteq> []"
  shows "snd (pick_priority_rr s cs) \<in> set (top_group cs) \<and>
         (\<forall>d \<in> set (top_group cs).
            count_of (selInFlight s) (cID (snd (pick_priority_rr s cs))) \<le> count_of (selInFlight s) (cID d))"
proof -
  let ?g = "top_group cs" and ?m = "selInFlight s"
  let ?n = "length ?g" and ?least = "min_in_flight ?m (- 1) ?g"
  let ?cur = "count_of (selPriorityRR s) (top_priority cs)"
  let ?start = "nat ((if ?cur < 0 then 0 else ?cur) mod int ?n)"
  let ?P = "\<lambda>off. count_of ?m (cID (?g ! ((?start + off) mod ?n))) = ?least"
  have n: "0 < ?n" using top_group_nonempty [OF ne] by simp
  have start: "?start < ?n" using n by (simp add: nat_less_iff)
  obtain c where c: "c \<in> set ?g" "?least = count_of ?m (cID c)"
    using min_in_flight_attained [OF nn top_group_nonempty [OF ne]] by blast
  then obtain i where i: "i < ?n" "?g ! i = c" by (auto simp: in_set_conv_nth)
  then obtain off where off: "off < ?n" "(?start + off) mod ?n = i"
    using rotate_reaches [OF i(1) start] by blast
  have "off \<in> set [0..<?n]" "?P off" using off i(2) c(2) by auto
  then obtain k where k: "find_index ?P [0..<?n] = Some k"
    using find_index_exists [of off "[0..<?n]" ?P] by blast
  from find_index_SomeD [OF k] have kn: "k < ?n" and Pk: "?P k" by auto
  have snd_eq: "snd (pick_priority_rr s cs) = ?g ! ((?start + k) mod ?n)"
    using k by (simp add: pick_priority_rr_def Let_def)
  have mem: "?g ! ((?start + k) mod ?n) \<in> set ?g" using n by simp
  have "\<forall>d \<in> set ?g. ?least \<le> count_of ?m (cID d)"
    using min_in_flight_le [OF nn, where acc = "- 1" and cs = ?g] by simp
  with Pk mem show ?thesis unfolding snd_eq by simp
qed

lemma pick_priority_rr_mem:
  assumes "\<And>k. 0 \<le> count_of (selInFlight s) k" "cs \<noteq> []"
  shows "snd (pick_priority_rr s cs) \<in> set cs"
  using pick_priority_rr_choice [OF assms] by (auto simp: top_group_def)

lemma pick_by_strategy_mem:
  assumes "\<And>k. 0 \<le> count_of (selInFlight s) k" "pick_by_strategy s cs = Some (s', c)"
  shows "c \<in> set cs"
proof -
  define pool where "pool = (if quota_preferred s cs \<noteq> [] then quota_preferred s cs else cs)"
  have ne: "pool \<noteq> []" and sub: "set pool \<subseteq> set cs"
    using assms(2) quota_preferred_subset [of s cs]
    by (auto simp: pool_def pick_by_strategy_def split: if_splits)
  have "c = snd (pick_round_robin s pool) \<or> c = snd (pick_priority_rr s pool)"
    using assms(2) unfolding pick_by_strategy_def Let_def pool_def [symmetric]
    by (auto split: if_splits)
  with pick_round_robin_mem [OF ne] pick_priority_rr_mem [OF assms(1) ne] sub show ?thesis by auto
qed

lemma pick_by_strategy_total: "cs \<noteq> [] \<Longrightarrow> \<exists>s' c. pick_by_strategy s cs = Some (s', c)"
  by (simp add: pick_by_strategy_def Let_def)

section \<open>The invariant\<close>

text \<open>
  The slots of the sticky ring never exceed the bound, every live binding has a slot, the cursor
  moves only once the ring is full and stays inside it, and a counted credential has a name and at
  least one request in flight.
\<close>

definition lb_inv :: "selector \<Rightarrow> bool" where
  "lb_inv s \<longleftrightarrow>
     length (selSlots s) \<le> max_sticky_bindings \<and>
     dom (selSticky s) \<subseteq> set (selSlots s) \<and>
     (length (selSlots s) < max_sticky_bindings \<longrightarrow> selCursor s = 0) \<and>
     (length (selSlots s) = max_sticky_bindings \<longrightarrow> selCursor s < max_sticky_bindings) \<and>
     (\<forall>k n. selInFlight s k = Some n \<longrightarrow> 1 \<le> n)"

lemma lb_inv_counts: "lb_inv s \<Longrightarrow> 0 \<le> count_of (selInFlight s) k"
  by (fastforce simp: lb_inv_def count_of_def split: option.splits)

lemma lb_inv_cong:
  assumes "lb_inv s" "selSlots s' = selSlots s" "selCursor s' = selCursor s"
    "dom (selSticky s') \<subseteq> dom (selSticky s)" "selInFlight s' = selInFlight s"
  shows "lb_inv s'"
  using assms by (auto simp: lb_inv_def)

lemma inv_new [inv_intro]: "lb_inv (new_selector cfg)"
  by (simp add: lb_inv_def new_selector_def Let_def max_sticky_bindings_def)

lemma inv_available [inv_intro]: "lb_inv s \<Longrightarrow> lb_inv (fst (available_locked s cs now))"
  by (erule lb_inv_cong) simp_all

lemma inv_get_sticky [inv_intro]: "lb_inv s \<Longrightarrow> lb_inv (fst (get_sticky K s key now))"
  by (erule lb_inv_cong) (auto simp: get_sticky_def split: option.splits)

lemma inv_clear_sticky [inv_intro]: "lb_inv s \<Longrightarrow> lb_inv (clear_sticky_for_cred s cid)"
  by (erule lb_inv_cong)
     (auto simp: clear_sticky_for_cred_def split: option.splits if_splits)

lemma inv_prune_sticky [inv_intro]: "lb_inv s \<Longrightarrow> lb_inv (prune_sticky s now)"
  by (erule lb_inv_cong) (auto simp: prune_sticky_def split: option.splits if_splits)

lemma inv_states [inv_intro]: "lb_inv s \<Longrightarrow> lb_inv (s\<lparr>selStates := m\<rparr>)"
  by (erule lb_inv_cong) simp_all

lemma inv_reserve [inv_intro]: "lb_inv s \<Longrightarrow> lb_inv (reserve_locked s cid)"
  using lb_inv_counts [of s cid] by (auto simp: lb_inv_def reserve_locked_def)

lemma inv_release [inv_intro]: "lb_inv s \<Longrightarrow> lb_inv (release_locked s cid)"
  by (auto simp: lb_inv_def release_locked_def Let_def split: if_splits)

lemma inv_pick_by_strategy [inv_intro]:
  assumes "lb_inv s" "pick_by_strategy s cs = Some (s', c)"
  shows "lb_inv s'"
  using lb_inv_cong [OF assms(1)] pick_by_strategy_frame [OF assms(2)] by simp

lemma reserve_slot_mem:
  assumes "lb_inv s"
  shows "k \<in> set (selSlots (reserve_slot s k))"
    and "dom (selSticky (reserve_slot s k)) \<subseteq> set (selSlots (reserve_slot s k))"
proof -
  show "k \<in> set (selSlots (reserve_slot s k))"
    using assms by (auto simp: reserve_slot_def lb_inv_def set_update_memI)
  show "dom (selSticky (reserve_slot s k)) \<subseteq> set (selSlots (reserve_slot s k))"
  proof (cases "length (selSlots s) < max_sticky_bindings")
    case True
    then show ?thesis using assms by (auto simp: reserve_slot_def lb_inv_def)
  next
    case False
    let ?c = "selCursor s"
    have len: "?c < length (selSlots s)" using False assms by (auto simp: lb_inv_def)
    have "j \<in> set ((selSlots s)[?c := k])" if "j \<in> dom (selSticky s)" "j \<noteq> selSlots s ! ?c" for j
    proof -
      from that(1) assms have "j \<in> set (selSlots s)" unfolding lb_inv_def by blast
      then obtain i where i: "i < length (selSlots s)" "selSlots s ! i = j"
        by (auto simp: in_set_conv_nth)
      with that(2) have "(selSlots s)[?c := k] ! i = j" by (metis nth_list_update_neq)
      with i(1) show ?thesis by (metis length_list_update nth_mem)
    qed
    then show ?thesis using False by (auto simp: reserve_slot_def)
  qed
qed

lemma inv_reserve_slot [inv_intro]:
  assumes "lb_inv s"
  shows "lb_inv (reserve_slot s k)"
proof -
  have "0 < max_sticky_bindings" by (simp add: max_sticky_bindings_def)
  then show ?thesis
    using assms reserve_slot_mem(2) [OF assms, of k]
    unfolding lb_inv_def by (auto simp: reserve_slot_def)
qed

lemma inv_bind_sticky [inv_intro]:
  assumes "lb_inv s"
  shows "lb_inv (bind_sticky K s key cid now)"
proof -
  let ?s = "if selSticky s (K key) = None then reserve_slot s (K key) else s"
  have inv: "lb_inv ?s" using assms by (auto intro: inv_intro)
  have mem: "K key \<in> set (selSlots ?s)"
    using assms reserve_slot_mem(1) [OF assms] by (auto simp: lb_inv_def)
  have "lb_inv (?s\<lparr>selSticky := (selSticky ?s)(K key \<mapsto> b)\<rparr>)" for b
    using inv mem unfolding lb_inv_def by simp
  then show ?thesis using assms by (simp add: bind_sticky_def Let_def)
qed

section \<open>A pick, step by step\<close>

lemma pick_fresh_shape:
  assumes "lb_inv s" "avail \<noteq> []"
  shows "\<exists>s' c. pick_fresh K s avail key now = (reserve_locked s' (cID c), Inr c) \<and>
           c \<in> set avail \<and> selInFlight s' = selInFlight s \<and> selStates s' = selStates s \<and>
           selStickyTTL s' = selStickyTTL s \<and> lb_inv s' \<and>
           (key \<noteq> [] \<and> cID c \<noteq> [] \<and> selStickyTTL s > 0 \<longrightarrow>
              selSticky s' (K key) = Some \<lparr> sbCredID = cID c, sbExpiresAt = now + selStickyTTL s \<rparr>)"
proof -
  obtain s1 c where p: "pick_by_strategy s avail = Some (s1, c)"
    using pick_by_strategy_total [OF assms(2)] by blast
  note fr = pick_by_strategy_frame [OF p]
  let ?s2 = "if key \<noteq> [] then bind_sticky K s1 key (cID c) now else s1"
  have "pick_fresh K s avail key now = (reserve_locked ?s2 (cID c), Inr c)"
    using p by (simp add: pick_fresh_def Let_def)
  moreover have "c \<in> set avail"
    using pick_by_strategy_mem [OF lb_inv_counts [OF assms(1)] p] .
  moreover have "selInFlight ?s2 = selInFlight s" "selStates ?s2 = selStates s"
    "selStickyTTL ?s2 = selStickyTTL s"
    using fr by auto
  moreover have "lb_inv ?s2"
    using inv_pick_by_strategy [OF assms(1) p] by (auto intro: inv_intro)
  moreover have "key \<noteq> [] \<and> cID c \<noteq> [] \<and> selStickyTTL s > 0 \<longrightarrow>
      selSticky ?s2 (K key) = Some \<lparr> sbCredID = cID c, sbExpiresAt = now + selStickyTTL s \<rparr>"
    using fr by (auto simp: bind_sticky_def Let_def)
  ultimately show ?thesis by blast
qed

lemma find_by_id_mem: "find_by_id cs cid = Some c \<Longrightarrow> c \<in> set cs \<and> cID c = cid"
  by (auto simp: find_by_id_def find_Some_iff)

lemma pick_shape:
  assumes inv: "lb_inv s"
    and av: "available_locked s cs now = (s1, avail)"
  shows "if avail = [] then pick K s cs key now = (s1, Inl ErrNoCredential)
         else \<exists>s' c. pick K s cs key now = (reserve_locked s' (cID c), Inr c) \<and>
           c \<in> set avail \<and> selInFlight s' = selInFlight s \<and> selStates s' = selStates s1 \<and>
           selStickyTTL s' = selStickyTTL s \<and> lb_inv s' \<and>
           (key \<noteq> [] \<and> cID c \<noteq> [] \<and> selStickyTTL s > 0 \<longrightarrow>
              (\<exists>b. selSticky s' (K key) = Some b \<and> sbCredID b = cID c \<and> sbExpiresAt b > now))"
proof -
  have s1: "s1 = fst (available_locked s cs now)" using av by simp
  have inv1: "lb_inv s1" using inv s1 by (auto intro: inv_intro)
  have fr1: "selInFlight s1 = selInFlight s" "selStickyTTL s1 = selStickyTTL s" using s1 by auto
  have fresh: "\<exists>s' c. pick_fresh K t avail key now = (reserve_locked s' (cID c), Inr c) \<and>
       c \<in> set avail \<and> selInFlight s' = selInFlight s \<and> selStates s' = selStates s1 \<and>
       selStickyTTL s' = selStickyTTL s \<and> lb_inv s' \<and>
       (key \<noteq> [] \<and> cID c \<noteq> [] \<and> selStickyTTL s > 0 \<longrightarrow>
          (\<exists>b. selSticky s' (K key) = Some b \<and> sbCredID b = cID c \<and> sbExpiresAt b > now))"
    if "avail \<noteq> []" "lb_inv t" "selInFlight t = selInFlight s" "selStates t = selStates s1"
      "selStickyTTL t = selStickyTTL s" for t
    using pick_fresh_shape [OF that(2,1), of K key now] that(3-5) by fastforce
  show ?thesis
  proof (cases "avail = []")
    case True
    then show ?thesis using av by (simp add: pick_def)
  next
    case ne: False
    show ?thesis
    proof (cases "key = []")
      case True
      then show ?thesis using fresh [OF ne inv1 fr1(1) refl fr1(2)] ne av by (simp add: pick_def)
    next
      case k: False
      obtain s2 r where g: "get_sticky K s1 key now = (s2, r)" by fastforce
      have s2: "s2 = fst (get_sticky K s1 key now)" using g by simp
      have fr2: "selInFlight s2 = selInFlight s" "selStates s2 = selStates s1"
        "selStickyTTL s2 = selStickyTTL s" "lb_inv s2"
        using s2 fr1 inv1 by (auto intro: inv_intro)
      note f2 = fresh [OF ne fr2(4,1,2,3)]
      show ?thesis
      proof (cases r)
        case None
        then show ?thesis using f2 ne k av g by (simp add: pick_def)
      next
        case (Some cid)
        show ?thesis
        proof (cases "find_by_id avail cid")
          case None
          then show ?thesis using f2 ne k av g Some by (simp add: pick_def)
        next
          case c: (Some c)
          have "pick K s cs key now = (reserve_locked s2 (cID c), Inr c)"
            using c ne k av g Some by (simp add: pick_def)
          moreover have "\<exists>b. selSticky s2 (K key) = Some b \<and> sbCredID b = cID c \<and> sbExpiresAt b > now"
            using g Some find_by_id_mem [OF c]
            by (auto simp: get_sticky_def split: if_splits option.splits)
          ultimately show ?thesis using fr2 find_by_id_mem [OF c] ne by auto
        qed
      qed
    qed
  qed
qed

lemma inv_pick [inv_intro]:
  assumes "lb_inv s"
  shows "lb_inv (fst (pick K s cs key now))"
proof -
  obtain s1 avail where av: "available_locked s cs now = (s1, avail)" by fastforce
  have "lb_inv s1" using inv_available [OF assms, of cs now] av by simp
  then show ?thesis
    using pick_shape [OF assms av, of K key] by (auto split: if_splits intro: inv_intro)
qed

lemma inv_mark_success_gen [inv_intro]:
  "lb_inv s \<Longrightarrow> lb_inv (fst (mark_success_gen K s cid key now rel))"
  by (simp add: mark_success_gen_def Let_def inv_intro)

lemma inv_mark_failure [inv_intro]:
  "lb_inv s \<Longrightarrow> lb_inv (fst (mark_failure rnd s cid status ra now))"
  by (simp add: mark_failure_def Let_def inv_intro)

lemma inv_mark_quota [inv_intro]:
  "lb_inv s \<Longrightarrow> lb_inv (fst (mark_quota_exhausted_until s cid now reset))"
  by (simp add: mark_quota_exhausted_until_def Let_def inv_intro)

lemma inv_release_op [inv_intro]: "lb_inv s \<Longrightarrow> lb_inv (release s cid)"
  by (simp add: release_def inv_intro)

section \<open>Reachable selectors\<close>

text \<open>The exported operations, in any order and with any arguments, from a new selector.\<close>

inductive lb_reach :: "(string \<Rightarrow> string) \<Rightarrow> lb_config \<Rightarrow> selector \<Rightarrow> bool"
  for K :: "string \<Rightarrow> string" and cfg :: lb_config where
  reach_new: "lb_reach K cfg (new_selector cfg)"
| reach_pick: "lb_reach K cfg s \<Longrightarrow> lb_reach K cfg (fst (pick K s cs key now))"
| reach_success: "lb_reach K cfg s \<Longrightarrow> lb_reach K cfg (fst (mark_success K s cid key now))"
| reach_hold: "lb_reach K cfg s \<Longrightarrow> lb_reach K cfg (fst (mark_success_hold K s cid key now))"
| reach_failure: "lb_reach K cfg s \<Longrightarrow> lb_reach K cfg (fst (mark_failure rnd s cid status ra now))"
| reach_quota: "lb_reach K cfg s \<Longrightarrow> lb_reach K cfg (fst (mark_quota_exhausted_until s cid now rs))"
| reach_release: "lb_reach K cfg s \<Longrightarrow> lb_reach K cfg (release s cid)"
| reach_prune: "lb_reach K cfg s \<Longrightarrow> lb_reach K cfg (prune_sticky s now)"

lemma reach_inv: "lb_reach K cfg s \<Longrightarrow> lb_inv s"
  by (induction rule: lb_reach.induct)
     (auto intro: inv_intro simp: mark_success_def mark_success_hold_def)

text \<open>
  The process-local memory of the selector stays bounded whatever the clients send: in every
  reachable selector there are at most 10000 sticky bindings, each of them owns a slot of the ring
  (so that it will be evicted), and every counted credential has at least one request in flight.
\<close>

theorem reachable_bounded:
  assumes "lb_reach K cfg s"
  shows "finite (dom (selSticky s)) \<and> card (dom (selSticky s)) \<le> 10000 \<and>
    dom (selSticky s) \<subseteq> set (selSlots s) \<and> (\<forall>k. selInFlight s k \<noteq> Some 0)"
proof -
  have inv: "lb_inv s" using reach_inv [OF assms] .
  then have sub: "dom (selSticky s) \<subseteq> set (selSlots s)" and "length (selSlots s) \<le> 10000"
    by (auto simp: lb_inv_def max_sticky_bindings_def)
  then have "card (dom (selSticky s)) \<le> 10000"
    by (meson List.finite_set card_length card_mono le_trans)
  moreover have "selInFlight s k \<noteq> Some 0" for k
    using inv unfolding lb_inv_def by fastforce
  ultimately show ?thesis using sub by (auto intro: finite_subset)
qed

definition sample_config :: lb_config where
  "sample_config = \<lparr> lbStrategy = [], lbStickyTTLSec = 600, lbBaseSec = 300, lbMaxSec = 3600,
     lbQuotaCooldownSec = 0, lbQuotaReserveRequests = 0, lbCredentialMaxConcurrent = 2 \<rparr>"

definition sample_cred :: "string \<Rightarrow> int \<Rightarrow> credential" where
  "sample_cred k p = zero_credential\<lparr> cID := k, cEnabled := True, cPriority := p \<rparr>"

theorem reachable_bounded_witness:
  "card (dom (selSticky (fst (pick id (new_selector sample_config)
      [sample_cred ''a'' 1, sample_cred ''b'' 2] ''k'' 50)))) \<le> 10000"
  using reachable_bounded [OF reach_pick [OF reach_new, of id sample_config]] by blast

section \<open>A pick is sound and complete\<close>

lemma pick_returns:
  assumes "lb_inv s" and "0 \<le> now" and "pick K s cs key now = (s', Inr c)"
  shows "c \<in> set cs \<and> cEnabled c \<and>
    (\<forall>t. cCooldownUntil c = Some t \<longrightarrow> t \<le> now) \<and>
    (\<forall>st. selStates s (cID c) = Some st \<longrightarrow> rtCooldownUntil st \<le> now) \<and>
    (selMaxConcurrent s > 0 \<longrightarrow> count_of (selInFlight s) (cID c) < selMaxConcurrent s) \<and>
    (\<forall>k. count_of (selInFlight s') k =
       (if k = cID c \<and> k \<noteq> [] then count_of (selInFlight s) k + 1 else count_of (selInFlight s) k))"
proof -
  obtain s1 avail where av: "available_locked s cs now = (s1, avail)" by fastforce
  have "avail \<noteq> []"
    using pick_shape [OF assms(1) av, of K key] assms(3) by (auto split: if_splits)
  then obtain t where t: "s' = reserve_locked t (cID c)" "c \<in> set avail"
      "selInFlight t = selInFlight s"
    using pick_shape [OF assms(1) av, of K key] assms(3) by auto
  have snd: "c \<in> set cs" "cEnabled c" "available_now s1 now c"
    using available_locked_sound [of c s cs now] t(2) av by auto
  have fr: "selInFlight s1 = selInFlight s" "selMaxConcurrent s1 = selMaxConcurrent s"
    using available_locked_frame [of s cs now] av by simp_all
  have "rtCooldownUntil st \<le> now" if "selStates s (cID c) = Some st" for st
    using available_keeps [OF that, of cs now] av snd(3) assms(2)
    by (auto simp: available_now_def in_cooldown_def effective_cooldown_def Let_def
          split: if_splits option.splits)
  moreover have "t \<le> now" if "cCooldownUntil c = Some t" for t
    using that snd(3) assms(2)
    by (auto simp: available_now_def in_cooldown_def effective_cooldown_def Let_def
          split: if_splits option.splits)
  moreover have "selMaxConcurrent s > 0 \<longrightarrow> count_of (selInFlight s) (cID c) < selMaxConcurrent s"
    using snd(3) fr by (auto simp: available_now_def)
  ultimately show ?thesis using snd t by auto
qed

text \<open>
  C3: A pick hands out only what may be used.  The credential a pick returns is one of the
  candidates, it is enabled, neither its stored cooldown nor the cooldown in memory lies in the
  future, a concurrency limit leaves room for it, and exactly its own count of requests in flight
  has grown, by one.
\<close>

theorem pick_sound:
  assumes "lb_inv s" and "0 \<le> now" and "pick K s cs key now = (s', Inr c)"
  shows "c \<in> set cs \<and> cEnabled c \<and>
    (\<forall>t. cCooldownUntil c = Some t \<longrightarrow> t \<le> now) \<and>
    (\<forall>st. selStates s (cID c) = Some st \<longrightarrow> rtCooldownUntil st \<le> now) \<and>
    (selMaxConcurrent s > 0 \<longrightarrow> count_of (selInFlight s) (cID c) < selMaxConcurrent s) \<and>
    (\<forall>k. count_of (selInFlight s') k =
       (if k = cID c \<and> k \<noteq> [] then count_of (selInFlight s) k + 1 else count_of (selInFlight s) k))"
  using assms by (rule pick_returns)

lemma sample_pick:
  "snd (pick id (new_selector sample_config) [sample_cred ''a'' 1, sample_cred ''b'' 2] ''k'' 50) =
     Inr (sample_cred ''b'' 2)"
  "distinct (map cID [sample_cred ''a'' 1, sample_cred ''b'' 2])"
  by code_simp+

lemma sample_pick_pair:
  "pick id (new_selector sample_config) [sample_cred ''a'' 1, sample_cred ''b'' 2] ''k'' 50 =
     (fst (pick id (new_selector sample_config) [sample_cred ''a'' 1, sample_cred ''b'' 2] ''k'' 50),
      Inr (sample_cred ''b'' 2))"
  by (metis prod.collapse sample_pick(1))

theorem pick_sound_witness:
  "count_of (selInFlight (fst (pick id (new_selector sample_config)
      [sample_cred ''a'' 1, sample_cred ''b'' 2] ''k'' 50))) ''b'' = 1"
  using pick_sound [OF inv_new _ sample_pick_pair]
  by (simp add: sample_cred_def new_selector_def Let_def count_of_def)

text \<open>
  A pick fails only for want of a usable credential.  With distinct identifiers, a pick
  answers \<open>ErrNoCredential\<close>, its only error, exactly when no candidate is enabled, outside its
  cooldowns and below the concurrency limit.
\<close>

theorem pick_fails_iff:
  assumes "lb_inv s" and "distinct (map cID cs)"
  shows "((\<exists>e. snd (pick K s cs key now) = Inl e) \<longleftrightarrow>
            (\<forall>c \<in> set cs. \<not> (cEnabled c \<and> available_now s now c))) \<and>
         (\<forall>e. snd (pick K s cs key now) = Inl e \<longrightarrow> e = ErrNoCredential)"
proof -
  obtain s1 avail where av: "available_locked s cs now = (s1, avail)" by fastforce
  have "avail = filter (\<lambda>c. cEnabled c \<and> available_now s now c) cs"
    using available_locked_filter [OF assms(2), of s now] av by simp
  then have ne: "avail = [] \<longleftrightarrow> (\<forall>c \<in> set cs. \<not> (cEnabled c \<and> available_now s now c))"
    by (simp add: filter_empty_conv)
  show ?thesis
  proof (cases "avail = []")
    case True
    then have "pick K s cs key now = (s1, Inl ErrNoCredential)"
      using pick_shape [OF assms(1) av, of K key] by simp
    then show ?thesis using True ne by simp
  next
    case False
    then obtain t c where "pick K s cs key now = (t, Inr c)"
      using pick_shape [OF assms(1) av, of K key] by auto
    then show ?thesis using False ne by simp
  qed
qed

theorem pick_fails_iff_witness:
  "snd (pick id (new_selector sample_config) [sample_cred ''a'' 1, sample_cred ''b'' 2] ''k'' 50) =
     Inr (sample_cred ''b'' 2) \<and>
   (\<exists>c \<in> set [sample_cred ''a'' 1, sample_cred ''b'' 2].
      cEnabled c \<and> available_now (new_selector sample_config) 50 c)"
  using pick_fails_iff [OF inv_new sample_pick(2), of id sample_config "''k''" 50] sample_pick(1)
  by auto

section \<open>Sticky sessions\<close>

lemma find_by_id_hit:
  assumes "c \<in> set cs"
  shows "\<exists>d. find_by_id cs (cID c) = Some d \<and> cID d = cID c"
  using assms by (induction cs) (auto simp: find_by_id_def)


lemma sample_ttl: "selStickyTTL (new_selector sample_config) > 0" "cID (sample_cred ''b'' 2) = ''b''"
  by code_simp+

lemma sample_still_usable:
  "available_now (fst (pick id (new_selector sample_config)
     [sample_cred ''a'' 1, sample_cred ''b'' 2] ''k'' 50)) 50 (sample_cred ''b'' 1)"
  "cID (sample_cred ''b'' 1) = ''b''" "cEnabled (sample_cred ''b'' 1)"
  "distinct (map cID [sample_cred ''b'' 1, sample_cred ''z'' 9])"
  by code_simp+


section \<open>Priority and load\<close>

definition usable :: "selector \<Rightarrow> gotime \<Rightarrow> credential list \<Rightarrow> credential list" where
  "usable s now cs = filter (\<lambda>c. cEnabled c \<and> available_now s now c) cs"

definition quota_pool :: "selector \<Rightarrow> credential list \<Rightarrow> credential list" where
  "quota_pool s cs = (if quota_preferred s cs \<noteq> [] then quota_preferred s cs else cs)"

lemma top_group_max:
  assumes "c \<in> set (top_group cs)" "d \<in> set cs"
  shows "cPriority d \<le> cPriority c"
  using assms by (auto simp: top_group_def top_priority_def)

text \<open>
  Without a session the default strategy balances.  With distinct identifiers and any strategy
  but \<open>round_robin\<close>, a pick without a sticky key returns a usable credential of the quota-preferred
  pool (all usable ones when the pool is empty) that has the highest priority of the pool and, of
  those with that priority, the fewest requests in flight.
\<close>

theorem pick_prefers_priority_then_load:
  assumes "lb_inv s" and "distinct (map cID cs)" and "selStrategy s \<noteq> ''round_robin''"
    and "pick K s cs [] now = (s', Inr c)"
  shows "c \<in> set (quota_pool s (usable s now cs)) \<and>
    (\<forall>d \<in> set (quota_pool s (usable s now cs)). cPriority d \<le> cPriority c \<and>
       (cPriority d = cPriority c \<longrightarrow>
          count_of (selInFlight s) (cID c) \<le> count_of (selInFlight s) (cID d)))"
proof -
  obtain s1 avail where av: "available_locked s cs now = (s1, avail)" by fastforce
  have avail: "avail = usable s now cs"
    using available_locked_filter [OF assms(2), of s now] av by (simp add: usable_def)
  have fr: "selInFlight s1 = selInFlight s" "selStrategy s1 = selStrategy s"
      "selQuotaReserve s1 = selQuotaReserve s"
    using available_locked_frame [of s cs now] av by simp_all
  let ?pool = "quota_pool s avail"
  have "quota_preferred s1 avail = quota_preferred s avail"
    unfolding quota_preferred_def fr by (rule refl)
  then have "quota_pool s1 avail = ?pool" by (simp add: quota_pool_def)
  moreover have ne: "avail \<noteq> []"
    using pick_shape [OF assms(1) av, of K "[]"] assms(4) by (auto split: if_splits)
  ultimately have c: "c = snd (pick_priority_rr s1 ?pool)"
    using assms(3,4) av fr
    by (auto simp: pick_def pick_fresh_def pick_by_strategy_def quota_pool_def Let_def
          split: prod.splits if_splits)
  have "?pool \<noteq> []" using ne by (auto simp: quota_pool_def)
  moreover have "\<And>k. 0 \<le> count_of (selInFlight s1) k" using lb_inv_counts [OF assms(1)] fr by simp
  ultimately have choice: "c \<in> set (top_group ?pool)"
      "\<forall>d \<in> set (top_group ?pool). count_of (selInFlight s1) (cID c) \<le> count_of (selInFlight s1) (cID d)"
    using pick_priority_rr_choice [of s1 ?pool] c by auto
  have "cPriority d \<le> cPriority c \<and> (cPriority d = cPriority c \<longrightarrow>
          count_of (selInFlight s) (cID c) \<le> count_of (selInFlight s) (cID d))"
    if d: "d \<in> set ?pool" for d
    using choice d top_group_max [OF choice(1) d] fr by (auto simp: top_group_def)
  moreover have "c \<in> set ?pool" using choice by (simp add: top_group_def)
  ultimately show ?thesis unfolding avail by blast
qed

lemma sample_pick_nokey:
  "pick id (new_selector sample_config) [sample_cred ''a'' 1, sample_cred ''b'' 2] [] 50 =
     (fst (pick id (new_selector sample_config) [sample_cred ''a'' 1, sample_cred ''b'' 2] [] 50),
      Inr (sample_cred ''b'' 2))"
proof -
  have "snd (pick id (new_selector sample_config) [sample_cred ''a'' 1, sample_cred ''b'' 2] [] 50) =
      Inr (sample_cred ''b'' 2)" by code_simp
  then show ?thesis by (metis prod.collapse)
qed

lemma sample_strategy: "selStrategy (new_selector sample_config) \<noteq> ''round_robin''"
  by code_simp

theorem pick_prefers_priority_then_load_witness:
  "list_all (\<lambda>d. cPriority d \<le> 2) (quota_pool (new_selector sample_config)
     (usable (new_selector sample_config) 50 [sample_cred ''a'' 1, sample_cred ''b'' 2]))"
  using pick_prefers_priority_then_load [OF inv_new sample_pick(2) sample_strategy sample_pick_nokey]
  by (simp add: sample_cred_def list_all_iff)

section \<open>Cooldown after a failure\<close>

text \<open>The documented contract of \<open>rand.Int63n\<close>.\<close>

definition rand_ok :: "(int \<Rightarrow> int) \<Rightarrow> bool" where
  "rand_ok rnd \<longleftrightarrow> (\<forall>n > 0. 0 \<le> rnd n \<and> rnd n < n)"

lemma jitter_bounds:
  assumes "rand_ok rnd" "0 \<le> d"
  shows "0 \<le> jitter rnd d \<and> jitter rnd d \<le> d div 10"
proof -
  have "0 < d div 10 + 1" using assms(2) by (simp add: pos_imp_zdiv_nonneg_iff add_nonneg_pos)
  then have "0 \<le> rnd (d div 10 + 1) \<and> rnd (d div 10 + 1) < d div 10 + 1"
    using assms(1) unfolding rand_ok_def by blast
  then have "0 \<le> rnd (d div 10 + 1) \<and> rnd (d div 10 + 1) \<le> d div 10" by simp
  then show ?thesis using assms(2) by (auto simp: jitter_def go_div_nonneg Let_def)
qed

definition sane_cooldowns :: "selector \<Rightarrow> bool" where
  "sane_cooldowns s \<longleftrightarrow> 0 < selCooldownBase s \<and> selCooldownBase s \<le> selCooldownMax s \<and>
     selCooldownMax s < 2 ^ 51"

definition backoff_factor :: "int \<Rightarrow> int" where
  "backoff_factor f = 2 ^ nat (if f < 0 then 0 else if f > 10 then 10 else f)"

lemma backoff_factor_bounds: "1 \<le> backoff_factor f \<and> backoff_factor f \<le> 1024"
proof -
  have "nat (if f < 0 then 0 else if f > 10 then 10 else f) \<le> 10" by auto
  then have "backoff_factor f \<le> 2 ^ 10"
    unfolding backoff_factor_def by (rule power_increasing) simp
  then show ?thesis by (simp add: backoff_factor_def)
qed

lemma scaled_base_bounds:
  assumes "0 < (b::int)" "b < 2 ^ 51"
  shows "b \<le> b * backoff_factor f" "b * backoff_factor f < 2 ^ 61"
proof -
  have "b * 1 \<le> b * backoff_factor f" "b * backoff_factor f \<le> b * 1024"
    using assms backoff_factor_bounds [of f] by (intro mult_left_mono; linarith)+
  moreover have "b * 1024 < 2 ^ 61" using assms(2) by simp
  ultimately show "b \<le> b * backoff_factor f" "b * backoff_factor f < 2 ^ 61" by linarith+
qed

lemma cooldown_raw_backoff:
  assumes "sane_cooldowns s" "ra \<le> 0"
  shows "cooldown_raw s 429 ra f = min (selCooldownMax s) (selCooldownBase s * backoff_factor f)"
proof -
  have b: "0 < selCooldownBase s" "selCooldownBase s < 2 ^ 51"
    using assms(1) by (auto simp: sane_cooldowns_def)
  note sb = scaled_base_bounds [OF b, of f]
  have "wrap64 (selCooldownBase s * backoff_factor f) = selCooldownBase s * backoff_factor f"
  proof (rule wrap64_id)
    have "0 \<le> selCooldownBase s * backoff_factor f" using b(1) sb(1) by linarith
    then show "- (2 ^ 63) \<le> selCooldownBase s * backoff_factor f"
      by (rule order_trans [rotated]) simp
    show "selCooldownBase s * backoff_factor f < 2 ^ 63" using sb by simp
  qed
  moreover have "\<not> selCooldownBase s * backoff_factor f \<le> 0" using b(1) sb(1) by linarith
  ultimately show ?thesis using assms b(1) unfolding cooldown_raw_def
    by (simp add: sane_cooldowns_def cooldown_base_of_def cooldown_max_of_def Let_def
          backoff_factor_def [symmetric] min_def)
qed

lemma cooldown_raw_bounds:
  assumes "sane_cooldowns s" "ra \<le> 0 \<or> status \<noteq> 429 \<and> status \<noteq> 402"
  shows "min (selCooldownBase s) (15 * second) \<le> cooldown_raw s status ra f \<and>
         cooldown_raw s status ra f \<le> selCooldownMax s"
proof (cases "status = 429")
  case True
  have b: "0 < selCooldownBase s" "selCooldownBase s < 2 ^ 51" "selCooldownBase s \<le> selCooldownMax s"
    using assms(1) by (auto simp: sane_cooldowns_def)
  have "min B (15 * second) \<le> min M x \<and> min M x \<le> M" if "B \<le> x" "B \<le> M" for B M x :: int
    using that by linarith
  note mins = this [OF scaled_base_bounds(1) [OF b(1,2), of f] b(3)]
  have "cooldown_raw s status ra f =
      min (selCooldownMax s) (selCooldownBase s * backoff_factor f)"
    using True assms(2) cooldown_raw_backoff [OF assms(1), of ra f] by simp
  with mins show ?thesis by simp
next
  case False
  have b: "0 < selCooldownBase s" "selCooldownBase s \<le> selCooldownMax s" "selCooldownMax s < 2 ^ 51"
    using assms(1) by (auto simp: sane_cooldowns_def)
  have eq: "cooldown_base_of s = selCooldownBase s" "cooldown_max_of s = selCooldownMax s"
    using b by (auto simp: cooldown_base_of_def cooldown_max_of_def)
  have "wrap64 (selCooldownBase s * 4) = selCooldownBase s * 4"
    using b by (intro wrap64_id) auto
  moreover have "go_div (selCooldownBase s) 10 = selCooldownBase s div 10"
    using b by (simp add: go_div_nonneg)
  moreover have "\<not> (status = 402 \<and> ra > 0)" using assms(2) False by auto
  ultimately have "cooldown_raw s status ra f \<in>
      {selCooldownMax s, min (selCooldownBase s * 4) (selCooldownMax s), selCooldownBase s,
       min (max (selCooldownBase s div 10) (15 * second)) (selCooldownBase s)}"
    using False unfolding cooldown_raw_def eq Let_def by (auto simp: min_def max_def)
  then show ?thesis using b by auto
qed

lemma cooldown_duration_bounds:
  assumes "rand_ok rnd" "0 \<le> cooldown_raw s status ra f" "cooldown_raw s status ra f < 2 ^ 61"
  shows "cooldown_raw s status ra f \<le> cooldown_duration rnd s status ra f \<and>
         cooldown_duration rnd s status ra f \<le> cooldown_raw s status ra f + cooldown_raw s status ra f div 10"
proof -
  let ?d = "cooldown_raw s status ra f"
  have j: "0 \<le> jitter rnd ?d" "jitter rnd ?d \<le> ?d div 10" using jitter_bounds [OF assms(1,2)] by auto
  have "wrap64 (?d + jitter rnd ?d) = ?d + jitter rnd ?d"
    using j assms by (intro wrap64_id) auto
  with j show ?thesis by (simp add: cooldown_duration_def Let_def)
qed

text \<open>
  Cooldowns stay within their configured window.  For a base of at most the maximum and a maximum
  below 2^51 ns (26 days), a failure that carries no usable \<open>Retry-After\<close> cools a credential for at
  least the smaller of the base and 15 s and at most the maximum and a tenth; repeated 429s double
  the wait up to the maximum; and 403 waits the whole maximum.
\<close>

theorem cooldown_window:
  assumes "rand_ok rnd" and "sane_cooldowns s" and "ra \<le> 0 \<or> status \<noteq> 429 \<and> status \<noteq> 402"
  shows "min (selCooldownBase s) (15 * second) \<le> cooldown_duration rnd s status ra f \<and>
    cooldown_duration rnd s status ra f \<le> selCooldownMax s + selCooldownMax s div 10 \<and>
    (status = 429 \<and> 0 \<le> f \<and> f \<le> 10 \<longrightarrow>
       min (selCooldownMax s) (selCooldownBase s * 2 ^ nat f) \<le> cooldown_duration rnd s status ra f) \<and>
    (status = 403 \<longrightarrow> selCooldownMax s \<le> cooldown_duration rnd s status ra f)"
proof -
  let ?d = "cooldown_raw s status ra f"
  have raw: "min (selCooldownBase s) (15 * second) \<le> ?d" "?d \<le> selCooldownMax s"
    using cooldown_raw_bounds [OF assms(2,3)] by auto
  have sane: "0 < selCooldownBase s" "selCooldownMax s < 2 ^ 51" "selCooldownBase s \<le> selCooldownMax s"
    using assms(2) by (auto simp: sane_cooldowns_def)
  have dur: "?d \<le> cooldown_duration rnd s status ra f"
      "cooldown_duration rnd s status ra f \<le> ?d + ?d div 10"
    using cooldown_duration_bounds [OF assms(1), of s status ra f] raw sane by auto
  moreover have "?d div 10 \<le> selCooldownMax s div 10" using raw(2) by (rule zdiv_mono1) simp
  moreover have "min (selCooldownMax s) (selCooldownBase s * 2 ^ nat f) \<le> ?d"
    if "status = 429" "0 \<le> f" "f \<le> 10"
  proof -
    have "backoff_factor f = 2 ^ nat f" using that by (simp add: backoff_factor_def)
    then show ?thesis using cooldown_raw_backoff [OF assms(2), of ra f] that assms(3) by simp
  qed
  moreover have "?d = selCooldownMax s" if "status = 403"
    using that sane by (simp add: cooldown_raw_def cooldown_max_of_def cooldown_base_of_def Let_def)
  ultimately show ?thesis using raw by (intro conjI impI) (linarith | simp)+
qed

lemma sample_cooldowns: "rand_ok (\<lambda>n. n - 1)" "sane_cooldowns (new_selector sample_config)"
  by (simp add: rand_ok_def) code_simp

theorem cooldown_window_witness:
  "cooldown_duration (\<lambda>n. n - 1) (new_selector sample_config) 500 0 3 \<le> 3960 * second"
  using cooldown_window [OF sample_cooldowns, of 0 500 3]
  by (simp add: sample_config_def new_selector_def Let_def seconds_def wrap64_def)


lemma sample_after_failure:
  "snd (pick id (fst (mark_failure (\<lambda>n. n - 1) (new_selector sample_config) ''b'' 403 0 50))
      [sample_cred ''a'' 1, sample_cred ''b'' 2] ''k'' 60) = Inr (sample_cred ''a'' 1)"
  "cooldown_raw (new_selector sample_config) 403 0 (rtFailureCount (state_of (new_selector sample_config) ''b'')) = 3600 * second"
  by code_simp+


section \<open>Health snapshots\<close>

text \<open>A marking of \<open>cid\<close> that asks for its health to be persisted.\<close>

definition marked :: "(string \<Rightarrow> string) \<Rightarrow> selector \<Rightarrow> string \<Rightarrow> selector \<Rightarrow> snapshot \<Rightarrow> bool" where
  "marked K s cid s' snap \<longleftrightarrow>
     (\<exists>key now rel. mark_success_gen K s cid key now rel = (s', Some snap)) \<or>
     (\<exists>rnd status ra now. mark_failure rnd s cid status ra now = (s', Some snap)) \<or>
     (\<exists>now reset. mark_quota_exhausted_until s cid now reset = (s', Some snap))"

lemma marked_version:
  assumes "marked K s cid s' snap"
  shows "\<exists>st. selStates s' cid = Some st \<and> rtVersion st = hsVersion snap \<and>
           hsVersion snap = rtVersion (state_of s cid) + 1 \<and>
           hsFailureCount snap = rtFailureCount st \<and> hsLastError snap = rtLastError st"
proof -
  have st: "state_of (release_locked s cid) cid = state_of s cid" by (simp add: state_of_def)
  from assms have "cid \<noteq> []"
    by (auto simp: marked_def mark_success_gen_def mark_failure_def mark_quota_exhausted_until_def)
  then show ?thesis using assms unfolding marked_def
    by (elim disjE exE)
       (auto simp: mark_success_gen_def mark_failure_def mark_quota_exhausted_until_def Let_def st
          split: if_splits)
qed

lemma marked_not_stale: "marked K s cid s' snap \<Longrightarrow> \<not> persist_stale s' cid snap"
  using marked_version by (fastforce simp: persist_stale_def)

text \<open>
  The newest health is what gets stored.  When a credential is marked twice, the two persist calls
  may run in either order, or the older one after the newer: with the selector in the state after
  the second marking the older snapshot is dropped, and the store ends as if only the newer one
  had been written.
\<close>

theorem newest_health_wins:
  assumes "marked K s cid s1 old" and "selStates s1' cid = selStates s1 cid"
    and "marked K s1' cid s2 new"
  shows "persist_health patch s2 (persist_health patch s2 st cid new) cid old =
           fst (patch st cid (health_patch new)) \<and>
         persist_health patch s2 (persist_health patch s2 st cid old) cid new =
           fst (patch st cid (health_patch new))"
proof -
  obtain a where a: "selStates s1 cid = Some a" "rtVersion a = hsVersion old"
    using marked_version [OF assms(1)] by blast
  obtain b where b: "selStates s2 cid = Some b" "rtVersion b = hsVersion new"
      "hsVersion new = rtVersion (state_of s1' cid) + 1"
    using marked_version [OF assms(3)] by blast
  have "rtVersion b = hsVersion old + 1"
    using a b assms(2) by (simp add: state_of_def)
  then have "rtVersion b \<noteq> hsVersion old" by simp
  then have "persist_stale s2 cid old" using b(1) by (simp add: persist_stale_def)
  then show ?thesis
    using marked_not_stale [OF assms(3)] by (simp add: persist_health_def)
qed

lemma sample_marked:
  "\<exists>s1 old s2 new. marked id (new_selector sample_config) ''b'' s1 old \<and> marked id s1 ''b'' s2 new"
proof -
  obtain s1 old where m1: "mark_failure (\<lambda>n. n - 1) (new_selector sample_config) ''b'' 500 0 50 = (s1, Some old)"
    by (simp add: mark_failure_def Let_def)
  obtain s2 new where m2: "mark_failure (\<lambda>n. n - 1) s1 ''b'' 429 0 60 = (s2, Some new)"
    by (simp add: mark_failure_def Let_def)
  from m1 m2 show ?thesis unfolding marked_def by blast
qed

theorem newest_health_wins_witness:
  "\<exists>s2 old new. persist_health (\<lambda>st cid f. (f (sample_cred cid 1) # st, Inl ErrStoreClosed)) s2
      (persist_health (\<lambda>st cid f. (f (sample_cred cid 1) # st, Inl ErrStoreClosed)) s2 [] ''b'' old) ''b'' new =
     [health_patch new (sample_cred ''b'' 1)]"
proof -
  from sample_marked obtain s1 old s2 new where
    m: "marked id (new_selector sample_config) ''b'' s1 old" "marked id s1 ''b'' s2 new" by blast
  show ?thesis
    using newest_health_wins [OF m(1) refl m(2),
        of "\<lambda>st cid f. (f (sample_cred cid 1) # st, Inl ErrStoreClosed)" "[]"] by auto
qed

end
