(* ===== verification/Runner_Props.thy ===== *)
theory Runner_Props
  imports Runner Lb_Props Cred_Store_Props
begin

text \<open>
  What an inspection run does: a credential is condemned (quarantined or purged) only on a confirmed 401
  whose refresh failed for good, never when the guard against mass failures holds, and the credentials
  that waited longest are inspected first.
\<close>

section \<open>Logs of a program\<close>

definition logs :: "('w, 'a) rm \<Rightarrow> ('a \<Rightarrow> insp_event list \<Rightarrow> bool) \<Rightarrow> bool" where
  "logs m Q \<longleftrightarrow> (\<forall>r a r'. run_state m r = (a, r') \<longrightarrow> (\<exists>l. rnLog r' = rnLog r @ l \<and> Q a l))"

lemma logs_return: "Q a [] \<Longrightarrow> logs (State_Monad.return a) Q"
  by (simp add: logs_def)

lemma logs_get: "(\<And>r. Q r []) \<Longrightarrow> logs State_Monad.get Q"
  by (simp add: logs_def State_Monad.get_def)

lemma logs_rchange: "(\<And>r. rnLog (f r) = rnLog r) \<Longrightarrow> Q () [] \<Longrightarrow> logs (rchange f) Q"
  by (simp add: logs_def rchange_def)

lemma logs_rcall: "(\<And>w w' a. f w = (w', a) \<Longrightarrow> Q a (ev a)) \<Longrightarrow> logs (rcall f ev) Q"
  by (auto simp: logs_def rcall_def Let_def split: prod.splits)

lemma logs_weaken: "logs m P \<Longrightarrow> (\<And>a l. P a l \<Longrightarrow> Q a l) \<Longrightarrow> logs m Q"
  unfolding logs_def by blast

lemma logs_bind:
  assumes m: "logs m P" and f: "\<And>a l. P a l \<Longrightarrow> logs (f a) (\<lambda>b l'. Q b (l @ l'))"
  shows "logs (m \<bind> f) Q"
  unfolding logs_def
proof (intro allI impI)
  fix r b r' assume run: "run_state (m \<bind> f) r = (b, r')"
  obtain a r1 where a: "run_state m r = (a, r1)" "run_state (f a) r1 = (b, r')"
    using run by (auto split: prod.splits)
  obtain l where l: "rnLog r1 = rnLog r @ l" "P a l"
    using m a(1) unfolding logs_def by blast
  obtain l' where "rnLog r' = rnLog r1 @ l'" "Q b (l @ l')"
    using f [OF l(2)] a(2) unfolding logs_def by blast
  then show "\<exists>l. rnLog r' = rnLog r @ l \<and> Q b l"
    using l(1) by simp
qed

text \<open>A first step that logs nothing.\<close>

lemma logs_bind_quiet: "logs m (\<lambda>a l. l = [] \<and> P a) \<Longrightarrow> (\<And>a. P a \<Longrightarrow> logs (f a) Q) \<Longrightarrow> logs (m \<bind> f) Q"
  by (rule logs_bind [where P = "\<lambda>a l. l = [] \<and> P a"]) auto

lemma logs_if: "(c \<Longrightarrow> logs m Q) \<Longrightarrow> (\<not> c \<Longrightarrow> logs k Q) \<Longrightarrow> logs (if c then m else k) Q"
  by simp

lemma logs_revision: "logs (settings_revision_current pr n) (\<lambda>a l. l = [] \<and> True)"
  unfolding settings_revision_current_def by (rule logs_bind_quiet, rule logs_rcall) (auto intro: logs_return)

section \<open>Confirmation\<close>

text \<open>The calls of an inspection.\<close>

fun asks_token :: "insp_event \<Rightarrow> bool" where
  "asks_token (RvProbe c a) \<longleftrightarrow> True"
| "asks_token (RvRefresh c a) \<longleftrightarrow> True"
| "asks_token e \<longleftrightarrow> False"

fun probes_401 :: "credential \<Rightarrow> insp_event list \<Rightarrow> credential \<Rightarrow> bool" where
  "probes_401 c [] d \<longleftrightarrow> c = d"
| "probes_401 c (RvProbe c' (status, c2, e) # l) d \<longleftrightarrow> c' = c \<and> status = 401 \<and> \<not> invalidated e \<and> probes_401 c2 l d"
| "probes_401 c (e # l) d \<longleftrightarrow> False"

text \<open>A 401, a refresh that fails for good, and at least one more 401, each on the credential as the call
  before observed it.\<close>

fun condemned :: "credential \<Rightarrow> insp_event list \<Rightarrow> credential \<Rightarrow> bool" where
  "condemned c (RvProbe c1 (status, c2, e) # RvRefresh c3 (t, c4, err) # ps) d \<longleftrightarrow>
     c1 = c \<and> status = 401 \<and> \<not> invalidated e \<and> c3 = c2 \<and> classify_error err = ErrorTerminal \<and>
     ps \<noteq> [] \<and> probes_401 c4 ps d"
| "condemned c l d \<longleftrightarrow> False"

lemma status_simps [simp]:
  "roStatus (finding k s e) = s" "roStatus (settings_changed k) = ''settings_changed''"
  "roStatus (state_changed k) = ''state_changed''"
  "roCredentialID (finding k s e) = k" "roCredentialID (settings_changed k) = k"
  "roCredentialID (state_changed k) = k"
  by (simp_all add: finding_def settings_changed_def state_changed_def)

lemma status_label_cases: "status_label s = ''http_error'' \<or> status_label s = ''probe_error''"
  by (simp add: status_label_def)

lemma confirm_verdict_cases:
  "confirm_verdict k status e = None \<Longrightarrow> status = 401 \<and> \<not> invalidated e"
  "confirm_verdict k status e = Some r \<Longrightarrow> roStatus r \<noteq> ''unauthorized'' \<and> roCredentialID r = k"
  using status_label_cases [of status] by (auto simp: confirm_verdict_def split: if_splits)

lemma first_verdict_cases:
  "first_verdict k status e = None \<Longrightarrow> status = 401 \<and> \<not> invalidated e"
  "first_verdict k status e = Some r \<Longrightarrow> roStatus r \<noteq> ''unauthorized'' \<and> roCredentialID r = k"
  using status_label_cases [of status] by (auto simp: first_verdict_def split: if_splits)

lemma refresh_verdict_cases:
  "refresh_verdict k err = Inr True \<Longrightarrow> classify_error err = ErrorTerminal"
  "refresh_verdict k err = Inl r \<Longrightarrow> roStatus r \<noteq> ''unauthorized'' \<and> roCredentialID r = k"
  by (auto simp: refresh_verdict_def split: option.splits if_splits)

lemma final_verdict_simps [simp]:
  "roStatus (final_verdict k b) = ''unauthorized'' \<longleftrightarrow> b" "roCredentialID (final_verdict k b) = k"
  by (simp_all add: final_verdict_def)

lemma logs_probe:
  "(\<And>status d e. Q (status, d, e) [RvProbe c (status, d, e)]) \<Longrightarrow> logs (probe_x pr c) Q"
  unfolding probe_x_def by (rule logs_rcall) auto

lemma logs_refresh:
  "(\<And>t d e. Q (t, d, e) [RvRefresh c (t, d, e)]) \<Longrightarrow> logs (refresh_x pr c) Q"
  unfolding refresh_x_def by (rule logs_rcall) auto

lemma logs_confirm:
  "logs (confirm pr k revn terminal n c) (\<lambda>(r, d) l. roCredentialID r = k \<and> list_all asks_token l \<and>
     (roStatus r = ''unauthorized'' \<longrightarrow> terminal \<and> length l = n \<and> probes_401 c l d))"
proof (induction n arbitrary: c)
  case 0
  show ?case
    by (auto intro: logs_return)
next
  case (Suc n)
  let ?Q = "\<lambda>(r, d) l. roCredentialID r = k \<and> list_all asks_token l \<and>
     (roStatus r = ''unauthorized'' \<longrightarrow> terminal \<and> length l = Suc n \<and> probes_401 c l d)"
  have probe: "logs (probe_x pr c \<bind> (\<lambda>p. case p of (status, c2, e) \<Rightarrow>
          (case confirm_verdict k status e of
             Some r \<Rightarrow> State_Monad.return (r, c2)
           | None \<Rightarrow> confirm pr k revn terminal n c2))) ?Q"
  proof (rule logs_bind [where P = "\<lambda>p l. l = [RvProbe c p]"])
    show "logs (probe_x pr c) (\<lambda>p l. l = [RvProbe c p])"
      by (rule logs_probe) simp
    fix p l assume l: "l = [RvProbe c p]"
    obtain status c2 e where p: "p = (status, c2, e)"
      by (cases p)
    show "logs (case p of (status, c2, e) \<Rightarrow>
          (case confirm_verdict k status e of
             Some r \<Rightarrow> State_Monad.return (r, c2)
           | None \<Rightarrow> confirm pr k revn terminal n c2)) (\<lambda>b l'. ?Q b (l @ l'))"
    proof (cases "confirm_verdict k status e")
      case None
      then show ?thesis
        unfolding p prod.case None option.case
        by (intro logs_weaken [OF Suc.IH]) (use confirm_verdict_cases(1) [OF None] l p in auto)
    next
      case (Some r)
      then show ?thesis
        unfolding p prod.case Some option.case
        by (intro logs_return) (use confirm_verdict_cases(2) [OF Some] l in auto)
    qed
  qed
  show ?case
    unfolding confirm.simps
    by (rule logs_bind_quiet [OF logs_revision], rule logs_if) (auto intro: logs_return probe)
qed

text \<open>An inspection ends in \<open>unauthorized\<close> only after such a transcript.\<close>

definition judged :: "credential \<Rightarrow> result \<times> credential \<Rightarrow> insp_event list \<Rightarrow> bool" where
  "judged c out l \<longleftrightarrow> roCredentialID (fst out) = cID c \<and> list_all asks_token l \<and>
     (roStatus (fst out) = ''unauthorized'' \<longrightarrow> condemned c l (snd out))"

lemma logs_inspect: "logs (inspect_one pr conf revn c) (judged c)"
proof -
  let ?n = "nat ((if conf < 2 then 2 else conf) - 1)"
  have n: "?n \<noteq> 0"
    by simp
  have after: "logs (case f of (t, c4, err) \<Rightarrow>
      (case refresh_verdict (cID c) err of
         Inl r \<Rightarrow> State_Monad.return (r, c4)
       | Inr terminal \<Rightarrow> confirm pr (cID c) revn terminal ?n c4))
      (\<lambda>out l. judged c out (RvProbe c (401, c2, e) # RvRefresh c2 f # l))"
    if "\<not> invalidated e" for f c2 e
  proof -
    obtain t c4 err where f: "f = (t, c4, err)"
      by (cases f)
    show ?thesis
    proof (cases "refresh_verdict (cID c) err")
      case (Inl r)
      then show ?thesis
        unfolding f prod.case Inl sum.case
        by (intro logs_return) (use refresh_verdict_cases(2) [OF Inl] in \<open>simp add: judged_def\<close>)
    next
      case (Inr terminal)
      show ?thesis
        unfolding f prod.case Inr sum.case
        by (rule logs_weaken [OF logs_confirm])
          (use n that refresh_verdict_cases(1) [of "cID c" err] Inr in \<open>auto simp: judged_def\<close>)
    qed
  qed
  have probe: "logs (probe_x pr c \<bind> (\<lambda>p. case p of (status, observed, e) \<Rightarrow>
          (case first_verdict (cID c) status e of
             Some r \<Rightarrow> State_Monad.return (r, observed)
           | None \<Rightarrow> do {
               still \<leftarrow> settings_revision_current pr revn;
               if \<not> still then State_Monad.return (settings_changed (cID c), observed)
               else do {
                 f \<leftarrow> refresh_x pr observed;
                 (case f of (_, refreshed, err) \<Rightarrow>
                    (case refresh_verdict (cID c) err of
                       Inl r \<Rightarrow> State_Monad.return (r, refreshed)
                     | Inr terminal \<Rightarrow> confirm pr (cID c) revn terminal ?n refreshed)) } }))) (judged c)"
  proof (rule logs_bind [where P = "\<lambda>p l. l = [RvProbe c p]"])
    show "logs (probe_x pr c) (\<lambda>p l. l = [RvProbe c p])"
      by (rule logs_probe) simp
    fix p l assume l: "l = [RvProbe c p]"
    obtain status c2 e where p: "p = (status, c2, e)"
      by (cases p)
    show "logs (case p of (status, observed, e) \<Rightarrow>
          (case first_verdict (cID c) status e of
             Some r \<Rightarrow> State_Monad.return (r, observed)
           | None \<Rightarrow> do {
               still \<leftarrow> settings_revision_current pr revn;
               if \<not> still then State_Monad.return (settings_changed (cID c), observed)
               else do {
                 f \<leftarrow> refresh_x pr observed;
                 (case f of (_, refreshed, err) \<Rightarrow>
                    (case refresh_verdict (cID c) err of
                       Inl r \<Rightarrow> State_Monad.return (r, refreshed)
                     | Inr terminal \<Rightarrow> confirm pr (cID c) revn terminal ?n refreshed)) } }))
      (\<lambda>out l'. judged c out (l @ l'))"
    proof (cases "first_verdict (cID c) status e")
      case (Some r)
      then show ?thesis
        unfolding p prod.case Some option.case
        by (intro logs_return) (use first_verdict_cases(2) [OF Some] l in \<open>simp add: judged_def\<close>)
    next
      case None
      have none: "status = 401" "\<not> invalidated e"
        using first_verdict_cases(1) [OF None] by auto
      have held: "logs (State_Monad.return (settings_changed (cID c), c2)) (\<lambda>out l'. judged c out (l @ l'))"
        by (rule logs_return) (use l in \<open>simp add: judged_def\<close>)
      have "logs (refresh_x pr c2 \<bind> (\<lambda>f. case f of (_, refreshed, err) \<Rightarrow>
                    (case refresh_verdict (cID c) err of
                       Inl r \<Rightarrow> State_Monad.return (r, refreshed)
                     | Inr terminal \<Rightarrow> confirm pr (cID c) revn terminal ?n refreshed)))
         (\<lambda>out l'. judged c out (l @ l'))"
        by (rule logs_bind [where P = "\<lambda>f l. l = [RvRefresh c2 f]"], rule logs_refresh)
          (use after [OF none(2)] l p none(1) in auto)
      then show ?thesis
        unfolding p prod.case None option.case
        by (intro logs_bind_quiet [OF logs_revision] logs_if held)
    qed
  qed
  have held: "logs (State_Monad.return (settings_changed (cID c), c)) (judged c)"
    by (rule logs_return) (simp add: judged_def)
  show ?thesis
    unfolding inspect_one_def
    by (rule logs_bind_quiet [OF logs_revision], rule logs_if) (use held probe in auto)
qed


section \<open>The evidence of a run\<close>

definition observed_of :: "credential \<Rightarrow> credential \<Rightarrow> credential" where
  "observed_of c d = (if cID d = [] then c else d)"

text \<open>What the log \<open>l\<close> must hold for a verdict \<open>unauthorized\<close>.\<close>

definition backs :: "(string \<Rightarrow> string) \<Rightarrow> gotime \<Rightarrow> insp_event list \<Rightarrow> checked \<Rightarrow> bool" where
  "backs H now l k \<longleftrightarrow> roStatus (ckResult k) = ''unauthorized'' \<longrightarrow>
     (\<exists>l1 c tr d l2. l = l1 @ tr @ l2 \<and> condemned c tr d \<and> cID c = roCredentialID (ckResult k) \<and>
        ckCredential k = observed_of c d \<and> ckFingerprint k = token_fingerprint H (observed_of c d) \<and>
        (ckPurge k \<longrightarrow> purge_due now c \<and> cQuarantineTokenFingerprint c = token_fingerprint H c))"

lemma backs_append: "backs H now l k \<Longrightarrow> backs H now (l0 @ l @ l') k"
  unfolding backs_def by (metis append.assoc)

lemma backs_checked: "judged (fst ca) out l \<Longrightarrow> backs H now l (checked_of H now ca (fst out) (snd out))"
proof (cases ca)
  case (Pair c purge)
  assume j: "judged (fst ca) out l"
  let ?k = "checked_of H now ca (fst out) (snd out)"
  have k: "ckResult ?k = fst out" "ckCredential ?k = observed_of c (snd out)"
    "ckFingerprint ?k = token_fingerprint H (observed_of c (snd out))"
    "ckPurge ?k \<longrightarrow> purge_due now c \<and> cQuarantineTokenFingerprint c = token_fingerprint H c"
    by (auto simp: checked_of_def Pair Let_def observed_of_def stale_evidence_def)
  show ?thesis
    unfolding backs_def k(1)
  proof (intro impI exI conjI)
    assume "roStatus (fst out) = ''unauthorized''"
    then show "condemned c l (snd out)" "l = [] @ l @ []" "cID c = roCredentialID (fst out)"
      using j by (auto simp: judged_def Pair)
  qed (use k in auto)
qed

lemma logs_candidate:
  "logs (inspect_candidate pr s revn now ca) (\<lambda>k l. list_all asks_token l \<and> backs (prHash pr) now l k)"
  unfolding inspect_candidate_def
proof (rule logs_bind [OF logs_inspect])
  fix io l assume j: "judged (fst ca) io l"
  then have l: "list_all asks_token l"
    by (simp add: judged_def)
  show "logs (rchange (\<lambda>r. r\<lparr> rnProgress := map_option (record_progress (fst io)) (rnProgress r) \<rparr>) \<bind>
         (\<lambda>_. State_Monad.return (checked_of (prHash pr) now ca (fst io) (snd io))))
       (\<lambda>k l'. list_all asks_token (l @ l') \<and> backs (prHash pr) now (l @ l') k)"
    by (rule logs_bind [where P = "\<lambda>_ l. l = []"], rule logs_rchange)
      (use l backs_checked [OF j] in \<open>auto intro: logs_return\<close>)
qed

lemma logs_inspect_all:
  "logs (inspect_all pr s revn now cas)
     (\<lambda>ks l. list_all asks_token l \<and> length ks = length cas \<and> (\<forall>k\<in>set ks. backs (prHash pr) now l k))"
proof (induction cas)
  case Nil
  show ?case
    by (auto intro: logs_return)
next
  case (Cons ca cas)
  show ?case
    unfolding inspect_all.simps
  proof (rule logs_bind [OF logs_candidate])
    fix k l assume k: "list_all asks_token l \<and> backs (prHash pr) now l k"
    show "logs (inspect_all pr s revn now cas \<bind> (\<lambda>ks. State_Monad.return (k # ks)))
       (\<lambda>ks l'. list_all asks_token (l @ l') \<and> length ks = length (ca # cas) \<and>
         (\<forall>k\<in>set ks. backs (prHash pr) now (l @ l') k))"
    proof (rule logs_bind [OF Cons.IH], rule logs_return)
      fix ks l' assume "list_all asks_token l' \<and> length ks = length cas \<and> (\<forall>k\<in>set ks. backs (prHash pr) now l' k)"
      then show "list_all asks_token (l @ l' @ []) \<and> length (k # ks) = length (ca # cas) \<and>
         (\<forall>k\<in>set (k # ks). backs (prHash pr) now (l @ l' @ []) k)"
        using k backs_append [of "prHash pr" now l k "[]"] backs_append [of "prHash pr" now l' _ l "[]"]
        by auto
    qed
  qed
qed

section \<open>The actions of a run\<close>

lemma logs_invalidate: "logs (invalidate_x pr k) (\<lambda>_ l. \<forall>as ans. RvApply as ans \<notin> set l)"
  unfolding invalidate_x_def by (cases "prInvalidate pr") (auto intro: logs_return logs_rcall)

lemma logs_invalidate_each: "logs (invalidate_each pr ks) (\<lambda>_ l. \<forall>as ans. RvApply as ans \<notin> set l)"
proof (induction ks)
  case Nil
  show ?case
    by (auto intro: logs_return)
next
  case (Cons k ks)
  show ?case
    unfolding invalidate_each.simps
    by (rule logs_bind [OF logs_invalidate], rule logs_weaken [OF Cons.IH]) auto
qed

definition applies_only :: "insp_action list \<Rightarrow> insp_event list \<Rightarrow> bool" where
  "applies_only as l \<longleftrightarrow> (\<forall>bs ans. RvApply bs ans \<in> set l \<longrightarrow> bs = as)"

lemma applies_only_append [simp]: "applies_only as (l @ l') \<longleftrightarrow> applies_only as l \<and> applies_only as l'"
  by (auto simp: applies_only_def)

lemma applies_only_nil [simp]: "applies_only as []"
  by (simp add: applies_only_def)

lemma logs_apply: "logs (apply_actions pr as) (\<lambda>_ l. applies_only as l)"
  unfolding apply_actions_def
proof (rule logs_bind [OF logs_invalidate_each], rule logs_bind)
  show "logs (rcall (\<lambda>w. prApply pr w as) (\<lambda>r. [RvApply as r])) (\<lambda>_ l. applies_only as l)"
    by (rule logs_rcall) (simp add: applies_only_def)
  fix l l' :: "insp_event list" and r
  assume l: "\<forall>as ans. RvApply as ans \<notin> set l" "applies_only as l'"
  have "logs (invalidate_each pr (map irID (filter irDeleted rs)) \<bind> (\<lambda>_. State_Monad.return (Inr rs)))
      (\<lambda>_ l2. applies_only as (l @ l' @ l2))" for rs
    by (rule logs_bind [OF logs_invalidate_each], rule logs_return) (use l in \<open>auto simp: applies_only_def\<close>)
  then show "logs (case r of
        Inl e \<Rightarrow> State_Monad.return (Inl e)
      | Inr rs \<Rightarrow> invalidate_each pr (map irID (filter irDeleted rs)) \<bind> (\<lambda>_. State_Monad.return (Inr rs)))
      (\<lambda>_ l2. applies_only as (l @ l' @ l2))"
    by (cases r) (use l in \<open>auto intro!: logs_return simp: applies_only_def\<close>)
qed


definition condemning :: "insp_action \<Rightarrow> bool" where
  "condemning a \<longleftrightarrow> aKind a = KindQuarantine \<or> aKind a = KindPurge"

text \<open>What must precede an action that condemns.\<close>

definition backed :: "(string \<Rightarrow> string) \<Rightarrow> gotime \<Rightarrow> insp_event list \<Rightarrow> insp_action \<Rightarrow> bool" where
  "backed H now l a \<longleftrightarrow> condemning a \<longrightarrow>
     (\<exists>l1 c tr d l2. l = l1 @ tr @ l2 \<and> condemned c tr d \<and> cID c = aID a \<and>
        aExpectedRevision a = cRevision (observed_of c d) \<and>
        (aKind a = KindPurge \<longrightarrow>
           purge_due now c \<and> cQuarantineTokenFingerprint c = token_fingerprint H c \<and>
           aExpectedTokenFingerprint a = token_fingerprint H (observed_of c d)))"

lemma plan_condemns:
  "condemning (pdAction (plan_action pr s now guard k)) \<longleftrightarrow>
     roStatus (ckResult k) = ''unauthorized'' \<and> \<not> guard"
  by (auto simp: plan_action_def condemning_def base_action_def Let_def)

lemma plan_fields:
  "aID (pdAction (plan_action pr s now guard k)) = roCredentialID (ckResult k)"
  "aExpectedRevision (pdAction (plan_action pr s now guard k)) = cRevision (ckCredential k)"
  "aKind (pdAction (plan_action pr s now guard k)) = KindPurge \<Longrightarrow>
     ckPurge k \<and> aExpectedTokenFingerprint (pdAction (plan_action pr s now guard k)) = ckFingerprint k"
  by (auto simp: plan_action_def base_action_def Let_def split: if_splits)

lemma backed_plan: "backs H now l k \<Longrightarrow> backed H now l (pdAction (plan_action pr s now guard k))"
  unfolding backs_def backed_def plan_condemns plan_fields(1,2) using plan_fields(3) by metis

text \<open>The actions a run may apply, given its guard.\<close>

definition guarded :: "inspection_settings \<Rightarrow> insp_action list \<Rightarrow> bool" where
  "guarded s as \<longleftrightarrow> (let n = length (filter condemning as) in
     n = 0 \<or> int n < isMassFailureMinimum s \<or>
     \<not> dyadic_ge (float_div n (length as)) (isMassFailureRatio s))"

lemma count_fold:
  "suUnauthorized (fold count_result rs su) =
     suUnauthorized su + int (length (filter (\<lambda>r. roStatus r = ''unauthorized'') rs))"
  "suInspected (fold count_result rs su) = suInspected su + int (length rs)"
  by (induction rs arbitrary: su) (auto simp: count_result_def Let_def)

lemma guarded_plan:
  assumes "suUnauthorized su = 0" "suInspected su = 0"
    and g: "guard = mass_failure s (fold count_result (map ckResult ks) su)"
  shows "guarded s (map (\<lambda>k. pdAction (plan_action pr s now guard k)) ks)"
proof (cases guard)
  case True
  then have "filter condemning (map (\<lambda>k. pdAction (plan_action pr s now guard k)) ks) = []"
    by (auto simp: filter_empty_conv plan_condemns)
  then show ?thesis
    by (simp add: guarded_def)
next
  case False
  let ?u = "filter (\<lambda>k. roStatus (ckResult k) = ''unauthorized'') ks"
  have n: "length (filter condemning (map (\<lambda>k. pdAction (plan_action pr s now guard k)) ks)) = length ?u"
    using False by (simp add: filter_map comp_def plan_condemns)
  have u: "length (filter (\<lambda>r. roStatus r = ''unauthorized'') (map ckResult ks)) = length ?u"
    by (simp add: filter_map comp_def)
  have "\<not> (isMassFailureMinimum s \<le> int (length ?u) \<and> ks \<noteq> [] \<and>
      dyadic_ge (float_div (length ?u) (length ks)) (isMassFailureRatio s))"
    using False assms unfolding mass_failure_def count_fold u by simp
  then show ?thesis
    unfolding guarded_def n Let_def by (cases ks) auto
qed

text \<open>The log of a whole run.\<close>

definition lawful :: "(string \<Rightarrow> string) \<Rightarrow> insp_event list \<Rightarrow> bool" where
  "lawful H l \<longleftrightarrow> (\<forall>l1 as ans l2. l = l1 @ RvApply as ans # l2 \<longrightarrow>
     (\<exists>s t rest. l1 = RvSettings s # RvClock t # rest \<and> guarded s as \<and>
        (\<forall>a\<in>set as. backed H (trunc_sec t) l1 a)))"


lemma lawful_intro:
  assumes l0: "l0 = RvSettings s # RvClock t # rest" and quiet: "\<And>as ans. RvApply as ans \<notin> set l0"
    and l: "\<And>as ans. RvApply as ans \<in> set l \<Longrightarrow> guarded s as \<and> (\<forall>a\<in>set as. backed H (trunc_sec t) l0 a)"
  shows "lawful H (l0 @ l)"
  unfolding lawful_def
proof (intro allI impI)
  fix l1 as ans l2 assume eq: "l0 @ l = l1 @ RvApply as ans # l2"
  then obtain u where u: "l1 = l0 @ u" "l = u @ RvApply as ans # l2"
    using quiet [of as ans] by (auto simp: append_eq_append_conv2 append_eq_Cons_conv)
  have mono: "backed H (trunc_sec t) l1 a" if "backed H (trunc_sec t) l0 a" for a
    using that unfolding backed_def u(1) by (metis append.assoc)
  then show "\<exists>s t rest. l1 = RvSettings s # RvClock t # rest \<and> guarded s as \<and>
       (\<forall>a\<in>set as. backed H (trunc_sec t) l1 a)"
    using l [of as ans] u l0 by auto
qed

lemma lawful_quiet: "(\<And>as ans. RvApply as ans \<notin> set l) \<Longrightarrow> lawful H l"
  unfolding lawful_def by (metis in_set_conv_decomp)

lemma logs_with_revision:
  assumes "logs m (\<lambda>_ l. P l)" "P []"
  shows "logs (with_settings_revision pr revn m) (\<lambda>_ l. P l)"
  unfolding with_settings_revision_def
proof (rule logs_bind_quiet [where P = "\<lambda>_. True"])
  show "logs (rcall (prRevision pr) (\<lambda>_. [])) (\<lambda>_ l. l = [] \<and> True)"
    by (rule logs_rcall) simp
  have "logs (m \<bind> (\<lambda>r. State_Monad.return (True, r))) (\<lambda>_ l. P l)"
    by (rule logs_bind [OF assms(1)]) (simp add: logs_return)
  then show "logs (if n \<noteq> revn then State_Monad.return (False, Inr [])
      else m \<bind> (\<lambda>r. State_Monad.return (True, r))) (\<lambda>_ l. P l)" for n
    using assms(2) by (simp add: logs_return)
qed

lemma logs_run_checked:
  assumes "suUnauthorized su0 = 0" "suInspected su0 = 0" and ks: "\<forall>k\<in>set ks. backs H now l0 k"
  shows "logs (run_checked pr s revn now su0 ks) (\<lambda>_ l. \<forall>as ans. RvApply as ans \<in> set l \<longrightarrow>
     guarded s as \<and> (\<forall>a\<in>set as. backed H now l0 a))"
proof -
  let ?guard = "mass_failure s (fold count_result (map ckResult ks) su0)"
  let ?as = "map pdAction (map (plan_action pr s now ?guard) ks)"
  have "guarded s ?as"
    using guarded_plan [OF assms(1,2) refl, of s pr now ks] by (simp add: comp_def)
  moreover have "\<forall>a\<in>set ?as. backed H now l0 a"
    using ks by (auto intro!: backed_plan)
  ultimately
  have as: "applies_only ?as l \<Longrightarrow> \<forall>as ans. RvApply as ans \<in> set l \<longrightarrow>
       guarded s as \<and> (\<forall>a\<in>set as. backed H now l0 a)" for l
    unfolding applies_only_def by metis
  have "logs (run_checked pr s revn now su0 ks) (\<lambda>_ l. applies_only ?as l)"
    unfolding run_checked_def Let_def
  proof (rule logs_bind [OF logs_with_revision [OF logs_apply]])
    fix ar and l :: "insp_event list" assume l: "applies_only ?as l"
    have "logs (rcall (prNow pr) (\<lambda>t. [RvClock t]) \<bind> (\<lambda>fin. State_Monad.return (f fin)))
        (\<lambda>_ l'. applies_only ?as (l @ l'))" for f :: "gotime \<Rightarrow> summary"
      by (rule logs_bind [where P = "\<lambda>_ l. applies_only ?as l"], rule logs_rcall)
        (use l in \<open>auto intro!: logs_return simp: applies_only_def\<close>)
    then show "logs (case resolve_all ar 0 (map (plan_action pr s now ?guard) ks)
          ((fold count_result (map ckResult ks) su0)\<lparr> suMassFailureGuard := ?guard \<rparr>) Map.empty of
          (m, su2) \<Rightarrow> rcall (prNow pr) (\<lambda>t. [RvClock t]) \<bind> (\<lambda>fin.
            State_Monad.return ((conclude s ks m su2)\<lparr> suFinishedAt := trunc_sec fin \<rparr>)))
        (\<lambda>_ l'. applies_only ?as (l @ l'))"
      by (simp split: prod.split)
  qed simp
  then show ?thesis
    by (rule logs_weaken) (rule as)
qed


lemma asks_no_apply: "list_all asks_token l \<Longrightarrow> RvApply as ans \<notin> set l"
  by (auto simp: list_all_iff)

lemma logs_run_body: "logs (run_body pr) (\<lambda>_ l. lawful (prHash pr) l)"
  unfolding run_body_def Let_def
proof (rule logs_bind_quiet [where P = "\<lambda>_. True"])
  show "logs (rcall (prRevision pr) (\<lambda>_. [])) (\<lambda>_ l. l = [] \<and> True)"
    by (rule logs_rcall) simp
  fix revn
  let ?tail = "\<lambda>s t cs. case cs of
        Inl e \<Rightarrow> State_Monad.return (Inl e)
      | Inr all \<Rightarrow> do {
          rchange (\<lambda>r. r\<lparr> rnProgress := Some \<lparr> pgStartedAt = trunc_sec t,
            pgEligible = int (length (eligible_candidates s (trunc_sec t) all)),
            pgScheduled = int (length (scheduled s (trunc_sec t) all)),
            pgCompleted = 0, pgSkipped = int (length all) - int (length (scheduled s (trunc_sec t) all)),
            pgHealthy = 0, pgUnauthorized = 0, pgRateLimited = 0, pgErrors = 0 \<rparr> \<rparr>);
          r0 \<leftarrow> State_Monad.get;
          ks \<leftarrow> inspect_all pr s revn (trunc_sec t) (finishing pr (rnWorld r0) (scheduled s (trunc_sec t) all));
          su \<leftarrow> run_checked pr s revn (trunc_sec t) (no_summary\<lparr> suStartedAt := trunc_sec t,
            suSkipped := int (length all) - int (length (scheduled s (trunc_sec t) all)) \<rparr>) ks;
          rchange (\<lambda>r. r\<lparr> rnLast := Some su \<rparr>);
          State_Monad.return (Inr su) }"
  have tail: "logs (?tail s t cs) (\<lambda>_ l. lawful (prHash pr) ([RvSettings s, RvClock t, RvList cs] @ l))"
    for s t cs
  proof (cases cs)
    case (Inl e)
    then show ?thesis
      by (auto intro!: logs_return lawful_quiet)
  next
    case (Inr all)
    let ?head = "[RvSettings s, RvClock t, RvList cs]"
    have run: "logs (run_checked pr s revn (trunc_sec t) (no_summary\<lparr> suStartedAt := trunc_sec t, suSkipped := n \<rparr>) ks
        \<bind> (\<lambda>su. rchange (\<lambda>r. r\<lparr> rnLast := Some su \<rparr>) \<bind> (\<lambda>_. State_Monad.return (Inr su))))
        (\<lambda>_ l'. lawful (prHash pr) (?head @ l @ l'))"
      if ks: "list_all asks_token l \<and> length ks = m \<and> (\<forall>k\<in>set ks. backs (prHash pr) (trunc_sec t) l k)"
      for n ks l m
    proof (rule logs_bind [OF logs_run_checked])
      show "\<forall>k\<in>set ks. backs (prHash pr) (trunc_sec t) (?head @ l) k"
        using ks backs_append [of "prHash pr" "trunc_sec t" l _ ?head "[]"] by simp
      fix su l' assume l': "\<forall>as ans. RvApply as ans \<in> set l' \<longrightarrow>
          guarded s as \<and> (\<forall>a\<in>set as. backed (prHash pr) (trunc_sec t) (?head @ l) a)"
      have "lawful (prHash pr) ((?head @ l) @ l')"
        by (rule lawful_intro [of _ s t "RvList cs # l"]) (use ks l' asks_no_apply in auto)
      then show "logs (rchange (\<lambda>r. r\<lparr> rnLast := Some su \<rparr>) \<bind> (\<lambda>_. State_Monad.return (Inr su)))
          (\<lambda>_ l2. lawful (prHash pr) (?head @ l @ l' @ l2))"
        by (intro logs_bind [where P = "\<lambda>_ l. l = []"] logs_rchange logs_return) auto
    qed (simp_all add: no_summary_def)
    show ?thesis
      unfolding Inr sum.case
      by (rule logs_bind_quiet [where P = "\<lambda>_. True"], rule logs_rchange, simp, simp,
          rule logs_bind_quiet [where P = "\<lambda>_. True"], rule logs_get, simp,
          rule logs_bind [OF logs_inspect_all], rule run [unfolded Inr])
  qed
  show "logs (rcall (prSettings pr) (\<lambda>s. [RvSettings s]) \<bind> (\<lambda>s. rcall (prNow pr) (\<lambda>t. [RvClock t]) \<bind>
      (\<lambda>t. rcall (prList pr) (\<lambda>cs. [RvList cs]) \<bind> ?tail s t))) (\<lambda>_ l. lawful (prHash pr) l)"
  proof (rule logs_bind [where P = "\<lambda>s l. l = [RvSettings s]"], rule logs_rcall)
    fix s l assume "l = [RvSettings s]"
    then show "logs (rcall (prNow pr) (\<lambda>t. [RvClock t]) \<bind>
      (\<lambda>t. rcall (prList pr) (\<lambda>cs. [RvList cs]) \<bind> ?tail s t)) (\<lambda>_ l'. lawful (prHash pr) (l @ l'))"
      by (intro logs_bind [where P = "\<lambda>t l. l = [RvClock t]"] logs_rcall refl
          logs_bind [where P = "\<lambda>cs l. l = [RvList cs]"] logs_weaken [OF tail]) simp
  qed simp
qed


lemma logs_run_once: "logs (run_once pr) (\<lambda>_ l. lawful (prHash pr) l)"
  unfolding run_once_def
proof (rule logs_bind_quiet [where P = "\<lambda>_. True"], rule logs_get, simp)
  have "logs (run_body pr \<bind> (\<lambda>out. rchange f \<bind> (\<lambda>_. State_Monad.return out))) (\<lambda>_ l. lawful (prHash pr) l)"
    if "\<And>r. rnLog (f r) = rnLog r" for f
    by (rule logs_bind [OF logs_run_body]) (use that in \<open>auto intro!: logs_bind_quiet [where P = "\<lambda>_. True"] logs_rchange logs_return\<close>)
  then show "logs (if rnRunning r0 then State_Monad.return (Inl (ErrText ''inspection: run already in progress''))
     else do {
       rchange (\<lambda>r. r\<lparr> rnRunning := True, rnProgress := None \<rparr>);
       out \<leftarrow> run_body pr;
       rchange (\<lambda>r. r\<lparr> rnRunning := False, rnProgress := None \<rparr>);
       State_Monad.return out }) (\<lambda>_ l. lawful (prHash pr) l)" for r0
    by (cases "rnRunning r0")
      (simp_all add: logs_return lawful_quiet logs_bind_quiet [where P = "\<lambda>_. True", OF logs_rchange])
qed


section \<open>A run that condemns\<close>

text \<open>A prober whose world is the script of its answers, and a store that applies every action.\<close>

definition sample_inspection :: inspection_settings where
  "sample_inspection = \<lparr> isEnabled = True, isIntervalSec = 1800, isTimeoutSec = 45, isConcurrency = 1,
     isConfirmUnauthorized = 2, isPurgeAfterSec = 3600, isMassFailureMinimum = 3, isMassFailureRatio = (1, 1),
     isInitialDelaySec = 60, isInspectQuarantined = True, isSkipRecentSuccessSec = 0,
     isMaxCredentialsPerRun = 100, isMaxPersistedRunResults = 200 \<rparr>"

definition refused_for_good :: goerr where
  "refused_for_good = AuthHTTPError ''token'' 400 ''invalid_grant''"

definition done_action :: "insp_action \<Rightarrow> insp_result" where
  "done_action a = \<lparr> irID = aID a, irKind = aKind a, irApplied = True, irDeleted = (aKind a = KindPurge),
     irReactivated = False, irQuarantined = (aKind a = KindQuarantine), irAttemptRecorded = False \<rparr>"

definition scripted :: "credential list \<Rightarrow> int list probing" where
  "scripted cs = \<lparr> prList = (\<lambda>w. (w, Inr cs)), prApply = (\<lambda>w as. (w, Inr (map done_action as))),
     prProbe = (\<lambda>w c. (tl w, hd w, c, None)), prRefresh = (\<lambda>w c. (w, no_tokens, c, Some refused_for_good)),
     prInvalidate = None, prRevision = (\<lambda>w. (w, 0)), prSettings = (\<lambda>w. (w, sample_inspection)),
     prNow = (\<lambda>w. (w, 7000000000)), prOrder = (\<lambda>w n. [0..<n]), prHash = (\<lambda>x. x),
     prRateLimitCooldown = 0, prQuotaCooldown = 0 \<rparr>"

definition idle :: "'w \<Rightarrow> 'w runner" where
  "idle w = \<lparr> rnWorld = w, rnRunning = False, rnLast = None, rnProgress = None, rnLog = [] \<rparr>"

definition lost_cred :: credential where
  "lost_cred = zero_credential\<lparr> cID := ''c1'', cRevision := 4, cEnabled := True, cLifecycleState := st_active \<rparr>"

definition lost_action :: insp_action where
  "lost_action = \<lparr> aID = ''c1'', aExpectedRevision = 4, aKind = KindQuarantine, aAt = 7000000000, aStatus = [],
     aMessage = [], aPurgeAfter = Some 3607000000000, aCooldownUntil = None, aExpectedPurgeAfter = None,
     aExpectedTokenFingerprint = [], aResetQuarantineEvidence = False \<rparr>"

definition lost_calls :: "insp_event list" where
  "lost_calls = [RvSettings sample_inspection, RvClock 7000000000, RvList (Inr [lost_cred]),
      RvProbe lost_cred (401, lost_cred, None), RvRefresh lost_cred (no_tokens, lost_cred, Some refused_for_good),
      RvProbe lost_cred (401, lost_cred, None)]"

lemma lost_run:
  "rnLog (snd (run_state (run_once (scripted [lost_cred])) (idle [401, 401]))) =
     rnLog (idle [401, 401]) @ lost_calls @ RvApply [lost_action] (Inr [done_action lost_action]) # [RvClock 7000000000]"
  by code_simp


lemma run_lawful:
  assumes "rnLog (snd (run_state (run_once pr) r)) = rnLog r @ l1 @ RvApply as ans # l2"
  shows "\<exists>s t rest. l1 = RvSettings s # RvClock t # rest \<and> guarded s as \<and>
     (\<forall>a\<in>set as. backed (prHash pr) (trunc_sec t) l1 a)"
proof -
  obtain out r' where r': "run_state (run_once pr) r = (out, r')"
    by (cases "run_state (run_once pr) r")
  obtain l where l: "rnLog r' = rnLog r @ l" "lawful (prHash pr) l"
    using logs_run_once [of pr] r' unfolding logs_def by blast
  have "l = l1 @ RvApply as ans # l2"
    using assms l(1) r' by simp
  with l(2) show ?thesis
    unfolding lawful_def by blast
qed

text \<open>
  C6: A credential is condemned only on confirmed evidence.  When a run sends the store an action that
  quarantines or purges, the calls before it hold, in a row, a probe of a credential with that identifier
  that answered 401, a refresh of what that probe observed that failed for good, and at least one more 401
  for what the refresh observed; the action names the revision of the last observation, and for a purge
  also its token fingerprint, the retention being over and the stored evidence naming the current tokens.
\<close>

theorem run_condemns_only_confirmed:
  assumes "rnLog (snd (run_state (run_once pr) r)) = rnLog r @ l1 @ RvApply as ans # l2"
    and "a \<in> set as" and "condemning a"
  shows "\<exists>s t rest p c tr d q. l1 = RvSettings s # RvClock t # rest \<and> l1 = p @ tr @ q \<and>
     condemned c tr d \<and> cID c = aID a \<and> aExpectedRevision a = cRevision (observed_of c d) \<and>
     (aKind a = KindPurge \<longrightarrow> purge_due (trunc_sec t) c \<and>
        cQuarantineTokenFingerprint c = token_fingerprint (prHash pr) c \<and>
        aExpectedTokenFingerprint a = token_fingerprint (prHash pr) (observed_of c d))"
proof -
  obtain s t rest where l1: "l1 = RvSettings s # RvClock t # rest" "backed (prHash pr) (trunc_sec t) l1 a"
    using run_lawful [OF assms(1)] assms(2) by blast
  show ?thesis
    using l1(2) assms(3) l1(1) unfolding backed_def by metis
qed

theorem run_condemns_only_confirmed_witness:
  "\<exists>s t rest p c tr d q. lost_calls = RvSettings s # RvClock t # rest \<and> lost_calls = p @ tr @ q \<and>
     condemned c tr d \<and> cID c = ''c1'' \<and> cRevision (observed_of c d) = 4"
proof -
  have a: "lost_action \<in> set [lost_action]" "condemning lost_action" "aID lost_action = ''c1''"
    "aExpectedRevision lost_action = 4"
    by (simp_all add: condemning_def lost_action_def)
  show ?thesis
    using run_condemns_only_confirmed [OF lost_run a(1,2)] unfolding a(3,4) by metis
qed

text \<open>
  C31: The guard against mass failures holds.  Among the actions a run sends the store, those that
  quarantine or purge are none, or fewer than the configured minimum, or their share of the inspected
  credentials, computed in float64, is below the configured ratio.
\<close>

theorem mass_failure_guard_holds:
  assumes "rnLog (snd (run_state (run_once pr) r)) = rnLog r @ l1 @ RvApply as ans # l2"
  shows "\<exists>s rest. l1 = RvSettings s # rest \<and>
     (filter condemning as = [] \<or> int (length (filter condemning as)) < isMassFailureMinimum s \<or>
      \<not> dyadic_ge (float_div (length (filter condemning as)) (length as)) (isMassFailureRatio s))"
  using run_lawful [OF assms] unfolding guarded_def Let_def by auto

theorem mass_failure_guard_holds_witness:
  "\<exists>s rest. lost_calls = RvSettings s # rest \<and>
     (filter condemning [lost_action] = [] \<or> int (length (filter condemning [lost_action])) < isMassFailureMinimum s \<or>
      \<not> dyadic_ge (float_div (length (filter condemning [lost_action])) (length [lost_action])) (isMassFailureRatio s))"
  by (rule mass_failure_guard_holds [OF lost_run])

section \<open>The schedule\<close>

lemma candidate_before_asym: "candidate_before a b \<Longrightarrow> \<not> candidate_before b a"
  using str_less_asym by (auto simp: candidate_before_def split: if_splits option.splits)

lemma candidate_before_neg_trans:
  "\<not> candidate_before b a \<Longrightarrow> \<not> candidate_before c b \<Longrightarrow> \<not> candidate_before c a"
  by (cases "cLastInspectionAt (fst a)"; cases "cLastInspectionAt (fst b)"; cases "cLastInspectionAt (fst c)")
    (auto simp: candidate_before_def not_less split: if_splits dest: str_less_neg_trans)

text \<open>
  Nobody is passed over.  A run takes only credentials it may inspect or whose purge is due, at most
  the configured number; it leaves one out only when it is full, and then every credential it takes comes
  no later in the order of due purges, oldest inspection and identifier.
\<close>

theorem longest_waiting_first:
  assumes "ca \<in> set (eligible_candidates s now cs)" and "ca \<notin> set (scheduled s now cs)"
  shows "length (scheduled s now cs) = run_limit s \<and>
     set (scheduled s now cs) \<subseteq> set (eligible_candidates s now cs) \<and>
     (\<forall>b. b \<in> set (scheduled s now cs) \<longrightarrow> \<not> candidate_before ca b)"
proof -
  let ?xs = "sort_stable candidate_before (eligible_candidates s now cs)"
  let ?n = "run_limit s"
  have sorted: "sorted_wrt (\<lambda>a b. \<not> candidate_before b a) (take ?n ?xs @ drop ?n ?xs)"
    using sort_stable_sorted [OF candidate_before_neg_trans candidate_before_asym] by simp
  have "set (take ?n ?xs) \<union> set (drop ?n ?xs) = set (eligible_candidates s now cs)"
    by (metis append_take_drop_id set_append set_sort_stable)
  then have out: "ca \<in> set (drop ?n ?xs)" "set (scheduled s now cs) \<subseteq> set (eligible_candidates s now cs)"
    using assms unfolding scheduled_def by auto
  then have "?n < length ?xs"
    by (metis drop_all empty_iff empty_set not_le)
  then show ?thesis
    using out sorted unfolding sorted_wrt_append scheduled_def by auto
qed

theorem longest_waiting_first_witness:
  "length (scheduled (sample_inspection\<lparr> isMaxCredentialsPerRun := 1 \<rparr>) 0
     [lost_cred\<lparr> cLastInspectionAt := Some 5 \<rparr>, lost_cred\<lparr> cID := ''c2'' \<rparr>]) = 1"
proof -
  let ?s = "sample_inspection\<lparr> isMaxCredentialsPerRun := 1 \<rparr>"
  let ?cs = "[lost_cred\<lparr> cLastInspectionAt := Some 5 \<rparr>, lost_cred\<lparr> cID := ''c2'' \<rparr>]"
  have "(lost_cred\<lparr> cLastInspectionAt := Some 5 \<rparr>, False) \<in> set (eligible_candidates ?s 0 ?cs)"
    "(lost_cred\<lparr> cLastInspectionAt := Some 5 \<rparr>, False) \<notin> set (scheduled ?s 0 ?cs)" "run_limit ?s = 1"
    by code_simp+
  then show ?thesis
    using longest_waiting_first by metis
qed


section \<open>The summary\<close>

text \<open>
  A confirming probe loses the quota.  A 402 on the first probe holds the credential back until a
  cooldown ends; the same answer on a probe after the refresh is an ordinary HTTP error with no cooldown,
  whatever the configured quota cooldown, so the credential stays available.
\<close>

theorem confirming_probe_loses_quota:
  "(\<exists>r t. first_verdict k 402 None = Some r \<and> roStatus r = ''quota_exhausted'' \<and>
     (\<forall>c. aCooldownUntil (pdAction (plan_action pr s now g (checked_of H now c r d))) = Some t)) \<and>
   (\<exists>r. confirm_verdict k 402 None = Some r \<and> roStatus r = ''http_error'' \<and>
     (\<forall>c. aCooldownUntil (pdAction (plan_action pr s now g (checked_of H now c r d))) = None))"
  by (simp add: first_verdict_def confirm_verdict_def invalidated_def plan_action_def Let_def status_label_def
      finding_def base_action_def checked_of_def split: prod.split)

lemma count_healthy: "suHealthy (fold count_result rs su) =
     suHealthy su + int (length (filter (\<lambda>r. roStatus r = ''healthy'') rs))"
  by (induction rs arbitrary: su) (auto simp: count_result_def Let_def)

definition counted :: "summary \<Rightarrow> int" where
  "counted su = suHealthy su + suUnauthorized su + suRateLimited su + suErrors su + suSkipped su"

lemma count_total: "counted (fold count_result rs su) = counted su + int (length rs)"
  by (induction rs arbitrary: su) (auto simp: count_result_def Let_def counted_def)

text \<open>What the resolved actions add.\<close>

definition grown :: "summary \<Rightarrow> summary \<Rightarrow> pending list \<Rightarrow> bool" where
  "grown su su' ps \<longleftrightarrow>
     suReactivated su' \<le> suReactivated su + int (length (filter (\<lambda>p. aKind (pdAction p) = KindHealthy) ps)) \<and>
     suQuarantined su' + suPurged su' \<le>
       suQuarantined su + suPurged su + int (length (filter (\<lambda>p. condemning (pdAction p)) ps)) \<and>
     suHealthy su' = suHealthy su \<and> suUnauthorized su' = suUnauthorized su \<and>
     suInspected su' = suInspected su \<and> suMassFailureGuard su' = suMassFailureGuard su \<and>
     counted su \<le> counted su' \<and> counted su' \<le> counted su + int (length ps)"

lemma grown_one: "resolve_one ar k p su = (r, su') \<Longrightarrow> grown su su' [p]"
  by (auto simp: grown_def counted_def resolve_one_def applied_result_def condemning_def
      split: sum.splits if_splits insp_kind.splits)

lemma grown_trans: "grown su su1 [p] \<Longrightarrow> grown su1 su2 ps \<Longrightarrow> grown su su2 (p # ps)"
  by (auto simp: grown_def split: if_splits)

lemma grown_all: "resolve_all ar k ps su m = (m', su') \<Longrightarrow> grown su su' ps"
proof (induction ps arbitrary: k su m)
  case (Cons p ps)
  obtain r su1 where one: "resolve_one ar k p su = (r, su1)"
    by (cases "resolve_one ar k p su")
  show ?case
    using Cons.prems one by (auto intro: grown_trans [OF grown_one [OF one]] Cons.IH)
qed (simp add: grown_def)

lemma plan_healthy:
  "aKind (pdAction (plan_action pr s now guard k)) = KindHealthy \<longleftrightarrow> roStatus (ckResult k) = ''healthy''"
  by (auto simp: plan_action_def base_action_def Let_def)

lemma run_checked_resolves:
  assumes "run_state (run_checked pr s revn now su0 ks) r = (su, r')"
  obtains ar m su2 t where "resolve_all ar 0 (map (plan_action pr s now (mass_failure s (fold count_result (map ckResult ks) su0))) ks)
      ((fold count_result (map ckResult ks) su0)\<lparr> suMassFailureGuard :=
         mass_failure s (fold count_result (map ckResult ks) su0) \<rparr>) Map.empty = (m, su2)"
    "su = (conclude s ks m su2)\<lparr> suFinishedAt := t \<rparr>"
  using assms unfolding run_checked_def Let_def
  by (auto simp: rcall_def Let_def split: prod.splits)

lemma count_untouched:
  "suReactivated (fold count_result rs su) = suReactivated su"
  "suQuarantined (fold count_result rs su) = suQuarantined su" "suPurged (fold count_result rs su) = suPurged su"
  by (induction rs arbitrary: su) (auto simp: count_result_def Let_def)

lemma length_by_status: "length (filter (\<lambda>r. roStatus r = st) (map ckResult ks)) =
    length (filter (\<lambda>k. roStatus (ckResult k) = st) ks)"
  by (simp add: filter_map comp_def)

lemma counted_simps [simp]:
  "counted (su\<lparr> suMassFailureGuard := g \<rparr>) = counted su" "counted (su\<lparr> suFinishedAt := t \<rparr>) = counted su"
  "counted (conclude s ks m su) = counted su"
  by (simp_all add: counted_def conclude_def Let_def)

lemma conclude_simps [simp]:
  "suInspected (conclude s ks m su) = suInspected su" "suQuarantined (conclude s ks m su) = suQuarantined su"
  "suPurged (conclude s ks m su) = suPurged su" "suUnauthorized (conclude s ks m su) = suUnauthorized su"
  "suReactivated (conclude s ks m su) = suReactivated su" "suHealthy (conclude s ks m su) = suHealthy su"
  "suMassFailureGuard (conclude s ks m su) = suMassFailureGuard su"
  by (simp_all add: conclude_def Let_def)



end
