(* ===== verification/Executor_Monitor.thy ===== *)
theory Executor_Monitor
  imports Executor
begin

text \<open>
  What a request may do with its collaborators, as an executable monitor of the log, and a small
  calculus of triples for the executor's state monad.  The executor's interface is the locale
  \<open>collaborators\<close>: the answers of store, selector and upstream it relies on, and an invariant of the
  world that every call keeps, whatever other requests do meanwhile.
\<close>

section \<open>The monitor\<close>

record 'c monitor =
  mLeft :: nat
  mHeld :: "string option"
  mBody :: "string option"
  mFinal :: bool
  mPosts :: nat
  mAnswer :: "response option"
  mGet :: "credential option"
  mTokens :: "token_set option"
  mInvalid :: bool
  mRoute :: "u64 option"
  mResolved :: "(credential \<times> 'c) option"
  mResolvedRoute :: "u64 option"
  mMoved :: bool
  mSubject :: "(string \<times> bool) option"

definition monitor_init :: "nat \<Rightarrow> 'c monitor" where
  "monitor_init n = \<lparr> mLeft = n, mHeld = None, mBody = None, mFinal = False, mPosts = 0, mAnswer = None, mGet = None,
     mTokens = None, mInvalid = False, mRoute = None, mResolved = None, mResolvedRoute = None,
     mMoved = False, mSubject = None \<rparr>"

text \<open>An inspection or a billing query selects nothing: it is about a given credential, which must be
  usable for an inspection if the flag is set.\<close>

definition subject_init :: "string \<Rightarrow> bool \<Rightarrow> 'c monitor" where
  "subject_init cid strict = (monitor_init 0)\<lparr> mSubject := Some (cid, strict) \<rparr>"

definition attends :: "'c monitor \<Rightarrow> string \<Rightarrow> bool" where
  "attends m cid \<longleftrightarrow> mHeld m = Some cid \<or> map_option fst (mSubject m) = Some cid"

lemma attends_held [simp]: "mHeld m = Some cid \<Longrightarrow> attends m cid"
  by (simp add: attends_def)

definition delivered :: "goerr + response \<Rightarrow> bool" where
  "delivered r = (case r of Inl _ \<Rightarrow> False | Inr s \<Rightarrow> is_success_status (rsStatus s) \<or> rsStatus s = 426)"

definition answer :: "goerr + response \<Rightarrow> response option" where
  "answer r = (case r of Inl _ \<Rightarrow> None | Inr s \<Rightarrow> Some (s\<lparr> rsHeld := None \<rparr>))"

text \<open>A request may be sent only with the access token of the credential as it was last read, which
  must be the selected one, enabled, at the revision for which the client was resolved, holding the
  tokens that were ensured, and with no change of the route since before the resolution.\<close>

definition may_post :: "'c monitor \<Rightarrow> 'c \<Rightarrow> post_options \<Rightarrow> bool" where
  "may_post m client opts \<longleftrightarrow> \<not> mFinal m \<and> mPosts m < 2 \<and> \<not> mInvalid m \<and> \<not> mMoved m \<and>
     (case (mResolved m, mGet m) of
        (Some (cr, cl), Some c) \<Rightarrow>
          cl = client \<and> mHeld m = Some (cID c) \<and> live c \<and> cRevision c = cRevision cr \<and>
          poAccessToken opts = cAccessToken c \<and>
          (case mTokens m of None \<Rightarrow> True | Some t \<Rightarrow> token_matches_credential t c)
      | _ \<Rightarrow> False)"

text \<open>The same for the queries of discovery, inspection and billing.\<close>

definition fits :: "'c monitor \<Rightarrow> credential \<Rightarrow> bool" where
  "fits m c \<longleftrightarrow> (mHeld m = Some (cID c) \<and> live c) \<or>
     (case mSubject m of None \<Rightarrow> False
      | Some (cid, strict) \<Rightarrow> cid = cID c \<and> (strict \<longrightarrow> inspection_credential_usable c))"

definition may_ask :: "'c monitor \<Rightarrow> 'c \<Rightarrow> string \<Rightarrow> bool" where
  "may_ask m client token \<longleftrightarrow> \<not> mInvalid m \<and> \<not> mMoved m \<and>
     (case (mResolved m, mGet m) of
        (Some (cr, cl), Some c) \<Rightarrow>
          cl = client \<and> fits m c \<and> cRevision c = cRevision cr \<and> token = cAccessToken c \<and>
          (case mTokens m of None \<Rightarrow> True | Some t \<Rightarrow> token_matches_credential t c)
      | _ \<Rightarrow> False)"

definition close_selection :: "'c monitor \<Rightarrow> string \<Rightarrow> 'c monitor option" where
  "close_selection m cid = (if mHeld m = Some cid then Some (m\<lparr> mHeld := None \<rparr>) else None)"

text \<open>No selection is open; a selector does not count the empty identifier.\<close>

definition free :: "'c monitor \<Rightarrow> bool" where
  "free m \<longleftrightarrow> mHeld m = None \<or> mHeld m = Some []"

lemma free_simps [simp]:
  "mHeld q = None \<Longrightarrow> free q" "mHeld q = Some [] \<Longrightarrow> free q"
  by (simp_all add: free_def)

fun monitor_step :: "'c monitor \<Rightarrow> 'c event \<Rightarrow> 'c monitor option" where
  "monitor_step m (EvPick r) =
     (if free m \<and> \<not> mFinal m \<and> mLeft m > 0
      then Some (m\<lparr> mLeft := mLeft m - 1, mHeld := (case r of Inl _ \<Rightarrow> None | Inr c \<Rightarrow> Some (cID c)),
             mPosts := 0, mGet := None, mTokens := None, mInvalid := False, mResolved := None \<rparr>)
      else None)"
| "monitor_step m (EvGet cid r) =
     (if attends m cid then Some (m\<lparr> mGet := (case r of Inl _ \<Rightarrow> None | Inr c \<Rightarrow> Some c) \<rparr>) else None)"
| "monitor_step m (EvTokens cid r) =
     (if attends m cid \<and> \<not> mFinal m \<and> \<not> mInvalid m
      then Some (m\<lparr> mTokens := (if snd r = None then Some (fst r) else None),
             mInvalid := (case snd r of None \<Rightarrow> False | Some e \<Rightarrow> is_invalidated e) \<rparr>) else None)"
| "monitor_step m (EvRoute n) =
     Some (m\<lparr> mRoute := Some n, mMoved := mMoved m \<or> mResolved m \<noteq> None \<and> mResolvedRoute m \<noteq> Some n \<rparr>)"
| "monitor_step m (EvResolve c r) =
     (if mGet m = Some c
      then Some (m\<lparr> mResolved := (case r of Inl _ \<Rightarrow> None | Inr cl \<Rightarrow> Some (c, cl)),
             mResolvedRoute := mRoute m, mMoved := False \<rparr>) else None)"
| "monitor_step m (EvPost cl compact opts r) =
     (if may_post m cl opts
      then Some (m\<lparr> mPosts := Suc (mPosts m), mFinal := delivered r, mAnswer := answer r \<rparr>) else None)"
| "monitor_step m (EvModels cl tok r) =
     (if \<not> mFinal m \<and> may_ask m cl tok
      then Some (m\<lparr> mFinal := (case r of Inl _ \<Rightarrow> False | Inr _ \<Rightarrow> True) \<rparr>) else None)"
| "monitor_step m (EvCredits cl tok r) = (if may_ask m cl tok then Some m else None)"
| "monitor_step m (EvSnapshot cl tok r) = (if may_ask m cl tok then Some m else None)"
| "monitor_step m (EvPatch cid r) = Some m"
| "monitor_step m (EvRelease cid) = close_selection m cid"
| "monitor_step m (EvSuccess cid) = (if mFinal m then close_selection m cid else None)"
| "monitor_step m (EvHold cid) =
     (if mFinal m then map_option (\<lambda>m. m\<lparr> mBody := Some cid \<rparr>) (close_selection m cid) else None)"
| "monitor_step m (EvFailure cid status) =
     (if mInvalid m \<or> mFinal m then None else close_selection m cid)"
| "monitor_step m (EvQuota cid until) = (if mInvalid m then None else close_selection m cid)"

fun monitor_run :: "'c monitor \<Rightarrow> 'c event list \<Rightarrow> 'c monitor option" where
  "monitor_run m [] = Some m"
| "monitor_run m (e # es) = (case monitor_step m e of None \<Rightarrow> None | Some m' \<Rightarrow> monitor_run m' es)"

lemma monitor_run_append:
  "monitor_run m (xs @ ys) = (case monitor_run m xs of None \<Rightarrow> None | Some q \<Rightarrow> monitor_run q ys)"
  by (induction m xs rule: monitor_run.induct) (auto split: option.splits)

section \<open>The interface\<close>

text \<open>An invariant relates the world to the calls logged so far; the second argument of \<open>keeps\<close> says
  what a call logs.\<close>

type_synonym ('w, 'c) invariant = "'w \<Rightarrow> 'c event list \<Rightarrow> bool"

definition keeps :: "('w, 'c) invariant \<Rightarrow> ('w \<Rightarrow> 'w \<times> 'a) \<Rightarrow> ('a \<Rightarrow> 'c event list) \<Rightarrow> bool" where
  "keeps ok f ev \<longleftrightarrow> (\<forall>w l. ok w l \<longrightarrow> (case f w of (w', a) \<Rightarrow> ok w' (l @ ev a)))"

abbreviation quiet :: "'a \<Rightarrow> 'c event list" where
  "quiet \<equiv> \<lambda>_. []"

lemma keepsD: "keeps ok f ev \<Longrightarrow> ok w l \<Longrightarrow> f w = (w', a) \<Longrightarrow> ok w' (l @ ev a)"
  unfolding keeps_def by (metis case_prodD)

lemma keepsI: "(\<And>w l w' a. ok w l \<Longrightarrow> f w = (w', a) \<Longrightarrow> ok w' (l @ ev a)) \<Longrightarrow> keeps ok f ev"
  by (auto simp: keeps_def)

locale collaborators =
  fixes ok :: "('w, 'c) invariant" and ops :: "('w, 'c) ops"
  assumes get_names: "ok w l \<Longrightarrow> opGet ops w cid = (w', Inr c) \<Longrightarrow> cID c = cid"
    and releases: "opRelease ops \<noteq> None"
    and post_unheld: "ok w l \<Longrightarrow> opPost ops w cl compact body opts = (w', Inr r) \<Longrightarrow> rsHeld r = None"
    and quota_marks: "opQuota ops \<noteq> None"
    and keep_now: "keeps ok (opNow ops) quiet" and keep_ctx: "keeps ok (opCtxErr ops) quiet"
    and keep_candidates: "keeps ok (opCandidates ops) quiet"
    and keep_get: "keeps ok (\<lambda>w. opGet ops w cid) (\<lambda>r. [EvGet cid r])"
    and keep_load: "keeps ok (\<lambda>w. opGet ops w cid) quiet"
    and keep_patch: "keeps ok (\<lambda>w. opPatch ops w cid f) (\<lambda>r. [EvPatch cid r])"
    and keep_persist: "keeps ok (\<lambda>w. opPatch ops w cid f) quiet"
    and keep_list: "keeps ok (opList ops) quiet"
    and keep_pick: "keeps ok (\<lambda>w. opPick ops w cs conv now) (\<lambda>r. [EvPick r])"
    and keep_success: "keeps ok (\<lambda>w. (opMarkSuccess ops w cid conv now, ())) (\<lambda>_. [EvSuccess cid])"
    and keep_failure: "keeps ok (\<lambda>w. (opMarkFailure ops w cid status ra now, ())) (\<lambda>_. [EvFailure cid status])"
    and keep_release: "opRelease ops = Some rel \<Longrightarrow> keeps ok (\<lambda>w. (rel w cid, ())) (\<lambda>_. [EvRelease cid])"
    and keep_quota: "opQuota ops = Some q \<Longrightarrow> keeps ok (\<lambda>w. (q w cid now, ())) (\<lambda>_. [EvQuota cid None])"
    and keep_quota_until: "opQuotaUntil ops = Some qu \<Longrightarrow>
          keeps ok (\<lambda>w. (qu w cid now reset, ())) (\<lambda>_. [EvQuota cid (Some reset)])"
    and keep_hold: "opHold ops = Some (h, mh) \<Longrightarrow> keeps ok (\<lambda>w. (mh w cid conv now, ())) (\<lambda>_. [EvHold cid])"
    and keep_route: "opRoute ops = Some rt \<Longrightarrow> keeps ok rt (\<lambda>n. [EvRoute n])"
    and keep_quiet_route: "opRoute ops = Some rt \<Longrightarrow> keeps ok rt quiet"
    and keep_resolve: "opUpstreamFor ops = Some uf \<Longrightarrow>
          keeps ok (\<lambda>w. uf w c) (\<lambda>r. [EvResolve c (wrap_client r)])"
    and keep_fixed: "opUpstreamFor ops = None \<Longrightarrow> keeps ok (\<lambda>w. (w, cl_or_err)) (\<lambda>r. [EvResolve c r])"
    and keep_post: "keeps ok (\<lambda>w. opPost ops w cl compact body opts) (\<lambda>r. [EvPost cl compact opts r])"
    and keep_models: "keeps ok (\<lambda>w. opModels ops w cl t) (\<lambda>r. [EvModels cl t r])"
    and keep_credits: "keeps ok (\<lambda>w. opCredits ops w cl t) (\<lambda>r. [EvCredits cl t r])"
    and keep_snapshot: "keeps ok (\<lambda>w. opSnapshot ops w cl t) (\<lambda>r. [EvSnapshot cl t r])"
    and keep_refresh: "opRefresher ops = Some (en, fo) \<Longrightarrow> keeps ok load quiet \<Longrightarrow>
          (\<And>p n. keeps ok (\<lambda>w. persist w p n) quiet) \<Longrightarrow>
          keeps ok (\<lambda>w. en w k cur load persist) (\<lambda>r. [EvTokens k r]) \<and>
          keeps ok (\<lambda>w. fo w k cur load persist) (\<lambda>r. [EvTokens k r])"
begin

text \<open>\<open>stands n q x\<close>: the log of \<open>x\<close> takes the monitor to \<open>q\<close>.  A triple starts in a known monitor
  state, so that the events of a program are computed by rewriting; its postcondition is about the
  value and the monitor state at the end, and the rules work backwards.\<close>

definition stands :: "'c monitor \<Rightarrow> 'c monitor \<Rightarrow> ('w, 'c) exec \<Rightarrow> bool" where
  "stands n q x \<longleftrightarrow> ok (xWorld x) (xLog x) \<and> monitor_run n (xLog x) = Some q \<and>
     (mHeld q \<noteq> None \<longrightarrow> \<not> xDone x)"

definition triple ::
  "'c monitor \<Rightarrow> 'c monitor \<Rightarrow> ('w, 'c, 'a) xm \<Rightarrow> ('a \<Rightarrow> 'c monitor \<Rightarrow> bool) \<Rightarrow> bool" where
  "triple n q m Q \<longleftrightarrow> (\<forall>x a x'. stands n q x \<longrightarrow> run_state m x = (a, x') \<longrightarrow>
     (\<exists>q'. stands n q' x' \<and> Q a q'))"

lemma t_intro:
  "(\<And>x a x'. stands n q x \<Longrightarrow> run_state m x = (a, x') \<Longrightarrow> \<exists>q'. stands n q' x' \<and> Q a q') \<Longrightarrow> triple n q m Q"
  by (simp add: triple_def)

lemma t_dest:
  "triple n q m Q \<Longrightarrow> stands n q x \<Longrightarrow> run_state m x = (a, x') \<Longrightarrow> \<exists>q'. stands n q' x' \<and> Q a q'"
  by (simp add: triple_def)

lemma t_bind: "triple n q m (\<lambda>a q'. triple n q' (f a) Q) \<Longrightarrow> triple n q (m \<bind> f) Q"
  unfolding triple_def by (auto split: prod.splits) blast

lemma t_ret: "Q a q \<Longrightarrow> triple n q (ret_x a) Q"
  by (rule t_intro) auto

lemma t_if:
  "(c \<Longrightarrow> triple n q m Q) \<Longrightarrow> (\<not> c \<Longrightarrow> triple n q k Q) \<Longrightarrow> triple n q (if c then m else k) Q"
  by simp

lemma t_use: "triple n q m R \<Longrightarrow> (\<And>a q'. R a q' \<Longrightarrow> Q a q') \<Longrightarrow> triple n q m Q"
  unfolding triple_def by blast

lemma t_call:
  assumes keep: "keeps ok f ev"
    and step: "\<And>w l w' a. ok w l \<Longrightarrow> f w = (w', a) \<Longrightarrow>
           \<exists>q'. monitor_run q (ev a) = Some q' \<and> (mHeld q' \<noteq> None \<longrightarrow> mHeld q \<noteq> None) \<and> Q a q'"
  shows "triple n q (call f ev) Q"
proof (rule t_intro)
  fix x a x'
  assume g: "stands n q x" and run: "run_state (call f ev) x = (a, x')"
  obtain w where w: "f (xWorld x) = (w, a)" "x' = x\<lparr>xWorld := w, xLog := xLog x @ ev a\<rparr>"
    using run by (auto simp: call_def Let_def split: prod.splits)
  have m: "ok (xWorld x) (xLog x)" "monitor_run n (xLog x) = Some q"
      "mHeld q \<noteq> None \<longrightarrow> \<not> xDone x"
    using g by (auto simp: stands_def)
  obtain q' where q': "monitor_run q (ev a) = Some q'" "Q a q'" "mHeld q' \<noteq> None \<longrightarrow> mHeld q \<noteq> None"
    using step [OF m(1) w(1)] by blast
  have "stands n q' x'"
    unfolding stands_def using keepsD [OF keep m(1) w(1)] w(2) m q' by (auto simp: monitor_run_append)
  then show "\<exists>q'. stands n q' x' \<and> Q a q'"
    using q'(2) by blast
qed

text \<open>The event of a call, taken by the monitor.\<close>

lemma t_event:
  assumes keep: "keeps ok f (\<lambda>a. [ev a])"
    and step: "\<And>w l w' a. ok w l \<Longrightarrow> f w = (w', a) \<Longrightarrow> monitor_step q (ev a) = Some (nxt a)"
    and held: "\<And>a. mHeld (nxt a) \<noteq> None \<Longrightarrow> mHeld q \<noteq> None"
    and post: "\<And>w l w' a. ok w l \<Longrightarrow> f w = (w', a) \<Longrightarrow> Q a (nxt a)"
  shows "triple n q (call f (\<lambda>a. [ev a])) Q"
  by (rule t_call [OF keep]) (use step held post in auto)

lemma t_silent:
  "keeps ok f quiet \<Longrightarrow> (\<And>w l w' a. ok w l \<Longrightarrow> f w = (w', a) \<Longrightarrow> Q a q) \<Longrightarrow> triple n q (silently f) Q"
  unfolding silently_def by (rule t_call) auto

lemma t_own: "(\<And>x. stands n q x \<Longrightarrow> Q (f x) q) \<Longrightarrow> triple n q (own f) Q"
  by (rule t_intro) (auto simp: own_def)

lemma t_change:
  assumes "\<And>x. xWorld (f x) = xWorld x" "\<And>x. xLog (f x) = xLog x" "\<And>x. xDone (f x) = xDone x"
    and "Q () q"
  shows "triple n q (change f) Q"
  by (rule t_intro) (use assms in \<open>auto simp: change_def stands_def\<close>)

lemma t_now: "(\<And>t. Q t q) \<Longrightarrow> triple n q (now_x ops) Q"
  unfolding now_x_def by (rule t_silent [OF keep_now])

lemma t_done: "mHeld q = None \<Longrightarrow> Q () q \<Longrightarrow> triple n q (mark_done ops) Q"
  by (rule t_intro) (auto simp: mark_done_def change_def stands_def)

lemma t_get:
  assumes held: "attends q cid"
    and failed: "\<And>e. Q (Inl e) (q\<lparr> mGet := None \<rparr>)"
    and found: "\<And>c. cID c = cid \<Longrightarrow> Q (Inr c) (q\<lparr> mGet := Some c \<rparr>)"
  shows "triple n q (get_x ops cid) Q"
  unfolding get_x_def
proof (rule t_event [OF keep_get])
  fix w l w' r
  show "monitor_step q (EvGet cid r) = Some (q\<lparr> mGet := (case r of Inl _ \<Rightarrow> None | Inr c \<Rightarrow> Some c) \<rparr>)"
    using held by simp
  assume "ok w l" and r: "opGet ops w cid = (w', r)"
  then show "Q r (q\<lparr> mGet := (case r of Inl _ \<Rightarrow> None | Inr c \<Rightarrow> Some c) \<rparr>)"
    using failed found [OF get_names] by (cases r) auto
qed (use held in auto)

lemma t_patch: "(\<And>r. Q r q) \<Longrightarrow> triple n q (patch_x ops cid f) Q"
  unfolding patch_x_def by (rule t_event [OF keep_patch]) auto

text \<open>The monitor after a reading of the route, if there is a route to read.\<close>

definition routed :: "'c monitor \<Rightarrow> u64 \<Rightarrow> 'c monitor" where
  "routed q r = (if opRoute ops = None then q
     else q\<lparr> mRoute := Some r, mMoved := mMoved q \<or> mResolved q \<noteq> None \<and> mResolvedRoute q \<noteq> Some r \<rparr>)"

lemma routed_simps [simp]:
  "mHeld (routed q r) = mHeld q" "mLeft (routed q r) = mLeft q" "mFinal (routed q r) = mFinal q"
  "mBody (routed q r) = mBody q" "mGet (routed q r) = mGet q" "mTokens (routed q r) = mTokens q"
  "mInvalid (routed q r) = mInvalid q" "mPosts (routed q r) = mPosts q"
  "mResolved (routed q r) = mResolved q"
  by (simp_all add: routed_def)

lemma t_route: "(\<And>r. (opRoute ops = None \<longrightarrow> r = 0) \<Longrightarrow> Q r (routed q r)) \<Longrightarrow> triple n q (route_revision ops) Q"
  unfolding route_revision_def
  by (cases "opRoute ops") (auto simp: routed_def intro!: t_ret t_event [OF keep_route])

lemma t_pick:
  assumes free: "free q" "\<not> mFinal q" "0 < mLeft q"
    and failed: "\<And>e. Q (Inl e) (q\<lparr> mLeft := mLeft q - 1, mHeld := None,
             mPosts := 0, mGet := None, mTokens := None, mInvalid := False, mResolved := None \<rparr>)"
    and picked: "\<And>c. Q (Inr c) (q\<lparr> mLeft := mLeft q - 1, mHeld := Some (cID c),
             mPosts := 0, mGet := None, mTokens := None, mInvalid := False, mResolved := None \<rparr>)"
  shows "triple n q (pick_x ops cs conv) Q"
proof -
  have "\<exists>q'. stands n q' x' \<and> Q a q'"
    if x: "stands n q x" and run: "run_state (change (\<lambda>x. x\<lparr> xDone := False \<rparr>) \<bind> (\<lambda>_.
       call (\<lambda>w. opPick ops w cs conv now) (\<lambda>r. [EvPick r]))) x = (a, x')" for now x a x'
  proof -
    obtain w where w: "opPick ops (xWorld x) cs conv now = (w, a)"
        "x' = x\<lparr>xDone := False, xWorld := w, xLog := xLog x @ [EvPick a]\<rparr>"
      using run by (auto simp: change_def call_def Let_def split: prod.splits)
    have ok: "ok (xWorld x) (xLog x)" "ok w (xLog x @ [EvPick a])"
      using x keepsD [OF keep_pick _ w(1)] by (auto simp: stands_def)
    show ?thesis
      using x w ok free failed picked
      by (cases a) (auto simp: stands_def monitor_run_append)
  qed
  then show ?thesis
    unfolding pick_x_def by (intro t_bind t_now t_intro)
qed

lemma t_resolve:
  assumes known: "mGet q = Some cred"
    and failed: "\<And>e. Q (Inl e) (q\<lparr> mResolved := None, mResolvedRoute := mRoute q, mMoved := False \<rparr>)"
    and found: "\<And>cl. Q (Inr cl)
            (q\<lparr> mResolved := Some (cred, cl), mResolvedRoute := mRoute q, mMoved := False \<rparr>)"
  shows "triple n q (upstream_for ops cred) Q"
proof -
  have "triple n q (call f (\<lambda>r. [EvResolve cred r])) Q" if "keeps ok f (\<lambda>r. [EvResolve cred r])" for f
    by (rule t_call [OF that]) (use known failed found in \<open>auto split: sum.splits\<close>)
  moreover have "keeps ok (\<lambda>w. let (w', r) = f w cred in (w', wrap_client r)) (\<lambda>r. [EvResolve cred r])"
    if "opUpstreamFor ops = Some f" for f
    by (rule keepsI) (auto split: prod.splits intro: keepsD [OF keep_resolve [OF that]])
  moreover note keep_fixed
  ultimately show ?thesis
    unfolding upstream_for_def by (auto split: option.splits)
qed

lemma t_post:
  assumes may: "may_post q client opts"
    and unsent: "\<And>e. Q (Inl e) q"
    and failed: "\<And>e. Q (Inl e) (q\<lparr> mPosts := Suc (mPosts q), mFinal := False, mAnswer := None \<rparr>)"
    and sent: "\<And>r. rsHeld r = None \<Longrightarrow> Q (Inr r)
            (q\<lparr> mPosts := Suc (mPosts q), mFinal := delivered (Inr r), mAnswer := answer (Inr r) \<rparr>)"
  shows "triple n q (post_upstream ops client compact body opts) Q"
  unfolding post_upstream_def
proof (rule t_if)
  show "triple n q (ret_x (Inl (ErrText ''proxy: upstream compact endpoint is not configured''))) Q"
    by (rule t_ret) (rule unsent)
  show "triple n q (call (\<lambda>w. opPost ops w client compact body opts) (\<lambda>r. [EvPost client compact opts r])) Q"
  proof (rule t_event [OF keep_post])
    fix w l w' r
    show "monitor_step q (EvPost client compact opts r) =
        Some (q\<lparr> mPosts := Suc (mPosts q), mFinal := delivered r, mAnswer := answer r \<rparr>)"
      using may by simp
    assume "ok w l" "opPost ops w client compact body opts = (w', r)"
    then show "Q r (q\<lparr> mPosts := Suc (mPosts q), mFinal := delivered r, mAnswer := answer r \<rparr>)"
      using failed sent [OF post_unheld] by (cases r) (auto simp: delivered_def answer_def)
  qed auto
qed

lemma t_refresh:
  assumes f: "opRefresher ops = Some (en, fo)" and which: "fun = en \<or> fun = fo"
    and held: "attends q cid" "\<not> mFinal q" "\<not> mInvalid q"
    and load: "keeps ok load quiet" and persist: "\<And>p n. keeps ok (\<lambda>w. persist w p n) quiet"
    and post: "\<And>t. Q t (q\<lparr> mTokens := (if snd t = None then Some (fst t) else None),
             mInvalid := (case snd t of None \<Rightarrow> False | Some e \<Rightarrow> is_invalidated e) \<rparr>)"
  shows "triple n q (call (\<lambda>w. fun w cid cur load persist) (\<lambda>r. [EvTokens cid r])) Q"
proof -
  have "keeps ok (\<lambda>w. fun w cid cur load persist) (\<lambda>r. [EvTokens cid r])"
    using keep_refresh [where persist = persist, OF f load persist] which by blast
  then show ?thesis
    by (rule t_event [where nxt = "\<lambda>t. q\<lparr> mTokens := (if snd t = None then Some (fst t) else None),
        mInvalid := (case snd t of None \<Rightarrow> False | Some e \<Rightarrow> is_invalidated e) \<rparr>"])
      (use held post in auto)
qed

lemma keeps_load: "keeps ok (\<lambda>w. load_tokens (opGet ops) w cid) quiet"
  by (rule keepsI) (auto simp: load_tokens_def split: prod.splits sum.splits dest: keepsD [OF keep_load])

lemma keeps_persist: "keeps ok (\<lambda>w. persist_tokens (opPatch ops) w cid prev next) quiet"
  by (rule keepsI) (auto simp: persist_tokens_def split: prod.splits sum.splits dest: keepsD [OF keep_persist])

end

end
