(* ===== verification/Executor_Props.thy ===== *)
theory Executor_Props
  imports Executor_Monitor
begin

text \<open>
  The executor's request loop keeps the protocol of \<open>Executor_Monitor\<close>, whatever its collaborators
  answer: one triple for each function, from the outcome of a selection to the whole loop.
\<close>

section \<open>Assertions\<close>

text \<open>The loop keeps only responses whose body is buffered and whose status is a refusal.\<close>

definition kept :: "loop \<Rightarrow> bool" where
  "kept lp = (case lpResp lp of None \<Rightarrow> True | Some r \<Rightarrow> rsHeld r = None \<and> \<not> delivered (Inr r))"

definition body_of :: "goerr + response \<Rightarrow> string option" where
  "body_of r = (case r of Inl _ \<Rightarrow> None | Inr s \<Rightarrow> rsHeld s)"

text \<open>No selection is open, \<open>k\<close> attempts are left, and what is returned is the final response, whose
  body holds the reservation the selector still counts.\<close>

definition concluded :: "nat \<Rightarrow> goerr + response \<Rightarrow> 'c monitor \<Rightarrow> bool" where
  "concluded k r q \<longleftrightarrow> free q \<and> mLeft q = k \<and> mFinal q = delivered r \<and> mBody q = body_of r \<and>
     (delivered r \<longrightarrow> mAnswer q = answer r)"

definition idle :: "nat \<Rightarrow> 'c monitor \<Rightarrow> bool" where
  "idle k q \<longleftrightarrow> free q \<and> mLeft q = k \<and> \<not> mFinal q \<and> mBody q = None"

definition ended :: "nat \<Rightarrow> outcome \<times> loop \<Rightarrow> 'c monitor \<Rightarrow> bool" where
  "ended k out q = (case out of (Continue, lp) \<Rightarrow> idle k q \<and> kept lp | (Return r, lp) \<Rightarrow> concluded k r q)"

definition selected :: "nat \<Rightarrow> string \<Rightarrow> 'c monitor \<Rightarrow> bool" where
  "selected k cid q \<longleftrightarrow> mHeld q = Some cid \<and> mLeft q = k \<and> \<not> mFinal q \<and> mBody q = None"

lemma kept_simps [simp]:
  "kept (untry c lp) = kept lp" "kept (untry_if b c lp) = kept lp" "kept (failed_with e lp) = kept lp"
  "kept (lp\<lparr> lpTried := t \<rparr>) = kept lp" "kept first_loop"
  "kept (keep_resp r lp) = (rsHeld r = None \<and> \<not> delivered (Inr r))"
  by (simp_all add: kept_def untry_def untry_if_def failed_with_def keep_resp_def first_loop_def)

lemma buffered [simp]:
  "rsHeld (buffer_error_response r) = None" "rsStatus (buffer_error_response r) = rsStatus r"
  "delivered (Inr (buffer_error_response r)) = delivered (Inr r)"
  by (simp_all add: buffer_error_response_def delivered_def)

lemma selected_simps [simp]:
  "selected k cid (q\<lparr> mGet := g \<rparr>) = selected k cid q"
  "selected k cid (q\<lparr> mTokens := t, mInvalid := b \<rparr>) = selected k cid q"
  "selected k cid (q\<lparr> mPosts := j, mFinal := False \<rparr>) = selected k cid (q\<lparr> mFinal := False \<rparr>)"
  "selected k cid (q\<lparr> mResolved := cl, mResolvedRoute := rt, mMoved := b \<rparr>) = selected k cid q"
  by (simp_all add: selected_def)

lemma concluded_no_pick: "idle k q \<Longrightarrow> kept lp \<Longrightarrow> concluded k (no_pick lp e) q"
  by (auto simp: idle_def kept_def concluded_def no_pick_def body_of_def delivered_def
      split: option.split option.split_asm)

context collaborators begin

lemma selected_routed [simp]: "selected k cid (routed q r) = selected k cid q"
  by (simp add: selected_def)

section \<open>Outcomes of a selection\<close>

lemma t_call_unit:
  assumes "keeps ok (\<lambda>w. (f w, ())) (\<lambda>_. [e])" and "monitor_step q e = Some q'"
    and "mHeld q' \<noteq> None \<Longrightarrow> mHeld q \<noteq> None" and "Q () q'"
  shows "triple n q (call (\<lambda>w. (f w, ())) (\<lambda>_. [e])) Q"
  by (rule t_event [where ev = "\<lambda>_. e" and nxt = "\<lambda>_. q'"]) (use assms in auto)

lemma t_release:
  assumes "mHeld q = Some cid" and "Q () (q\<lparr> mHeld := None \<rparr>)"
  shows "triple n q (release_selection ops cid) Q"
  unfolding release_selection_def
proof (rule t_bind, rule t_own, rule t_if)
  fix x assume "stands n q x" and "xDone x"
  then show "triple n q (ret_x ()) Q"
    using assms(1) by (simp add: stands_def)
next
  obtain f where f: "opRelease ops = Some f"
    using releases by auto
  show "triple n q (do { (case opRelease ops of None \<Rightarrow> ret_x ()
        | Some f \<Rightarrow> call (\<lambda>w. (f w cid, ())) (\<lambda>_. [EvRelease cid])); mark_done ops }) Q"
    unfolding f option.case
    by (rule t_bind, rule t_call_unit [OF keep_release [OF f]])
      (use assms in \<open>auto simp: close_selection_def intro: t_done\<close>)
qed

lemma t_failure:
  assumes "mHeld q = Some cid" "\<not> mInvalid q" "\<not> mFinal q" and "Q () (q\<lparr> mHeld := None \<rparr>)"
  shows "triple n q (mark_failure_x ops cid status ra) Q"
  unfolding mark_failure_x_def
  by (rule t_bind, rule t_now, rule t_bind, rule t_call_unit [OF keep_failure])
    (use assms in \<open>auto simp: close_selection_def intro: t_done\<close>)

lemma t_quota:
  assumes "mHeld q = Some cid" "\<not> mInvalid q" and "cid = [] \<Longrightarrow> Q () q" "Q () (q\<lparr> mHeld := None \<rparr>)"
  shows "triple n q (mark_quota_x ops cid reset) Q"
proof -
  have until: "triple n q (do { now \<leftarrow> now_x ops; later \<leftarrow> now_x ops;
      call (\<lambda>w. (f w cid now (later + reset), ())) (\<lambda>_. [EvQuota cid (Some (later + reset))]) }) Q"
    if "opQuotaUntil ops = Some f" for f
    by (intro t_bind t_now t_call_unit [OF keep_quota_until [OF that]])
      (use assms in \<open>auto simp: close_selection_def\<close>)
  have plain: "triple n q (do { now \<leftarrow> now_x ops;
      call (\<lambda>w. (g w cid now, ())) (\<lambda>_. [EvQuota cid None]) }) Q"
    if "opQuota ops = Some g" for g
    by (intro t_bind t_now t_call_unit [OF keep_quota [OF that]])
      (use assms in \<open>auto simp: close_selection_def\<close>)
  show ?thesis
    unfolding mark_quota_x_def using assms(3) quota_marks until plain
    by (auto split: option.splits intro: t_ret)
qed

text \<open>The delivered response is the one given, but for the reservation its body holds.\<close>

lemma t_success:
  assumes held: "mHeld q = Some cid" "mFinal q"
    and plain: "Q resp (q\<lparr> mHeld := None \<rparr>)"
    and hold: "Q (resp\<lparr> rsHeld := Some cid \<rparr>) (q\<lparr> mHeld := None, mBody := Some cid \<rparr>)"
  shows "triple n q (mark_success_x ops cid conv resp) Q"
proof -
  obtain f where f: "opRelease ops = Some f"
    using releases by auto
  have plain': "triple n q (do { plain_success ops cid conv; ret_x resp })
      (\<lambda>r q'. triple n q' (do { mark_done ops; ret_x r }) Q)"
    unfolding plain_success_def
    by (intro t_bind t_now t_call_unit [OF keep_success] t_ret t_done)
      (use held plain in \<open>auto simp: close_selection_def\<close>)
  have hold': "triple n q (do { now \<leftarrow> now_x ops;
        call (\<lambda>w. (m w cid conv now, ())) (\<lambda>_. [EvHold cid]); ret_x (resp\<lparr> rsHeld := Some cid \<rparr>) })
      (\<lambda>r q'. triple n q' (do { mark_done ops; ret_x r }) Q)" if "opHold ops = Some (h, m)" for h m
    by (intro t_bind t_now t_call_unit [OF keep_hold [OF that]] t_ret t_done)
      (use held hold in \<open>auto simp: close_selection_def\<close>)
  show ?thesis
  proof (cases "opHold ops")
    case None
    show ?thesis
      unfolding mark_success_x_def None option.case by (rule t_bind, rule t_ret, rule t_bind, rule plain')
  next
    case (Some hm)
    obtain h m where hm: "hm = (h, m)"
      by (cases hm)
    show ?thesis
      unfolding mark_success_x_def Some hm f option.case prod.case
      by (rule t_bind, rule t_own, rule t_bind, rule t_if)
        (use plain' hold' [OF Some [unfolded hm]] in auto)
  qed
qed

lemma t_observe: "(\<And>r. Q r q) \<Longrightarrow> triple n q (observe_rate_limit ops cid h) Q"
  unfolding observe_rate_limit_def
  by (auto intro!: t_if t_ret t_bind t_now t_patch split: option.split)

lemma t_touch: "Q () q \<Longrightarrow> triple n q (touch_last_used ops cred) Q"
  unfolding touch_last_used_def
  by (auto intro!: t_if t_ret t_bind t_now t_patch t_own t_change simp: Let_def split: sum.split if_split_asm)

lemma t_retry_after: "(\<And>r. Q r q) \<Longrightarrow> triple n q (retry_after_of ops resp) Q"
  unfolding retry_after_of_def by (intro t_bind t_now t_ret)

lemma t_go_on: "idle k q \<Longrightarrow> kept lp \<Longrightarrow> triple n q (go_on lp) (ended k)"
  unfolding go_on_def by (rule t_ret) (simp add: ended_def)

lemma t_stop: "concluded k r q \<Longrightarrow> triple n q (stop_with lp r) (ended k)"
  unfolding stop_with_def by (rule t_ret) (simp add: ended_def)

lemma t_deliver:
  assumes "mHeld q = Some (cID cred)" "mFinal q" "\<not> mInvalid q" "mBody q = None"
    "mLeft q = k" "rsHeld resp = None" "delivered (Inr resp)" "mAnswer q = answer (Inr resp)"
  shows "triple n q (deliver ops rq cred lp resp) (ended k)"
proof -
  have same: "delivered (Inr (resp\<lparr> rsHeld := h \<rparr>))" for h
    using assms(7) by (simp add: delivered_def)
  have ans: "answer (Inr (resp\<lparr> rsHeld := h \<rparr>)) = answer (Inr resp)" for h
    by (simp add: answer_def)
  show ?thesis
    unfolding deliver_def
    by (rule t_bind, rule t_observe, rule t_bind, rule t_if)
      (use assms same ans in \<open>auto intro!: t_bind t_quota t_ret t_touch t_stop t_success
         simp: concluded_def body_of_def\<close>)
qed

text \<open>Giving a selection up, with or without blame, and going on.\<close>

lemma t_release_go_on:
  assumes "selected k cid q" "kept lp"
  shows "triple n q (do { release_selection ops cid; go_on lp }) (ended k)"
  by (rule t_bind, rule t_release)
    (use assms in \<open>auto intro!: t_go_on simp: selected_def idle_def\<close>)

lemma t_failure_go_on:
  assumes "selected k cid q" "\<not> mInvalid q" "kept lp"
  shows "triple n q (do { mark_failure_x ops cid status ra; go_on lp }) (ended k)"
  by (rule t_bind, rule t_failure)
    (use assms in \<open>auto intro!: t_go_on simp: selected_def idle_def\<close>)

lemma t_release_stop:
  assumes "mHeld q = Some cid" "mLeft q = k" "mFinal q = delivered (Inr resp)" "mBody q = None"
    "rsHeld resp = None" "mAnswer q = answer (Inr resp)"
  shows "triple n q (do { release_selection ops cid; stop_with lp (Inr resp) }) (ended k)"
  by (rule t_bind, rule t_release)
    (use assms in \<open>auto intro!: t_stop simp: concluded_def body_of_def\<close>)

lemma t_penalise:
  assumes "selected k (cID cred) q" "\<not> mInvalid q" "\<not> delivered (Inr resp)"
  shows "triple n q (penalise ops cred lp resp suffix) (ended k)"
  unfolding penalise_def Let_def
  by (rule t_bind, rule t_retry_after, rule t_bind, rule t_observe, rule t_bind, rule t_if)
    (use assms in \<open>auto intro!: t_quota t_failure t_go_on simp: selected_def idle_def\<close>)

section \<open>Requests\<close>

lemma may_post_not_invalid: "may_post q cl opts \<Longrightarrow> \<not> mInvalid q"
  by (simp add: may_post_def)

lemma t_retry_post:
  assumes sel: "selected k (cID cred) q" and may: "may_post q client (post_opts rq verified)" and lp: "kept lp"
  shows "triple n q (retry_post ops rq cred lp verified client) (ended k)"
  unfolding retry_post_def
proof (rule t_bind, rule t_post [OF may], unfold sum.case)
  note inv = may_post_not_invalid [OF may]
  show "triple n q (do { mark_failure_x ops (cID cred) 401 0; go_on (failed_with e lp) }) (ended k)" for e
    by (rule t_failure_go_on) (use sel inv lp in auto)
  show "triple n (q\<lparr>mPosts := Suc (mPosts q), mFinal := False, mAnswer := None\<rparr>)
      (do { mark_failure_x ops (cID cred) 401 0; go_on (failed_with e lp) }) (ended k)" for e
    by (rule t_failure_go_on) (use sel inv lp in \<open>auto simp: selected_def\<close>)
  show "triple n (q\<lparr>mPosts := Suc (mPosts q), mFinal := delivered (Inr r), mAnswer := answer (Inr r)\<rparr>)
      (if is_success_status (rsStatus r) then deliver ops rq cred lp r
       else if rsStatus r = 426 then do { release_selection ops (cID cred); stop_with lp (Inr r) }
       else penalise ops cred lp r '' after refresh'') (ended k)" if "rsHeld r = None" for r
    using that sel inv
    by (auto intro!: t_if t_deliver t_release_stop t_penalise simp: selected_def delivered_def)
qed

lemma t_retry_route:
  assumes sel: "selected k (cID cred) q" and known: "mGet q = Some rc" "cID rc = cID cred"
    and tokens: "mTokens q = None \<or> mTokens q = Some refreshed" and inv: "\<not> mInvalid q" "mPosts q = 1"
    and lp: "kept lp" and un: "rsHeld un = None" "\<not> delivered (Inr un)"
  shows "triple n q (retry_route ops rq cred lp un refreshed rc) (ended k)"
  unfolding retry_route_def
proof (rule t_bind, rule t_route, rule t_bind, rule t_resolve, unfold sum.case)
  fix before :: u64
  assume before: "opRoute ops = None \<longrightarrow> before = 0"
  show "mGet (routed q before) = Some rc"
    using known by (simp add: routed_def)
  let ?q = "\<lambda>cl. (routed q before)\<lparr> mResolved := cl, mResolvedRoute := mRoute (routed q before), mMoved := False \<rparr>"
  have sel': "selected k (cID cred) (?q cl)" for cl
    using sel by simp
  show "triple n (?q None) (do { release_selection ops (cID cred);
      go_on (keep_resp un (failed_with e lp)) }) (ended k)" for e
    by (rule t_release_go_on [OF sel']) (use un in simp)
  fix client
  let ?r = "?q (Some (rc, client))"
  let ?stale = "\<lambda>v. do { release_selection ops (cID cred);
      go_on (untry_if (live_result v) (cID cred) (keep_resp un (failed_with ErrRefreshInvalidated lp))) }"
  have stale: "triple n q' (?stale v) (ended k)" if "selected k (cID cred) q'" for q' v
    by (rule t_release_go_on [OF that]) (use un in simp)
  show "triple n ?r (do { v \<leftarrow> get_x ops (cID cred);
         ok \<leftarrow> (case v of
             Inl _ \<Rightarrow> ret_x None
           | Inr verified \<Rightarrow>
               if cRevision verified \<noteq> cRevision rc \<or> \<not> live verified then ret_x None
               else do {
                 after \<leftarrow> route_revision ops;
                 ret_x (if after \<noteq> before \<or> \<not> token_matches_credential refreshed verified then None
                        else Some verified) });
         case ok of None \<Rightarrow> ?stale v | Some verified \<Rightarrow> retry_post ops rq cred lp verified client }) (ended k)"
  proof (rule t_bind, rule t_get, unfold sum.case)
    show "attends ?r (cID cred)"
      using sel' [of "Some (rc, client)"] by (simp add: selected_def)
    show "triple n (?r\<lparr>mGet := None\<rparr>) (do { ok \<leftarrow> ret_x None; case ok of None \<Rightarrow> ?stale (Inl e)
        | Some verified \<Rightarrow> retry_post ops rq cred lp verified client }) (ended k)" for e
      by (intro t_bind t_ret, unfold option.case, rule stale) (use sel in simp)
    fix c :: credential
    assume c: "cID c = cID cred"
    let ?s = "?r\<lparr>mGet := Some c\<rparr>"
    have may: "may_post (routed ?s before) client (post_opts rq c)"
      if "cRevision c = cRevision rc" "live c" "token_matches_credential refreshed c"
      using that sel inv tokens c unfolding may_post_def routed_def selected_def post_opts_def by auto
    show "triple n ?s (do { ok \<leftarrow> (if cRevision c \<noteq> cRevision rc \<or> \<not> live c then ret_x None
               else do { after \<leftarrow> route_revision ops;
                 ret_x (if after \<noteq> before \<or> \<not> token_matches_credential refreshed c then None else Some c) });
        case ok of None \<Rightarrow> ?stale (Inr c)
        | Some verified \<Rightarrow> retry_post ops rq cred lp verified client }) (ended k)"
    proof (rule t_bind, rule t_if)
      show "triple n ?s (ret_x None) (\<lambda>v' q'. triple n q' (case v' of None \<Rightarrow> ?stale (Inr c)
          | Some verified \<Rightarrow> retry_post ops rq cred lp verified client) (ended k))"
        by (rule t_ret, unfold option.case, rule stale) (use sel in simp)
      assume ok: "\<not> (cRevision c \<noteq> cRevision rc \<or> \<not> live c)"
      show "triple n ?s (do { after \<leftarrow> route_revision ops;
                 ret_x (if after \<noteq> before \<or> \<not> token_matches_credential refreshed c then None else Some c) })
        (\<lambda>v' q'. triple n q' (case v' of None \<Rightarrow> ?stale (Inr c)
          | Some verified \<Rightarrow> retry_post ops rq cred lp verified client) (ended k))"
      proof (rule t_bind, rule t_route, rule t_ret)
        fix after
        have sel_s: "selected k (cID cred) (routed ?s after)"
          using sel by simp
        show "triple n (routed ?s after) (case if after \<noteq> before \<or> \<not> token_matches_credential refreshed c
            then None else Some c of None \<Rightarrow> ?stale (Inr c)
          | Some verified \<Rightarrow> retry_post ops rq cred lp verified client) (ended k)"
        proof (cases "after \<noteq> before \<or> \<not> token_matches_credential refreshed c")
          case True
          then show ?thesis
            using stale [OF sel_s, of "Inr c"] by simp
        next
          case False
          then show ?thesis
            using t_retry_post [OF sel_s _ lp] may ok by simp
        qed
      qed
    qed
  qed
qed

text \<open>The monitor after a refresh, forced or not.\<close>

definition tokened :: "'c monitor \<Rightarrow> token_set \<times> goerr option \<Rightarrow> 'c monitor" where
  "tokened q t = q\<lparr> mTokens := (if snd t = None then Some (fst t) else None),
     mInvalid := (case snd t of None \<Rightarrow> False | Some e \<Rightarrow> is_invalidated e) \<rparr>"

lemma tokened_simps [simp]:
  "selected k cid (tokened q t) = selected k cid q" "mPosts (tokened q t) = mPosts q"
  "mHeld (tokened q t) = mHeld q"
  "mInvalid (tokened q (t', Some e)) = is_invalidated e" "mInvalid (tokened q (t', None)) = False"
  "mTokens (tokened q (t', None)) = Some t'"
  by (simp_all add: tokened_def selected_def)

lemma t_ensure:
  assumes "attends q (cID c)" "\<not> mFinal q" "\<not> mInvalid q"
    and "opRefresher ops = None \<Longrightarrow> Q (no_refresher_result c) q" and "\<And>t. Q t (tokened q t)"
  shows "triple n q (ensure_token ops c) Q"
  unfolding ensure_token_def
  by (cases "opRefresher ops") (use assms in \<open>auto simp: tokened_def intro!: t_ret t_refresh keeps_load keeps_persist\<close>)

lemma t_force:
  assumes "attends q (cID c)" "\<not> mFinal q" "\<not> mInvalid q"
    and "opRefresher ops = None \<Longrightarrow> Q no_refresher_error q" and "\<And>t. Q t (tokened q t)"
  shows "triple n q (force_refresh_x ops c) Q"
  unfolding force_refresh_x_def
  by (cases "opRefresher ops") (use assms in \<open>auto simp: tokened_def intro!: t_ret t_refresh keeps_load keeps_persist\<close>)

lemma selected_held: "selected k cid q \<Longrightarrow> mHeld q = Some cid \<and> \<not> mFinal q"
  by (simp add: selected_def)

lemma t_after_force:
  assumes sel: "selected k (cID cred) q" and posts: "mPosts q = 1" and lp: "kept lp"
    and un: "rsHeld un = None" "\<not> delivered (Inr un)"
    and inv: "\<And>e. snd t = Some e \<Longrightarrow> \<not> is_invalidated e \<Longrightarrow> \<not> mInvalid q"
    and good: "snd t = None \<Longrightarrow> \<not> mInvalid q \<and> mTokens q = Some (fst t)"
  shows "triple n q (after_force ops rq cred lp un t) (ended k)"
proof (cases "snd t")
  case (Some e)
  show ?thesis
    unfolding after_force_def Some option.case Let_def
    by (rule t_if; rule t_release_go_on [OF sel] t_failure_go_on [OF sel])
      (use inv [OF Some] un in auto)
next
  case None
  show ?thesis
    unfolding after_force_def None option.case
  proof (rule t_bind, rule t_get, unfold sum.case)
    show "attends q (cID cred)"
      using selected_held [OF sel] by simp
    show "triple n (q\<lparr>mGet := None\<rparr>) (do { release_selection ops (cID cred);
        go_on (keep_resp un (failed_with ErrRefreshInvalidated lp)) }) (ended k)"
      by (rule t_release_go_on) (use sel un in simp_all)
    show "triple n (q\<lparr>mGet := Some c\<rparr>)
        (if live c \<and> token_matches_credential (fst t) c then retry_route ops rq cred lp un (fst t) c
         else do { release_selection ops (cID cred);
           go_on (untry_if (live c) (cID cred) (keep_resp un (failed_with ErrRefreshInvalidated lp))) })
        (ended k)" if "cID c = cID cred" for c
      by (rule t_if; rule t_retry_route t_release_go_on) (use that sel posts good [OF None] lp un in auto)
  qed
qed

lemma t_unauthorized:
  assumes sel: "selected k (cID cred) q" and posts: "mPosts q = 1" and inv: "\<not> mInvalid q"
    and lp: "kept lp" and resp: "\<not> delivered (Inr resp)"
  shows "triple n q (unauthorized_retry ops rq cred route lp resp) (ended k)"
  unfolding unauthorized_retry_def Let_def
proof (rule t_bind, rule t_get, unfold sum.case)
  let ?un = "buffer_error_response resp"
  show "attends q (cID cred)"
    using selected_held [OF sel] by simp
  show "triple n (q\<lparr>mGet := None\<rparr>) (do { release_selection ops (cID cred);
      go_on (keep_resp ?un (failed_with e lp)) }) (ended k)" for e
    by (rule t_release_go_on) (use sel resp in simp_all)
  fix latest :: credential
  assume c: "cID latest = cID cred"
  let ?rest = "\<lambda>moved. if moved then do {
           release_selection ops (cID cred);
           go_on (untry_if (live latest) (cID cred) (keep_resp ?un (failed_with ErrRefreshInvalidated lp))) }
         else force_refresh_x ops latest \<bind> after_force ops rq cred lp ?un"
  have rest: "triple n q' (?rest moved) (ended k)"
    if q': "selected k (cID cred) q'" "mPosts q' = 1" "\<not> mInvalid q'" for q' moved
  proof (rule t_if)
    show "triple n q' (do { release_selection ops (cID cred); go_on (untry_if (live latest) (cID cred)
        (keep_resp ?un (failed_with ErrRefreshInvalidated lp))) }) (ended k)"
      by (rule t_release_go_on [OF q'(1)]) (use resp in simp)
    show "triple n q' (force_refresh_x ops latest \<bind> after_force ops rq cred lp ?un) (ended k)"
    proof (rule t_bind, rule t_force)
      show "attends q' (cID latest)" "\<not> mFinal q'" "\<not> mInvalid q'"
        using selected_held [OF q'(1)] c q'(3) by simp_all
      show "triple n q' (after_force ops rq cred lp ?un no_refresher_error) (ended k)"
        by (rule t_after_force [OF q'(1,2) lp]) (use resp q' in \<open>auto simp: no_refresher_error_def\<close>)
      show "triple n (tokened q' t) (after_force ops rq cred lp ?un t) (ended k)" for t
        by (rule t_after_force [OF _ _ lp]) (use resp q' in \<open>cases t; auto\<close>)+
    qed
  qed
  show "triple n (q\<lparr>mGet := Some latest\<rparr>) (do {
         moved \<leftarrow> (if \<not> live latest \<or> cRevision latest \<noteq> cRevision cred then ret_x True
                  else do { now_route \<leftarrow> route_revision ops; ret_x (now_route \<noteq> route) });
         ?rest moved }) (ended k)"
    by (rule t_bind, rule t_if; (rule t_bind, rule t_route)?, rule t_ret; rule rest)
      (use sel posts inv in simp_all)
qed

section \<open>Attempts\<close>

lemma t_on_response:
  assumes held: "mHeld q = Some (cID cred)" "mLeft q = k" "mBody q = None"
    and final: "mFinal q = delivered (Inr resp)" "mAnswer q = answer (Inr resp)" and posts: "mPosts q = 1" and inv: "\<not> mInvalid q"
    and lp: "kept lp" and resp: "rsHeld resp = None"
  shows "triple n q (on_response ops rq cred route lp resp) (ended k)"
  unfolding on_response_def
proof (intro t_if)
  have sel: "selected k (cID cred) q" if "\<not> delivered (Inr resp)"
    using held final that by (simp add: selected_def)
  show "triple n q (do { release_selection ops (cID cred); stop_with lp (Inr resp) }) (ended k)"
    by (rule t_release_stop) (use held final resp in auto)
  then show "triple n q (do { release_selection ops (cID cred); stop_with lp (Inr resp) }) (ended k)" .
  show "triple n q (deliver ops rq cred lp resp) (ended k)" if "is_success_status (rsStatus resp)"
    by (rule t_deliver) (use held final inv resp that in \<open>auto simp: delivered_def\<close>)
  show "triple n q (unauthorized_retry ops rq cred route lp resp) (ended k)"
    if "\<not> is_success_status (rsStatus resp)" "rsStatus resp = 401"
    by (rule t_unauthorized [OF sel posts inv lp]) (use that in \<open>auto simp: delivered_def\<close>)
  show "triple n q (penalise ops cred lp resp []) (ended k)"
    if "rsStatus resp \<noteq> 426" "\<not> is_success_status (rsStatus resp)"
    by (rule t_penalise [OF sel inv]) (use that in \<open>auto simp: delivered_def\<close>)
qed

lemma t_first_post:
  assumes sel: "selected k (cID verified) q" and may: "may_post q client (post_opts rq verified)"
    and posts: "mPosts q = 0" and lp: "kept lp"
  shows "triple n q (first_post ops rq verified route lp client) (ended k)"
  unfolding first_post_def
proof (rule t_bind, rule t_post [OF may], unfold sum.case)
  note inv = may_post_not_invalid [OF may]
  show "triple n q (do { mark_failure_x ops (cID verified) 0 0; go_on (failed_with e lp) }) (ended k)" for e
    by (rule t_failure_go_on) (use sel inv lp in simp_all)
  show "triple n (q\<lparr>mPosts := Suc (mPosts q), mFinal := False, mAnswer := None\<rparr>)
      (do { mark_failure_x ops (cID verified) 0 0; go_on (failed_with e lp) }) (ended k)" for e
    by (rule t_failure_go_on) (use sel inv lp in \<open>simp_all add: selected_def\<close>)
  show "triple n (q\<lparr>mPosts := Suc (mPosts q), mFinal := delivered (Inr r), mAnswer := answer (Inr r)\<rparr>)
      (on_response ops rq verified route lp r) (ended k)" if "rsHeld r = None" for r
    by (rule t_on_response) (use sel inv posts lp that in \<open>simp_all add: selected_def\<close>)
qed

lemma t_attempt_route:
  assumes sel: "selected k (cID cred) q" and known: "mGet q = Some cred"
    and tokens: "mTokens q = None \<or> mTokens q = Some tokens" and inv: "\<not> mInvalid q" "mPosts q = 0"
    and lp: "kept lp"
  shows "triple n q (attempt_route ops rq cred tokens lp) (ended k)"
  unfolding attempt_route_def
proof (rule t_bind, rule t_route, rule t_bind, rule t_resolve, unfold sum.case)
  fix before :: u64
  assume before: "opRoute ops = None \<longrightarrow> before = 0"
  show "mGet (routed q before) = Some cred"
    using known by simp
  let ?q = "\<lambda>cl. (routed q before)\<lparr> mResolved := cl, mResolvedRoute := mRoute (routed q before), mMoved := False \<rparr>"
  show "triple n (?q None) (do { mark_failure_x ops (cID cred) 0 0; go_on (failed_with e lp) }) (ended k)" for e
    by (rule t_failure_go_on) (use sel inv lp in simp_all)
  fix client
  let ?stale = "\<lambda>v. do { release_selection ops (cID cred);
      go_on (untry_if (live_result v) (cID cred) (failed_with ErrRefreshInvalidated lp)) }"
  have stale: "triple n q' (?stale v) (ended k)" if "selected k (cID cred) q'" for q' v
    by (rule t_release_go_on [OF that]) (use lp in simp)
  show "triple n (?q (Some (cred, client))) (do {
         route \<leftarrow> route_revision ops;
         v \<leftarrow> get_x ops (cID cred);
         ok \<leftarrow> (case v of
             Inl _ \<Rightarrow> ret_x None
           | Inr verified \<Rightarrow>
               if route \<noteq> before then ret_x None
               else do {
                 again \<leftarrow> route_revision ops;
                 ret_x (if again \<noteq> route \<or> cRevision verified \<noteq> cRevision cred \<or> \<not> live verified \<or>
                           \<not> token_matches_credential tokens verified
                        then None else Some verified) });
         case ok of None \<Rightarrow> ?stale v | Some verified \<Rightarrow> first_post ops rq verified route lp client }) (ended k)"
  proof (rule t_bind, rule t_route, rule t_bind, rule t_get, unfold sum.case)
    fix route :: u64
    assume route: "opRoute ops = None \<longrightarrow> route = 0"
    let ?r = "routed (?q (Some (cred, client))) route"
    show "attends ?r (cID cred)"
      using selected_held [OF sel] by simp
    show "triple n (?r\<lparr>mGet := None\<rparr>) (do { ok \<leftarrow> ret_x None;
        case ok of None \<Rightarrow> ?stale (Inl e) | Some verified \<Rightarrow> first_post ops rq verified route lp client }) (ended k)" for e
      by (rule t_bind, rule t_ret, unfold option.case, rule stale) (use sel in simp)
    fix c :: credential
    assume c: "cID c = cID cred"
    let ?s = "?r\<lparr>mGet := Some c\<rparr>"
    show "triple n ?s (do { ok \<leftarrow> (if route \<noteq> before then ret_x None
               else do {
                 again \<leftarrow> route_revision ops;
                 ret_x (if again \<noteq> route \<or> cRevision c \<noteq> cRevision cred \<or> \<not> live c \<or>
                           \<not> token_matches_credential tokens c then None else Some c) });
        case ok of None \<Rightarrow> ?stale (Inr c) | Some verified \<Rightarrow> first_post ops rq verified route lp client }) (ended k)"
    proof (rule t_bind, rule t_if)
      show "triple n ?s (ret_x None) (\<lambda>v' q'. triple n q' (case v' of None \<Rightarrow> ?stale (Inr c)
          | Some verified \<Rightarrow> first_post ops rq verified route lp client) (ended k))"
        by (rule t_ret, unfold option.case, rule stale) (use sel in simp)
      assume same: "\<not> route \<noteq> before"
      show "triple n ?s (do { again \<leftarrow> route_revision ops;
                 ret_x (if again \<noteq> route \<or> cRevision c \<noteq> cRevision cred \<or> \<not> live c \<or>
                           \<not> token_matches_credential tokens c then None else Some c) })
        (\<lambda>v' q'. triple n q' (case v' of None \<Rightarrow> ?stale (Inr c)
          | Some verified \<Rightarrow> first_post ops rq verified route lp client) (ended k))"
      proof (rule t_bind, rule t_route, rule t_ret)
        fix again
        have sel_s: "selected k (cID cred) (routed ?s again)"
          using sel by simp
        have may: "may_post (routed ?s again) client (post_opts rq c)"
          if "again = route" "cRevision c = cRevision cred" "live c" "token_matches_credential tokens c"
          using that sel inv tokens c same unfolding may_post_def routed_def selected_def post_opts_def by auto
        show "triple n (routed ?s again) (case if again \<noteq> route \<or> cRevision c \<noteq> cRevision cred \<or> \<not> live c \<or>
            \<not> token_matches_credential tokens c then None else Some c of None \<Rightarrow> ?stale (Inr c)
          | Some verified \<Rightarrow> first_post ops rq verified route lp client) (ended k)"
        proof (cases "again \<noteq> route \<or> cRevision c \<noteq> cRevision cred \<or> \<not> live c \<or>
            \<not> token_matches_credential tokens c")
          case True
          then show ?thesis
            using stale [OF sel_s, of "Inr c"] by (simp only: if_True option.case)
        next
          case False
          have "triple n (routed ?s again) (first_post ops rq c route lp client) (ended k)"
            by (rule t_first_post) (use may False inv lp sel_s c in auto)
          then show ?thesis
            using False by (simp only: if_False option.case)
        qed
      qed
    qed
  qed
qed

lemma t_token_failed:
  assumes sel: "selected k (cID cred) q" and inv: "mInvalid q = is_invalidated e" and lp: "kept lp"
  shows "triple n q (token_failed ops cred lp e) (ended k)"
  unfolding token_failed_def
proof (rule t_if)
  show "triple n q (do { release_selection ops (cID cred); go_on (untry (cID cred) (failed_with e lp)) }) (ended k)"
    by (rule t_release_go_on [OF sel]) (use lp in simp)
  assume "\<not> is_invalidated e"
  then have inv': "\<not> mInvalid q"
    using inv by simp
  show "triple n q (do {
        g \<leftarrow> get_x ops (cID cred);
        let rotated = (case g of Inl _ \<Rightarrow> False | Inr latest \<Rightarrow> trim_space (cRefreshToken latest) \<noteq> [] \<and>
              trim_space (cRefreshToken latest) \<noteq> trim_space (cRefreshToken cred));
        if rotated
        then do { release_selection ops (cID cred); go_on (untry (cID cred) (failed_with e lp)) }
        else do { mark_failure_x ops (cID cred) 401 0; go_on (failed_with e lp) } }) (ended k)"
    by (rule t_bind, rule t_get)
      (use sel inv' lp in \<open>auto simp: Let_def dest: selected_held intro!: t_release_go_on t_failure_go_on\<close>)
qed

text \<open>After a successful refresh, or none.\<close>

lemma t_with_token:
  assumes sel: "selected k cid q" and posts: "mPosts q = 0" and inv: "\<not> mInvalid q"
    and tokens: "mTokens q = None \<or> mTokens q = Some tokens" and lp: "kept lp"
  shows "triple n q (do { g \<leftarrow> get_x ops cid; case g of
           Inl e \<Rightarrow> do { release_selection ops cid; go_on (failed_with e lp) }
         | Inr latest \<Rightarrow>
             if \<not> live latest \<or> \<not> token_matches_credential tokens latest
             then do { release_selection ops cid;
               go_on (untry_if (live latest) cid (failed_with ErrRefreshInvalidated lp)) }
             else attempt_route ops rq latest tokens lp }) (ended k)"
proof (rule t_bind, rule t_get, unfold sum.case)
  show "attends q cid"
    using selected_held [OF sel] by simp
  show "triple n (q\<lparr>mGet := None\<rparr>) (do { release_selection ops cid; go_on (failed_with e lp) }) (ended k)" for e
    by (rule t_release_go_on) (use sel lp in simp_all)
  show "triple n (q\<lparr>mGet := Some c\<rparr>) (if \<not> live c \<or> \<not> token_matches_credential tokens c
      then do { release_selection ops cid; go_on (untry_if (live c) cid (failed_with ErrRefreshInvalidated lp)) }
      else attempt_route ops rq c tokens lp) (ended k)" if "cID c = cid" for c
    by (rule t_if; rule t_release_go_on t_attempt_route) (use that sel posts inv tokens lp in simp_all)
qed

lemma t_attempt_token:
  assumes sel: "selected k (cID cred) q" and posts: "mPosts q = 0" and inv: "\<not> mInvalid q"
    and tokens: "mTokens q = None" and lp: "kept lp"
  shows "triple n q (attempt_token ops rq cred lp) (ended k)"
  unfolding attempt_token_def
proof (rule t_bind, rule t_ensure)
  show "attends q (cID cred)" "\<not> mFinal q" "\<not> mInvalid q"
    using selected_held [OF sel] inv by simp_all
  let ?next = "\<lambda>t. case snd t of Some e \<Rightarrow> token_failed ops cred lp e
     | None \<Rightarrow> do {
         g \<leftarrow> get_x ops (cID cred);
         case g of
           Inl e \<Rightarrow> do { release_selection ops (cID cred); go_on (failed_with e lp) }
         | Inr latest \<Rightarrow>
             if \<not> live latest \<or> \<not> token_matches_credential (fst t) latest
             then do {
               release_selection ops (cID cred);
               go_on (untry_if (live latest) (cID cred) (failed_with ErrRefreshInvalidated lp)) }
             else attempt_route ops rq latest (fst t) lp }"
  show "triple n q (?next (no_refresher_result cred)) (ended k)"
    unfolding no_refresher_result_def snd_conv option.case
    by (rule t_with_token) (use sel posts inv tokens lp in simp_all)
  show "triple n (tokened q t) (?next t) (ended k)" for t
  proof (cases t)
    case (Pair t' e)
    then show ?thesis
    proof (cases e)
      case None
      show ?thesis
        unfolding Pair None snd_conv option.case
        by (rule t_with_token) (use sel posts lp in simp_all)
    next
      case (Some err)
      show ?thesis
        unfolding Pair Some snd_conv option.case
        by (rule t_token_failed) (use sel lp in simp_all)
    qed
  qed
qed

lemma t_attempt:
  assumes idle: "idle (Suc k) q" and lp: "kept lp"
  shows "triple n q (attempt ops rq candidates lp) (\<lambda>r q'. ended k r q' \<or> ended (Suc k) r q' \<and> fst r \<noteq> Continue)"
  unfolding attempt_def
proof (rule t_bind, rule t_silent [OF keep_ctx])
  fix e
  let ?Q = "\<lambda>r q'. ended k r q' \<or> ended (Suc k) r q' \<and> fst r \<noteq> Continue"
  let ?cs = "filter (\<lambda>c. cID c \<notin> lpTried lp) candidates"
  have stop: "triple n q (stop_with lp (Inl err)) ?Q" for err
    unfolding stop_with_def
    by (rule t_ret) (use idle in \<open>auto simp: ended_def concluded_def idle_def body_of_def delivered_def\<close>)
  have pick: "triple n q (do {
         p \<leftarrow> pick_x ops ?cs (rqConv rq);
         case p of
           Inl e \<Rightarrow> stop_with lp (no_pick lp e)
         | Inr c \<Rightarrow> attempt_selected ops rq (cID c) (lp\<lparr> lpTried := insert (cID c) (lpTried lp) \<rparr>) }) (ended k)"
  proof (rule t_bind, rule t_pick, unfold sum.case)
    show "free q" "\<not> mFinal q" "0 < mLeft q"
      using idle by (simp_all add: idle_def)
    let ?q = "\<lambda>h. q\<lparr> mLeft := mLeft q - 1, mHeld := h, mPosts := 0, mGet := None, mTokens := None,
        mInvalid := False, mResolved := None \<rparr>"
    show "triple n (?q None) (stop_with lp (no_pick lp e)) (ended k)" for e
      by (rule t_stop, rule concluded_no_pick [OF _ lp]) (use idle in \<open>simp add: idle_def\<close>)
    fix c :: credential
    let ?lp = "lp\<lparr> lpTried := insert (cID c) (lpTried lp) \<rparr>"
    have sel: "selected k (cID c) (?q (Some (cID c)))"
      using idle by (simp add: idle_def selected_def)
    show "triple n (?q (Some (cID c))) (attempt_selected ops rq (cID c) ?lp) (ended k)"
      unfolding attempt_selected_def
    proof (rule t_bind, rule t_get, unfold sum.case)
      show "attends (?q (Some (cID c))) (cID c)"
        by simp
      show "triple n ((?q (Some (cID c)))\<lparr>mGet := None\<rparr>)
          (do { release_selection ops (cID c); go_on (failed_with e ?lp) }) (ended k)" for e
        by (rule t_release_go_on) (use sel lp in \<open>simp_all add: selected_def\<close>)
      show "triple n ((?q (Some (cID c)))\<lparr>mGet := Some cr\<rparr>) (attempt_token ops rq cr ?lp) (ended k)"
        if "cID cr = cID c" for cr
        by (rule t_attempt_token) (use that sel lp in \<open>simp_all add: selected_def\<close>)
    qed
  qed
  show "triple n q (case e of Some e \<Rightarrow> stop_with lp (Inl e)
     | None \<Rightarrow> do {
         p \<leftarrow> pick_x ops ?cs (rqConv rq);
         case p of
           Inl e \<Rightarrow> stop_with lp (no_pick lp e)
         | Inr c \<Rightarrow> attempt_selected ops rq (cID c) (lp\<lparr> lpTried := insert (cID c) (lpTried lp) \<rparr>) }) ?Q"
  proof (cases e)
    case None
    show ?thesis
      unfolding None option.case by (rule t_use [OF pick]) simp
  next
    case (Some err)
    show ?thesis
      unfolding Some option.case by (rule stop)
  qed
qed

text \<open>The loop: what is returned is concluded, with some of the attempts left.\<close>

lemma t_attempts:
  "idle k q \<Longrightarrow> kept lp \<Longrightarrow> triple n q (attempts ops rq candidates k lp) (\<lambda>r q'. \<exists>j\<le>k. concluded j r q')"
proof (induction k arbitrary: q lp)
  case 0
  then show ?case
    by (auto intro!: t_ret concluded_no_pick)
next
  case (Suc k)
  show ?case
    unfolding attempts.simps
  proof (rule t_bind, rule t_use [OF t_attempt [OF Suc.prems]])
    fix a and q' :: "'c monitor"
    assume a: "ended k a q' \<or> ended (Suc k) a q' \<and> fst a \<noteq> Continue"
    obtain out lp' where out: "a = (out, lp')"
      by (cases a)
    show "triple n q' (case a of (Return x, _) \<Rightarrow> ret_x x
        | (Continue, lp') \<Rightarrow> attempts ops rq candidates k lp') (\<lambda>r q'. \<exists>j\<le>Suc k. concluded j r q')"
    proof (cases out)
      case (Return r)
      have "concluded k r q' \<or> concluded (Suc k) r q'"
        using a by (auto simp: out Return ended_def)
      then have "\<exists>j\<le>Suc k. concluded j r q'"
        by (auto intro: exI [of _ k])
      then show ?thesis
        unfolding out Return prod.case outcome.case by (rule t_ret)
    next
      case Continue
      then have "idle k q'" "kept lp'"
        using a by (auto simp: out ended_def)
      from Suc.IH [OF this] show ?thesis
        unfolding out Continue prod.case outcome.case by (rule t_use) (auto intro: le_SucI)
    qed
  qed
qed

section \<open>The request\<close>

lemma t_candidates: "(\<And>r. Q r q) \<Longrightarrow> triple n q (list_credential_candidates ops) Q"
  unfolding list_credential_candidates_def
  by (auto intro!: t_if t_ret t_bind t_now t_own t_change t_silent [OF keep_candidates]
      simp: Let_def split: sum.split)

lemma t_post_request:
  assumes idle: "idle (max_attempts ops) q"
  shows "triple n q (post_request ops rq) (\<lambda>r q'. \<exists>j\<le>max_attempts ops. concluded j r q')"
proof -
  have failed: "\<exists>j\<le>max_attempts ops. concluded j (Inl e) q" for e
    using idle by (auto simp: concluded_def idle_def body_of_def delivered_def)
  have loop: "triple n q (attempts ops rq' cs (max_attempts ops) first_loop)
      (\<lambda>r q'. \<exists>j\<le>max_attempts ops. concluded j r q')" for rq' cs
    by (rule t_attempts [OF idle]) simp
  show ?thesis
    unfolding post_request_def
    by (auto intro!: t_if t_ret t_bind t_candidates failed loop split: sum.split option.split)
qed

text \<open>From an empty log, the request follows the protocol and settles.\<close>

lemma request_follows_protocol:
  assumes x: "ok (xWorld x) []" "xLog x = []" and run: "run_state (post_request ops rq) x = (r, x')"
  obtains j q where "ok (xWorld x') (xLog x')" "j \<le> max_attempts ops"
    "monitor_run (monitor_init (max_attempts ops)) (xLog x') = Some q" "concluded j r q"
proof -
  have "stands (monitor_init (max_attempts ops)) (monitor_init (max_attempts ops)) x"
    using x by (simp add: stands_def monitor_init_def)
  moreover have "idle (max_attempts ops) (monitor_init (max_attempts ops))"
    by (simp add: idle_def monitor_init_def)
  ultimately show thesis
    using t_dest [OF t_post_request _ run] that unfolding stands_def by blast
qed

end

end
