(* ===== verification/Executor_Inspect.thy ===== *)
theory Executor_Inspect
  imports Executor_Props
begin

text \<open>
  The other operations of the executor: model discovery with failover, the billing snapshot, the refresh
  operations of the admin, and the probes and refreshes of an inspection run, with their triples.
\<close>

section \<open>Tokens by identifier\<close>

definition ensure_token_by_id ::
  "('w, 'c) ops \<Rightarrow> string \<Rightarrow> ('w, 'c, token_set \<times> credential \<times> goerr option) xm" where
  "ensure_token_by_id ops cid = do {
     g \<leftarrow> get_x ops cid;
     case g of
       Inl e \<Rightarrow> ret_x (no_tokens, zero_credential, Some e)
     | Inr cred \<Rightarrow> do {
         t \<leftarrow> ensure_token ops cred;
         case snd t of
           Some e \<Rightarrow> ret_x (no_tokens, cred, Some e)
         | None \<Rightarrow> do {
             l \<leftarrow> get_x ops cid;
             ret_x (fst t, case l of Inr latest \<Rightarrow> latest | Inl _ \<Rightarrow> cred, None) } } }"

definition force_refresh_token ::
  "('w, 'c) ops \<Rightarrow> string \<Rightarrow> ('w, 'c, token_set \<times> credential \<times> goerr option) xm" where
  "force_refresh_token ops cid = do {
     g \<leftarrow> get_x ops cid;
     case g of
       Inl e \<Rightarrow> ret_x (no_tokens, zero_credential, Some e)
     | Inr cred \<Rightarrow> do {
         t \<leftarrow> force_refresh_x ops cred;
         case snd t of
           Some e \<Rightarrow> ret_x (no_tokens, cred, Some e)
         | None \<Rightarrow> do {
             l \<leftarrow> get_x ops cid;
             ret_x (fst t, case l of Inr latest \<Rightarrow> latest | Inl _ \<Rightarrow> cred, None) } } }"

definition refresh_credential :: "('w, 'c) ops \<Rightarrow> string \<Rightarrow> ('w, 'c, token_set \<times> goerr option) xm" where
  "refresh_credential ops cid = do {
     r \<leftarrow> force_refresh_token ops cid;
     ret_x (fst r, snd (snd r)) }"

section \<open>Verification\<close>

definition ensure_durable_credential ::
  "('w, 'c) ops \<Rightarrow> credential \<Rightarrow> bool \<Rightarrow> ('w, 'c, token_set \<times> credential \<times> goerr option) xm" where
  "ensure_durable_credential ops cred require_enabled = do {
     t \<leftarrow> ensure_token ops cred;
     case snd t of
       Some e \<Rightarrow> ret_x (no_tokens, cred, Some e)
     | None \<Rightarrow> do {
         g \<leftarrow> get_x ops (cID cred);
         ret_x (case g of
             Inl e \<Rightarrow> (no_tokens, cred, Some e)
           | Inr latest \<Rightarrow>
               (fst t, latest,
                if (require_enabled \<and> \<not> live latest) \<or> \<not> token_matches_credential (fst t) latest
                then Some ErrRefreshInvalidated else None)) } }"

definition resolve_verified_upstream ::
  "('w, 'c) ops \<Rightarrow> credential \<Rightarrow> token_set \<Rightarrow> bool \<Rightarrow> ('w, 'c, goerr + 'c \<times> credential) xm" where
  "resolve_verified_upstream ops cred tokens require_enabled = do {
     route0 \<leftarrow> route_revision ops;
     u \<leftarrow> upstream_for ops cred;
     case u of
       Inl e \<Rightarrow> ret_x (Inl e)
     | Inr client \<Rightarrow> do {
         route \<leftarrow> route_revision ops;
         g \<leftarrow> get_x ops (cID cred);
         case g of
           Inl e \<Rightarrow> ret_x (Inl e)
         | Inr verified \<Rightarrow>
             if route0 \<noteq> route then ret_x (Inl ErrRefreshInvalidated)
             else do {
               again \<leftarrow> route_revision ops;
               ret_x (if again \<noteq> route \<or> cRevision verified \<noteq> cRevision cred \<or>
                         (require_enabled \<and> \<not> live verified) \<or> \<not> token_matches_credential tokens verified
                      then Inl ErrRefreshInvalidated else Inr (client, verified)) } } }"

definition list_models_x :: "('w, 'c) ops \<Rightarrow> 'c \<Rightarrow> string \<Rightarrow> ('w, 'c, goerr + json) xm" where
  "list_models_x ops client token = call (\<lambda>w. opModels ops w client token) (\<lambda>r. [EvModels client token r])"

section \<open>Model discovery\<close>

definition should_mark_discovery_failure :: "int \<Rightarrow> bool" where
  "should_mark_discovery_failure status \<longleftrightarrow> status \<in> {401, 402, 403, 407, 429}"

text \<open>One attempt: a result ends the loop, otherwise it goes on with the tried set and the last error.\<close>

definition give_up :: "('w, 'c) ops \<Rightarrow> string \<Rightarrow> int \<Rightarrow> loop \<Rightarrow> ('w, 'c, json option \<times> loop) xm" where
  "give_up ops cid status lp = do {
     (if should_mark_discovery_failure status then mark_failure_x ops cid status 0
      else release_selection ops cid);
     ret_x (None, lp) }"

definition start_over :: "('w, 'c) ops \<Rightarrow> string \<Rightarrow> loop \<Rightarrow> ('w, 'c, json option \<times> loop) xm" where
  "start_over ops cid lp = do { release_selection ops cid; ret_x (None, untry cid lp) }"

definition discover_with ::
  "('w, 'c) ops \<Rightarrow> string \<Rightarrow> loop \<Rightarrow> 'c \<Rightarrow> credential \<Rightarrow> ('w, 'c, json option \<times> loop) xm" where
  "discover_with ops cid lp client verified = do {
     m \<leftarrow> list_models_x ops client (cAccessToken verified);
     case m of
       Inl e \<Rightarrow> give_up ops cid (upstream_status_code e) (failed_with e lp)
     | Inr models \<Rightarrow> do {
         plain_success ops cid [];
         mark_done ops;
         touch_last_used ops verified;
         ret_x (Some models, lp) } }"

definition discover ::
  "('w, 'c) ops \<Rightarrow> credential \<Rightarrow> loop \<Rightarrow> ('w, 'c, json option \<times> loop) xm" where
  "discover ops cred lp = do {
     d \<leftarrow> ensure_durable_credential ops cred True;
     case snd (snd d) of
       Some e \<Rightarrow>
         if is_invalidated e then start_over ops (cID cred) (failed_with e lp)
         else give_up ops (cID cred) (auth_status_code e) (failed_with e lp)
     | None \<Rightarrow> do {
         v \<leftarrow> resolve_verified_upstream ops (fst (snd d)) (fst d) True;
         case v of
           Inl e \<Rightarrow>
             if is_invalidated e then start_over ops (cID cred) (failed_with e lp)
             else do { release_selection ops (cID cred); ret_x (None, failed_with e lp) }
         | Inr (client, verified) \<Rightarrow> discover_with ops (cID cred) lp client verified } }"

fun discoveries :: "('w, 'c) ops \<Rightarrow> nat \<Rightarrow> loop \<Rightarrow> ('w, 'c, goerr + json) xm" where
  "discoveries ops 0 lp = ret_x (Inl (case lpErr lp of Some e \<Rightarrow> e | None \<Rightarrow> ErrNoCredential))"
| "discoveries ops (Suc n) lp = do {
     cs \<leftarrow> silently (opList ops);
     case cs of
       Inl e \<Rightarrow> ret_x (Inl e)
     | Inr all \<Rightarrow> do {
         p \<leftarrow> pick_x ops (filter (\<lambda>c. cID c \<notin> lpTried lp) all) [];
         case p of
           Inl e \<Rightarrow> ret_x (Inl (case lpErr lp of Some e' \<Rightarrow> e' | None \<Rightarrow> e))
         | Inr cred \<Rightarrow> do {
             r \<leftarrow> discover ops cred (lp\<lparr> lpTried := insert (cID cred) (lpTried lp) \<rparr>);
             case fst r of
               Some models \<Rightarrow> ret_x (Inr models)
             | None \<Rightarrow> discoveries ops n (snd r) } } }"

definition list_models :: "('w, 'c) ops \<Rightarrow> ('w, 'c, goerr + json) xm" where
  "list_models ops = discoveries ops (max_attempts ops) first_loop"

section \<open>Billing\<close>

text \<open>The inner function runs in a shared flight; a caller whose context ends first gets its error.\<close>

definition billing_snapshot_inner :: "('w, 'c) ops \<Rightarrow> string \<Rightarrow> ('w, 'c, goerr + json) xm" where
  "billing_snapshot_inner ops cid = do {
     g \<leftarrow> get_x ops cid;
     case g of
       Inl e \<Rightarrow> ret_x (Inl e)
     | Inr cred \<Rightarrow> do {
         d \<leftarrow> ensure_durable_credential ops cred False;
         case snd (snd d) of
           Some e \<Rightarrow> ret_x (Inl e)
         | None \<Rightarrow> do {
             v \<leftarrow> resolve_verified_upstream ops (fst (snd d)) (fst d) False;
             case v of
               Inl e \<Rightarrow> ret_x (Inl e)
             | Inr (client, verified) \<Rightarrow>
                 call (\<lambda>w. opSnapshot ops w client (cAccessToken verified))
                   (\<lambda>r. [EvSnapshot client (cAccessToken verified) r]) } } }"

definition billing_snapshot :: "('w, 'c) ops \<Rightarrow> string \<Rightarrow> ('w, 'c, goerr + json) xm" where
  "billing_snapshot ops cid0 =
     (let cid = trim_space cid0 in
      if cid = [] then ret_x (Inl (ErrText ''proxy: credential id is required''))
      else do {
        r \<leftarrow> billing_snapshot_inner ops cid;
        e \<leftarrow> silently (opCtxErr ops);
        ret_x (case e of Some e \<Rightarrow> Inl e | None \<Rightarrow> r) })"

section \<open>Probes\<close>

text \<open>The answer: exhausted, status, error.  A status of 0 is no verdict.\<close>

definition probe_quota ::
  "('w, 'c) ops \<Rightarrow> 'c \<Rightarrow> string \<Rightarrow> ('w, 'c, bool \<times> int \<times> goerr option) xm" where
  "probe_quota ops client token = do {
     w \<leftarrow> call (\<lambda>w. opCredits ops w client token) (\<lambda>r. [EvCredits client token r]);
     ret_x (case w of
         Inl e \<Rightarrow>
           (let status = upstream_status_code e in
            if status \<in> {401, 402, 403, 429} then (False, status, Some e) else (False, 0, None))
       | Inr (Some percent) \<Rightarrow> if at_least 100 percent then (True, 402, None) else (False, 0, None)
       | Inr None \<Rightarrow> (False, 0, None)) }"

definition probe_with ::
  "('w, 'c) ops \<Rightarrow> 'c \<Rightarrow> string \<Rightarrow> ('w, 'c, int \<times> goerr option) xm" where
  "probe_with ops client token = do {
     m \<leftarrow> list_models_x ops client token;
     case m of
       Inl e \<Rightarrow> ret_x (upstream_status_code e, Some e)
     | Inr _ \<Rightarrow> do {
         q \<leftarrow> probe_quota ops client token;
         ret_x (case q of (spent_up, status, e) \<Rightarrow>
           if spent_up \<or> status \<noteq> 0 then (status, e) else (200, None)) } }"

definition auth_verdict :: "goerr \<Rightarrow> int" where
  "auth_verdict e = (if is_terminal_credential_error (Some e) then 401 else auth_status_code e)"

definition probe_credential :: "('w, 'c) ops \<Rightarrow> string \<Rightarrow> ('w, 'c, int \<times> goerr option) xm" where
  "probe_credential ops cid = do {
     r \<leftarrow> ensure_token_by_id ops cid;
     case snd (snd r) of
       Some e \<Rightarrow> ret_x (auth_verdict e, Some e)
     | None \<Rightarrow> do {
         u \<leftarrow> upstream_for ops (fst (snd r));
         case u of
           Inl e \<Rightarrow> ret_x (0, Some e)
         | Inr client \<Rightarrow> probe_with ops client (tkAccess (fst r)) } }"

section \<open>Inspection\<close>

definition inspection_load :: "('w, 'c) ops \<Rightarrow> credential \<Rightarrow> u64 \<Rightarrow> 'w loader" where
  "inspection_load ops expected route w = (case opGet ops w (cID expected) of
       (w1, Inl e) \<Rightarrow> (w1, Inl e)
     | (w1, Inr current) \<Rightarrow>
         (let (w2, now_route) = (case opRoute ops of None \<Rightarrow> (w1, 0) | Some f \<Rightarrow> f w1) in
          if now_route \<noteq> route \<or> \<not> inspection_guard_matches expected current
          then (w2, Inl ErrRefreshInvalidated) else (w2, Inr (tokens_of current))))"

definition inspection_tokens ::
  "('w, 'c) ops \<Rightarrow> 'w refreshing \<Rightarrow> credential \<Rightarrow> ('w, 'c, token_set \<times> goerr option) xm" where
  "inspection_tokens ops f cred = do {
     route \<leftarrow> route_revision ops;
     call (\<lambda>w. f w (cID cred) (tokens_of cred) (inspection_load ops cred route)
            (\<lambda>w prev next. persist_tokens (opPatch ops) w (cID cred) prev next))
          (\<lambda>r. [EvTokens (cID cred) r]) }"

definition ensure_token_for_inspection ::
  "('w, 'c) ops \<Rightarrow> credential \<Rightarrow> ('w, 'c, token_set \<times> goerr option) xm" where
  "ensure_token_for_inspection ops cred = (case opRefresher ops of
       None \<Rightarrow> ret_x (no_refresher_result cred)
     | Some (ensure, force) \<Rightarrow> inspection_tokens ops ensure cred)"

definition force_refresh_for_inspection ::
  "('w, 'c) ops \<Rightarrow> credential \<Rightarrow> ('w, 'c, token_set \<times> goerr option) xm" where
  "force_refresh_for_inspection ops cred = (case opRefresher ops of
       None \<Rightarrow> ret_x no_refresher_error
     | Some (ensure, force) \<Rightarrow> inspection_tokens ops force cred)"

text \<open>The rest of a probe after its tokens: the credential read back, the route, the two queries.\<close>

definition probe_route ::
  "('w, 'c) ops \<Rightarrow> string \<Rightarrow> credential \<Rightarrow> token_set \<Rightarrow> ('w, 'c, int \<times> credential \<times> goerr option) xm" where
  "probe_route ops cid latest tokens = do {
     route0 \<leftarrow> route_revision ops;
     u \<leftarrow> upstream_for ops latest;
     case u of
       Inl e \<Rightarrow> ret_x (0, latest, Some e)
     | Inr client \<Rightarrow> do {
         route \<leftarrow> route_revision ops;
         g \<leftarrow> get_x ops cid;
         case g of
           Inl e \<Rightarrow> ret_x (0, zero_credential, Some ErrRefreshInvalidated)
         | Inr verified \<Rightarrow>
             if route0 \<noteq> route then ret_x (0, verified, Some ErrRefreshInvalidated)
             else do {
               again \<leftarrow> route_revision ops;
               if again \<noteq> route \<or> cRevision verified \<noteq> cRevision latest \<or>
                  \<not> inspection_credential_usable verified \<or> \<not> token_matches_credential tokens verified
               then ret_x (0, verified, Some ErrRefreshInvalidated)
               else do {
                 r \<leftarrow> probe_with ops client (cAccessToken verified);
                 ret_x (fst r, verified, snd r) } } } }"

definition probe_credential_snapshot ::
  "('w, 'c) ops \<Rightarrow> credential \<Rightarrow> ('w, 'c, int \<times> credential \<times> goerr option) xm" where
  "probe_credential_snapshot ops snap = do {
     g \<leftarrow> get_x ops (cID snap);
     case g of
       Inl e \<Rightarrow> ret_x (0, snap, Some e)
     | Inr current \<Rightarrow>
         if \<not> inspection_credential_usable current then ret_x (0, current, Some ErrRefreshInvalidated)
         else do {
           t \<leftarrow> ensure_token_for_inspection ops current;
           case snd t of
             Some e \<Rightarrow> ret_x (auth_verdict e, current, Some e)
           | None \<Rightarrow> do {
               l \<leftarrow> get_x ops (cID snap);
               case l of
                 Inl e \<Rightarrow> ret_x (0, snap, Some e)
               | Inr latest \<Rightarrow>
                   if \<not> inspection_credential_usable latest \<or> \<not> token_matches_credential (fst t) latest
                   then ret_x (0, latest, Some ErrRefreshInvalidated)
                   else probe_route ops (cID snap) latest (fst t) } } }"

definition refresh_credential_snapshot ::
  "('w, 'c) ops \<Rightarrow> credential \<Rightarrow> ('w, 'c, token_set \<times> credential \<times> goerr option) xm" where
  "refresh_credential_snapshot ops snap = do {
     g \<leftarrow> get_x ops (cID snap);
     case g of
       Inl e \<Rightarrow> ret_x (no_tokens, snap, Some e)
     | Inr current \<Rightarrow>
         if \<not> inspection_guard_matches snap current then ret_x (no_tokens, current, Some ErrRefreshInvalidated)
         else do {
           t \<leftarrow> force_refresh_for_inspection ops current;
           case snd t of
             Some e \<Rightarrow> ret_x (fst t, current, Some e)
           | None \<Rightarrow> do {
               l \<leftarrow> get_x ops (cID snap);
               ret_x (case l of
                   Inl e \<Rightarrow> (no_tokens, snap, Some e)
                 | Inr latest \<Rightarrow> (fst t, latest,
                     if \<not> inspection_credential_usable latest \<or> \<not> token_matches_credential (fst t) latest
                     then Some ErrRefreshInvalidated else None)) } } }"

section \<open>What the operations keep\<close>

text \<open>The queries leave selection, body and attempts as they are.\<close>

definition same_selection :: "'c monitor \<Rightarrow> 'c monitor \<Rightarrow> bool" where
  "same_selection q q' \<longleftrightarrow> mHeld q' = mHeld q \<and> mLeft q' = mLeft q \<and> mFinal q' = mFinal q \<and>
     mBody q' = mBody q \<and> mSubject q' = mSubject q"

lemma same_attends: "same_selection q q' \<Longrightarrow> attends q' cid = attends q cid"
  by (simp add: same_selection_def attends_def)

lemma same_fits: "same_selection q q' \<Longrightarrow> fits q' c = fits q c"
  by (simp add: same_selection_def fits_def)

lemma same_selected: "same_selection q q' \<Longrightarrow> selected k cid q' = selected k cid q"
  by (simp add: same_selection_def selected_def)

lemma same_refl [simp]: "same_selection q q"
  by (simp add: same_selection_def)

lemma same_frame [simp]:
  "same_selection q (q'\<lparr> mGet := g \<rparr>) = same_selection q q'"
  "same_selection q (q'\<lparr> mResolved := cl, mResolvedRoute := rt, mMoved := b \<rparr>) = same_selection q q'"
  by (simp_all add: same_selection_def)

text \<open>An attempt ends with its selection closed; a result with a successful query.\<close>

definition answered :: "nat \<Rightarrow> bool \<Rightarrow> 'c monitor \<Rightarrow> bool" where
  "answered k b q \<longleftrightarrow> free q \<and> mLeft q = k \<and> mBody q = None \<and> mFinal q = b"

lemma answered_simps [simp]:
  "selected k cid q \<Longrightarrow> answered k False (q\<lparr> mHeld := None \<rparr>)"
  "selected k cid q \<Longrightarrow> answered k True (q\<lparr> mHeld := None, mFinal := True \<rparr>)"
  by (simp_all add: selected_def answered_def)

lemma selected_attends: "selected k cid q \<Longrightarrow> attends q cid \<and> \<not> mFinal q \<and> mHeld q = Some cid"
  by (simp add: selected_def)

text \<open>An operation about one credential keeps to it and selects nothing.\<close>

definition about :: "string \<Rightarrow> bool \<Rightarrow> 'c monitor \<Rightarrow> bool" where
  "about cid strict q \<longleftrightarrow> mSubject q = Some (cid, strict) \<and> mHeld q = None"

lemma about_same: "same_selection q q' \<Longrightarrow> about cid s q' = about cid s q"
  by (simp add: same_selection_def about_def)

lemma about_attends: "about cid s q \<Longrightarrow> attends q cid"
  by (simp add: about_def attends_def)

lemma about_fits: "about cid s q \<Longrightarrow> fits q c = (cid = cID c \<and> (s \<longrightarrow> inspection_credential_usable c))"
  by (simp add: about_def fits_def)

text \<open>A probe without an error has had its answer from the models endpoint.\<close>

definition verdict :: "string \<Rightarrow> int \<times> goerr option \<Rightarrow> 'c monitor \<Rightarrow> bool" where
  "verdict cid r q \<longleftrightarrow> about cid True q \<and> (snd r = None \<longrightarrow> mFinal q \<and> fst r \<in> {200, 402})"

context collaborators begin

lemma routed_subject [simp]: "mSubject (routed q r) = mSubject q"
  by (simp add: routed_def)

lemma same_routed [simp]: "same_selection q (routed q' r) = same_selection q q'"
  by (simp add: same_selection_def)

lemma same_tokened [simp]: "same_selection q (tokened q' t) = same_selection q q'"
  by (simp add: same_selection_def tokened_def)

lemma t_durable:
  assumes at: "attends q (cID cred)" "\<not> mFinal q" "\<not> mInvalid q" "mTokens q = None"
    and failed: "\<And>ts c e q'. same_selection q q' \<Longrightarrow> \<not> is_invalidated e \<longrightarrow> \<not> mInvalid q' \<Longrightarrow> Q (ts, c, Some e) q'"
    and good: "\<And>ts c q'. same_selection q q' \<Longrightarrow> \<not> mInvalid q' \<Longrightarrow> mGet q' = Some c \<Longrightarrow> cID c = cID cred \<Longrightarrow>
       (strict \<longrightarrow> live c) \<Longrightarrow> token_matches_credential ts c \<Longrightarrow> mTokens q' = None \<or> mTokens q' = Some ts \<Longrightarrow>
       Q (ts, c, None) q'"
  shows "triple n q (ensure_durable_credential ops cred strict) Q"
  unfolding ensure_durable_credential_def
proof (rule t_bind, rule t_ensure [OF at(1-3)])
  let ?next = "\<lambda>t. case snd t of Some e \<Rightarrow> ret_x (no_tokens, cred, Some e)
     | None \<Rightarrow> do {
         g \<leftarrow> get_x ops (cID cred);
         ret_x (case g of
             Inl e \<Rightarrow> (no_tokens, cred, Some e)
           | Inr latest \<Rightarrow> (fst t, latest,
                if (strict \<and> \<not> live latest) \<or> \<not> token_matches_credential (fst t) latest
                then Some ErrRefreshInvalidated else None)) }"
  have good': "triple n q' (?next (ts, None)) Q"
    if q': "same_selection q q'" "\<not> mInvalid q'" "mTokens q' = None \<or> mTokens q' = Some ts" for q' ts
    unfolding snd_conv option.case
    by (rule t_bind, rule t_get) (use q' at good [of _ _ ts] failed in \<open>auto intro!: t_ret simp: same_attends\<close>)
  show "triple n q (?next (no_refresher_result cred)) Q"
    unfolding no_refresher_result_def by (rule good') (use at in auto)
  show "triple n (tokened q t) (?next t) Q" for t
  proof (cases t)
    case (Pair ts e)
    show ?thesis
    proof (cases e)
      case None
      show ?thesis
        unfolding Pair None by (rule good') auto
    next
      case (Some err)
      show ?thesis
        unfolding Pair Some snd_conv option.case by (rule t_ret) (use failed in auto)
    qed
  qed
qed

text \<open>The client is resolved for the credential last read, and may be asked once all of it is verified.\<close>

lemma may_ask_verified:
  assumes "mInvalid q = False" "mMoved q = False" "mResolved q = Some (cred, client)" "mGet q = Some c"
    "fits q c" "cRevision c = cRevision cred" "token_matches_credential ts c" "mTokens q = None \<or> mTokens q = Some ts"
  shows "may_ask q client (cAccessToken c)"
  using assms by (auto simp: may_ask_def)

lemma t_verified:
  assumes at: "attends q (cID cred)" "\<not> mInvalid q" "mGet q = Some cred" "mTokens q = None \<or> mTokens q = Some ts"
    and ok: "\<And>c. cID c = cID cred \<Longrightarrow> (strict \<longrightarrow> live c) \<Longrightarrow> fits q c"
    and failed: "\<And>e q'. same_selection q q' \<Longrightarrow> \<not> mInvalid q' \<Longrightarrow> Q (Inl e) q'"
    and good: "\<And>cl c q'. same_selection q q' \<Longrightarrow> \<not> mInvalid q' \<Longrightarrow> cID c = cID cred \<Longrightarrow>
       may_ask q' cl (cAccessToken c) \<Longrightarrow> Q (Inr (cl, c)) q'"
  shows "triple n q (resolve_verified_upstream ops cred ts strict) Q"
  unfolding resolve_verified_upstream_def
proof (rule t_bind, rule t_route, rule t_bind, rule t_resolve, unfold sum.case)
  fix before :: u64
  assume before: "opRoute ops = None \<longrightarrow> before = 0"
  show "mGet (routed q before) = Some cred"
    using at by simp
  let ?q = "\<lambda>cl. (routed q before)\<lparr> mResolved := cl, mResolvedRoute := mRoute (routed q before), mMoved := False \<rparr>"
  show "triple n (?q None) (ret_x (Inl e)) Q" for e
    by (rule t_ret) (use failed at in simp)
  fix client
  show "triple n (?q (Some (cred, client))) (do {
         route \<leftarrow> route_revision ops;
         g \<leftarrow> get_x ops (cID cred);
         case g of
           Inl e \<Rightarrow> ret_x (Inl e)
         | Inr verified \<Rightarrow>
             if before \<noteq> route then ret_x (Inl ErrRefreshInvalidated)
             else do {
               again \<leftarrow> route_revision ops;
               ret_x (if again \<noteq> route \<or> cRevision verified \<noteq> cRevision cred \<or>
                         (strict \<and> \<not> live verified) \<or> \<not> token_matches_credential ts verified
                      then Inl ErrRefreshInvalidated else Inr (client, verified)) } }) Q"
  proof (rule t_bind, rule t_route, rule t_bind, rule t_get, unfold sum.case)
    fix route :: u64
    let ?r = "routed (?q (Some (cred, client))) route"
    show "attends ?r (cID cred)"
      using at same_attends [of q ?r "cID cred"] by simp
    show "triple n (?r\<lparr>mGet := None\<rparr>) (ret_x (Inl e)) Q" for e
      by (rule t_ret) (use failed at in simp)
    fix c :: credential assume c: "cID c = cID cred"
    let ?s = "?r\<lparr>mGet := Some c\<rparr>"
    show "triple n ?s (if before \<noteq> route then ret_x (Inl ErrRefreshInvalidated)
             else do {
               again \<leftarrow> route_revision ops;
               ret_x (if again \<noteq> route \<or> cRevision c \<noteq> cRevision cred \<or>
                         (strict \<and> \<not> live c) \<or> \<not> token_matches_credential ts c
                      then Inl ErrRefreshInvalidated else Inr (client, c)) }) Q"
    proof (rule t_if, rule t_ret)
      show "Q (Inl ErrRefreshInvalidated) ?s"
        using failed at by simp
      assume same: "\<not> before \<noteq> route"
      show "triple n ?s (do { again \<leftarrow> route_revision ops;
               ret_x (if again \<noteq> route \<or> cRevision c \<noteq> cRevision cred \<or>
                         (strict \<and> \<not> live c) \<or> \<not> token_matches_credential ts c
                      then Inl ErrRefreshInvalidated else Inr (client, c)) }) Q"
      proof (rule t_bind, rule t_route, rule t_ret)
        fix again
        let ?t = "routed ?s again"
        show "Q (if again \<noteq> route \<or> cRevision c \<noteq> cRevision cred \<or> (strict \<and> \<not> live c) \<or>
            \<not> token_matches_credential ts c then Inl ErrRefreshInvalidated else Inr (client, c)) ?t"
        proof (cases "again \<noteq> route \<or> cRevision c \<noteq> cRevision cred \<or> (strict \<and> \<not> live c) \<or>
            \<not> token_matches_credential ts c")
          case True
          have "Q (Inl ErrRefreshInvalidated) ?t"
            using failed at by simp
          then show ?thesis
            using True by (simp only: if_True)
        next
          case False
          have "fits ?t c"
            using ok [OF c] False same_fits [of q ?t c] by simp
          then have "may_ask ?t client (cAccessToken c)"
            using False same at c by (intro may_ask_verified [of _ cred _ c ts]) (auto simp: routed_def)
          then have "Q (Inr (client, c)) ?t"
            using good c at by simp
          then show ?thesis
            using False by (simp only: if_False)
        qed
      qed
    qed
  qed
qed


section \<open>Discovery\<close>

lemma t_models:
  assumes may: "may_ask q client token" "\<not> mFinal q"
    and failed: "\<And>e. Q (Inl e) q" and good: "\<And>v. Q (Inr v) (q\<lparr> mFinal := True \<rparr>)"
  shows "triple n q (list_models_x ops client token) Q"
proof -
  have "q\<lparr> mFinal := False \<rparr> = q"
    using may(2) by simp
  then have failed': "Q (Inl e) (q\<lparr> mFinal := False \<rparr>)" for e
    using failed by (simp only:)
  show ?thesis
    unfolding list_models_x_def
    by (rule t_event [OF keep_models, where nxt = "\<lambda>r. q\<lparr> mFinal := (case r of Inl _ \<Rightarrow> False | Inr _ \<Rightarrow> True) \<rparr>"])
      (use may failed' good in \<open>auto split: sum.split\<close>)
qed

lemma t_give_up:
  assumes "selected k cid q" "\<not> mInvalid q"
  shows "triple n q (give_up ops cid status lp) (\<lambda>r q'. answered k (fst r \<noteq> None) q')"
  unfolding give_up_def
  by (rule t_bind, rule t_if; rule t_failure t_release)
    (use assms selected_held in \<open>auto intro!: t_ret\<close>)

lemma t_start_over:
  assumes "selected k cid q"
  shows "triple n q (start_over ops cid lp) (\<lambda>r q'. answered k (fst r \<noteq> None) q')"
  unfolding start_over_def
  by (rule t_bind, rule t_release) (use assms selected_held in \<open>auto intro!: t_ret\<close>)

lemma t_discover_with:
  assumes sel: "selected k cid q" and inv: "\<not> mInvalid q" and may: "may_ask q client (cAccessToken v)"
  shows "triple n q (discover_with ops cid lp client v) (\<lambda>r q'. answered k (fst r \<noteq> None) q')"
  unfolding discover_with_def
proof (rule t_bind, rule t_models [OF may], unfold sum.case)
  show "\<not> mFinal q"
    using selected_held [OF sel] by simp
  show "triple n q (give_up ops cid (upstream_status_code e) (failed_with e lp))
      (\<lambda>r q'. answered k (fst r \<noteq> None) q')" for e
    by (rule t_give_up [OF sel inv])
  show "triple n (q\<lparr>mFinal := True\<rparr>)
      (do { plain_success ops cid []; mark_done ops; touch_last_used ops v; ret_x (Some models, lp) })
      (\<lambda>r q'. answered k (fst r \<noteq> None) q')" for models
    unfolding plain_success_def
    by (intro t_bind t_now t_call_unit [OF keep_success] t_done t_touch t_ret)
      (use sel selected_held [OF sel] in \<open>auto simp: close_selection_def selected_def answered_def\<close>)
qed

lemma t_discover:
  assumes sel: "selected k (cID cred) q" and inv: "\<not> mInvalid q" and tok: "mTokens q = None"
  shows "triple n q (discover ops cred lp) (\<lambda>r q'. answered k (fst r \<noteq> None) q')"
  unfolding discover_def
proof (rule t_bind, rule t_durable)
  show "attends q (cID cred)" "\<not> mFinal q"
    using selected_attends [OF sel] by blast+
  show "\<not> mInvalid q" "mTokens q = None"
    using inv tok .
  let ?Q = "\<lambda>r q'. answered k (fst r \<noteq> None) q'"
  let ?go = "\<lambda>d. case snd (snd d) of
       Some e \<Rightarrow>
         if is_invalidated e then start_over ops (cID cred) (failed_with e lp)
         else give_up ops (cID cred) (auth_status_code e) (failed_with e lp)
     | None \<Rightarrow> do {
         v \<leftarrow> resolve_verified_upstream ops (fst (snd d)) (fst d) True;
         case v of
           Inl e \<Rightarrow>
             if is_invalidated e then start_over ops (cID cred) (failed_with e lp)
             else do { release_selection ops (cID cred); ret_x (None, failed_with e lp) }
         | Inr (client, verified) \<Rightarrow> discover_with ops (cID cred) lp client verified }"
  have sel': "selected k (cID cred) q'" if "same_selection q q'" for q'
    using same_selected [OF that] sel by simp
  show "triple n q' (?go (ts, c, Some e)) ?Q" if "same_selection q q'" "\<not> is_invalidated e \<longrightarrow> \<not> mInvalid q'" for ts c e q'
    unfolding snd_conv option.case
    by (rule t_if; rule t_start_over t_give_up) (use sel' that in auto)
  show "triple n q' (?go (ts, c, None)) ?Q"
    if q': "same_selection q q'" "\<not> mInvalid q'" "mGet q' = Some c" "cID c = cID cred"
      "True \<longrightarrow> live c" "mTokens q' = None \<or> mTokens q' = Some ts" for ts c q'
    unfolding snd_conv fst_conv option.case
  proof (rule t_bind, rule t_verified)
    show "attends q' (cID c)" "\<not> mInvalid q'" "mGet q' = Some c" "mTokens q' = None \<or> mTokens q' = Some ts"
      using q' selected_attends [OF sel' [OF q'(1)]] by auto
    show "fits q' d" if "cID d = cID c" "True \<longrightarrow> live d" for d
      using that selected_attends [OF sel' [OF q'(1)]] q'(4) by (auto simp: fits_def)
    have out: "selected k (cID cred) q2" if "same_selection q' q2" for q2
      using same_selected [OF that] sel' [OF q'(1)] by simp
    show "triple n q2 (case Inl e of
           Inl e \<Rightarrow>
             if is_invalidated e then start_over ops (cID cred) (failed_with e lp)
             else do { release_selection ops (cID cred); ret_x (None, failed_with e lp) }
         | Inr (client, verified) \<Rightarrow> discover_with ops (cID cred) lp client verified) ?Q"
      if "same_selection q' q2" for e q2
      unfolding sum.case
      by (rule t_if; (rule t_start_over)?; (rule t_bind, rule t_release)?)
        (use out [OF that] selected_held in \<open>auto intro!: t_ret\<close>)
    show "triple n q2 (case Inr (cl, d) of
           Inl e \<Rightarrow>
             if is_invalidated e then start_over ops (cID cred) (failed_with e lp)
             else do { release_selection ops (cID cred); ret_x (None, failed_with e lp) }
         | Inr (client, verified) \<Rightarrow> discover_with ops (cID cred) lp client verified) ?Q"
      if "same_selection q' q2" "\<not> mInvalid q2" "may_ask q2 cl (cAccessToken d)" for cl d q2
      unfolding sum.case prod.case
      by (rule t_discover_with) (use out [OF that(1)] that in auto)
  qed
qed

lemma t_discoveries:
  "idle k q \<Longrightarrow> triple n q (discoveries ops k lp) (\<lambda>r q'. \<exists>j\<le>k. answered j (\<not> isl r) q')"
proof (induction k arbitrary: q lp)
  case 0
  then show ?case
    by (auto intro!: t_ret simp: idle_def answered_def)
next
  case (Suc k)
  let ?Q = "\<lambda>r q'. \<exists>j\<le>Suc k. answered j (\<not> isl r) q'"
  have idle: "free q" "\<not> mFinal q" "mLeft q = Suc k" "mBody q = None"
    using Suc.prems by (simp_all add: idle_def)
  let ?q = "\<lambda>h. q\<lparr> mLeft := mLeft q - 1, mHeld := h, mPosts := 0, mGet := None, mTokens := None,
      mInvalid := False, mResolved := None \<rparr>"
  have pick: "triple n q (do {
         p \<leftarrow> pick_x ops cs [];
         case p of
           Inl e \<Rightarrow> ret_x (Inl (case lpErr lp of Some e' \<Rightarrow> e' | None \<Rightarrow> e))
         | Inr cred \<Rightarrow> do {
             r \<leftarrow> discover ops cred (lp\<lparr> lpTried := insert (cID cred) (lpTried lp) \<rparr>);
             case fst r of Some models \<Rightarrow> ret_x (Inr models) | None \<Rightarrow> discoveries ops k (snd r) } }) ?Q" for cs
  proof (rule t_bind, rule t_pick [OF idle(1,2)], unfold sum.case)
    show "0 < mLeft q"
      using idle by simp
    show "triple n (?q None) (ret_x (Inl (case lpErr lp of Some e' \<Rightarrow> e' | None \<Rightarrow> e))) ?Q" for e
      by (rule t_ret) (use idle in \<open>auto simp: answered_def intro!: exI [of _ k]\<close>)
    show "triple n (?q (Some (cID c))) (do {
             r \<leftarrow> discover ops c (lp\<lparr> lpTried := insert (cID c) (lpTried lp) \<rparr>);
             case fst r of Some models \<Rightarrow> ret_x (Inr models) | None \<Rightarrow> discoveries ops k (snd r) }) ?Q" for c
    proof (rule t_bind, rule t_use [OF t_discover [where k = k]])
      show "selected k (cID c) (?q (Some (cID c)))"
        using idle by (simp add: selected_def)
      show "triple n q' (case fst r of Some models \<Rightarrow> ret_x (Inr models) | None \<Rightarrow> discoveries ops k (snd r)) ?Q"
        if q': "answered k (fst r \<noteq> None) q'" for r q'
      proof (cases "fst r")
        case None
        then have "idle k q'"
          using q' by (simp add: answered_def idle_def)
        from Suc.IH [OF this] show ?thesis
          unfolding None option.case by (rule t_use) (auto intro: le_SucI)
      next
        case (Some m)
        show ?thesis
          unfolding Some option.case by (rule t_ret) (use q' Some in \<open>auto intro!: exI [of _ k]\<close>)
      qed
    qed auto
  qed
  show ?case
    unfolding discoveries.simps
    by (rule t_bind, rule t_silent [OF keep_list])
      (use pick idle in \<open>auto intro!: t_ret simp: answered_def split: sum.split\<close>)
qed

lemma discovery_follows_protocol:
  assumes x: "ok (xWorld x) []" "xLog x = []" and run: "run_state (list_models ops) x = (r, x')"
  obtains j q where "ok (xWorld x') (xLog x')" "j \<le> max_attempts ops"
    "monitor_run (monitor_init (max_attempts ops)) (xLog x') = Some q" "answered j (\<not> isl r) q"
proof -
  have "stands (monitor_init (max_attempts ops)) (monitor_init (max_attempts ops)) x"
    using x by (simp add: stands_def monitor_init_def)
  moreover have "idle (max_attempts ops) (monitor_init (max_attempts ops))"
    by (simp add: idle_def monitor_init_def)
  ultimately show thesis
    using t_dest [OF t_discoveries _ run [unfolded list_models_def]] that unfolding stands_def by blast
qed


section \<open>Billing and inspection\<close>

lemma about_frame [simp]:
  "about cid s (q\<lparr> mGet := g \<rparr>) = about cid s q" "about cid s (q\<lparr> mFinal := b \<rparr>) = about cid s q"
  "about cid s (routed q r) = about cid s q" "about cid s (tokened q t) = about cid s q"
  "about cid s (q\<lparr> mResolved := cl, mResolvedRoute := rt, mMoved := b \<rparr>) = about cid s q"
  by (simp_all add: about_def tokened_def)

lemma may_ask_final [simp]: "may_ask (q\<lparr> mFinal := b \<rparr>) cl t = may_ask q cl t"
  by (auto simp: may_ask_def fits_def split: option.split)

lemma t_snapshot: "may_ask q cl t \<Longrightarrow> (\<And>r. Q r q) \<Longrightarrow>
  triple n q (call (\<lambda>w. opSnapshot ops w cl t) (\<lambda>r. [EvSnapshot cl t r])) Q"
  by (rule t_event [OF keep_snapshot, where nxt = "\<lambda>_. q"]) auto

lemma t_billing_inner:
  assumes q: "about cid False q" "\<not> mFinal q" "\<not> mInvalid q" "mTokens q = None"
  shows "triple n q (billing_snapshot_inner ops cid) (\<lambda>r q'. about cid False q')"
  unfolding billing_snapshot_inner_def
proof (rule t_bind, rule t_get [OF about_attends [OF q(1)]], unfold sum.case)
  let ?Q = "\<lambda>r q'. about cid False q'"
  show "triple n (q\<lparr>mGet := None\<rparr>) (ret_x (Inl e)) ?Q" for e
    by (rule t_ret) (use q in simp)
  fix cred :: credential assume c: "cID cred = cid"
  show "triple n (q\<lparr>mGet := Some cred\<rparr>) (do {
         d \<leftarrow> ensure_durable_credential ops cred False;
         case snd (snd d) of
           Some e \<Rightarrow> ret_x (Inl e)
         | None \<Rightarrow> do {
             v \<leftarrow> resolve_verified_upstream ops (fst (snd d)) (fst d) False;
             case v of
               Inl e \<Rightarrow> ret_x (Inl e)
             | Inr (client, verified) \<Rightarrow>
                 call (\<lambda>w. opSnapshot ops w client (cAccessToken verified))
                   (\<lambda>r. [EvSnapshot client (cAccessToken verified) r]) } }) ?Q"
  proof (rule t_bind, rule t_durable)
    show "attends (q\<lparr>mGet := Some cred\<rparr>) (cID cred)"
      using q(1) c by (simp add: about_attends)
    show "triple n q' (case snd (snd (ts, c', Some e)) of
           Some e \<Rightarrow> ret_x (Inl e)
         | None \<Rightarrow> do {
             v \<leftarrow> resolve_verified_upstream ops (fst (snd (ts, c', Some e))) (fst (ts, c', Some e)) False;
             case v of
               Inl e \<Rightarrow> ret_x (Inl e)
             | Inr (client, verified) \<Rightarrow>
                 call (\<lambda>w. opSnapshot ops w client (cAccessToken verified))
                   (\<lambda>r. [EvSnapshot client (cAccessToken verified) r]) }) ?Q"
      if "same_selection (q\<lparr>mGet := Some cred\<rparr>) q'" for ts c' e q'
      unfolding snd_conv option.case by (rule t_ret) (use about_same [OF that] q in simp)
    show "triple n q' (case snd (snd (ts, d, None)) of
           Some e \<Rightarrow> ret_x (Inl e)
         | None \<Rightarrow> do {
             v \<leftarrow> resolve_verified_upstream ops (fst (snd (ts, d, None))) (fst (ts, d, None)) False;
             case v of
               Inl e \<Rightarrow> ret_x (Inl e)
             | Inr (client, verified) \<Rightarrow>
                 call (\<lambda>w. opSnapshot ops w client (cAccessToken verified))
                   (\<lambda>r. [EvSnapshot client (cAccessToken verified) r]) }) ?Q"
      if q': "same_selection (q\<lparr>mGet := Some cred\<rparr>) q'" "\<not> mInvalid q'" "mGet q' = Some d" "cID d = cID cred"
        "mTokens q' = None \<or> mTokens q' = Some ts" for ts d q'
      unfolding snd_conv fst_conv option.case
    proof (rule t_bind, rule t_verified [OF _ q'(2,3,5)])
      have ab: "about cid False q'"
        using about_same [OF q'(1)] q(1) by simp
      then show "attends q' (cID d)"
        using c q'(4) by (simp add: about_attends)
      show "fits q' e" if "cID e = cID d" for e
        using ab that c q'(4) by (simp add: about_fits)
      show "triple n q2 (case Inl e of Inl e \<Rightarrow> ret_x (Inl e)
             | Inr (client, verified) \<Rightarrow>
                 call (\<lambda>w. opSnapshot ops w client (cAccessToken verified))
                   (\<lambda>r. [EvSnapshot client (cAccessToken verified) r])) ?Q" if "same_selection q' q2" for e q2
        unfolding sum.case by (rule t_ret) (use ab about_same [OF that] in simp)
      show "triple n q2 (case Inr (cl, v) of Inl e \<Rightarrow> ret_x (Inl e)
             | Inr (client, verified) \<Rightarrow>
                 call (\<lambda>w. opSnapshot ops w client (cAccessToken verified))
                   (\<lambda>r. [EvSnapshot client (cAccessToken verified) r])) ?Q"
        if "same_selection q' q2" "may_ask q2 cl (cAccessToken v)" for cl v q2
        unfolding sum.case prod.case by (rule t_snapshot) (use that ab about_same in auto)
    qed
  qed (use q in auto)
qed

lemma t_quota_probe:
  assumes "may_ask q cl t" "about cid True q" "mFinal q"
  shows "triple n q (do { p \<leftarrow> probe_quota ops cl t;
      ret_x (case p of (spent_up, status, e) \<Rightarrow> if spent_up \<or> status \<noteq> 0 then (status, e) else (200, None)) })
    (verdict cid)"
proof -
  have "triple n q (probe_quota ops cl t)
      (\<lambda>r q'. q' = q \<and> (fst r \<or> fst (snd r) \<noteq> 0 \<longrightarrow> snd (snd r) = None \<longrightarrow> fst (snd r) = 402))"
    unfolding probe_quota_def
    by (rule t_bind, rule t_event [OF keep_credits, where nxt = "\<lambda>_. q"])
      (use assms in \<open>auto intro!: t_ret simp: Let_def split: sum.split option.split\<close>)
  then show ?thesis
    by (intro t_bind) (erule t_use, use assms in \<open>auto intro!: t_ret simp: verdict_def split: if_splits\<close>)
qed

lemma t_probe_with:
  assumes may: "may_ask q cl t" and ab: "about cid True q" and fin: "\<not> mFinal q"
  shows "triple n q (probe_with ops cl t) (verdict cid)"
  unfolding probe_with_def
proof (rule t_bind, rule t_models [OF may fin], unfold sum.case)
  show "triple n q (ret_x (upstream_status_code e, Some e)) (verdict cid)" for e
    by (rule t_ret) (use ab in \<open>simp add: verdict_def\<close>)
  show "triple n (q\<lparr>mFinal := True\<rparr>) (do { p \<leftarrow> probe_quota ops cl t;
      ret_x (case p of (spent_up, status, e) \<Rightarrow> if spent_up \<or> status \<noteq> 0 then (status, e) else (200, None)) })
      (verdict cid)"
    by (rule t_quota_probe) (use may ab in auto)
qed


lemma t_inspection_tokens:
  assumes f: "opRefresher ops = Some (en, fo)" "fun = en \<or> fun = fo"
    and at: "attends q (cID cred)" "\<not> mFinal q" "\<not> mInvalid q"
    and post: "\<And>r t. Q t (tokened (routed q r) t)"
  shows "triple n q (inspection_tokens ops fun cred) Q"
  unfolding inspection_tokens_def
proof (rule t_bind, rule t_route, rule t_refresh [OF f])
  fix r :: u64
  have route: "keeps ok (\<lambda>w. case opRoute ops of None \<Rightarrow> (w, 0) | Some f \<Rightarrow> f w) quiet"
  proof (cases "opRoute ops")
    case None
    show ?thesis
      unfolding None option.case by (rule keepsI) simp
  next
    case (Some f)
    show ?thesis
      unfolding Some option.case by (rule keep_quiet_route [OF Some])
  qed
  have "ok (fst (inspection_load ops cred r w)) l" if w: "ok w l" for w l
  proof -
    obtain w1 g where g: "opGet ops w (cID cred) = (w1, g)"
      by (cases "opGet ops w (cID cred)")
    have w1: "ok w1 l"
      using keepsD [OF keep_load w g] by simp
    obtain w2 n where n: "(case opRoute ops of None \<Rightarrow> (w1, 0) | Some f \<Rightarrow> f w1) = (w2, n)"
      by (cases "case opRoute ops of None \<Rightarrow> (w1, 0) | Some f \<Rightarrow> f w1")
    have "ok w2 l"
      using keepsD [OF route w1 n] by simp
    then show ?thesis
      using w1 by (auto simp: inspection_load_def g n split: sum.split)
  qed
  then show "keeps ok (inspection_load ops cred r) quiet"
    by (auto intro!: keepsI) (metis fst_conv)
  show "Q t ((routed q r)\<lparr>mTokens := if snd t = None then Some (fst t) else None,
        mInvalid := (case snd t of None \<Rightarrow> False | Some e \<Rightarrow> is_invalidated e)\<rparr>)" for t
    using post [of t r] by (simp add: tokened_def)
qed (use at in \<open>auto simp: attends_def intro: keeps_persist\<close>)

text \<open>What a probe does once its tokens are there.\<close>

lemma t_probe_route:
  assumes ab: "about cid True q" and c: "cID latest = cid" and q: "\<not> mInvalid q" "\<not> mFinal q" "mGet q = Some latest"
    "mTokens q = None \<or> mTokens q = Some ts"
  shows "triple n q (probe_route ops cid latest ts) (\<lambda>r. verdict cid (fst r, snd (snd r)))"
  unfolding probe_route_def
proof (rule t_bind, rule t_route, rule t_bind, rule t_resolve, unfold sum.case)
  fix before :: u64
  let ?Q = "\<lambda>r. verdict cid (fst r, snd (snd r))"
  show "mGet (routed q before) = Some latest"
    using q by simp
  let ?q = "\<lambda>cl. (routed q before)\<lparr> mResolved := cl, mResolvedRoute := mRoute (routed q before), mMoved := False \<rparr>"
  show "triple n (?q None) (ret_x (0, latest, Some e)) ?Q" for e
    by (rule t_ret) (use ab in \<open>simp add: verdict_def\<close>)
  fix client
  let ?rest = "\<lambda>route g. case g of
           Inl e \<Rightarrow> ret_x (0, zero_credential, Some ErrRefreshInvalidated)
         | Inr verified \<Rightarrow>
             if before \<noteq> route then ret_x (0, verified, Some ErrRefreshInvalidated)
             else do {
               again \<leftarrow> route_revision ops;
               if again \<noteq> route \<or> cRevision verified \<noteq> cRevision latest \<or>
                  \<not> inspection_credential_usable verified \<or> \<not> token_matches_credential ts verified
               then ret_x (0, verified, Some ErrRefreshInvalidated)
               else do {
                 r \<leftarrow> probe_with ops client (cAccessToken verified);
                 ret_x (fst r, verified, snd r) } }"
  show "triple n (?q (Some (latest, client))) (do {
         route \<leftarrow> route_revision ops; g \<leftarrow> get_x ops cid; ?rest route g }) ?Q"
  proof (rule t_bind, rule t_route, rule t_bind, rule t_get, unfold sum.case)
    fix route :: u64
    let ?r = "routed (?q (Some (latest, client))) route"
    show "attends ?r cid"
      using ab by (simp add: about_attends)
    show "triple n (?r\<lparr>mGet := None\<rparr>) (ret_x (0, zero_credential, Some ErrRefreshInvalidated)) ?Q"
      by (rule t_ret) (use ab in \<open>simp add: verdict_def\<close>)
    fix v :: credential assume v: "cID v = cid"
    show "triple n (?r\<lparr>mGet := Some v\<rparr>) (if before \<noteq> route then ret_x (0, v, Some ErrRefreshInvalidated)
             else do {
               again \<leftarrow> route_revision ops;
               if again \<noteq> route \<or> cRevision v \<noteq> cRevision latest \<or>
                  \<not> inspection_credential_usable v \<or> \<not> token_matches_credential ts v
               then ret_x (0, v, Some ErrRefreshInvalidated)
               else do {
                 r \<leftarrow> probe_with ops client (cAccessToken v);
                 ret_x (fst r, v, snd r) } }) ?Q"
    proof (rule t_if, rule t_ret)
      show "?Q (0, v, Some ErrRefreshInvalidated) (?r\<lparr>mGet := Some v\<rparr>)"
        using ab by (simp add: verdict_def)
      assume same: "\<not> before \<noteq> route"
      show "triple n (?r\<lparr>mGet := Some v\<rparr>) (do {
               again \<leftarrow> route_revision ops;
               if again \<noteq> route \<or> cRevision v \<noteq> cRevision latest \<or>
                  \<not> inspection_credential_usable v \<or> \<not> token_matches_credential ts v
               then ret_x (0, v, Some ErrRefreshInvalidated)
               else do {
                 r \<leftarrow> probe_with ops client (cAccessToken v);
                 ret_x (fst r, v, snd r) } }) ?Q"
      proof (rule t_bind, rule t_route, rule t_if, rule t_ret)
        fix again :: u64
        let ?t = "routed (?r\<lparr>mGet := Some v\<rparr>) again"
        show "?Q (0, v, Some ErrRefreshInvalidated) ?t"
          using ab by (simp add: verdict_def)
        assume good: "\<not> (again \<noteq> route \<or> cRevision v \<noteq> cRevision latest \<or>
                  \<not> inspection_credential_usable v \<or> \<not> token_matches_credential ts v)"
        have "fits ?t v"
          using about_fits [of cid True ?t v] ab v good by simp
        then have "may_ask ?t client (cAccessToken v)"
          using good same q by (intro may_ask_verified [of _ latest _ v ts]) (auto simp: routed_def)
        then show "triple n ?t (do { r \<leftarrow> probe_with ops client (cAccessToken v); ret_x (fst r, v, snd r) }) ?Q"
          by (intro t_bind t_use [OF t_probe_with [of _ _ _ cid]] t_ret) (use ab q in auto)
      qed
    qed
  qed
qed

lemma t_probe_snapshot:
  assumes ab: "about (cID snap) True q" and q: "\<not> mInvalid q" "\<not> mFinal q" "mTokens q = None"
  shows "triple n q (probe_credential_snapshot ops snap) (\<lambda>r. verdict (cID snap) (fst r, snd (snd r)))"
  unfolding probe_credential_snapshot_def
proof (rule t_bind, rule t_get [OF about_attends [OF ab]], unfold sum.case)
  let ?Q = "\<lambda>r. verdict (cID snap) (fst r, snd (snd r))"
  let ?next = "\<lambda>current t. case snd t of
             Some e \<Rightarrow> ret_x (auth_verdict e, current, Some e)
           | None \<Rightarrow> do {
               l \<leftarrow> get_x ops (cID snap);
               case l of
                 Inl e \<Rightarrow> ret_x (0, snap, Some e)
               | Inr latest \<Rightarrow>
                   if \<not> inspection_credential_usable latest \<or> \<not> token_matches_credential (fst t) latest
                   then ret_x (0, latest, Some ErrRefreshInvalidated)
                   else probe_route ops (cID snap) latest (fst t) }"
  have out: "verdict (cID snap) (s, Some e) q'" if "about (cID snap) True q'" for s e and q' :: "'c monitor"
    using that by (simp add: verdict_def)
  show "triple n (q\<lparr>mGet := None\<rparr>) (ret_x (0, snap, Some e)) ?Q" for e
    by (rule t_ret) (use ab out in simp)
  fix current :: credential assume c: "cID current = cID snap"
  have good: "triple n q' (?next current (ts, None)) ?Q"
    if q': "about (cID snap) True q'" "\<not> mInvalid q'" "\<not> mFinal q'" "mTokens q' = None \<or> mTokens q' = Some ts" for q' ts
    unfolding snd_conv fst_conv option.case
  proof (rule t_bind, rule t_get [OF about_attends [OF q'(1)]], unfold sum.case)
    show "triple n (q'\<lparr>mGet := None\<rparr>) (ret_x (0, snap, Some e)) ?Q" for e
      by (rule t_ret) (use q' out in simp)
    show "triple n (q'\<lparr>mGet := Some l\<rparr>) (if \<not> inspection_credential_usable l \<or> \<not> token_matches_credential ts l
        then ret_x (0, l, Some ErrRefreshInvalidated) else probe_route ops (cID snap) l ts) ?Q"
      if "cID l = cID snap" for l
      by (rule t_if, rule t_ret) (use that q' out in \<open>auto intro!: t_probe_route\<close>)
  qed
  have token: "triple n (tokened q' t) (?next current t) ?Q" if "about (cID snap) True q'" "\<not> mFinal q'" for q' t
  proof (cases t)
    case (Pair ts e)
    show ?thesis
    proof (cases e)
      case None
      show ?thesis
        unfolding Pair None by (rule good) (use that in \<open>auto simp: tokened_def about_def\<close>)
    next
      case (Some err)
      show ?thesis
        unfolding Pair Some snd_conv option.case by (rule t_ret) (use that out in simp)
    qed
  qed
  let ?c = "q\<lparr>mGet := Some current\<rparr>"
  have "triple n ?c (ensure_token_for_inspection ops current \<bind> ?next current) ?Q"
  proof (cases "opRefresher ops")
    case None
    show ?thesis
      unfolding ensure_token_for_inspection_def None option.case
      by (rule t_bind, rule t_ret, unfold no_refresher_result_def, rule good) (use ab q in auto)
  next
    case (Some f)
    obtain en fo where f: "f = (en, fo)"
      by (cases f)
    show ?thesis
      unfolding ensure_token_for_inspection_def Some f option.case prod.case
      by (rule t_bind, rule t_inspection_tokens [OF Some [unfolded f]])
        (use ab q c token in \<open>auto simp: about_attends\<close>)
  qed
  then show "triple n ?c (if \<not> inspection_credential_usable current
         then ret_x (0, current, Some ErrRefreshInvalidated)
         else ensure_token_for_inspection ops current \<bind> ?next current) ?Q"
    by (intro t_if t_ret) (use ab out in auto)
qed

lemma subject_about [simp]: "about cid s (subject_init cid s)"
  by (simp add: about_def subject_init_def monitor_init_def)

lemma probe_follows_protocol:
  assumes x: "ok (xWorld x) []" "xLog x = []"
    and run: "run_state (probe_credential_snapshot ops snap) x = ((status, v, e), x')"
  obtains q where "monitor_run (subject_init (cID snap) True) (xLog x') = Some q"
    "verdict (cID snap) (status, e) q"
proof -
  let ?m = "subject_init (cID snap) True"
  have "stands ?m ?m x"
    using x by (simp add: stands_def subject_init_def monitor_init_def)
  moreover have "triple ?m ?m (probe_credential_snapshot ops snap) (\<lambda>r. verdict (cID snap) (fst r, snd (snd r)))"
    by (rule t_probe_snapshot) (auto simp: subject_init_def monitor_init_def about_def)
  ultimately show thesis
    using t_dest [OF _ _ run] that unfolding stands_def by fastforce
qed

lemma billing_follows_protocol:
  assumes x: "ok (xWorld x) []" "xLog x = []" and run: "run_state (billing_snapshot ops cid) x = (r, x')"
  obtains q where "monitor_run (subject_init (trim_space cid) False) (xLog x') = Some q"
    "about (trim_space cid) False q"
proof -
  let ?m = "subject_init (trim_space cid) False"
  have "stands ?m ?m x"
    using x by (simp add: stands_def subject_init_def monitor_init_def)
  moreover have "triple ?m ?m (billing_snapshot ops cid) (\<lambda>r q. about (trim_space cid) False q)"
    unfolding billing_snapshot_def Let_def
    by (intro t_if t_ret t_bind t_use [OF t_billing_inner] t_silent [OF keep_ctx])
      (auto simp: subject_init_def monitor_init_def about_def)
  ultimately show thesis
    using t_dest [OF _ _ run] that unfolding stands_def by fastforce
qed

end

end
