(* ===== verification/Gateway.thy ===== *)
theory Gateway
  imports Executor_Inspect Lb
begin

text \<open>
  The composition: the executor on the selector of \<open>Lb\<close>, the credential store of \<open>Cred_Store\<close> and
  the refresher of \<open>Refresher\<close>, as \<open>main.go\<close> wires them.  Between any two calls of a request, the other
  goroutines and processes may run any operations of these components (\<open>act\<close>), chosen by the
  setting from the whole state; the network, clock and file system answers are the setting's too.
\<close>

section \<open>The state\<close>

record 'e gateway =
  gwSelector :: selector
  gwRefresher :: refresher
  gwStore :: store
  gwOutside :: 'e

text \<open>What others may do: any change of selector, refresher, the outside and the credential file, and
  the operations of the store.  Enabling, quarantining and reprioritising are patches.\<close>

datatype 'e act =
    ActSelector "selector \<Rightarrow> selector"
  | ActRefresher "refresher \<Rightarrow> refresher"
  | ActOutside "'e \<Rightarrow> 'e"
  | ActFile "credential list fs \<Rightarrow> credential list fs"
  | ActRead
  | ActClose
  | ActCreate cred_input
  | ActUpsert cred_input
  | ActBulk "cred_input list"
  | ActUpdate credential
  | ActPatch string "credential \<Rightarrow> goerr + credential"
  | ActDelete string
  | ActPurge string u64 gotime string
  | ActInspect "insp_action list"

record ('e, 'c, 'g) setting =
  seHash :: "string \<Rightarrow> string"
  seKey :: "string \<Rightarrow> string"
  seParse :: url_parser
  seIds :: "nat \<Rightarrow> string option"
  seRnd :: "int \<Rightarrow> int"
  seParsers :: clock_parsers
  seIo :: "'e gateway \<Rightarrow> io"
  seOthers :: "'e gateway \<Rightarrow> 'e act list"
  seCancelled :: "'e gateway \<Rightarrow> goerr option"
  seRoute :: "'e gateway \<Rightarrow> u64"
  seResolve :: "'e gateway \<Rightarrow> credential \<Rightarrow> goerr + 'c option"
  seCompact :: "'c \<Rightarrow> bool"
  seReply :: "'e gateway \<Rightarrow> 'c \<Rightarrow> bool \<Rightarrow> string \<Rightarrow> post_options \<Rightarrow> goerr + response"
  seModels :: "'e gateway \<Rightarrow> 'c \<Rightarrow> string \<Rightarrow> goerr + json"
  seCredits :: "'e gateway \<Rightarrow> 'c \<Rightarrow> string \<Rightarrow> goerr + dyadic option"
  seSnapshot :: "'e gateway \<Rightarrow> 'c \<Rightarrow> string \<Rightarrow> goerr + json"
  seOAuthFor :: "'e gateway \<Rightarrow> string \<Rightarrow> goerr + 'g option"
  seGrant :: "'e gateway \<Rightarrow> 'g \<Rightarrow> string \<Rightarrow> goerr + token_set"
  seBodyPatch :: "(string \<Rightarrow> string \<Rightarrow> goerr + string) option"
  seMaxAttempts :: int
  seCandidateTTL :: duration

section \<open>Interference\<close>

definition on_store :: "(store \<Rightarrow> store \<times> 'a) \<Rightarrow> 'e gateway \<Rightarrow> 'e gateway \<times> 'a" where
  "on_store f w = (let (st, a) = f (gwStore w) in (w\<lparr> gwStore := st \<rparr>, a))"

fun store_act :: "('e, 'c, 'g) setting \<Rightarrow> io \<Rightarrow> 'e act \<Rightarrow> store \<Rightarrow> store" where
  "store_act se w (ActFile f) st = st\<lparr> stFs := f (stFs st) \<rparr>"
| "store_act se w ActRead st = fst (list_credentials (seHash se) w st)"
| "store_act se w ActClose st = close_store st"
| "store_act se w (ActCreate i) st = fst (create_credential (seHash se) (seParse se) w st i)"
| "store_act se w (ActUpsert i) st = fst (upsert_credential (seHash se) (seParse se) w st i)"
| "store_act se w (ActBulk is) st = fst (bulk_upsert_credentials (seHash se) (seParse se) (seIds se) w st is)"
| "store_act se w (ActUpdate c) st = fst (update_credential (seHash se) w st c)"
| "store_act se w (ActPatch k f) st = fst (patch_credential (seHash se) w st k f)"
| "store_act se w (ActDelete k) st = fst (delete_credential (seHash se) w st k)"
| "store_act se w (ActPurge k r t p) st = fst (delete_if_purge_eligible (seHash se) w st k r t p)"
| "store_act se w (ActInspect as) st = fst (apply_inspection_actions (seHash se) w st as)"
| "store_act se w _ st = st"

definition act :: "('e, 'c, 'g) setting \<Rightarrow> 'e act \<Rightarrow> 'e gateway \<Rightarrow> 'e gateway" where
  "act se a w = (case a of
       ActSelector f \<Rightarrow> w\<lparr> gwSelector := f (gwSelector w) \<rparr>
     | ActRefresher f \<Rightarrow> w\<lparr> gwRefresher := f (gwRefresher w) \<rparr>
     | ActOutside f \<Rightarrow> w\<lparr> gwOutside := f (gwOutside w) \<rparr>
     | _ \<Rightarrow> w\<lparr> gwStore := store_act se (seIo se w) a (gwStore w) \<rparr>)"

text \<open>The same, but for the counters of open reservations, which nobody else touches.\<close>

fun spare_counters :: "'e act \<Rightarrow> 'e act" where
  "spare_counters (ActSelector f) = ActSelector (\<lambda>s. (f s)\<lparr> selInFlight := selInFlight s \<rparr>)"
| "spare_counters a = a"

definition alone :: "('e, 'c, 'g) setting \<Rightarrow> ('e, 'c, 'g) setting" where
  "alone se = se\<lparr> seOthers := (\<lambda>w. map spare_counters (seOthers se w)) \<rparr>"

definition meanwhile :: "('e, 'c, 'g) setting \<Rightarrow> 'e gateway \<Rightarrow> 'e gateway" where
  "meanwhile se w = fold (act se) (seOthers se w) w"

section \<open>The collaborators\<close>

definition answers :: "('e, 'c, 'g) setting \<Rightarrow> ('e gateway \<Rightarrow> 'a) \<Rightarrow> 'e gateway \<Rightarrow> 'e gateway \<times> 'a" where
  "answers se f w = (let w' = meanwhile se w in (w', f w'))"

definition stores ::
  "('e, 'c, 'g) setting \<Rightarrow> (io \<Rightarrow> store \<Rightarrow> store \<times> 'a) \<Rightarrow> 'e gateway \<Rightarrow> 'e gateway \<times> 'a" where
  "stores se f w = (let w' = meanwhile se w in on_store (f (seIo se w')) w')"

definition selects ::
  "('e, 'c, 'g) setting \<Rightarrow> (selector \<Rightarrow> selector \<times> 'a) \<Rightarrow> 'e gateway \<Rightarrow> 'e gateway \<times> 'a" where
  "selects se f w = (let w' = meanwhile se w; (s, a) = f (gwSelector w') in (w'\<lparr> gwSelector := s \<rparr>, a))"

text \<open>A mark changes the selector under its lock and persists the snapshot after it.\<close>

definition marks ::
  "('e, 'c, 'g) setting \<Rightarrow> (selector \<Rightarrow> selector \<times> snapshot option) \<Rightarrow> 'e gateway \<Rightarrow> string \<Rightarrow> 'e gateway" where
  "marks se f w cid = (case selects se f w of
       (w1, None) \<Rightarrow> w1
     | (w1, Some snap) \<Rightarrow>
         (let w2 = meanwhile se w1 in
          w2\<lparr> gwStore := persist_health (patch_credential (seHash se) (seIo se w2)) (gwSelector w2)
                (gwStore w2) cid snap \<rparr>))"

definition join :: "'e gateway rst \<Rightarrow> 'e gateway" where
  "join s = (snd s)\<lparr> gwRefresher := fst s \<rparr>"

definition split_gw :: "'e gateway \<Rightarrow> 'e gateway rst" where
  "split_gw w = (gwRefresher w, w)"

definition lift_gw :: "('e gateway \<Rightarrow> 'e gateway \<times> 'a) \<Rightarrow> 'e gateway rst \<Rightarrow> 'e gateway rst \<times> 'a" where
  "lift_gw f s = (let (w, a) = f (join s) in (split_gw w, a))"

definition gateway_refresh ::
  "('e, 'c, 'g) setting \<Rightarrow> 'e gateway loader \<Rightarrow> 'e gateway persister \<Rightarrow> ('e gateway, 'g) refresh_env" where
  "gateway_refresh se load persist = \<lparr> reLoad = Some (lift_gw load), reOAuth = None,
     reOAuthFor = Some (\<lambda>s k. lift_gw (answers se (\<lambda>w. seOAuthFor se w k)) s),
     reGrant = (\<lambda>c s t. lift_gw (answers se (\<lambda>w. seGrant se w c t)) s),
     rePersist = Some (\<lambda>s p n. lift_gw (\<lambda>w. persist w p n) s),
     reCtxErr = (\<lambda>s. seCancelled se (join s)) \<rparr>"

definition gateway_ensure :: "('e, 'c, 'g) setting \<Rightarrow> 'e gateway refreshing" where
  "gateway_ensure se w key cur load persist =
     (let w1 = meanwhile se w;
          (s, r) = ensure_access (gateway_refresh se load persist) (ioNow (seIo se w1)) key cur (split_gw w1) in
      (join s, r))"

definition gateway_force :: "('e, 'c, 'g) setting \<Rightarrow> 'e gateway refreshing" where
  "gateway_force se w key cur load persist =
     (let (s, r) = force_refresh (gateway_refresh se load persist) key cur (split_gw (meanwhile se w)) in
      (join s, r))"

definition unheld :: "goerr + response \<Rightarrow> goerr + response" where
  "unheld = map_sum id (\<lambda>r. r\<lparr> rsHeld := None \<rparr>)"

definition gateway_ops :: "('e, 'c, 'g) setting \<Rightarrow> ('e gateway, 'c) ops" where
  "gateway_ops se = \<lparr>
     opNow = answers se (\<lambda>w. ioNow (seIo se w)),
     opCtxErr = answers se (seCancelled se),
     opBodyPatch = seBodyPatch se, opMaxAttempts = seMaxAttempts se, opCandidateTTL = seCandidateTTL se,
     opCandidates = stores se (\<lambda>io st. list_candidates (seHash se) io st),
     opList = stores se (\<lambda>io st. list_credentials (seHash se) io st),
     opGet = (\<lambda>w cid. stores se (\<lambda>io st. get_credential (seHash se) io st cid) w),
     opPatch = (\<lambda>w cid f. stores se (\<lambda>io st. patch_credential (seHash se) io st cid f) w),
     opPick = (\<lambda>w cs conv now. selects se (\<lambda>s. pick (seKey se) s cs conv now) w),
     opMarkSuccess = (\<lambda>w cid conv now. marks se (\<lambda>s. mark_success (seKey se) s cid conv now) w cid),
     opMarkFailure = (\<lambda>w cid status ra now. marks se (\<lambda>s. mark_failure (seRnd se) s cid status ra now) w cid),
     opRelease = Some (\<lambda>w cid. fst (selects se (\<lambda>s. (release s cid, ())) w)),
     opQuota = Some (\<lambda>w cid now. marks se (\<lambda>s. mark_quota_exhausted s cid now) w cid),
     opQuotaUntil = Some (\<lambda>w cid now reset. marks se (\<lambda>s. mark_quota_exhausted_until s cid now reset) w cid),
     opHold = Some (\<lambda>w. hold_successful_response (gwSelector w),
                \<lambda>w cid conv now. marks se (\<lambda>s. mark_success_hold (seKey se) s cid conv now) w cid),
     opUpstream = None,
     opUpstreamFor = Some (\<lambda>w c. answers se (\<lambda>w. seResolve se w c) w),
     opPost = (\<lambda>w cl compact body opts. answers se (\<lambda>w. unheld (seReply se w cl compact body opts)) w),
     opCompact = seCompact se,
     opModels = (\<lambda>w cl t. answers se (\<lambda>w. seModels se w cl t) w),
     opCredits = (\<lambda>w cl t. answers se (\<lambda>w. seCredits se w cl t) w),
     opSnapshot = (\<lambda>w cl t. answers se (\<lambda>w. seSnapshot se w cl t) w),
     opRefresher = Some (gateway_ensure se, gateway_force se),
     opRoute = Some (answers se (seRoute se)),
     opParsers = seParsers se \<rparr>"

section \<open>The index of the store\<close>

definition names_st :: "store \<Rightarrow> bool" where
  "names_st st \<longleftrightarrow> (\<forall>k c. stIndex st k = Some c \<longrightarrow> cID c = k)"

definition names_ok :: "'e gateway \<Rightarrow> bool" where
  "names_ok w \<longleftrightarrow> names_st (gwStore w)"

named_theorems names_intro \<open>store operations keep the index\<close>

lemma first_by_id_names: "first_by_id doc k = Some c \<Longrightarrow> cID c = k"
  by (induction doc) (auto split: if_splits)

lemma names_set_cache [names_intro]: "names_st (set_credentials_cache w st doc stamp)"
  by (auto simp: names_st_def set_credentials_cache_def dest: first_by_id_names)

lemma names_frame [names_intro]:
  "names_st st \<Longrightarrow> names_st (st\<lparr> stFs := f \<rparr>)" "names_st st \<Longrightarrow> names_st (st\<lparr> stFs := f, stValid := b \<rparr>)"
  "names_st st \<Longrightarrow> names_st (close_store st)"
  by (auto simp: names_st_def close_store_def)

lemma names_ensure [names_intro]:
  "names_st st \<Longrightarrow> names_st (fst (ensure_credentials_cache H w st))"
  by (auto simp: ensure_credentials_cache_def intro: names_intro split: sum.split)

lemma names_save [names_intro]: "names_st st \<Longrightarrow> names_st (fst (save_credentials H w st doc))"
  by (auto simp: save_credentials_def Let_def intro: names_intro split: prod.split option.split sum.split)

lemma names_lock [names_intro]:
  "names_st st \<Longrightarrow> (\<And>st. names_st st \<Longrightarrow> names_st (fst (body st))) \<Longrightarrow> names_st (fst (with_lock w st body))"
  by (auto simp: with_lock_def split: option.split)

lemma names_with_cache [names_intro]:
  assumes "names_st st"
  shows "names_st (fst (with_cache H w st f))"
  unfolding with_cache_def
proof (rule names_lock [OF assms])
  fix u assume "names_st u"
  then have "names_st (fst (ensure_credentials_cache H w u))"
    by (rule names_intro)
  then show "names_st (fst (case ensure_credentials_cache H w u of
      (st', Some e) \<Rightarrow> (st', Inl e) | (st', None) \<Rightarrow> (st', f st')))"
    by (auto split: prod.split option.split)
qed

lemma names_mutate [names_intro]:
  assumes "names_st st"
  shows "names_st (fst (mutate_doc H w f st))"
  unfolding mutate_doc_def
proof (rule names_lock [OF assms])
  fix u assume u: "names_st u"
  have "names_st (fst (save_credentials H w u d))" for d
    by (rule names_save [OF u])
  then show "names_st (fst (case load_credentials H w u of Inl e \<Rightarrow> (u, Inl e)
       | Inr doc \<Rightarrow> (case f doc of Inl e \<Rightarrow> (u, Inl e)
            | Inr (doc', r) \<Rightarrow> (case save_credentials H w u doc' of
                   (st', Some e) \<Rightarrow> (st', Inl e) | (st', None) \<Rightarrow> (st', Inr r)))))"
    using u by (auto split: prod.split option.split sum.split dest: sym) (metis fst_conv)+
qed

lemma names_ops [names_intro]:
  assumes "names_st st"
  shows "names_st (fst (list_credentials H w st))" "names_st (fst (list_candidates H w st))"
    "names_st (fst (get_credential H w st k))" "names_st (fst (patch_credential H w st k m))"
    "names_st (fst (create_credential H pr w st i))" "names_st (fst (upsert_credential H pr w st i))"
    "names_st (fst (bulk_upsert_credentials H pr ids w st is))" "names_st (fst (update_credential H w st c))"
    "names_st (fst (delete_credential H w st k))"
  unfolding list_credentials_def list_candidates_def get_credential_def patch_credential_def
    create_credential_def upsert_credential_def bulk_upsert_credentials_def update_credential_def
    delete_credential_def
  using assms by (auto intro: names_intro split: option.split simp: Let_def)

lemma names_saved: "names_st st \<Longrightarrow> save_credentials H w st d = (st', e) \<Longrightarrow> names_st st'"
  using names_save [of st H w d] by simp

lemma names_guarded [names_intro]:
  assumes "names_st st"
  shows "names_st (fst (delete_if_purge_eligible H w st k r t p))"
    "names_st (fst (apply_inspection_actions H w st as))"
  unfolding apply_inspection_actions_def delete_if_purge_eligible_def
  using assms by (auto intro!: names_lock simp: Let_def split: option.split sum.split prod.split intro: names_saved)

lemma names_persist [names_intro]:
  "names_st st \<Longrightarrow> names_st (persist_health (patch_credential H w) s st k snap)"
  by (simp add: persist_health_def names_intro)

lemma names_store_act [names_intro]: "names_st st \<Longrightarrow> names_st (store_act se w a st)"
  by (cases a) (auto intro: names_intro)

lemma names_act: "names_ok w \<Longrightarrow> names_ok (act se a w)"
  by (cases a) (auto simp: act_def names_ok_def simp del: store_act.simps intro: names_store_act)

lemma names_meanwhile [names_intro]:
  assumes "names_ok w"
  shows "names_ok (meanwhile se w)"
proof -
  have "names_ok w \<Longrightarrow> names_ok (fold (act se) as w)" for as and w :: "'a gateway"
    by (induction as arbitrary: w) (auto intro: names_act)
  then show ?thesis
    using assms by (simp add: meanwhile_def)
qed

section \<open>What the calls preserve\<close>

text \<open>\<open>undisturbed J se\<close>: a property of the gateway that no interference and no store operation touches,
  and that is not about the refresher.\<close>

definition undisturbed :: "('e gateway \<Rightarrow> bool) \<Rightarrow> ('e, 'c, 'g) setting \<Rightarrow> bool" where
  "undisturbed J se \<longleftrightarrow> (\<forall>w. J w \<longrightarrow> J (meanwhile se w)) \<and> (\<forall>w r. J (w\<lparr> gwRefresher := r \<rparr>) = J w)"

lemma undisturbedD: "undisturbed J se \<Longrightarrow> J w \<Longrightarrow> J (meanwhile se w)"
  and undisturbed_refresher: "undisturbed J se \<Longrightarrow> J (w\<lparr> gwRefresher := r \<rparr>) = J w"
  by (simp_all add: undisturbed_def)

lemma undisturbed_names: "undisturbed names_ok se"
  unfolding undisturbed_def by (auto intro: names_meanwhile) (simp_all add: names_ok_def)

definition preserves :: "('w \<Rightarrow> bool) \<Rightarrow> ('w \<Rightarrow> 'w \<times> 'a) \<Rightarrow> bool" where
  "preserves J f \<longleftrightarrow> (\<forall>w. J w \<longrightarrow> J (fst (f w)))"

lemma preservesI: "(\<And>w. J w \<Longrightarrow> J (fst (f w))) \<Longrightarrow> preserves J f"
  by (simp add: preserves_def)

lemma preservesD: "preserves J f \<Longrightarrow> J w \<Longrightarrow> f w = (w', a) \<Longrightarrow> J w'"
  by (metis fst_conv preserves_def)

lemma preserves_answers: "undisturbed J se \<Longrightarrow> preserves J (answers se f)"
  by (rule preservesI) (simp add: answers_def Let_def undisturbedD)

text \<open>A refresh preserves what its callbacks preserve.\<close>

definition kept_by :: "('w \<Rightarrow> bool) \<Rightarrow> ('w, 'g) refresh_env \<Rightarrow> bool" where
  "kept_by J env \<longleftrightarrow>
     (\<forall>f s. reLoad env = Some f \<longrightarrow> J (snd s) \<longrightarrow> J (snd (fst (f s)))) \<and>
     (\<forall>f s k. reOAuthFor env = Some f \<longrightarrow> J (snd s) \<longrightarrow> J (snd (fst (f s k)))) \<and>
     (\<forall>c s t. J (snd s) \<longrightarrow> J (snd (fst (reGrant env c s t)))) \<and>
     (\<forall>f s p n. rePersist env = Some f \<longrightarrow> J (snd s) \<longrightarrow> J (snd (fst (f s p n))))"

lemma kept_byD:
  assumes "kept_by J env" "J w"
  shows "reLoad env = Some f \<Longrightarrow> f (r, w) = ((r', w'), a) \<Longrightarrow> J w'"
    "reOAuthFor env = Some g \<Longrightarrow> g (r, w) k = ((r', w'), b) \<Longrightarrow> J w'"
    "reGrant env c (r, w) t = ((r', w'), d) \<Longrightarrow> J w'"
    "rePersist env = Some h \<Longrightarrow> h (r, w) p n = ((r', w'), e) \<Longrightarrow> J w'"
  using assms unfolding kept_by_def by (metis fst_conv snd_conv)+

lemma resolve_keeps:
  assumes env: "kept_by J env"
  shows "resolve_client env (r, w) k = ((r', w'), a) \<Longrightarrow> J w \<Longrightarrow> J w'"
  by (auto simp: resolve_client_def split: option.splits prod.splits sum.splits dest: kept_byD(2) [OF env])

lemma commit_keeps:
  assumes env: "kept_by J env" and "commit_if_current env (r, w) k p t g e = ((r', w'), a)" "J w"
  shows "J w'"
proof (cases "rePersist env")
  case None
  then show ?thesis
    using assms(2,3) by (auto simp: commit_if_current_def Let_def split: prod.splits)
next
  case (Some persist)
  obtain r2 w2 x where p: "persist (r, w) p t = ((r2, w2), x)"
    by (metis prod.collapse)
  have "J w2"
    by (rule kept_byD(4) [OF env assms(3) Some p])
  then show ?thesis
    using assms(2) p by (cases x) (auto simp: commit_if_current_def Some Let_def split: prod.splits)
qed

lemma grant_keeps:
  assumes env: "kept_by J env"
  shows "grant_step env k p g e (r, w) = ((r', w'), a) \<Longrightarrow> J w \<Longrightarrow> J w'"
  by (auto simp: grant_step_def Let_def split: if_splits prod.splits sum.splits
      dest: resolve_keeps [OF env] kept_byD(3) [OF env] commit_keeps [OF env])

lemma flight_keeps:
  assumes env: "kept_by J env"
  shows "flight env k cur g e (r, w) = ((r', w'), a) \<Longrightarrow> J w \<Longrightarrow> J w'"
  by (auto simp: flight_def Let_def split: if_splits prod.splits sum.splits option.splits
      dest: grant_keeps [OF env] kept_byD(1) [OF env])

lemma force_keeps:
  assumes env: "kept_by J env"
  shows "force_refresh env k cur (r, w) = ((r', w'), a) \<Longrightarrow> J w \<Longrightarrow> J w'"
  by (auto simp: force_refresh_def Let_def split: if_splits prod.splits option.splits dest: flight_keeps [OF env])

lemma ensure_keeps:
  assumes env: "kept_by J env"
  shows "ensure_access env now k cur (r, w) = ((r', w'), a) \<Longrightarrow> J w \<Longrightarrow> J w'"
  by (auto simp: ensure_access_def Let_def split: if_splits option.splits dest: force_keeps [OF env])

lemma kept_gateway:
  assumes J: "undisturbed J se" and load: "preserves J load"
    and persist: "\<And>p n. preserves J (\<lambda>w. persist w p n)"
  shows "kept_by J (gateway_refresh se load persist)"
proof -
  have lift: "J (snd (fst (lift_gw f s)))" if "preserves J f" "J (snd s)"
    for f :: "'a gateway \<Rightarrow> 'a gateway \<times> 'x" and s
    using that undisturbed_refresher [OF J]
    by (auto simp: lift_gw_def split_gw_def join_def Let_def split_def preserves_def)
  show ?thesis
    unfolding kept_by_def gateway_refresh_def
    by (auto simp: lift preserves_answers [OF J] load persist)
qed

lemma preserves_refresh:
  assumes J: "undisturbed J se" and "preserves J load" "\<And>p n. preserves J (\<lambda>w. persist w p n)"
  shows "preserves J (\<lambda>w. gateway_ensure se w k cur load persist)"
    "preserves J (\<lambda>w. gateway_force se w k cur load persist)"
proof -
  note env = kept_gateway [OF assms]
  show "preserves J (\<lambda>w. gateway_ensure se w k cur load persist)"
    by (rule preservesI) (auto simp: gateway_ensure_def Let_def split_gw_def join_def undisturbed_refresher [OF J]
        split: prod.split dest!: ensure_keeps [OF env] intro: undisturbedD [OF J])
  show "preserves J (\<lambda>w. gateway_force se w k cur load persist)"
    by (rule preservesI) (auto simp: gateway_force_def Let_def split_gw_def join_def undisturbed_refresher [OF J]
        split: prod.split dest!: force_keeps [OF env] intro: undisturbedD [OF J])
qed

section \<open>The interface, with the index invariant\<close>

definition names_inv :: "('e gateway, 'c) invariant" where
  "names_inv w l \<longleftrightarrow> names_ok w"

lemma keeps_names: "preserves names_ok f \<Longrightarrow> keeps names_inv f ev"
  by (rule keepsI) (auto simp: names_inv_def dest: preservesD)

lemma names_stores:
  assumes "\<And>io st. names_st st \<Longrightarrow> names_st (fst (f io st))"
  shows "preserves names_ok (stores se f)"
proof (rule preservesI)
  fix w :: "'b gateway" assume w: "names_ok w"
  show "names_ok (fst (stores se f w))"
    using assms [of "gwStore (meanwhile se w)" "seIo se (meanwhile se w)"] names_meanwhile [OF w, of se]
    by (simp add: stores_def on_store_def names_ok_def Let_def split_def)
qed

lemma names_selects: "preserves names_ok (selects se f)"
  by (rule preservesI) (use names_meanwhile in \<open>auto simp: selects_def names_ok_def Let_def split_def\<close>)

lemma names_release: "preserves names_ok (\<lambda>w. (fst (selects se f w), ()))"
  using names_selects [of se f] by (simp add: preserves_def)

lemma names_marks: "preserves names_ok (\<lambda>w. (marks se f w cid, ()))"
proof (rule preservesI)
  fix w :: "'a gateway" assume w: "names_ok w"
  obtain w1 snap where s: "selects se f w = (w1, snap)"
    by (cases "selects se f w")
  have w1: "names_ok w1"
    by (rule preservesD [OF names_selects w s])
  show "names_ok (fst (marks se f w cid, ()))"
  proof (cases snap)
    case None
    then show ?thesis
      using w1 s by (simp add: marks_def)
  next
    case (Some sn)
    have "names_ok (meanwhile se w1)"
      by (rule names_meanwhile [OF w1])
    then show ?thesis
      using s Some by (simp add: marks_def Let_def names_ok_def names_persist)
  qed
qed

lemma get_named:
  assumes "names_st st" "get_credential H w st k = (st', Inr c)"
  shows "cID c = k"
proof -
  have "names_st (fst (ensure_credentials_cache H w st))"
    by (rule names_ensure [OF assms(1)])
  then show ?thesis
    using assms(2)
    by (auto simp: get_credential_def with_cache_def with_lock_def names_st_def
        split: if_splits option.splits prod.splits)
qed

lemma op_get_named:
  assumes "names_ok w" "opGet (gateway_ops se) w cid = (w', Inr c)"
  shows "cID c = cid"
proof -
  have "names_st (gwStore (meanwhile se w))"
    using assms(1) names_meanwhile by (auto simp: names_ok_def)
  then show ?thesis
    using assms(2)
    by (auto simp: gateway_ops_def stores_def on_store_def Let_def split: prod.splits dest: get_named)
qed

lemma op_post_unheld: "opPost (gateway_ops se) w cl compact body opts = (w', Inr r) \<Longrightarrow> rsHeld r = None"
  by (cases "seReply se (meanwhile se w) cl compact body opts")
    (auto simp: gateway_ops_def answers_def unheld_def Let_def)

interpretation gw: collaborators names_inv "gateway_ops se" for se
proof unfold_locales
  fix w :: "'a gateway" and l cid w' c
  assume "names_inv w l" "opGet (gateway_ops se) w cid = (w', Inr c)"
  then show "cID c = cid"
    by (auto simp: names_inv_def dest: op_get_named)
next
  fix en fo :: "'a gateway refreshing" and load :: "'a gateway loader" and persist :: "'a gateway persister"
    and k cur
  assume *: "opRefresher (gateway_ops se) = Some (en, fo)" "keeps names_inv load quiet"
    "\<And>p n. keeps names_inv (\<lambda>w. persist w p n) quiet"
  have pres: "preserves names_ok f" if "keeps names_inv f quiet" for f :: "'a gateway \<Rightarrow> 'a gateway \<times> 'x"
    using keepsD [OF that] by (simp add: preserves_def names_inv_def) (metis prod.collapse)
  have "preserves names_ok (\<lambda>w. gateway_ensure se w k cur load persist)"
    "preserves names_ok (\<lambda>w. gateway_force se w k cur load persist)"
    by (rule preserves_refresh [OF undisturbed_names pres [OF *(2)]]; rule pres [OF *(3)])+
  then show "keeps names_inv (\<lambda>w. en w k cur load persist) (\<lambda>r. [EvTokens k r]) \<and>
     keeps names_inv (\<lambda>w. fo w k cur load persist) (\<lambda>r. [EvTokens k r])"
    using *(1) by (auto simp: gateway_ops_def intro: keeps_names)
qed (auto simp: gateway_ops_def dest: op_post_unheld [unfolded gateway_ops_def, simplified]
      intro!: keeps_names preserves_answers [OF undisturbed_names] names_stores names_selects
        names_marks names_release names_ops)

end
