(* ===== verification/Request_Log.thy ===== *)
theory Request_Log
  imports Executor_Monitor
begin

text \<open>
  Readings of the log of a request (what was read last, which selection is open, what each event does
  to the selector's reservations), and what they are in a log the monitor accepts.
\<close>

section \<open>Readings\<close>

text \<open>The credential last read, in the selection that is open.\<close>

fun last_read :: "credential option \<Rightarrow> 'c event list \<Rightarrow> credential option" where
  "last_read c [] = c"
| "last_read c (EvPick r # es) = last_read None es"
| "last_read c (EvGet cid (Inl e) # es) = last_read None es"
| "last_read c (EvGet cid (Inr d) # es) = last_read (Some d) es"
| "last_read c (e # es) = last_read c es"

fun reserves :: "'c event \<Rightarrow> string option" where
  "reserves (EvPick (Inr c)) = Some (cID c)"
| "reserves _ = None"

fun returns :: "'c event \<Rightarrow> string option" where
  "returns (EvRelease cid) = Some cid"
| "returns (EvSuccess cid) = Some cid"
| "returns (EvFailure cid status) = Some cid"
| "returns (EvQuota cid until) = Some cid"
| "returns _ = None"

definition effect :: "string \<Rightarrow> 'c event \<Rightarrow> int" where
  "effect k e = (if reserves e = Some k then 1 else 0) - (if returns e = Some k then 1 else 0)"

text \<open>The reservations of a credential that a log leaves open.\<close>

definition reserved :: "string \<Rightarrow> 'c event list \<Rightarrow> int" where
  "reserved k l = sum_list (map (effect k) l)"

fun is_pick :: "'c event \<Rightarrow> bool" where
  "is_pick (EvPick r) = True" | "is_pick _ = False"

fun is_post :: "'c event \<Rightarrow> bool" where
  "is_post (EvPost cl compact opts r) = True" | "is_post _ = False"

definition count_ev :: "('c event \<Rightarrow> bool) \<Rightarrow> 'c event list \<Rightarrow> nat" where
  "count_ev p l = length (filter p l)"

lemma reserved_simps [simp]:
  "reserved k [] = 0" "reserved k (l @ [e]) = reserved k l + effect k e"
  by (simp_all add: reserved_def)

lemma count_ev_simps [simp]:
  "count_ev p [] = 0" "count_ev p (e # l) = (if p e then Suc (count_ev p l) else count_ev p l)"
  by (simp_all add: count_ev_def)

text \<open>The selection that is open, and the client last resolved in it, with the credential it is for.\<close>

fun open_selection :: "string option \<Rightarrow> 'c event list \<Rightarrow> string option" where
  "open_selection h [] = h"
| "open_selection h (EvPick (Inl e) # es) = open_selection None es"
| "open_selection h (EvPick (Inr c) # es) = open_selection (Some (cID c)) es"
| "open_selection h (EvHold cid # es) = open_selection None es"
| "open_selection h (e # es) = open_selection (if returns e = None then h else None) es"

fun last_resolved :: "(credential \<times> 'c) option \<Rightarrow> 'c event list \<Rightarrow> (credential \<times> 'c) option" where
  "last_resolved v [] = v"
| "last_resolved v (EvPick r # es) = last_resolved None es"
| "last_resolved v (EvResolve c (Inl e) # es) = last_resolved None es"
| "last_resolved v (EvResolve c (Inr cl) # es) = last_resolved (Some (c, cl)) es"
| "last_resolved v (e # es) = last_resolved v es"

section \<open>In an accepted log\<close>

lemma monitor_split:
  assumes "monitor_run m (xs @ e # ys) = Some q"
  obtains m1 m2 where "monitor_run m xs = Some m1" "monitor_step m1 e = Some m2" "monitor_run m2 ys = Some q"
  using assms by (auto simp: monitor_run_append split: option.splits)

lemma step_reads:
  assumes "monitor_step m e = Some m'"
  shows "mGet m' = last_read (mGet m) [e]" "mHeld m' = open_selection (mHeld m) [e]"
    "mResolved m' = last_resolved (mResolved m) [e]"
  using assms by (cases e; auto simp: close_selection_def split: if_splits sum.splits)+

lemma readings_append:
  "last_read c (xs @ ys) = last_read (last_read c xs) ys"
  "open_selection h (xs @ ys) = open_selection (open_selection h xs) ys"
  "last_resolved v (xs @ ys) = last_resolved (last_resolved v xs) ys"
proof -
  show "last_read c (xs @ ys) = last_read (last_read c xs) ys"
    by (induction c xs rule: last_read.induct) auto
  show "open_selection h (xs @ ys) = open_selection (open_selection h xs) ys"
    by (induction h xs rule: open_selection.induct) auto
  show "last_resolved v (xs @ ys) = last_resolved (last_resolved v xs) ys"
    by (induction v xs rule: last_resolved.induct) auto
qed

lemma run_reads:
  "monitor_run m l = Some q \<Longrightarrow> mGet q = last_read (mGet m) l \<and> mHeld q = open_selection (mHeld m) l \<and>
   mResolved q = last_resolved (mResolved m) l"
proof (induction l arbitrary: m)
  case (Cons e l)
  then obtain m' where m': "monitor_step m e = Some m'" "monitor_run m' l = Some q"
    by (auto split: option.splits)
  show ?case
    using Cons.IH [OF m'(2)] step_reads [OF m'(1)] readings_append(1) [of "mGet m" "[e]" l]
      readings_append(2) [of "mHeld m" "[e]" l] readings_append(3) [of "mResolved m" "[e]" l]
    by (simp only: append_Cons append_Nil)
qed simp

lemma run_subject: "monitor_run m l = Some q \<Longrightarrow> mSubject q = mSubject m"
proof (induction l arbitrary: m)
  case (Cons e l)
  then obtain m' where m': "monitor_step m e = Some m'" "monitor_run m' l = Some q"
    by (auto split: option.splits)
  have "mSubject m' = mSubject m"
    using m'(1) by (cases e) (auto simp: close_selection_def split: if_splits)
  then show ?case
    using Cons.IH [OF m'(2)] by simp
qed simp

text \<open>The open reservations are those of the open selection and of the returned body.\<close>

definition accounted :: "string \<Rightarrow> 'c monitor \<Rightarrow> 'c event list \<Rightarrow> bool" where
  "accounted k m l \<longleftrightarrow> (mBody m \<noteq> None \<longrightarrow> mFinal m \<and> mHeld m = None) \<and>
     reserved k l = (if mHeld m = Some k then 1 else 0) + (if mBody m = Some k then 1 else 0)"

lemma close_returns:
  assumes "close_selection m cid = Some m'" and acc: "accounted k m l" and e: "reserves e = None" "returns e = Some cid"
  shows "accounted k m' (l @ [e])"
  using assms by (auto simp: close_selection_def accounted_def effect_def split: if_splits)

lemma silent_accounted:
  assumes "accounted k m l" "reserves e = None" "returns e = None"
    and "mHeld m' = mHeld m" "mBody m' = mBody m" "mFinal m \<Longrightarrow> mFinal m'"
  shows "accounted k m' (l @ [e])"
  using assms by (auto simp: accounted_def effect_def)

lemma accounted_step:
  assumes acc: "accounted k m l" and step: "monitor_step m e = Some m'" and k: "k \<noteq> []"
  shows "accounted k m' (l @ [e])"
proof (cases e)
  case (EvPick r)
  then show ?thesis
    using step acc k by (cases r) (auto simp: accounted_def effect_def free_def split: if_splits)
next
  case (EvHold cid)
  then show ?thesis
    using step acc by (auto simp: accounted_def effect_def close_selection_def split: if_splits)
next
  case (EvRelease cid)
  then show ?thesis using step close_returns [OF _ acc] by simp
next
  case (EvSuccess cid)
  then show ?thesis using step close_returns [OF _ acc] by (simp split: if_splits)
next
  case (EvFailure cid status)
  then show ?thesis using step close_returns [OF _ acc] by (simp split: if_splits)
next
  case (EvQuota cid until)
  then show ?thesis using step close_returns [OF _ acc] by (simp split: if_splits)
next
  case (EvPost cl compact opts r)
  then show ?thesis
    using step silent_accounted [OF acc, of e m'] by (auto simp: may_post_def split: if_splits)
qed (use step silent_accounted [OF acc, of e m'] in \<open>auto split: if_splits\<close>)

lemma accounted_run:
  "monitor_run m l = Some q \<Longrightarrow> accounted k m l0 \<Longrightarrow> k \<noteq> [] \<Longrightarrow> accounted k q (l0 @ l)"
proof (induction l arbitrary: m l0)
  case (Cons e l)
  then obtain m' where m': "monitor_step m e = Some m'" "monitor_run m' l = Some q"
    by (auto split: option.splits)
  show ?case
    using Cons.IH [OF m'(2) accounted_step [OF Cons.prems(2) m'(1) Cons.prems(3)] Cons.prems(3)] by simp
qed simp

lemma accounted_init: "accounted k (monitor_init n) []"
  by (simp add: accounted_def monitor_init_def)

text \<open>At most two requests for each selection, and as many selections as attempts.\<close>

definition may_still :: "'c monitor \<Rightarrow> nat" where
  "may_still m = (if mHeld m = None then 0 else 2 - mPosts m) + 2 * mLeft m"

lemma bounded_step:
  assumes "monitor_step m e = Some m'"
  shows "mLeft m' + (if is_pick e then 1 else 0) = mLeft m"
    "(if is_post e then 1 else 0) + may_still m' \<le> may_still m"
  using assms
  by (cases e; auto simp: may_still_def close_selection_def may_post_def split: if_splits sum.splits option.splits)+

lemma bounded_run:
  "monitor_run m l = Some q \<Longrightarrow>
   count_ev is_pick l + mLeft q = mLeft m \<and> count_ev is_post l + may_still q \<le> may_still m"
proof (induction l arbitrary: m)
  case (Cons e l)
  then obtain m' where m': "monitor_step m e = Some m'" "monitor_run m' l = Some q"
    by (auto split: option.splits)
  show ?case
    using Cons.IH [OF m'(2)] bounded_step [OF m'(1)] by (auto split: if_splits)
qed simp

text \<open>Once a response is delivered there is neither a request nor a selection.\<close>

lemma final_step:
  assumes "monitor_step m e = Some m'" "mFinal m"
  shows "mFinal m' \<and> mAnswer m' = mAnswer m \<and> \<not> is_pick e \<and> \<not> is_post e"
  using assms by (cases e) (auto simp: close_selection_def may_post_def split: if_splits)

lemma final_run:
  "monitor_run m l = Some q \<Longrightarrow> mFinal m \<Longrightarrow>
   mFinal q \<and> mAnswer q = mAnswer m \<and> count_ev is_pick l = 0 \<and> count_ev is_post l = 0"
proof (induction l arbitrary: m)
  case (Cons e l)
  then obtain m' where m': "monitor_step m e = Some m'" "monitor_run m' l = Some q"
    by (auto split: option.splits)
  show ?case
    using Cons.IH [OF m'(2)] final_step [OF m'(1) Cons.prems(2)] by auto
qed simp

text \<open>An invalidated refresh is followed by the release of the selection, and by no other return.\<close>

definition next_return :: "'c event list \<Rightarrow> 'c event option" where
  "next_return l = find (\<lambda>e. returns e \<noteq> None) l"

lemma invalid_run:
  "monitor_run m l = Some q \<Longrightarrow> mInvalid m \<Longrightarrow> \<not> mFinal m \<Longrightarrow> mHeld m = Some cid \<Longrightarrow> cid \<noteq> [] \<Longrightarrow> free q \<Longrightarrow>
   next_return l = Some (EvRelease cid)"
proof (induction l arbitrary: m)
  case (Cons e l)
  then obtain m' where m': "monitor_step m e = Some m'" "monitor_run m' l = Some q"
    by (auto split: option.splits)
  have "next_return (e # l) = Some (EvRelease cid) \<or>
     (returns e = None \<and> mInvalid m' \<and> \<not> mFinal m' \<and> mHeld m' = Some cid)"
    using m'(1) Cons.prems(2-5)
    by (cases e) (auto simp: next_return_def free_def close_selection_def may_post_def may_ask_def split: if_splits)
  then show ?case
    using Cons.IH [OF m'(2) _ _ _ Cons.prems(5,6)] by (auto simp: next_return_def)
qed (auto simp: free_def)

lemma single_event:
  assumes "map f (filter P l) = [y]"
  obtains e xs ys where "l = xs @ e # ys" "P e" "f e = y"
proof -
  obtain e where e: "filter P l = [e]" "f e = y"
    using assms by auto
  then have "e \<in> set (filter P l)"
    by simp
  then have "e \<in> set l" "P e"
    by simp_all
  then show thesis
    using split_list [of e l] that e(2) by blast
qed

end
