(* ===== verification/Gateway_Props.thy ===== *)
theory Gateway_Props
  imports Gateway Request_Log Lb_Props
begin

text \<open>
  What a request of the composed gateway guarantees: the protocol of its calls, the tokens it sends, the
  reservations it leaves, and the attempts it may make.
\<close>

section \<open>Reservations in the selector\<close>

definition flight_is :: "(string \<rightharpoonup> int) \<Rightarrow> 'e gateway \<Rightarrow> bool" where
  "flight_is m w \<longleftrightarrow> selInFlight (gwSelector w) = m"

lemma flight_act: "flight_is m w \<Longrightarrow> flight_is m (act se (spare_counters a) w)"
  by (cases a) (auto simp: act_def flight_is_def)

lemma flight_meanwhile:
  assumes "flight_is m w"
  shows "flight_is m (meanwhile (alone se) w)"
proof -
  have "flight_is m w \<Longrightarrow> flight_is m (fold (act (alone se)) (map spare_counters as) w)" for as w
    by (induction as arbitrary: w) (auto intro: flight_act)
  then show ?thesis
    using assms by (simp add: meanwhile_def alone_def)
qed

lemma undisturbed_flight: "undisturbed (flight_is m) (alone se)"
  unfolding undisturbed_def by (auto intro: flight_meanwhile) (simp_all add: flight_is_def)

lemma flight_stores: "preserves (flight_is m) (stores (alone se) f)"
  by (rule preservesI)
    (use flight_meanwhile in \<open>auto simp: stores_def on_store_def flight_is_def Let_def split_def\<close>)

text \<open>The selector of the gateway and the log agree, as long as no more is returned than reserved.\<close>

definition balanced :: "'c event list \<Rightarrow> bool" where
  "balanced l \<longleftrightarrow> (\<forall>i\<le>length l. \<forall>k. k \<noteq> [] \<longrightarrow> 0 \<le> reserved k (take i l))"

lemma balanced_snoc: "balanced (l @ [e]) \<Longrightarrow> balanced l \<and> (\<forall>k. k \<noteq> [] \<longrightarrow> 0 \<le> reserved k l + effect k e)"
  unfolding balanced_def
proof (intro conjI allI impI)
  assume b: "\<forall>i\<le>length (l @ [e]). \<forall>k. k \<noteq> [] \<longrightarrow> 0 \<le> reserved k (take i (l @ [e]))"
  show "0 \<le> reserved k (take i l)" if "i \<le> length l" "k \<noteq> []" for i k
    using b [rule_format, of i k] that by simp
  show "0 \<le> reserved k l + effect k e" if "k \<noteq> []" for k
    using b [rule_format, of "Suc (length l)" k] that by simp
qed

definition counted :: "(string \<Rightarrow> nat) \<Rightarrow> (string \<rightharpoonup> int) \<Rightarrow> 'c event list \<Rightarrow> bool" where
  "counted base m l \<longleftrightarrow> balanced l \<longrightarrow> (\<forall>k. k \<noteq> [] \<longrightarrow> count_of m k = int (base k) + reserved k l)"

definition counted_inv :: "(string \<Rightarrow> nat) \<Rightarrow> ('e gateway, 'c) invariant" where
  "counted_inv base w l \<longleftrightarrow> names_ok w \<and> counted base (selInFlight (gwSelector w)) l"

text \<open>An event changes the counters as it changes the reservations.\<close>

definition follows :: "'c event \<Rightarrow> (string \<rightharpoonup> int) \<Rightarrow> (string \<rightharpoonup> int) \<Rightarrow> bool" where
  "follows e m m' \<longleftrightarrow> (\<forall>k. k \<noteq> [] \<longrightarrow> returns e \<noteq> Some k \<or> 0 < count_of m k \<longrightarrow>
     count_of m' k = count_of m k + effect k e)"

lemma counted_follows:
  assumes "counted base m l" "follows e m m'"
  shows "counted base m' (l @ [e])"
  unfolding counted_def
proof (intro impI allI)
  fix k :: string
  assume b: "balanced (l @ [e])" and k: "k \<noteq> []"
  have c: "count_of m k = int (base k) + reserved k l"
    using assms(1) balanced_snoc [OF b] k by (auto simp: counted_def)
  moreover have "0 \<le> reserved k l + effect k e"
    using balanced_snoc [OF b] k by blast
  ultimately have "returns e \<noteq> Some k \<or> 0 < count_of m k \<or> reserves e = Some k"
    by (auto simp: effect_def split: if_splits)
  moreover have "\<not> (reserves e = Some k \<and> returns e = Some k)"
    by (cases e) (auto split: sum.splits elim: reserves.elims)
  ultimately show "count_of m' k = int (base k) + reserved k (l @ [e])"
    using assms(2) k c by (auto simp: follows_def)
qed

lemma keeps_event:
  assumes names: "preserves names_ok f"
    and ev: "\<And>w w' a. f w = (w', a) \<Longrightarrow> follows (ev a) (selInFlight (gwSelector w)) (selInFlight (gwSelector w'))"
  shows "keeps (counted_inv base) f (\<lambda>a. [ev a])"
  by (rule keepsI) (use ev in \<open>auto simp: counted_inv_def intro: preservesD [OF names] counted_follows\<close>)

lemma keeps_quiet:
  assumes names: "preserves names_ok f" and flight: "\<And>m. preserves (flight_is m) f"
  shows "keeps (counted_inv base) f quiet"
proof (rule keepsI)
  fix w w' and l :: "'c event list" and a
  assume inv: "counted_inv base w l" and run: "f w = (w', a)"
  have "flight_is (selInFlight (gwSelector w)) w'"
    by (rule preservesD [OF flight _ run]) (simp add: flight_is_def)
  then show "counted_inv base w' (l @ [])"
    using inv preservesD [OF names _ run] by (auto simp: counted_inv_def flight_is_def)
qed

text \<open>A logged call that leaves the counters alone.\<close>

lemma keeps_logged:
  assumes names: "preserves names_ok f" and flight: "\<And>m. preserves (flight_is m) f"
    and "\<And>a. reserves (ev a) = None" "\<And>a. returns (ev a) = None"
  shows "keeps (counted_inv base) f (\<lambda>a. [ev a])"
proof (rule keeps_event [OF names])
  fix w w' a assume "f w = (w', a)"
  then have "flight_is (selInFlight (gwSelector w)) w'"
    by (rule preservesD [OF flight, rotated]) (simp add: flight_is_def)
  then show "follows (ev a) (selInFlight (gwSelector w)) (selInFlight (gwSelector w'))"
    using assms(3,4) by (simp add: follows_def effect_def flight_is_def)
qed

section \<open>The selector's operations\<close>

lemma follows_release: "follows (EvRelease cid) (selInFlight s) (selInFlight (release s cid))"
  by (auto simp: follows_def effect_def release_def)

lemma release_locked_follows:
  "returns e = Some cid \<Longrightarrow> reserves e = None \<Longrightarrow>
   follows e (selInFlight s) (selInFlight (release_locked s cid))"
  by (auto simp: follows_def effect_def)

lemma follows_same: "returns e = Some [] \<Longrightarrow> reserves e = None \<Longrightarrow> follows e m m"
  by (auto simp: follows_def effect_def)

lemma follows_success:
  "follows (EvSuccess cid) (selInFlight s) (selInFlight (fst (mark_success K s cid key now)))"
  by (cases "cid = []") (simp_all add: mark_success_def mark_success_gen_def Let_def follows_same release_locked_follows)

lemma follows_hold:
  "follows (EvHold cid) (selInFlight s) (selInFlight (fst (mark_success_hold K s cid key now)))"
  by (simp add: mark_success_hold_def mark_success_gen_def Let_def follows_def effect_def)

lemma follows_failure:
  "follows (EvFailure cid status) (selInFlight s) (selInFlight (fst (mark_failure rnd s cid status ra now)))"
  by (cases "cid = []") (simp_all add: mark_failure_def Let_def follows_same release_locked_follows)

lemma follows_quota:
  "follows (EvQuota cid u) (selInFlight s) (selInFlight (fst (mark_quota_exhausted_until s cid now reset)))"
  by (cases "cid = []") (simp_all add: mark_quota_exhausted_until_def Let_def follows_same release_locked_follows)

lemma follows_pick:
  "follows (EvPick (snd (pick K s cs key now))) (selInFlight s) (selInFlight (fst (pick K s cs key now)))"
proof -
  have fresh: "follows (EvPick (snd (pick_fresh K t av key now))) (selInFlight t)
      (selInFlight (fst (pick_fresh K t av key now)))" for t av
  proof (cases "pick_by_strategy t av")
    case None
    then show ?thesis
      by (simp add: pick_fresh_def follows_def effect_def)
  next
    case (Some sc)
    obtain s1 c where sc: "sc = (s1, c)"
      by (cases sc)
    have "selInFlight s1 = selInFlight t"
      using pick_by_strategy_frame [OF Some [unfolded sc]] by simp
    then show ?thesis
      by (auto simp: pick_fresh_def Some sc Let_def follows_def effect_def)
  qed
  obtain s1 av where a: "available_locked s cs now = (s1, av)"
    by (cases "available_locked s cs now")
  have s1: "selInFlight s1 = selInFlight s"
    using available_locked_frame(1) [of s cs now] a by simp
  obtain s2 b where g: "get_sticky K s1 key now = (s2, b)"
    by (cases "get_sticky K s1 key now")
  have s2: "selInFlight s2 = selInFlight s"
    using get_sticky_frame(1) [of K s1 key now] g s1 by simp
  have "pick K s cs key now = (s1, Inl ErrNoCredential) \<or> pick K s cs key now = pick_fresh K s1 av key now \<or>
      pick K s cs key now = pick_fresh K s2 av key now \<or>
      (\<exists>c. pick K s cs key now = (reserve_locked s2 (cID c), Inr c))"
    by (auto simp: pick_def a g split: option.splits)
  then show ?thesis
    using fresh [of s1 av] fresh [of s2 av] s1 s2
    by (elim disjE exE) (simp_all add: follows_def effect_def)
qed

lemma follows_selects:
  assumes "\<And>s. follows (ev (snd (f s))) (selInFlight s) (selInFlight (fst (f s)))"
    and "selects (alone se) f w = (w', a)"
  shows "follows (ev a) (selInFlight (gwSelector w)) (selInFlight (gwSelector w'))"
proof -
  have "flight_is (selInFlight (gwSelector w)) (meanwhile (alone se) w)"
    by (rule flight_meanwhile) (simp add: flight_is_def)
  then show ?thesis
    using assms(1) [of "gwSelector (meanwhile (alone se) w)"] assms(2)
    by (auto simp: selects_def flight_is_def Let_def split: prod.splits)
qed

lemma follows_marks:
  assumes "\<And>s. follows e (selInFlight s) (selInFlight (fst (f s)))"
  shows "follows e (selInFlight (gwSelector w)) (selInFlight (gwSelector (marks (alone se) f w cid)))"
proof -
  obtain w1 snap where s: "selects (alone se) f w = (w1, snap)"
    by (cases "selects (alone se) f w")
  have "follows e (selInFlight (gwSelector w)) (selInFlight (gwSelector w1))"
    by (rule follows_selects [where ev = "\<lambda>_. e", OF assms s])
  moreover have "selInFlight (gwSelector (meanwhile (alone se) w1)) = selInFlight (gwSelector w1)"
    using flight_meanwhile [of "selInFlight (gwSelector w1)" w1 se] by (simp add: flight_is_def)
  ultimately show ?thesis
    by (simp add: marks_def s Let_def split: option.split)
qed

lemma keeps_mark:
  assumes "\<And>s. follows e (selInFlight s) (selInFlight (fst (f s)))"
  shows "keeps (counted_inv base) (\<lambda>w. (marks (alone se) f w cid, ())) (\<lambda>_. [e])"
  by (rule keeps_event [OF names_marks]) (use follows_marks [OF assms] in auto)

section \<open>The interface, with the counters\<close>

lemma undisturbed_counted: "undisturbed (\<lambda>w. counted_inv base w l) (alone se)"
proof -
  have "counted_inv base (meanwhile (alone se) w) l" if "counted_inv base w l" for w :: "'a gateway"
    using that flight_meanwhile [of "selInFlight (gwSelector w)" w se]
    by (auto simp: counted_inv_def flight_is_def intro: names_meanwhile)
  then show ?thesis
    unfolding undisturbed_def by (auto simp: counted_inv_def names_ok_def)
qed

lemma keeps_refreshing:
  assumes load: "keeps (counted_inv base :: ('e gateway, 'c) invariant) load quiet"
    and persist: "\<And>p n. keeps (counted_inv base :: ('e gateway, 'c) invariant) (\<lambda>w. persist w p n) quiet"
  shows "keeps (counted_inv base :: ('e gateway, 'c) invariant) (\<lambda>w. gateway_ensure (alone se) w k cur load persist) (\<lambda>r. [EvTokens k r])"
    "keeps (counted_inv base :: ('e gateway, 'c) invariant) (\<lambda>w. gateway_force (alone se) w k cur load persist) (\<lambda>r. [EvTokens k r])"
proof -
  have pres: "preserves (\<lambda>w. counted_inv base w l) f" if "keeps (counted_inv base :: ('e gateway, 'c) invariant) f quiet"
    for f :: "'e gateway \<Rightarrow> 'e gateway \<times> 'x" and l :: "'c event list"
  proof (rule preservesI)
    fix w :: "'e gateway" assume w: "counted_inv base w l"
    show "counted_inv base (fst (f w)) l"
      using keepsD [OF that w, of "fst (f w)" "snd (f w)"] by simp
  qed
  have snoc: "counted_inv base w (l @ [EvTokens k r])" if "counted_inv base w l" for w :: "'e gateway" and l :: "'c event list" and r
    using that counted_follows [of base "selInFlight (gwSelector w)" l "EvTokens k r"]
    by (simp add: counted_inv_def follows_def effect_def)
  note both = preserves_refresh [OF undisturbed_counted pres [OF load] pres [OF persist]]
  show "keeps (counted_inv base :: ('e gateway, 'c) invariant) (\<lambda>w. gateway_ensure (alone se) w k cur load persist) (\<lambda>r. [EvTokens k r])"
    by (rule keepsI, rule snoc, rule preservesD [OF both(1)])
  show "keeps (counted_inv base :: ('e gateway, 'c) invariant) (\<lambda>w. gateway_force (alone se) w k cur load persist) (\<lambda>r. [EvTokens k r])"
    by (rule keepsI, rule snoc, rule preservesD [OF both(2)])
qed

lemmas counted_calls =
  keeps_quiet [OF preserves_answers [OF undisturbed_names] preserves_answers [OF undisturbed_flight]]
  keeps_logged [OF preserves_answers [OF undisturbed_names] preserves_answers [OF undisturbed_flight]]
  keeps_quiet [OF names_stores flight_stores] keeps_logged [OF names_stores flight_stores]
  keeps_mark

lemma counted_pick:
  "keeps (counted_inv base) (selects (alone se) (\<lambda>s. pick K s cs conv now)) (\<lambda>r. [EvPick r])"
  by (rule keeps_event [OF names_selects]) (rule follows_selects [OF follows_pick])

lemma flight_release:
  assumes "selects (alone se) (\<lambda>s. (release s cid, ())) w = (w', ())"
  shows "follows (EvRelease cid) (selInFlight (gwSelector w)) (selInFlight (gwSelector w'))"
  by (rule follows_selects [where ev = "\<lambda>_. EvRelease cid", OF _ assms]) (simp add: follows_release)

lemma counted_release:
  "keeps (counted_inv base) (\<lambda>w. (fst (selects (alone se) (\<lambda>s. (release s cid, ())) w), ())) (\<lambda>_. [EvRelease cid])"
proof (rule keeps_event [OF names_release])
  fix w w' :: "'a gateway" and a :: unit
  assume "(fst (selects (alone se) (\<lambda>s. (release s cid, ())) w), ()) = (w', a)"
  then have "selects (alone se) (\<lambda>s. (release s cid, ())) w = (w', ())"
    by (metis fst_conv old.unit.exhaust prod.collapse)
  then show "follows (EvRelease cid) (selInFlight (gwSelector w)) (selInFlight (gwSelector w'))"
    by (rule flight_release)
qed

interpretation counted: collaborators "counted_inv base" "gateway_ops (alone se)" for base and se :: "('e, 'c, 'g) setting"
proof unfold_locales
  fix w :: "'e gateway" and l cid w' c
  assume "counted_inv base w l" "opGet (gateway_ops (alone se)) w cid = (w', Inr c)"
  then show "cID c = cid"
    by (auto simp: counted_inv_def dest: op_get_named)
next
  fix w :: "'e gateway" and cl compact body opts w' r
  assume "opPost (gateway_ops (alone se)) w cl compact body opts = (w', Inr r)"
  then show "rsHeld r = None"
    by (rule op_post_unheld)
next
  fix en fo :: "'e gateway refreshing" and load :: "'e gateway loader" and persist :: "'e gateway persister"
    and k cur
  assume "opRefresher (gateway_ops (alone se)) = Some (en, fo)" "keeps (counted_inv base :: ('e gateway, 'c) invariant) load quiet"
    "\<And>p n. keeps (counted_inv base :: ('e gateway, 'c) invariant) (\<lambda>w. persist w p n) quiet"
  then show "keeps (counted_inv base :: ('e gateway, 'c) invariant) (\<lambda>w. en w k cur load persist) (\<lambda>r. [EvTokens k r]) \<and>
     keeps (counted_inv base :: ('e gateway, 'c) invariant) (\<lambda>w. fo w k cur load persist) (\<lambda>r. [EvTokens k r])"
    by (auto simp: gateway_ops_def intro: keeps_refreshing)
qed (auto simp: gateway_ops_def mark_quota_exhausted_def intro!: counted_calls names_ops counted_pick counted_release
      follows_success follows_failure follows_quota follows_hold)

section \<open>A sample gateway\<close>

text \<open>One credential, and an upstream that asks for an upgrade.\<close>

definition no_parsers :: clock_parsers where
  "no_parsers = \<lparr> cpDuration = (\<lambda>_. None), cpRFC3339 = (\<lambda>_. None), cpHTTP = (\<lambda>_. None) \<rparr>"

definition sample_setting :: "(unit, unit, unit) setting" where
  "sample_setting = \<lparr> seHash = id, seKey = id, seParse = (\<lambda>_. None), seIds = (\<lambda>_. None),
     seRnd = (\<lambda>n. n - 1), seParsers = no_parsers, seIo = (\<lambda>_. sample_io 3000000000), seOthers = (\<lambda>_. []),
     seCancelled = (\<lambda>_. None), seRoute = (\<lambda>_. 0), seResolve = (\<lambda>_ _. Inr (Some ())), seCompact = (\<lambda>_. False),
     seReply = (\<lambda>_ _ _ _ _. Inr \<lparr> rsStatus = 426, rsHeader = (\<lambda>_. []), rsBody = ''{}'', rsHeld = None \<rparr>),
     seModels = (\<lambda>_ _ _. Inr JNull), seCredits = (\<lambda>_ _ _. Inr None),
     seSnapshot = (\<lambda>_ _ _. Inr JNull), seOAuthFor = (\<lambda>_ _. Inr None), seGrant = (\<lambda>_ _ _. Inl ErrNetwork),
     seBodyPatch = None, seMaxAttempts = 3, seCandidateTTL = 0 \<rparr>"

definition sample_world :: "unit gateway" where
  "sample_world = \<lparr> gwSelector = new_selector sample_config, gwRefresher = no_refresher,
     gwStore = sample_store, gwOutside = () \<rparr>"

definition sample_exec :: "(unit gateway, unit) exec" where
  "sample_exec = \<lparr> xWorld = sample_world, xCandidates = [], xCandidatesTill = 0, xLastUsed = Map.empty,
     xDone = False, xLog = [] \<rparr>"

definition sample_request :: request where
  "sample_request = \<lparr> rqModel = ''m'', rqConv = [], rqBody = ''{}'', rqStream = False, rqCompact = False, rqKey = [] \<rparr>"

fun sent :: "'c event \<Rightarrow> string \<times> bool" where
  "sent (EvPost cl compact opts r) = (poAccessToken opts, delivered r)"
| "sent _ = ([], False)"

lemma sample_ok: "names_ok (xWorld sample_exec)" "xLog sample_exec = []"
  by (simp_all add: names_ok_def names_st_def sample_exec_def sample_world_def sample_store_def)

lemma sample_run:
  "map_prod (map_sum id rsStatus) (\<lambda>x. (map sent (filter is_post (xLog x)), count_ev is_pick (xLog x)))
     (run_state (post_request (gateway_ops sample_setting) sample_request) sample_exec) =
   (Inr 426, [(''at'', True)], 1)"
  by code_simp

lemma sample_runs:
  obtains s x' where "run_state (post_request (gateway_ops sample_setting) sample_request) sample_exec = (Inr s, x')"
    "rsStatus s = 426" "map sent (filter is_post (xLog x')) = [(''at'', True)]"
proof -
  obtain r x' where run: "run_state (post_request (gateway_ops sample_setting) sample_request) sample_exec = (r, x')"
    by (cases "run_state (post_request (gateway_ops sample_setting) sample_request) sample_exec")
  then show thesis
    using sample_run that by (cases r) auto
qed

section \<open>What a request guarantees\<close>

lemma gateway_run:
  assumes "names_ok (xWorld x)" "xLog x = []" "run_state (post_request (gateway_ops se) rq) x = (r, x')"
  obtains j q where "j \<le> max_attempts (gateway_ops se)" "concluded j r q"
    "monitor_run (monitor_init (max_attempts (gateway_ops se))) (xLog x') = Some q"
  by (rule gw.request_follows_protocol [OF _ assms(2,3)]) (use assms(1) that in \<open>auto simp: names_inv_def\<close>)

text \<open>
  A request keeps the protocol of the executor, whatever the collaborators answer and whatever other
  requests, imports, operators and processes do between two of its calls: selections are opened and
  closed one at a time, each closed exactly once by a release, a success, a failure or a quota mark; a
  success is recorded only for a delivered response and a failure never after one; and it ends with no
  selection open, holding a reservation only for the body of the response it returns.
\<close>
theorem request_keeps_protocol:
  assumes "names_ok (xWorld x)" "xLog x = []"
    and "run_state (post_request (gateway_ops se) rq) x = (r, x')"
  shows "\<exists>j q. monitor_run (monitor_init (max_attempts (gateway_ops se))) (xLog x') = Some q \<and>
    j \<le> max_attempts (gateway_ops se) \<and> concluded j r q"
  using gateway_run [OF assms] by blast

theorem request_keeps_protocol_witness:
  "\<exists>s x' q j. run_state (post_request (gateway_ops sample_setting) sample_request) sample_exec = (Inr s, x') \<and>
     rsStatus s = 426 \<and> monitor_run (monitor_init 3) (xLog x') = Some q \<and> concluded j (Inr s) q"
proof -
  obtain s x' where run: "run_state (post_request (gateway_ops sample_setting) sample_request) sample_exec = (Inr s, x')"
      "rsStatus s = 426"
    by (rule sample_runs)
  have "max_attempts (gateway_ops sample_setting) = 3"
    by (simp add: max_attempts_def gateway_ops_def sample_setting_def)
  then show ?thesis
    using request_keeps_protocol [OF sample_ok run(1)] run by auto
qed

text \<open>
  C1: Every request sent upstream carries the access token of the credential as the store last returned
  it, and that credential is the one selected, is enabled and not manually disabled, and has the revision
  for which the client was resolved: no stale or superseded token is ever sent, on the first attempt or
  after a forced refresh.
\<close>
theorem sent_token_is_verified:
  assumes "names_ok (xWorld x)" "xLog x = []"
    and "run_state (post_request (gateway_ops se) rq) x = (r, x')"
    and "xLog x' = xs @ EvPost cl compact opts res # ys"
  shows "\<exists>c d. last_read None xs = Some c \<and> live c \<and> poAccessToken opts = cAccessToken c \<and>
    open_selection None xs = Some (cID c) \<and> last_resolved None xs = Some (d, cl) \<and> cRevision d = cRevision c"
proof -
  let ?m = "monitor_init (max_attempts (gateway_ops se))"
  obtain j q where "monitor_run ?m (xs @ EvPost cl compact opts res # ys) = Some q"
    using gateway_run [OF assms(1-3)] assms(4) by metis
  then obtain m1 m2 where m: "monitor_run ?m xs = Some m1" "monitor_step m1 (EvPost cl compact opts res) = Some m2"
    by (rule monitor_split)
  have "may_post m1 cl opts"
    using m(2) by (simp split: if_splits)
  moreover have "mGet m1 = last_read None xs" "mHeld m1 = open_selection None xs"
    "mResolved m1 = last_resolved None xs"
    using run_reads [OF m(1)] by (simp_all add: monitor_init_def)
  ultimately show ?thesis
    by (auto simp: may_post_def split: option.splits)
qed

lemma sample_post:
  obtains s x' xs cl compact opts res ys where
    "run_state (post_request (gateway_ops sample_setting) sample_request) sample_exec = (Inr s, x')"
    "xLog x' = xs @ EvPost cl compact opts res # ys" "poAccessToken opts = ''at''" "delivered res"
proof -
  obtain s x' where run: "run_state (post_request (gateway_ops sample_setting) sample_request) sample_exec = (Inr s, x')"
    "rsStatus s = 426" "map sent (filter is_post (xLog x')) = [(''at'', True)]"
    by (rule sample_runs)
  obtain e xs ys where e: "xLog x' = xs @ e # ys" "is_post e" "sent e = (''at'', True)"
    by (rule single_event [OF run(3)])
  obtain cl compact opts res where "e = EvPost cl compact opts res"
    using e(2) by (cases e) auto
  then show thesis
    using that run e by auto
qed

theorem sent_token_is_verified_witness:
  "\<exists>x' xs cl compact opts res ys c.
     snd (run_state (post_request (gateway_ops sample_setting) sample_request) sample_exec) = x' \<and>
     xLog x' = xs @ EvPost cl compact opts res # ys \<and> last_read None xs = Some c \<and> live c \<and> cAccessToken c = ''at''"
proof -
  obtain s x' xs cl compact opts res ys where run:
    "run_state (post_request (gateway_ops sample_setting) sample_request) sample_exec = (Inr s, x')"
    "xLog x' = xs @ EvPost cl compact opts res # ys" "poAccessToken opts = ''at''"
    by (rule sample_post)
  obtain c where "last_read None xs = Some c" "live c" "poAccessToken opts = cAccessToken c"
    using sent_token_is_verified [OF sample_ok run(1,2)] by blast
  then show ?thesis
    using run by (metis snd_conv)
qed

text \<open>
  C28: The first response that succeeds, or asks for an upgrade, is the one the caller gets: after it the
  request neither selects another credential nor sends anything again.
\<close>
theorem delivered_response_is_final:
  assumes "names_ok (xWorld x)" "xLog x = []"
    and "run_state (post_request (gateway_ops se) rq) x = (r, x')"
    and "xLog x' = xs @ EvPost cl compact opts res # ys" and "delivered res"
  shows "answer r = answer res \<and> count_ev is_pick ys = 0 \<and> count_ev is_post ys = 0"
proof -
  let ?m = "monitor_init (max_attempts (gateway_ops se))"
  obtain j q where q: "concluded j r q" "monitor_run ?m (xs @ EvPost cl compact opts res # ys) = Some q"
    using gateway_run [OF assms(1-3)] assms(4) by metis
  obtain m1 m2 where m: "monitor_step m1 (EvPost cl compact opts res) = Some m2" "monitor_run m2 ys = Some q"
    by (rule monitor_split [OF q(2)])
  then have "mFinal m2" "mAnswer m2 = answer res"
    using assms(5) by (auto split: if_splits)
  then show ?thesis
    using final_run [OF m(2)] q(1) by (simp add: concluded_def)
qed

theorem delivered_response_is_final_witness:
  "\<exists>s x' xs cl compact opts res ys.
     run_state (post_request (gateway_ops sample_setting) sample_request) sample_exec = (Inr s, x') \<and>
     xLog x' = xs @ EvPost cl compact opts res # ys \<and> answer res = answer (Inr s) \<and> count_ev is_pick ys = 0"
proof -
  obtain s x' xs cl compact opts res ys where run:
    "run_state (post_request (gateway_ops sample_setting) sample_request) sample_exec = (Inr s, x')"
    "xLog x' = xs @ EvPost cl compact opts res # ys" "delivered res"
    by (rule sample_post)
  then show ?thesis
    using delivered_response_is_final [OF sample_ok run(1,2,3)] by metis
qed


text \<open>
  A refresh that reports an invalidation never costs the credential anything: the next thing that
  closes the selection is its release, not a failure and not a quota mark.
\<close>
theorem invalidation_is_not_penalised:
  assumes "names_ok (xWorld x)" "xLog x = []"
    and "run_state (post_request (gateway_ops se) rq) x = (r, x')"
    and "xLog x' = xs @ EvTokens cid (ts, Some e) # ys" and "is_invalidated e" and "cid \<noteq> []"
  shows "next_return ys = Some (EvRelease cid)"
proof -
  let ?m = "monitor_init (max_attempts (gateway_ops se))"
  obtain j q where q: "concluded j r q" "monitor_run ?m (xs @ EvTokens cid (ts, Some e) # ys) = Some q"
    using gateway_run [OF assms(1-3)] assms(4) by metis
  obtain m1 m2 where m: "monitor_run ?m xs = Some m1" "monitor_step m1 (EvTokens cid (ts, Some e)) = Some m2"
      "monitor_run m2 ys = Some q"
    by (rule monitor_split [OF q(2)])
  have "mSubject m1 = None"
    using run_subject [OF m(1)] by (simp add: monitor_init_def)
  then have "mInvalid m2" "\<not> mFinal m2" "mHeld m2 = Some cid"
    using m(2) assms(5) by (auto simp: attends_def split: if_splits)
  then show ?thesis
    using invalid_run [OF m(3)] assms(6) q(1) by (simp add: concluded_def)
qed


text \<open>A refresher whose cache has fallen behind the store, and a single attempt.\<close>

definition stale_exec :: "(unit gateway, unit) exec" where
  "stale_exec = sample_exec\<lparr> xWorld := sample_world\<lparr> gwRefresher := no_refresher\<lparr> rfCache :=
     [''c1'' \<mapsto> no_tokens\<lparr> tkRefresh := ''old'', tkExpiresAt := 1 \<rparr>] \<rparr> \<rparr> \<rparr>"

definition one_attempt :: "(unit, unit, unit) setting" where
  "one_attempt = sample_setting\<lparr> seMaxAttempts := 1 \<rparr>"

fun invalidation :: "'c event \<Rightarrow> string option" where
  "invalidation (EvTokens cid (ts, Some e)) = (if is_invalidated e then Some cid else None)"
| "invalidation _ = None"

lemma stale_run:
  "map invalidation (filter (\<lambda>e. invalidation e \<noteq> None)
     (xLog (snd (run_state (post_request (gateway_ops one_attempt) sample_request) stale_exec)))) = [Some ''c1'']"
  by code_simp

theorem invalidation_is_not_penalised_witness:
  "\<exists>x' xs ts e ys. snd (run_state (post_request (gateway_ops one_attempt) sample_request) stale_exec) = x' \<and>
     xLog x' = xs @ EvTokens ''c1'' (ts, Some e) # ys \<and> next_return ys = Some (EvRelease ''c1'')"
proof -
  obtain r x' where run: "run_state (post_request (gateway_ops one_attempt) sample_request) stale_exec = (r, x')"
    by (cases "run_state (post_request (gateway_ops one_attempt) sample_request) stale_exec")
  obtain ev xs ys where split: "xLog x' = xs @ ev # ys" and ev: "invalidation ev = Some ''c1''"
    by (rule single_event [OF stale_run [unfolded run snd_conv]])
  obtain ts e where e: "ev = EvTokens ''c1'' (ts, Some e)" "is_invalidated e"
    using ev by (cases ev rule: invalidation.cases) (auto split: if_splits)
  have ok: "names_ok (xWorld stale_exec)" "xLog stale_exec = []"
    using sample_ok by (simp_all add: stale_exec_def sample_exec_def names_ok_def)
  show ?thesis
    using invalidation_is_not_penalised [OF ok run split [unfolded e(1)] e(2)] run split e(1) by auto
qed

text \<open>Accepted logs are balanced.\<close>

lemma monitor_balanced:
  assumes "monitor_run (monitor_init n) l = Some q"
  shows "balanced l"
  unfolding balanced_def
proof (intro allI impI)
  fix i and k :: string assume "i \<le> length l" and k: "k \<noteq> []"
  obtain q' where "monitor_run (monitor_init n) (take i l) = Some q'"
    using assms monitor_run_append [of "monitor_init n" "take i l" "drop i l"] by (auto split: option.splits)
  from accounted_run [OF this accounted_init k] show "0 \<le> reserved k (take i l)"
    by (simp add: accounted_def)
qed

lemma counted_log:
  assumes inv: "counted_inv base w l" and q: "monitor_run (monitor_init n) l = Some q" "free q" and k: "k \<noteq> []"
  shows "count_of (selInFlight (gwSelector w)) k = int (base k) + (if mBody q = Some k then 1 else 0)"
proof -
  have acc: "accounted k q l"
    using accounted_run [OF q(1) accounted_init k] by simp
  have "count_of (selInFlight (gwSelector w)) k = int (base k) + reserved k l"
    using inv monitor_balanced [OF q(1)] k by (simp add: counted_inv_def counted_def)
  moreover have "reserved k l = (if mBody q = Some k then 1 else 0)"
    using acc q(2) k by (auto simp: accounted_def free_def)
  ultimately show ?thesis
    by simp
qed

text \<open>The counters a selector starts with.\<close>

definition counts_of :: "('e gateway, 'c) exec \<Rightarrow> string \<Rightarrow> nat" where
  "counts_of x k = nat (count_of (selInFlight (gwSelector (xWorld x))) k)"

lemma counted_start:
  assumes "names_ok (xWorld x)" "\<And>k. 0 \<le> count_of (selInFlight (gwSelector (xWorld x))) k"
  shows "counted_inv (counts_of x) (xWorld x) []"
  using assms by (simp add: counted_inv_def counted_def counts_of_def)

lemma counted_run:
  assumes "names_ok (xWorld x)" "xLog x = []" "\<And>k. 0 \<le> count_of (selInFlight (gwSelector (xWorld x))) k"
    and run: "run_state (post_request (gateway_ops (alone se)) rq) x = (r, x')" and k: "k \<noteq> []"
  shows "count_of (selInFlight (gwSelector (xWorld x'))) k =
    count_of (selInFlight (gwSelector (xWorld x))) k + (if body_of r = Some k then 1 else 0)"
proof -
  obtain j q where q: "counted_inv (counts_of x) (xWorld x') (xLog x')" "concluded j r q"
      "monitor_run (monitor_init (max_attempts (gateway_ops (alone se)))) (xLog x') = Some q"
    using counted.request_follows_protocol [OF counted_start [OF assms(1,3)] assms(2) run] by metis
  show ?thesis
    using counted_log [OF q(1,3) _ k] q(2) assms(3) [of k] by (simp add: concluded_def counts_of_def)
qed

text \<open>
  C2: No reservation leaks.  When nobody else uses the selector's counters, a request leaves the number of
  requests in flight of every credential as it found it, but for the credential whose reservation the body
  of the returned response holds, if any; and closing that body returns it.
\<close>
theorem reservations_come_back:
  assumes "names_ok (xWorld x)" "xLog x = []"
    and "\<And>k. 0 \<le> count_of (selInFlight (gwSelector (xWorld x))) k"
    and "run_state (post_request (gateway_ops (alone se)) rq) x = (r, x')" and "k \<noteq> []"
  shows "count_of (selInFlight (gwSelector (xWorld x'))) k =
      count_of (selInFlight (gwSelector (xWorld x))) k + (if body_of r = Some k then 1 else 0) \<and>
    (case r of Inl e \<Rightarrow> True | Inr s \<Rightarrow>
       count_of (selInFlight (gwSelector (xWorld (snd (run_state (close_body (gateway_ops (alone se)) s) x'))))) k =
       count_of (selInFlight (gwSelector (xWorld x))) k)"
proof -
  note first = counted_run [OF assms]
  have close: "count_of (selInFlight (gwSelector (xWorld (snd (run_state (close_body (gateway_ops (alone se)) s) x'))))) k =
      count_of (selInFlight (gwSelector (xWorld x))) k" if r: "r = Inr s" for s
  proof (cases "rsHeld s")
    case None
    then show ?thesis
      using first r by (simp add: close_body_def body_of_def)
  next
    case (Some cid)
    obtain w where w: "selects (alone se) (\<lambda>u. (release u cid, ())) (xWorld x') = (w, ())"
      by (metis old.unit.exhaust prod.collapse)
    note flight_release [OF w]
    moreover have "xWorld (snd (run_state (close_body (gateway_ops (alone se)) s) x')) = w"
      using w by (simp add: close_body_def Some gateway_ops_def call_def)
    ultimately show ?thesis
      using first r Some assms(3) [of k] assms(5) by (auto simp: body_of_def follows_def effect_def split: if_splits)
  qed
  show ?thesis
    using first close by (cases r) auto
qed

theorem reservations_come_back_witness:
  "\<exists>s x'. run_state (post_request (gateway_ops (alone sample_setting)) sample_request) sample_exec = (s, x') \<and>
     count_of (selInFlight (gwSelector (xWorld x'))) ''c1'' = (if body_of s = Some ''c1'' then 1 else 0)"
proof -
  obtain s x' where run: "run_state (post_request (gateway_ops (alone sample_setting)) sample_request) sample_exec = (s, x')"
    by (cases "run_state (post_request (gateway_ops (alone sample_setting)) sample_request) sample_exec")
  have start: "selInFlight (gwSelector (xWorld sample_exec)) = Map.empty"
    by (simp add: sample_exec_def sample_world_def new_selector_def Let_def)
  show ?thesis
    using reservations_come_back [OF sample_ok _ run, of "''c1''"] run start by (auto simp: count_of_def)
qed

end
