(* ===== verification/Inspect_Props.thy ===== *)
theory Inspect_Props
  imports Gateway_Props
begin

text \<open>
  What the composed gateway guarantees of model discovery, of the probes of an inspection run and of the
  billing query: the credentials they ask with, the reservations they leave and the verdicts they give.
\<close>

section \<open>Queries in an accepted log\<close>

fun asks :: "'c event \<Rightarrow> ('c \<times> string) option" where
  "asks (EvModels cl tok r) = Some (cl, tok)"
| "asks (EvCredits cl tok r) = Some (cl, tok)"
| "asks (EvSnapshot cl tok r) = Some (cl, tok)"
| "asks _ = None"

lemma asks_may:
  assumes "monitor_run m (xs @ e # ys) = Some q" "asks e = Some (cl, tok)"
  obtains m1 where "monitor_run m xs = Some m1" "may_ask m1 cl tok"
proof -
  obtain m1 m2 where m: "monitor_run m xs = Some m1" "monitor_step m1 e = Some m2"
    by (rule monitor_split [OF assms(1)])
  have "may_ask m1 cl tok"
    using m(2) assms(2) by (cases e) (auto split: if_splits)
  then show thesis
    using that m(1) by blast
qed

text \<open>A query goes out with the token of the credential as last read, at the revision its client was
  resolved for.\<close>

lemma asks_current:
  assumes run: "monitor_run m xs = Some m1" and may: "may_ask m1 cl tok" and m: "mGet m = None" "mResolved m = None" "mSubject m = s" "mHeld m = h"
  obtains c d where "last_read None xs = Some c" "tok = cAccessToken c" "last_resolved None xs = Some (d, cl)"
    "cRevision d = cRevision c" "fits m1 c" "mSubject m1 = s" "mHeld m1 = open_selection h xs"
proof -
  have "mGet m1 = last_read None xs" "mResolved m1 = last_resolved None xs" "mHeld m1 = open_selection h xs"
    using run_reads [OF run] m by simp_all
  moreover have "mSubject m1 = s"
    using run_subject [OF run] m(3) by simp
  moreover obtain c d where "mGet m1 = Some c" "mResolved m1 = Some (d, cl)" "tok = cAccessToken c"
      "cRevision d = cRevision c" "fits m1 c"
    using may by (auto simp: may_ask_def split: option.split_asm)
  ultimately show thesis
    by (intro that [of c d]) simp_all
qed

lemma init_simps [simp]:
  "mGet (monitor_init n) = None" "mResolved (monitor_init n) = None" "mSubject (monitor_init n) = None"
  "mHeld (monitor_init n) = None"
  by (simp_all add: monitor_init_def)

text \<open>An operation about one credential makes no selection, sends no request and marks nobody.\<close>

fun is_query :: "'c event \<Rightarrow> bool" where
  "is_query (EvPick r) = False" | "is_query (EvPost cl compact opts r) = False"
| "is_query (EvHold cid) = False" | "is_query e = (returns e = None)"

fun models_answered :: "'c event \<Rightarrow> bool" where
  "models_answered (EvModels cl tok (Inr r)) = True" | "models_answered e = False"

lemma subject_step:
  assumes "monitor_step m e = Some m'" "mHeld m = None" "mLeft m = 0"
  shows "is_query e \<and> mHeld m' = None \<and> mLeft m' = 0 \<and> (mFinal m' \<longrightarrow> mFinal m \<or> models_answered e)"
  using assms
  by (cases e) (auto simp: close_selection_def may_post_def split: if_splits option.splits sum.splits)

lemma subject_run:
  "monitor_run m l = Some q \<Longrightarrow> mHeld m = None \<Longrightarrow> mLeft m = 0 \<Longrightarrow>
   list_all is_query l \<and> mHeld q = None \<and> (mFinal q \<longrightarrow> mFinal m \<or> list_ex models_answered l)"
proof (induction l arbitrary: m)
  case (Cons e l)
  then obtain m' where m': "monitor_step m e = Some m'" "monitor_run m' l = Some q"
    by (auto split: option.splits)
  show ?case
    using Cons.IH [OF m'(2)] subject_step [OF m'(1) Cons.prems(2,3)] by auto
qed simp

section \<open>Discovery\<close>

lemma discovery_run:
  assumes "names_ok (xWorld x)" "xLog x = []" "run_state (list_models (gateway_ops se)) x = (r, x')"
  obtains j q where "j \<le> max_attempts (gateway_ops se)" "answered j (\<not> isl r) q"
    "monitor_run (monitor_init (max_attempts (gateway_ops se))) (xLog x') = Some q"
  by (rule gw.discovery_follows_protocol [OF _ assms(2,3)]) (use assms(1) that in \<open>auto simp: names_inv_def\<close>)

definition models_down :: "(unit, unit, unit) setting" where
  "models_down = one_attempt\<lparr> seModels := (\<lambda>_ _ _. Inl ErrNetwork) \<rparr>"

lemma sample_discovery:
  "map_prod (\<lambda>r. \<not> isl r) (\<lambda>x. (map asks (filter (\<lambda>e. asks e \<noteq> None) (xLog x)), count_ev is_pick (xLog x)))
     (run_state (list_models (gateway_ops models_down)) sample_exec) =
   (False, [Some ((), ''at'')], 1)"
  by code_simp

text \<open>
  Model discovery asks only with the token of the credential it has selected, as the store last
  returned it: enabled, not manually disabled, and at the revision for which the client was resolved; and
  it selects at most \<open>MaxAttempts\<close> credentials.
\<close>
theorem discovery_is_verified:
  assumes "names_ok (xWorld x)" "xLog x = []"
    and "run_state (list_models (gateway_ops se)) x = (r, x')"
    and "xLog x' = xs @ e # ys" and "asks e = Some (cl, tok)"
  shows "count_ev is_pick (xLog x') \<le> max_attempts (gateway_ops se) \<and>
    (\<exists>c d. last_read None xs = Some c \<and> live c \<and> tok = cAccessToken c \<and>
      open_selection None xs = Some (cID c) \<and> last_resolved None xs = Some (d, cl) \<and> cRevision d = cRevision c)"
proof -
  let ?m = "monitor_init (max_attempts (gateway_ops se))"
  obtain j q where q: "monitor_run ?m (xLog x') = Some q"
    by (rule discovery_run [OF assms(1-3)])
  obtain m1 where m1: "monitor_run ?m xs = Some m1" "may_ask m1 cl tok"
    by (rule asks_may [OF q [unfolded assms(4)] assms(5)])
  obtain c d where "last_read None xs = Some c" "tok = cAccessToken c" "last_resolved None xs = Some (d, cl)"
    "cRevision d = cRevision c" "fits m1 c" "mSubject m1 = None" "mHeld m1 = open_selection None xs"
    by (rule asks_current [OF m1 init_simps])
  then show ?thesis
    using bounded_run [OF q] by (auto simp: fits_def monitor_init_def)
qed

theorem discovery_is_verified_witness:
  "\<exists>x' xs e ys c. snd (run_state (list_models (gateway_ops models_down)) sample_exec) = x' \<and>
     xLog x' = xs @ e # ys \<and> asks e = Some ((), ''at'') \<and> last_read None xs = Some c \<and> live c \<and> cAccessToken c = ''at''"
proof -
  obtain r x' where run: "run_state (list_models (gateway_ops models_down)) sample_exec = (r, x')"
    by (cases "run_state (list_models (gateway_ops models_down)) sample_exec")
  have one: "map asks (filter (\<lambda>e. asks e \<noteq> None) (xLog x')) = [Some ((), ''at'')]"
    using sample_discovery run by simp
  obtain e xs ys where e: "xLog x' = xs @ e # ys" "asks e = Some ((), ''at'')"
    by (rule single_event [OF one])
  obtain c where "last_read None xs = Some c" "live c" "''at'' = cAccessToken c"
    using discovery_is_verified [OF sample_ok run e] by blast
  then show ?thesis
    using run e by (metis snd_conv)
qed

text \<open>
  Discovery returns every reservation it makes, whatever fails on the way.
\<close>
theorem discovery_returns_reservations:
  assumes "names_ok (xWorld x)" "xLog x = []"
    and "\<And>k. 0 \<le> count_of (selInFlight (gwSelector (xWorld x))) k"
    and "run_state (list_models (gateway_ops (alone se))) x = (r, x')" and "k \<noteq> []"
  shows "count_of (selInFlight (gwSelector (xWorld x'))) k = count_of (selInFlight (gwSelector (xWorld x))) k"
proof -
  obtain j q where q: "counted_inv (counts_of x) (xWorld x') (xLog x')" "answered j (\<not> isl r) q"
      "monitor_run (monitor_init (max_attempts (gateway_ops (alone se)))) (xLog x') = Some q"
    using counted.discovery_follows_protocol [OF counted_start [OF assms(1,3)] assms(2,4)] by metis
  show ?thesis
    using counted_log [OF q(1,3) _ assms(5)] q(2) assms(3) [of k] by (simp add: answered_def counts_of_def)
qed

theorem discovery_returns_reservations_witness:
  "\<exists>r x'. run_state (list_models (gateway_ops (alone sample_setting))) sample_exec = (r, x') \<and>
     count_of (selInFlight (gwSelector (xWorld x'))) ''c1'' = 0"
proof -
  obtain r x' where run: "run_state (list_models (gateway_ops (alone sample_setting))) sample_exec = (r, x')"
    by (cases "run_state (list_models (gateway_ops (alone sample_setting))) sample_exec")
  have start: "selInFlight (gwSelector (xWorld sample_exec)) = Map.empty"
    by (simp add: sample_exec_def sample_world_def new_selector_def Let_def)
  show ?thesis
    using discovery_returns_reservations [OF sample_ok _ run, of "''c1''"] run start by (auto simp: count_of_def)
qed

section \<open>Inspection\<close>

lemma probe_run:
  assumes "names_ok (xWorld x)" "xLog x = []"
    "run_state (probe_credential_snapshot (gateway_ops se) snap) x = ((status, v, e), x')"
  obtains q where "monitor_run (subject_init (cID snap) True) (xLog x') = Some q" "verdict (cID snap) (status, e) q"
  by (rule gw.probe_follows_protocol [OF _ assms(2,3)]) (use assms(1) that in \<open>auto simp: names_inv_def\<close>)

lemma subject_simps [simp]:
  "mGet (subject_init k s) = None" "mResolved (subject_init k s) = None" "mHeld (subject_init k s) = None"
  "mLeft (subject_init k s) = 0" "mFinal (subject_init k s) = False" "mSubject (subject_init k s) = Some (k, s)"
  by (simp_all add: subject_init_def monitor_init_def)

text \<open>
  The probe of an inspection run asks only with the current token of the credential it is about: the
  record as the store last returned it, still usable for an inspection (not manually disabled; enabled or
  quarantined), at the revision for which the client was resolved.  The snapshot the run started from is
  never used.
\<close>
theorem probe_asks_with_current:
  assumes "names_ok (xWorld x)" "xLog x = []"
    and "run_state (probe_credential_snapshot (gateway_ops se) snap) x = ((status, v, err), x')"
    and "xLog x' = xs @ e # ys" and "asks e = Some (cl, tok)"
  shows "\<exists>c d. last_read None xs = Some c \<and> cID c = cID snap \<and> inspection_credential_usable c \<and>
    tok = cAccessToken c \<and> last_resolved None xs = Some (d, cl) \<and> cRevision d = cRevision c"
proof -
  let ?m = "subject_init (cID snap) True"
  obtain q where q: "monitor_run ?m (xLog x') = Some q"
    by (rule probe_run [OF assms(1-3)])
  obtain m1 where m1: "monitor_run ?m xs = Some m1" "may_ask m1 cl tok"
    by (rule asks_may [OF q [unfolded assms(4)] assms(5)])
  have none: "mHeld m1 = None"
    using subject_run [OF m1(1)] by simp
  obtain c d where "last_read None xs = Some c" "tok = cAccessToken c" "last_resolved None xs = Some (d, cl)"
    "cRevision d = cRevision c" "fits m1 c" "mSubject m1 = Some (cID snap, True)"
    by (rule asks_current [OF m1 subject_simps(1,2,6,3)])
  then show ?thesis
    by (auto simp: fits_def none)
qed

text \<open>
  A probe makes no selection, sends no client request and marks no credential; and a verdict without
  an error is 200 or 402 and rests on an answer of the models endpoint.
\<close>
theorem probe_verdict_is_earned:
  assumes "names_ok (xWorld x)" "xLog x = []"
    and "run_state (probe_credential_snapshot (gateway_ops se) snap) x = ((status, v, err), x')"
  shows "list_all is_query (xLog x') \<and>
    (err = None \<longrightarrow> status \<in> {200, 402} \<and> list_ex models_answered (xLog x'))"
proof -
  obtain q where q: "monitor_run (subject_init (cID snap) True) (xLog x') = Some q" "verdict (cID snap) (status, err) q"
    by (rule probe_run [OF assms])
  show ?thesis
    using subject_run [OF q(1)] q(2) by (auto simp: verdict_def)
qed

lemma sample_probe:
  "map_prod (map_prod id snd) (\<lambda>x. take 1 (map asks (filter (\<lambda>e. asks e \<noteq> None) (xLog x))))
     (run_state (probe_credential_snapshot (gateway_ops sample_setting) (sample_cred ''c1'' 0)) sample_exec) =
   ((200, None), [Some ((), ''at'')])"
  by code_simp

lemma sample_probed:
  obtains v x' where
    "run_state (probe_credential_snapshot (gateway_ops sample_setting) (sample_cred ''c1'' 0)) sample_exec =
       ((200, v, None), x')"
    "take 1 (map asks (filter (\<lambda>e. asks e \<noteq> None) (xLog x'))) = [Some ((), ''at'')]"
proof -
  obtain st v e x' where run:
    "run_state (probe_credential_snapshot (gateway_ops sample_setting) (sample_cred ''c1'' 0)) sample_exec =
       ((st, v, e), x')"
    by (metis prod.collapse)
  then show thesis
    using sample_probe that by simp
qed

lemma first_event:
  assumes "take 1 (map f (filter P l)) = [y]"
  obtains e xs ys where "l = xs @ e # ys" "f e = y"
proof -
  obtain e es where e: "filter P l = e # es" "f e = y"
    using assms by (cases "filter P l") auto
  then have "e \<in> set l"
    using filter_set [of P l] by (metis filter_is_subset list.set_intros(1) subsetD)
  then show thesis
    using split_list [of e l] that e(2) by blast
qed

theorem probe_asks_with_current_witness:
  "\<exists>x' xs e ys c. snd (run_state (probe_credential_snapshot (gateway_ops sample_setting) (sample_cred ''c1'' 0)) sample_exec) = x' \<and>
     xLog x' = xs @ e # ys \<and> asks e = Some ((), ''at'') \<and> last_read None xs = Some c \<and> cID c = ''c1'' \<and>
     cAccessToken c = ''at''"
proof -
  obtain v x' where run:
    "run_state (probe_credential_snapshot (gateway_ops sample_setting) (sample_cred ''c1'' 0)) sample_exec =
       ((200, v, None), x')"
    "take 1 (map asks (filter (\<lambda>e. asks e \<noteq> None) (xLog x'))) = [Some ((), ''at'')]"
    by (rule sample_probed)
  obtain e xs ys where e: "xLog x' = xs @ e # ys" "asks e = Some ((), ''at'')"
    by (rule first_event [OF run(2)])
  obtain c where "last_read None xs = Some c" "cID c = ''c1''" "''at'' = cAccessToken c"
    using probe_asks_with_current [OF sample_ok run(1) e] by (auto simp: sample_cred_def)
  then show ?thesis
    using run e by (metis snd_conv)
qed

theorem probe_verdict_is_earned_witness:
  "\<exists>v x'. run_state (probe_credential_snapshot (gateway_ops sample_setting) (sample_cred ''c1'' 0)) sample_exec =
       ((200, v, None), x') \<and> list_all is_query (xLog x') \<and> list_ex models_answered (xLog x')"
proof -
  obtain v x' where run:
    "run_state (probe_credential_snapshot (gateway_ops sample_setting) (sample_cred ''c1'' 0)) sample_exec =
       ((200, v, None), x')"
    by (rule sample_probed)
  then show ?thesis
    using probe_verdict_is_earned [OF sample_ok run] by blast
qed

end
