(* ===== verification/Lifecycle.thy ===== *)
theory Lifecycle
  imports Cred_Store_Props
begin

text \<open>
  The lifecycle of a credential (active, manually disabled, quarantined, purged) under the operations
  of the store: the invariant that only an active, not manually disabled credential is enabled,
  and what an inspection run may do to the credentials it is told about.
\<close>

definition life_ok :: "credential \<Rightarrow> bool" where
  "life_ok c \<longleftrightarrow> (cEnabled c \<longrightarrow> \<not> cManualDisabled c \<and> cLifecycleState c = st_active)"

lemma life_normalize [inv_intro]: "life_ok c \<Longrightarrow> life_ok (normalize_credential H c)"
  by (auto simp: life_ok_def normalize_fields norm_disabled_def)

lemma life_stamp [inv_intro]: "life_ok c \<Longrightarrow> life_ok (stamp_mutation old now c)"
  by (simp add: life_ok_def stamp_mutation_def)

lemma life_new [inv_intro]: "new_credential H nid i now = Inr c \<Longrightarrow> life_ok c"
  by (auto simp: new_credential_def life_ok_def zero_credential_def Let_def split: option.splits)

lemma life_merge [inv_intro]: "life_ok c \<Longrightarrow> life_ok (upsert_merge H c i now)"
  by (simp add: upsert_merge_def upsert_identity_def upsert_fields_def life_ok_def Let_def)

lemma life_enabled [inv_intro]: "enabled_mutation b c = Inr c' \<Longrightarrow> life_ok c'"
  by (cases b) (auto simp: enabled_mutation_def life_ok_def Let_def)

lemma life_quarantine [inv_intro]:
  "life_ok c \<Longrightarrow> quarantine_mutation H reason at pa c = Inr c' \<Longrightarrow> life_ok c'"
  by (auto simp: quarantine_mutation_def life_ok_def Let_def split: if_splits)

lemma life_attempt [inv_intro]: "life_ok c \<Longrightarrow> life_ok (attempt_changed now at c)"
  by (simp add: life_ok_def attempt_changed_def)

lemma reset_frame [frame, simp]:
  "cID (reset_evidence H at a c) = cID c"
  "cEnabled (reset_evidence H at a c) = cEnabled c"
  "cManualDisabled (reset_evidence H at a c) = cManualDisabled c"
  "cLifecycleState (reset_evidence H at a c) = cLifecycleState c"
  "cDisableReason (reset_evidence H at a c) = cDisableReason c"
  "cRevision (reset_evidence H at a c) = cRevision c"
  "cAccessToken (reset_evidence H at a c) = cAccessToken c"
  "cRefreshToken (reset_evidence H at a c) = cRefreshToken c"
  by (simp_all add: reset_evidence_def Let_def)

lemma reset_fingerprint [simp]:
  "token_fingerprint H (reset_evidence H at a c) = token_fingerprint H c"
  by (simp add: token_fingerprint_def)

lemma life_upsert_doc:
  assumes "\<forall>c \<in> set cs. life_ok c" "upsert_doc H nid cs i now = Inr (cs', r, b)"
  shows "\<forall>c \<in> set cs'. life_ok c"
  using assms upsert_doc_cases [OF assms(2)] by (auto split: if_splits intro: inv_intro)

lemma life_bulk_doc:
  "\<forall>c \<in> set cs. life_ok c \<Longrightarrow> bulk_doc H ids now n cs is = Inr (cs', rs) \<Longrightarrow> \<forall>c \<in> set cs'. life_ok c"
proof (induction "is" arbitrary: n cs rs)
  case (Cons i "is")
  from Cons.prems(2) obtain d c b rs' where d: "upsert_doc H (ids n) cs i now = Inr (d, c, b)"
      "bulk_doc H ids now (Suc n) d is = Inr (cs', rs')"
    by (auto split: sum.splits prod.splits)
  show ?case using Cons.IH [OF life_upsert_doc [OF Cons.prems(1) d(1)] d(2)] .
qed simp

section \<open>One inspection action\<close>

text \<open>What the quarantine evidence of a deletion says of the credential.\<close>

definition deletion_evidence :: "(string \<Rightarrow> string) \<Rightarrow> insp_action list \<Rightarrow> credential \<Rightarrow> bool" where
  "deletion_evidence H as c \<longleftrightarrow>
     (\<exists>a \<in> set as. aKind a = KindPurge \<and> aID a = cID c \<and> aExpectedRevision a = cRevision c \<and>
        token_fingerprint H c = trim_space (aExpectedTokenFingerprint a)) \<and>
     \<not> cEnabled c \<and> \<not> cManualDisabled c \<and> cLifecycleState c = st_quarantined \<and>
     cDisableReason c = reason_invalid_auth"

text \<open>The relation between a credential before a run and what the run leaves of it.\<close>

definition honours :: "(string \<Rightarrow> string) \<Rightarrow> insp_action list \<Rightarrow> credential \<Rightarrow> credential \<Rightarrow> bool \<Rightarrow> bool" where
  "honours H as c c' gone \<longleftrightarrow>
     cID c' = cID c \<and> cManualDisabled c' = cManualDisabled c \<and>
     (cManualDisabled c \<longrightarrow> cEnabled c' = cEnabled c \<and> cLifecycleState c' = cLifecycleState c \<and>
        cDisableReason c' = cDisableReason c) \<and>
     cAccessToken c' = cAccessToken c \<and> cRefreshToken c' = cRefreshToken c \<and>
     (life_ok c \<longrightarrow> life_ok c') \<and> (gone \<longrightarrow> deletion_evidence H as c)"

lemma honours_refl: "honours H as c c False"
  by (simp add: honours_def)

lemma honours_attempt: "honours H as c (attempt_changed now at c) False"
  by (auto simp: honours_def attempt_changed_def life_ok_def)

lemma apply_kind_honours:
  assumes "apply_kind H now at a (reset_evidence H at a c) = (c1, r)"
    and "a \<in> set as" "aID a = cID c" "aExpectedRevision a = cRevision c"
  shows "honours H as c (c1\<lparr>cRevision := rv, cUpdatedAt := u, cExpiresAt := x\<rparr>) (irDeleted r)"
    and "irDeleted r \<Longrightarrow> irApplied r"
proof -
  let ?c = "reset_evidence H at a c"
  have "honours H as c (c1\<lparr>cRevision := rv, cUpdatedAt := u, cExpiresAt := x\<rparr>) (irDeleted r) \<and>
        (irDeleted r \<longrightarrow> irApplied r)"
  proof (cases "aKind a")
    case KindHealthy
    then show ?thesis using assms(1)
      by (auto simp: apply_kind_def act_healthy_def honours_def life_ok_def no_result_def Let_def
            split: if_splits)
  next
    case KindFailure
    then show ?thesis using assms(1)
      by (auto simp: apply_kind_def act_failure_def honours_def life_ok_def no_result_def Let_def)
  next
    case KindQuarantine
    then show ?thesis using assms(1)
      by (auto simp: apply_kind_def act_quarantine_def honours_def life_ok_def no_result_def Let_def
            split: if_splits)
  next
    case KindPurge
    show ?thesis
    proof (cases "irDeleted r")
      case True
      then have "c1 = ?c" "irApplied r"
          "purge_eligible H now (trunc_sec (the (aExpectedPurgeAfter a)))
             (trim_space (aExpectedTokenFingerprint a)) ?c"
        using assms(1) KindPurge
        by (auto simp: apply_kind_def no_result_def Let_def split: option.splits if_splits)
      then show ?thesis using assms(2-4) KindPurge
        by (auto simp: honours_def deletion_evidence_def purge_eligible_def life_ok_def)
    next
      case False
      then have "c1 = ?c" using assms(1) KindPurge
        by (auto simp: apply_kind_def no_result_def Let_def split: option.splits if_splits)
      then show ?thesis using False by (auto simp: honours_def life_ok_def)
    qed
  next
    case KindAttempt
    then show ?thesis using assms(1)
      by (auto simp: apply_kind_def honours_def life_ok_def no_result_def Let_def)
  next
    case (KindOther s)
    then show ?thesis using assms(1)
      by (auto simp: apply_kind_def honours_def life_ok_def no_result_def Let_def)
  qed
  then show "honours H as c (c1\<lparr>cRevision := rv, cUpdatedAt := u, cExpiresAt := x\<rparr>) (irDeleted r)"
    and "irDeleted r \<Longrightarrow> irApplied r" by auto
qed

section \<open>A whole run\<close>

text \<open>The loop invariant of a run over \<open>doc0\<close> with \<open>rest\<close> still to do: every credential honours its
  original, and those no remaining action names are settled; those one does are untouched.\<close>

definition run_inv ::
  "(string \<Rightarrow> string) \<Rightarrow> insp_action list \<Rightarrow> credential list \<Rightarrow> (string \<Rightarrow> nat option) \<Rightarrow>
   insp_action list \<Rightarrow> insp_state \<Rightarrow> bool" where
  "run_inv H as doc0 index rest s \<longleftrightarrow>
     (case s of (doc, deleted, changed) \<Rightarrow>
        length doc = length doc0 \<and>
        (\<forall>k < length doc0. honours H as (doc0 ! k) (doc ! k) (k \<in> deleted)) \<and>
        (\<forall>a \<in> set rest. \<forall>k. index (aID a) = Some k \<longrightarrow> doc ! k = doc0 ! k \<and> k \<notin> deleted) \<and>
        (\<not> changed \<longrightarrow> doc = doc0 \<and> deleted = {}))"

lemma run_inv_update:
  assumes "run_inv H as doc0 index (a # rest) (doc, deleted, changed)"
    and "k < length doc0" "cID (doc0 ! k) = aID a" "aID a \<notin> aID ` set rest"
    and ix: "\<forall>x j. index x = Some j \<longrightarrow> j < length doc0 \<and> cID (doc0 ! j) = x"
    and "honours H as (doc0 ! k) c' del'"
    and "doc' = doc[k := c']" "deleted' = (if del' then insert k deleted else deleted)" "k \<notin> deleted"
  shows "run_inv H as doc0 index rest (doc', deleted', True)"
proof -
  have "honours H as (doc0 ! j) (doc' ! j) (j \<in> deleted')" if "j < length doc0" for j
    using assms that by (cases "j = k") (auto simp: run_inv_def)
  moreover have "doc' ! j = doc0 ! j \<and> j \<notin> deleted'"
    if "b \<in> set rest" "index (aID b) = Some j" for b j
  proof -
    have "cID (doc0 ! j) = aID b" using ix that(2) by blast
    moreover have "aID b \<noteq> aID a" using assms(4) that(1) by (metis imageI)
    ultimately have "j \<noteq> k" using assms(3) by auto
    moreover have "doc ! j = doc0 ! j \<and> j \<notin> deleted"
      using assms(1) that by (auto simp: run_inv_def)
    ultimately show ?thesis using assms(7,8) by auto
  qed
  ultimately show ?thesis using assms(1,7) by (auto simp: run_inv_def)
qed

lemma inspect_step_inv:
  assumes inv: "run_inv H as doc0 index (a # rest) s" and mem: "a \<in> set as"
    and new: "aID a \<notin> aID ` set rest"
    and ix: "\<forall>x j. index x = Some j \<longrightarrow> j < length doc0 \<and> cID (doc0 ! j) = x"
    and step: "inspect_step H now index a s = (s', r)"
  shows "run_inv H as doc0 index rest s'"
proof -
  obtain doc deleted changed where s: "s = (doc, deleted, changed)" by (cases s)
  show ?thesis
  proof (cases "index (aID a)")
    case None
    then show ?thesis using inv step s by (auto simp: inspect_step_def run_inv_def)
  next
    case (Some k)
    have k: "k < length doc0" "cID (doc0 ! k) = aID a" using ix Some by blast+
    have same: "doc ! k = doc0 ! k" "k \<notin> deleted" using inv s Some by (auto simp: run_inv_def)
    note upd = run_inv_update [OF inv [unfolded s] k new ix]
    define at where "at = (if trunc_sec (aAt a) = 0 then now else trunc_sec (aAt a))"
    show ?thesis
    proof (cases "cRevision (doc0 ! k) = aExpectedRevision a")
      case False
      then have "s' = (doc[k := attempt_changed now at (doc0 ! k)], deleted, True)"
        using step s Some same by (simp add: inspect_step_def at_def Let_def)
      then show ?thesis
        using upd [OF honours_attempt [of H as "doc0 ! k" now at], of _ deleted] same(2) by simp
    next
      case True
      obtain c1 q where ak: "apply_kind H now at a (reset_evidence H at a (doc0 ! k)) = (c1, q)"
        by fastforce
      define c2 where "c2 = c1\<lparr>cRevision := cRevision c1 + 1, cUpdatedAt := now,
          cExpiresAt := if cExpiresAt c1 \<noteq> 0 then trunc_sec (cExpiresAt c1) else cExpiresAt c1\<rparr>"
      have "inspect_step H now index a s =
          ((if irApplied q \<and> \<not> irDeleted q then doc[k := c2] else doc,
            if irDeleted q then insert k deleted else deleted, changed \<or> irApplied q), q)"
        unfolding inspect_step_def s using Some same(1) True ak
        by (simp add: at_def [symmetric] c2_def [symmetric] Let_def)
      then have s': "s' = (if irApplied q \<and> \<not> irDeleted q then doc[k := c2] else doc,
          if irDeleted q then insert k deleted else deleted, changed \<or> irApplied q)"
        using step by simp
      have hon: "honours H as (doc0 ! k) c2 (irDeleted q)" and app: "irDeleted q \<Longrightarrow> irApplied q"
        using apply_kind_honours [OF ak mem] k True unfolding c2_def by auto
      consider "\<not> irApplied q" | "irApplied q" "\<not> irDeleted q" | "irDeleted q" using app by blast
      then show ?thesis
      proof cases
        case 1
        then have "s' = s" using s' s app by auto
        then show ?thesis using inv s by (auto simp: run_inv_def)
      next
        case 2
        then show ?thesis using upd [OF hon refl refl same(2)] s' by simp
      next
        case 3
        have "honours H as (doc0 ! k) (doc0 ! k) True"
          using hon 3 by (auto simp: honours_def)
        moreover have "doc[k := doc0 ! k] = doc" using same(1) by (metis list_update_id)
        ultimately show ?thesis using upd [of "doc0 ! k" True doc "insert k deleted"] s' 3 app same(2)
          by simp
      qed
    qed
  qed
qed

lemma inspect_steps_inv:
  assumes "run_inv H as doc0 index rest s" "set rest \<subseteq> set as" "distinct (map aID rest)"
    and "\<forall>x j. index x = Some j \<longrightarrow> j < length doc0 \<and> cID (doc0 ! j) = x"
    and "inspect_steps H now index rest s = (s', rs)"
  shows "run_inv H as doc0 index [] s'"
  using assms
proof (induction rest arbitrary: s rs)
  case (Cons a rest)
  obtain s1 r where st: "inspect_step H now index a s = (s1, r)" by fastforce
  obtain rs' where tl: "inspect_steps H now index rest s1 = (s', rs')"
    using Cons.prems(5) st by (auto split: prod.splits)
  have "run_inv H as doc0 index rest s1"
    using inspect_step_inv [OF Cons.prems(1) _ _ Cons.prems(4) st] Cons.prems(2,3) by auto
  then show ?case using Cons.IH [OF _ _ _ Cons.prems(4) tl] Cons.prems(2,3) by auto
qed simp

lemma check_actions_distinct:
  "check_actions seen as = None \<Longrightarrow>
     distinct (map (trim_space \<circ> aID) as) \<and> set (map (trim_space \<circ> aID) as) \<inter> set seen = {}"
proof (induction as arbitrary: seen)
  case (Cons a as)
  then have "trim_space (aID a) \<notin> set seen" "check_actions (trim_space (aID a) # seen) as = None"
    by (auto simp: Let_def split: if_splits insp_kind.splits)
  with Cons.IH [of "trim_space (aID a) # seen"] show ?case by auto
qed simp

lemma check_actions_ids:
  assumes "check_actions [] as = None"
  shows "distinct (map aID as)"
proof -
  from assms have "distinct (map trim_space (map aID as))" using check_actions_distinct [of "[]" as] by simp
  then show ?thesis by (simp only: distinct_map)
qed

lemma last_index_ok:
  assumes "last_index_of doc x = Some j"
  shows "j < length doc \<and> cID (doc ! j) = x"
proof -
  obtain k where k: "find_index (\<lambda>c. cID c = x) (rev doc) = Some k" "j = length doc - 1 - k"
    using assms by (auto simp: last_index_of_def split: option.splits)
  then show ?thesis using find_index_SomeD [OF k(1)] by (auto simp: rev_nth)
qed

lemma set_drop_deleted:
  "c \<in> set (drop_deleted doc del) \<longleftrightarrow> (\<exists>k < length doc. k \<notin> del \<and> doc ! k = c)"
  by (force simp: drop_deleted_def set_zip in_set_conv_nth)

lemma normal_lifecycle:
  assumes "normalize_credential H c = c"
  shows "trim_space (cLifecycleState c) \<noteq> []"
proof
  assume b: "trim_space (cLifecycleState c) = []"
  have "cLifecycleState (normalize_credential H c) = st_active" by (simp add: normalize_fields b)
  with assms b show False by simp
qed

lemma normalize_lifecycle:
  "trim_space (cLifecycleState c) \<noteq> [] \<Longrightarrow>
     cLifecycleState (normalize_credential H c) = cLifecycleState c \<and>
     cManualDisabled (normalize_credential H c) = cManualDisabled c"
  by (simp add: normalize_fields norm_disabled_def)

text \<open>What the run promises for one credential of the old list and the new list.\<close>

definition kept_by_run :: "credential \<Rightarrow> credential \<Rightarrow> bool" where
  "kept_by_run c c' \<longleftrightarrow> cID c' = cID c \<and>
     cAccessToken c' = cAccessToken c \<and> cRefreshToken c' = cRefreshToken c \<and>
     (cManualDisabled c \<longrightarrow> cManualDisabled c' \<and> cEnabled c' = cEnabled c \<and>
        cLifecycleState c' = cLifecycleState c)"

lemma run_result:
  assumes "quiet w" "store_ok H st" "view H st = Some doc"
    and "apply_inspection_actions H w st as = (st', r)"
  shows "store_ok H st' \<and> (view H st' = Some doc \<or>
    (\<exists>doc1 deleted changed. run_inv H as doc (last_index_of doc) [] (doc1, deleted, changed) \<and>
       view H st' = Some (map (normalize_credential H) (drop_deleted doc1 deleted))))"
proof (cases "as = [] \<or> check_actions [] as \<noteq> None \<or> \<not> (stOpen st \<and> ioLockError w = None)")
  case True
  have closed: "with_lock w st f = (st', r) \<Longrightarrow> \<not> (stOpen st \<and> ioLockError w = None) \<Longrightarrow> st' = st" for f
    using with_lock_closed by blast
  have "st' = st"
  proof (cases "as = [] \<or> check_actions [] as \<noteq> None")
    case t: True
    then show ?thesis using assms(4)
      by (auto simp: apply_inspection_actions_def split: if_splits)
  next
    case False
    with True have "\<not> (stOpen st \<and> ioLockError w = None)" by blast
    then show ?thesis using closed assms(4) False
      unfolding apply_inspection_actions_def by (simp only: if_False option.case de_Morgan_disj simp_thms)
  qed
  then show ?thesis using assms(2,3) by simp
next
  case False
  then have ld: "load_credentials H w st = Inr doc" and ids: "distinct (map aID as)"
    using load_view [OF assms(1)] assms(3) check_actions_ids by blast+
  obtain doc1 deleted changed rs where run: "inspect_steps H (now_utc w) (last_index_of doc) as (doc, {}, False)
      = ((doc1, deleted, changed), rs)" by (metis prod.collapse)
  have init: "run_inv H as doc (last_index_of doc) as (doc, {}, False)"
    by (auto simp: run_inv_def honours_refl)
  have inv: "run_inv H as doc (last_index_of doc) [] (doc1, deleted, changed)"
    by (rule inspect_steps_inv [OF init subset_refl ids _ run]) (auto dest: last_index_ok)
  show ?thesis
  proof (cases changed)
    case nc: False
    then have "st' = st" using assms(4) False ld run
      by (simp add: apply_inspection_actions_def with_lock_def)
    then show ?thesis using assms(2,3) by simp
  next
    case True
    obtain st1 e where sv: "save_credentials H w st (drop_deleted doc1 deleted) = (st1, e)" by fastforce
    then have "st' = st1" using assms(4) False ld run True
      by (auto simp: apply_inspection_actions_def with_lock_def split: option.splits)
    then show ?thesis using save_ok [OF assms(2) sv] assms(3) inv by (cases e) auto
  qed
qed

text \<open>
  C27: An inspection run never overrides an operator and deletes only on evidence.  Whatever actions a
  run applies, and whether or not its write succeeds, every stored credential is still there
  afterwards with its tokens, a manually disabled one as it was (manually disabled, not enabled if
  it was not, in the same lifecycle state), except those for which the run held a purge action at
  the stored revision naming the fingerprint of the very tokens stored, and these were quarantined
  for invalid authentication, disabled and not manually disabled; nothing new appears, and the
  lifecycle invariant is preserved.
\<close>

theorem inspection_run_safe:
  assumes "quiet w" and "store_ok H st" and "view H st = Some doc"
    and "apply_inspection_actions H w st as = (st', r)"
  shows "\<exists>doc'. view H st' = Some doc' \<and>
    (\<forall>c \<in> set doc. (\<exists>c' \<in> set doc'. kept_by_run c c') \<or> deletion_evidence H as c) \<and>
    (\<forall>c' \<in> set doc'. \<exists>c \<in> set doc. cID c' = cID c) \<and>
    ((\<forall>c \<in> set doc. life_ok c) \<longrightarrow> (\<forall>c' \<in> set doc'. life_ok c'))"
proof -
  consider "view H st' = Some doc"
    | doc1 deleted changed where "run_inv H as doc (last_index_of doc) [] (doc1, deleted, changed)"
        "view H st' = Some (map (normalize_credential H) (drop_deleted doc1 deleted))"
    using run_result [OF assms] by blast
  then show ?thesis
  proof cases
    case 1
    then show ?thesis by (auto simp: kept_by_run_def)
  next
    case 2
    let ?n = "normalize_credential H" and ?out = "drop_deleted doc1 deleted"
    have len: "length doc1 = length doc"
      and hon: "honours H as (doc ! k) (doc1 ! k) (k \<in> deleted)" if "k < length doc" for k
      using 2(1) that by (auto simp: run_inv_def)
    have keep: "kept_by_run (doc ! k) (?n (doc1 ! k))" if k: "k < length doc" for k
    proof -
      have "?n (doc ! k) = doc ! k" using view_normal [OF assms(3)] k by (metis nth_map)
      from normal_lifecycle [OF this] have "cManualDisabled (doc ! k) \<Longrightarrow>
          trim_space (cLifecycleState (doc1 ! k)) \<noteq> []"
        using hon [OF k] by (auto simp: honours_def)
      then show ?thesis using hon [OF k] normalize_lifecycle [of "doc1 ! k" H]
        by (auto simp: kept_by_run_def honours_def)
    qed
    have all: "(\<exists>c' \<in> set (map ?n ?out). kept_by_run c c') \<or> deletion_evidence H as c"
      if c: "c \<in> set doc" for c
    proof -
      obtain k where k: "k < length doc" "doc ! k = c" using c by (auto simp: in_set_conv_nth)
      show ?thesis
      proof (cases "k \<in> deleted")
        case True
        then show ?thesis using hon [OF k(1)] k(2) by (auto simp: honours_def)
      next
        case False
        then have "doc1 ! k \<in> set ?out" using k len by (auto simp: set_drop_deleted)
        then show ?thesis using keep [OF k(1)] k(2) by auto
      qed
    qed
    have from_old: "\<exists>k < length doc. c' = ?n (doc1 ! k)" if "c' \<in> set (map ?n ?out)" for c'
      using that len assms(3) 2(1) by (auto simp: set_drop_deleted run_inv_def)
    have "\<exists>c \<in> set doc. cID c' = cID c" if "c' \<in> set (map ?n ?out)" for c'
      using from_old [OF that] hon by (auto simp: honours_def)
    moreover have "life_ok c'" if "\<forall>c \<in> set doc. life_ok c" "c' \<in> set (map ?n ?out)" for c'
      using from_old [OF that(2)] hon that(1) by (auto simp: honours_def intro!: life_normalize)
    ultimately show ?thesis using all 2(2) by blast
  qed
qed

definition purge_action :: insp_action where
  "purge_action = \<lparr> aID = ''c1'', aExpectedRevision = 4, aKind = KindPurge, aAt = 6000000000,
     aStatus = [], aMessage = [], aPurgeAfter = None, aCooldownUntil = None,
     aExpectedPurgeAfter = Some 5000000000,
     aExpectedTokenFingerprint = ''at'' @ [CHR 0x00], aResetQuarantineEvidence = False \<rparr>"

lemma doomed_run:
  "view id doomed_store = Some [doomed_cred]"
  "view id (fst (apply_inspection_actions id (sample_io 6000000000) doomed_store [purge_action])) = Some []"
  by code_simp+

theorem inspection_run_safe_witness:
  "view id (fst (apply_inspection_actions id (sample_io 6000000000) doomed_store [purge_action])) = Some [] \<and>
   deletion_evidence id [purge_action] doomed_cred"
proof -
  obtain st' r where a: "apply_inspection_actions id (sample_io 6000000000) doomed_store [purge_action] = (st', r)"
    by fastforce
  from inspection_run_safe [OF sample_store_ok(2) doomed_ok doomed_run(1) a]
  show ?thesis using doomed_run(2) a by auto
qed

end
