(* ===== verification/Anthropic_Protocol.thy ===== *)
theory Anthropic_Protocol
  imports Anthropic_Stream
begin

text \<open>
  The Anthropic event protocol as an executable acceptor, and the proof that the translator of
  \<open>internal/anthropic\<close> only ever writes accepted prefixes.  \<open>linked t c\<close> is the simulation relation
  between the translator and the acceptor; a write that fails ends all output, so nothing is
  claimed of the bookkeeping after it.  \<open>triple P m Q\<close> is the usual partial-correctness triple for a
  method, with the invariant required of an error exit.
\<close>

section \<open>The protocol\<close>

record proto =
  pStarted :: bool
  pOpen :: "(nat \<times> block_kind) list"
  pNext :: nat
  pDelta :: bool
  pDone :: bool

definition proto_init :: proto where
  "proto_init = \<lparr> pStarted = False, pOpen = [], pNext = 0, pDelta = False, pDone = False \<rparr>"

definition content_kind :: "block_content \<Rightarrow> block_kind" where
  "content_kind c = (case c of TextBlock \<Rightarrow> KText | ToolUse _ _ \<Rightarrow> KTool | ThinkingBlock \<Rightarrow> KThinking)"

definition delta_kind :: "delta \<Rightarrow> block_kind" where
  "delta_kind d = (case d of TextDelta _ \<Rightarrow> KText | InputJsonDelta _ \<Rightarrow> KTool
     | ThinkingDelta _ \<Rightarrow> KThinking | SignatureDelta _ \<Rightarrow> KThinking)"

text \<open>\<open>message_start\<close> first and once; block indexes in order; a delta only to an open block of its
  kind; every block stopped once and before the end; \<open>message_delta\<close> then \<open>message_stop\<close>, or one
  \<open>error\<close>; nothing after.\<close>

fun proto_step :: "proto \<Rightarrow> sse \<Rightarrow> proto option" where
  "proto_step p (MessageStart _ _ _) =
     (if pStarted p \<or> pDone p then None else Some (p\<lparr> pStarted := True \<rparr>))"
| "proto_step p (BlockStart i c) =
     (if pStarted p \<and> \<not> pDelta p \<and> \<not> pDone p \<and> i = pNext p
      then Some (p\<lparr> pOpen := (i, content_kind c) # pOpen p, pNext := Suc i \<rparr>) else None)"
| "proto_step p (BlockDelta i d) =
     (if \<not> pDone p \<and> (i, delta_kind d) \<in> set (pOpen p) then Some p else None)"
| "proto_step p (BlockStop i) =
     (if \<not> pDone p \<and> i \<in> set (map fst (pOpen p))
      then Some (p\<lparr> pOpen := filter (\<lambda>ik. fst ik \<noteq> i) (pOpen p) \<rparr>) else None)"
| "proto_step p (MessageDelta _ _ _) =
     (if pStarted p \<and> \<not> pDelta p \<and> \<not> pDone p \<and> pOpen p = [] then Some (p\<lparr> pDelta := True \<rparr>) else None)"
| "proto_step p MessageStop =
     (if pDelta p \<and> \<not> pDone p then Some (p\<lparr> pDone := True \<rparr>) else None)"
| "proto_step p (ErrorEvent _ _) =
     (if \<not> pDelta p \<and> \<not> pDone p \<and> pOpen p = [] then Some (p\<lparr> pDone := True \<rparr>) else None)"

fun proto_run :: "proto \<Rightarrow> sse list \<Rightarrow> proto option" where
  "proto_run p [] = Some p"
| "proto_run p (e # es) = (case proto_step p e of None \<Rightarrow> None | Some p' \<Rightarrow> proto_run p' es)"

definition accepted :: "sse list \<Rightarrow> bool" where
  "accepted es \<longleftrightarrow> proto_run proto_init es \<noteq> None"

definition complete :: "sse list \<Rightarrow> bool" where
  "complete es \<longleftrightarrow> (case proto_run proto_init es of None \<Rightarrow> False | Some p \<Rightarrow> pDone p)"

lemma proto_run_append:
  "proto_run p (xs @ ys) = (case proto_run p xs of None \<Rightarrow> None | Some q \<Rightarrow> proto_run q ys)"
  by (induction p xs rule: proto_run.induct) (auto split: option.splits)

section \<open>The simulation relation\<close>

definition open_blocks :: "translator \<Rightarrow> (nat \<times> block_kind) set" where
  "open_blocks t = {(bIndex b, bKind b) | key b. (key, b) \<in> set (tBlocks t) \<and> \<not> bStopped b} \<union>
                   {(bIndex b, KThinking) | b. tThinking t = Some b}"

definition kind_of_key :: "string \<Rightarrow> block_kind \<Rightarrow> bool" where
  "kind_of_key key kind \<longleftrightarrow> kind \<in> {KText, KTool} \<and> has_prefix key (kind_prefix kind)"

definition tidy :: "translator \<Rightarrow> bool" where
  "tidy t \<longleftrightarrow> distinct (map fst (tBlocks t)) \<and> distinct (map (bIndex \<circ> snd) (tBlocks t)) \<and>
     (\<forall>(key, b) \<in> set (tBlocks t). bIndex b < tNextIndex t \<and> kind_of_key key (bKind b)) \<and>
     (\<forall>b. tThinking t = Some b \<longrightarrow> tThinkEnabled t \<and> bIndex b < tNextIndex t \<and>
        (\<forall>(key, b') \<in> set (tBlocks t). bIndex b' \<noteq> bIndex b))"

definition linked :: "translator \<Rightarrow> proto \<Rightarrow> bool" where
  "linked t p \<longleftrightarrow> tidy t \<and> pStarted p = tStarted t \<and> pNext p = tNextIndex t \<and>
     set (pOpen p) = open_blocks t \<and> pDone p = tFinished t \<and> (\<not> tFinished t \<longrightarrow> \<not> pDelta p) \<and>
     (\<not> tStarted t \<longrightarrow> tBlocks t = [] \<and> tThinking t = None)"

definition stream_inv :: "translator \<Rightarrow> bool" where
  "stream_inv t \<longleftrightarrow> (\<exists>p. proto_run proto_init (tOut t) = Some p \<and> (tRoom t = Some 0 \<or> linked t p))"

text \<open>A translator that has not ended its message; \<open>st\<close>: the message has started.\<close>

definition going :: "bool \<Rightarrow> translator \<Rightarrow> bool" where
  "going st t \<longleftrightarrow> stream_inv t \<and> \<not> tFinished t \<and> (st \<longrightarrow> tStarted t)"

definition triple :: "(translator \<Rightarrow> bool) \<Rightarrow> act \<Rightarrow> (translator \<Rightarrow> bool) \<Rightarrow> bool" where
  "triple P m Q \<longleftrightarrow> (\<forall>t t' r. P t \<longrightarrow> m t = (t', r) \<longrightarrow> (if r = None then Q t' else stream_inv t'))"

lemma tripleI:
  "(\<And>t t' r. P t \<Longrightarrow> m t = (t', r) \<Longrightarrow> (if r = None then Q t' else stream_inv t')) \<Longrightarrow> triple P m Q"
  unfolding triple_def by blast

lemma tripleD: "triple P m Q \<Longrightarrow> P t \<Longrightarrow> m t = (t', r) \<Longrightarrow> (if r = None then Q t' else stream_inv t')"
  unfolding triple_def by blast

lemma triple_ret: "triple P ret P"
  by (rule tripleI) (auto simp: ret_def)

lemma triple_set: "(\<And>t. P t \<Longrightarrow> Q (f t)) \<Longrightarrow> triple P (set_state f) Q"
  by (rule tripleI) (auto simp: set_state_def)

lemma triple_then:
  assumes "triple P m Q" "triple Q k R"
  shows "triple P (and_then m k) R"
proof (rule tripleI)
  fix t t' r
  assume P: "P t" and run: "and_then m k t = (t', r)"
  obtain s e where m: "m t = (s, e)" by fastforce
  note ms = tripleD [OF assms(1) P m]
  show "if r = None then R t' else stream_inv t'"
  proof (cases e)
    case None
    then show ?thesis using tripleD [OF assms(2), of s t' r] ms m run by (simp add: and_then_def)
  next
    case (Some x)
    then show ?thesis using ms m run by (auto simp: and_then_def)
  qed
qed

lemma triple_weaken:
  assumes "triple P m Q" "\<And>t. P' t \<Longrightarrow> P t" "\<And>t. Q t \<Longrightarrow> Q' t"
  shows "triple P' m Q'"
  using assms unfolding triple_def by meson

lemma triple_fun:
  assumes "\<And>s. P s \<Longrightarrow> triple (\<lambda>t. t = s) (f s) Q"
  shows "triple P (\<lambda>t. f t t) Q"
  using assms unfolding triple_def by blast

lemma triple_at: "triple P m Q \<Longrightarrow> P s \<Longrightarrow> triple (\<lambda>t. t = s) m Q"
  unfolding triple_def by blast

lemma triple_if: "(b \<Longrightarrow> triple P m Q) \<Longrightarrow> (\<not> b \<Longrightarrow> triple P k Q) \<Longrightarrow> triple P (if b then m else k) Q"
  by simp

lemma going_inv: "going st t \<Longrightarrow> stream_inv t"
  by (simp add: going_def)

lemma going_weaken: "going st t \<Longrightarrow> going False t"
  by (simp add: going_def)

text \<open>A write either fails and changes nothing, or appends its event.\<close>

lemma write_event_cases:
  "write_event e t = (t, Some (ErrText ''write'')) \<and> tRoom t = Some 0 \<or>
   (\<exists>room. write_event e t = (t\<lparr> tOut := tOut t @ [e], tRoom := room \<rparr>, None) \<and> tRoom t \<noteq> Some 0)"
proof (cases "tRoom t")
  case None
  then have "write_event e t = (t\<lparr> tOut := tOut t @ [e], tRoom := None \<rparr>, None)"
    by (simp add: write_event_def)
  then show ?thesis using None by auto
next
  case (Some n)
  then show ?thesis by (cases n) (auto simp: write_event_def)
qed

text \<open>The central rule: a write of an event the acceptor takes, with the state changes around it.\<close>

lemma write_rule:
  assumes "stream_inv t"
    and "\<And>p. linked t p \<Longrightarrow> tRoom t \<noteq> Some 0 \<Longrightarrow> proto_run proto_init (tOut t) = Some p \<Longrightarrow>
           \<exists>p'. proto_step p e = Some p' \<and> (\<forall>room. linked (g (f t\<lparr> tOut := tOut t @ [e], tRoom := room \<rparr>)) p')"
    and f: "tOut (f t) = tOut t" "tRoom (f t) = tRoom t"
    and g: "\<And>s. tOut (g s) = tOut s" "\<And>s. tRoom (g s) = tRoom s"
    and run: "and_then (write_event e) (set_state g) (f t) = (t', r)"
  shows "stream_inv t' \<and> (r = None \<longrightarrow> (\<exists>room. t' = g (f t\<lparr> tOut := tOut t @ [e], tRoom := room \<rparr>)))"
proof -
  obtain p where p: "proto_run proto_init (tOut t) = Some p" "tRoom t = Some 0 \<or> linked t p"
    using assms(1) by (auto simp: stream_inv_def)
  consider "write_event e (f t) = (f t, Some (ErrText ''write''))" "tRoom t = Some 0"
    | room where "write_event e (f t) = (f t\<lparr> tOut := tOut t @ [e], tRoom := room \<rparr>, None)"
        "tRoom t \<noteq> Some 0"
    using write_event_cases [of e "f t"] f by auto
  then show ?thesis
  proof cases
    case 1
    then have "t' = f t" "r \<noteq> None" using run by (auto simp: and_then_def)
    then show ?thesis using p f 1 by (auto simp: stream_inv_def)
  next
    case 2
    then obtain p' where p': "proto_step p e = Some p'"
        "linked (g (f t\<lparr> tOut := tOut t @ [e], tRoom := room \<rparr>)) p'"
      using assms(2) [OF _ _ p(1)] p(2) by blast
    have "proto_run proto_init (tOut t @ [e]) = Some p'"
      using p(1) p'(1) by (simp add: proto_run_append)
    then have "stream_inv (g (f t\<lparr> tOut := tOut t @ [e], tRoom := room \<rparr>))"
      using p'(2) g by (auto simp: stream_inv_def)
    moreover have "t' = g (f t\<lparr> tOut := tOut t @ [e], tRoom := room \<rparr>)"
      using 2 run by (simp add: and_then_def set_state_def)
    ultimately show ?thesis by blast
  qed
qed

lemma write_triple:
  assumes inv: "\<And>t. P t \<Longrightarrow> stream_inv t"
    and step: "\<And>t p. P t \<Longrightarrow> linked t p \<Longrightarrow> tRoom t \<noteq> Some 0 \<Longrightarrow>
           \<exists>p'. proto_step p e = Some p' \<and> (\<forall>room. linked (g (t\<lparr> tOut := tOut t @ [e], tRoom := room \<rparr>)) p')"
    and g: "\<And>s. tOut (g s) = tOut s" "\<And>s. tRoom (g s) = tRoom s"
    and post: "\<And>t room. P t \<Longrightarrow> stream_inv (g (t\<lparr> tOut := tOut t @ [e], tRoom := room \<rparr>)) \<Longrightarrow>
           Q (g (t\<lparr> tOut := tOut t @ [e], tRoom := room \<rparr>))"
  shows "triple P (and_then (write_event e) (set_state g)) Q"
proof (rule tripleI)
  fix t t' r
  assume P: "P t" and run: "and_then (write_event e) (set_state g) t = (t', r)"
  have "stream_inv t' \<and> (r = None \<longrightarrow> (\<exists>room. t' = g (t\<lparr> tOut := tOut t @ [e], tRoom := room \<rparr>)))"
    by (rule write_rule [where f = "\<lambda>t. t", OF inv [OF P] _ refl refl g run]) (use step [OF P] in blast)
  then show "if r = None then Q t' else stream_inv t'" using post [OF P] by auto
qed

lemma write_then_id: "and_then (write_event e) (set_state (\<lambda>s. s)) = write_event e"
  by (rule ext) (auto simp: and_then_def set_state_def split: prod.splits option.splits)

lemma write_triple_id:
  assumes "\<And>t. P t \<Longrightarrow> stream_inv t"
    and "\<And>t p. P t \<Longrightarrow> linked t p \<Longrightarrow>
           \<exists>p'. proto_step p e = Some p' \<and> (\<forall>room. linked (t\<lparr> tOut := tOut t @ [e], tRoom := room \<rparr>) p')"
    and "\<And>t room. P t \<Longrightarrow> stream_inv (t\<lparr> tOut := tOut t @ [e], tRoom := room \<rparr>) \<Longrightarrow>
           Q (t\<lparr> tOut := tOut t @ [e], tRoom := room \<rparr>)"
  shows "triple P (write_event e) Q"
proof -
  have "triple P (and_then (write_event e) (set_state (\<lambda>s. s))) Q"
    by (rule write_triple) (use assms in simp_all)
  then show ?thesis by (simp only: write_then_id)
qed

section \<open>Blocks and the relation\<close>

lemma find_block_mem: "find_block t key = Some b \<Longrightarrow> (key, b) \<in> set (tBlocks t)"
  by (simp add: find_block_def map_of_SomeD)

lemma mem_find_block: "tidy t \<Longrightarrow> (key, b) \<in> set (tBlocks t) \<Longrightarrow> find_block t key = Some b"
  by (simp add: find_block_def tidy_def)

lemma index_inj:
  assumes "tidy t" "(k1, b1) \<in> set (tBlocks t)" "(k2, b2) \<in> set (tBlocks t)" "bIndex b1 = bIndex b2"
  shows "k1 = k2 \<and> b1 = b2"
proof -
  have "inj_on (bIndex \<circ> snd) (set (tBlocks t))"
    using assms(1) by (simp add: tidy_def distinct_map)
  then have "(k1, b1) = (k2, b2)" using assms(2-4) unfolding inj_on_def by fastforce
  then show ?thesis by simp
qed

text \<open>Changes that the relation does not look at.\<close>

lemma open_blocks_cong:
  "tBlocks t' = tBlocks t \<Longrightarrow> tThinking t' = tThinking t \<Longrightarrow> open_blocks t' = open_blocks t"
  by (simp add: open_blocks_def)

lemma tidy_cong:
  "tBlocks t' = tBlocks t \<Longrightarrow> tThinking t' = tThinking t \<Longrightarrow> tNextIndex t' = tNextIndex t \<Longrightarrow>
   tThinkEnabled t' = tThinkEnabled t \<Longrightarrow> tidy t' = tidy t"
  by (simp add: tidy_def)

lemma linked_cong:
  assumes "tBlocks t' = tBlocks t" "tThinking t' = tThinking t" "tNextIndex t' = tNextIndex t"
    "tThinkEnabled t' = tThinkEnabled t" "tStarted t' = tStarted t" "tFinished t' = tFinished t"
  shows "linked t' p = linked t p"
  unfolding linked_def tidy_cong [OF assms(1-4)] open_blocks_cong [OF assms(1,2)] using assms by simp

lemma stream_inv_cong:
  assumes "tBlocks t' = tBlocks t" "tThinking t' = tThinking t" "tNextIndex t' = tNextIndex t"
    "tThinkEnabled t' = tThinkEnabled t" "tStarted t' = tStarted t" "tFinished t' = tFinished t"
    "tOut t' = tOut t" "tRoom t' = tRoom t"
  shows "stream_inv t' = stream_inv t"
  unfolding stream_inv_def using linked_cong [OF assms(1-6)] assms(7,8) by simp

text \<open>The blocks after a change of one of them.\<close>

definition map_blocks :: "string \<Rightarrow> (block \<Rightarrow> block) \<Rightarrow> (string \<times> block) list \<Rightarrow> (string \<times> block) list" where
  "map_blocks key f kbs = map (\<lambda>(k, b). (k, if k = key then f b else b)) kbs"

lemma map_blocks_mem:
  "(k, b') \<in> set (map_blocks key f kbs) \<longleftrightarrow>
     (\<exists>b. (k, b) \<in> set kbs \<and> b' = (if k = key then f b else b))"
  unfolding map_blocks_def by (force simp: image_iff)

lemma map_blocks_keys: "map fst (map_blocks key f kbs) = map fst kbs"
  by (induction kbs) (auto simp: map_blocks_def)

lemma map_blocks_index:
  "(\<And>b. bIndex (f b) = bIndex b) \<Longrightarrow> map (bIndex \<circ> snd) (map_blocks key f kbs) = map (bIndex \<circ> snd) kbs"
  by (induction kbs) (auto simp: map_blocks_def)

lemma tidy_change:
  assumes "tidy t" "\<And>b. bIndex (f b) = bIndex b" "\<And>b. bKind (f b) = bKind b"
    and "tBlocks t' = map_blocks key f (tBlocks t)" "tThinking t' = tThinking t"
      "tNextIndex t' = tNextIndex t" "tThinkEnabled t' = tThinkEnabled t"
  shows "tidy t'"
proof -
  have idx: "map (bIndex \<circ> snd) (tBlocks t') = map (bIndex \<circ> snd) (tBlocks t)"
    unfolding assms(4) by (rule map_blocks_index) (rule assms(2))
  have old: "\<exists>c0. (k, c0) \<in> set (tBlocks t) \<and> bIndex c = bIndex c0 \<and> bKind c = bKind c0"
    if "(k, c) \<in> set (tBlocks t')" for k c
    using that assms(2,3) unfolding assms(4) map_blocks_mem by auto
  have "bIndex c < tNextIndex t' \<and> kind_of_key k (bKind c)" if "(k, c) \<in> set (tBlocks t')" for k c
    using old [OF that] assms(1,6) by (auto simp: tidy_def)
  moreover have "bIndex c \<noteq> bIndex b" if "(k, c) \<in> set (tBlocks t')" "tThinking t' = Some b" for k c b
    using old [OF that(1)] that(2) assms(1,5) by (fastforce simp: tidy_def)
  ultimately show ?thesis
    using assms(1,4-7) idx by (auto simp: tidy_def map_blocks_keys)
qed

lemma mem_open:
  "(i, kd) \<in> open_blocks t \<longleftrightarrow>
     (\<exists>k c. (k, c) \<in> set (tBlocks t) \<and> \<not> bStopped c \<and> i = bIndex c \<and> kd = bKind c) \<or>
     (\<exists>c. tThinking t = Some c \<and> i = bIndex c \<and> kd = KThinking)"
  by (auto simp: open_blocks_def)

lemma open_change_emitted:
  assumes "\<And>b. bIndex (f b) = bIndex b" "\<And>b. bKind (f b) = bKind b" "\<And>b. bStopped (f b) = bStopped b"
    and "tBlocks t' = map_blocks key f (tBlocks t)" "tThinking t' = tThinking t"
  shows "open_blocks t' = open_blocks t"
proof -
  have "(i, kd) \<in> open_blocks t' \<longleftrightarrow> (i, kd) \<in> open_blocks t" for i kd
  proof -
    have e: "bStopped (if x then f b else b) = bStopped b" "bIndex (if x then f b else b) = bIndex b"
      "bKind (if x then f b else b) = bKind b" for x b
      using assms(1-3) by auto
    have "(\<exists>k c. (k, c) \<in> set (map_blocks key f (tBlocks t)) \<and> \<not> bStopped c \<and> i = bIndex c \<and> kd = bKind c) \<longleftrightarrow>
          (\<exists>k c. (k, c) \<in> set (tBlocks t) \<and> \<not> bStopped c \<and> i = bIndex c \<and> kd = bKind c)"
    proof
      assume "\<exists>k c. (k, c) \<in> set (map_blocks key f (tBlocks t)) \<and> \<not> bStopped c \<and> i = bIndex c \<and> kd = bKind c"
      then obtain k b where "(k, b) \<in> set (tBlocks t)" "\<not> bStopped (if k = key then f b else b)"
          "i = bIndex (if k = key then f b else b)" "kd = bKind (if k = key then f b else b)"
        unfolding map_blocks_mem by blast
      then show "\<exists>k c. (k, c) \<in> set (tBlocks t) \<and> \<not> bStopped c \<and> i = bIndex c \<and> kd = bKind c"
        unfolding e by blast
    next
      assume "\<exists>k c. (k, c) \<in> set (tBlocks t) \<and> \<not> bStopped c \<and> i = bIndex c \<and> kd = bKind c"
      then obtain k b where b: "(k, b) \<in> set (tBlocks t)" "\<not> bStopped b" "i = bIndex b" "kd = bKind b"
        by blast
      let ?c = "if k = key then f b else b"
      have "(k, ?c) \<in> set (map_blocks key f (tBlocks t))" unfolding map_blocks_mem using b(1) by blast
      moreover have "\<not> bStopped ?c" "i = bIndex ?c" "kd = bKind ?c" unfolding e using b by auto
      ultimately show "\<exists>k c. (k, c) \<in> set (map_blocks key f (tBlocks t)) \<and> \<not> bStopped c \<and> i = bIndex c \<and> kd = bKind c"
        by blast
    qed
    then show ?thesis unfolding mem_open assms(4,5) by simp
  qed
  then show ?thesis by auto
qed

lemma open_change_stopped:
  assumes "tidy t" "find_block t key = Some b"
    and "\<And>b. bIndex (f b) = bIndex b" "\<And>b. bKind (f b) = bKind b" "\<And>b. bStopped (f b)"
    and "tBlocks t' = map_blocks key f (tBlocks t)" "tThinking t' = tThinking t"
  shows "open_blocks t' = {ik \<in> open_blocks t. fst ik \<noteq> bIndex b}"
proof -
  have mem: "(key, b) \<in> set (tBlocks t)" using find_block_mem [OF assms(2)] .
  have think: "bIndex c \<noteq> bIndex b" if "tThinking t = Some c" for c
    using assms(1) mem that by (auto simp: tidy_def)
  have keep: "k = key" if "(k, c) \<in> set (tBlocks t)" "bIndex c = bIndex b" for k c
    using index_inj [OF assms(1) that(1) mem that(2)] by simp
  have same: "bIndex c = bIndex b" if "(key, c) \<in> set (tBlocks t)" for c
    using mem_find_block [OF assms(1) that] assms(2) by simp
  have "(i, kd) \<in> open_blocks t' \<longleftrightarrow> (i, kd) \<in> open_blocks t \<and> i \<noteq> bIndex b" for i kd
  proof (intro iffI)
    assume "(i, kd) \<in> open_blocks t'"
    then consider k c where "(k, c) \<in> set (tBlocks t)" "\<not> bStopped (if k = key then f c else c)"
        "i = bIndex (if k = key then f c else c)" "kd = bKind (if k = key then f c else c)"
      | c where "tThinking t = Some c" "i = bIndex c" "kd = KThinking"
      unfolding mem_open assms(6,7) map_blocks_mem by blast
    then show "(i, kd) \<in> open_blocks t \<and> i \<noteq> bIndex b"
    proof cases
      case 1
      then have "k \<noteq> key" using assms(5) by auto
      then show ?thesis using 1 keep unfolding mem_open by auto
    next
      case 2
      then show ?thesis using think unfolding mem_open by auto
    qed
  next
    assume r: "(i, kd) \<in> open_blocks t \<and> i \<noteq> bIndex b"
    then consider k c where "(k, c) \<in> set (tBlocks t)" "\<not> bStopped c" "i = bIndex c" "kd = bKind c"
      | c where "tThinking t = Some c" "i = bIndex c" "kd = KThinking"
      unfolding mem_open by blast
    then show "(i, kd) \<in> open_blocks t'"
    proof cases
      case 1
      then have "k \<noteq> key" using same r by auto
      with 1 show ?thesis unfolding mem_open assms(6,7) map_blocks_mem by auto
    next
      case 2
      then show ?thesis unfolding mem_open assms(7) by auto
    qed
  qed
  then show ?thesis by auto
qed

section \<open>The methods keep the relation\<close>

lemma linkedD:
  assumes "linked t p"
  shows "tidy t" "pStarted p = tStarted t" "pNext p = tNextIndex t" "set (pOpen p) = open_blocks t"
    "pDone p = tFinished t"
  using assms by (auto simp: linked_def)

lemma linked_live:
  assumes "linked t p" "\<not> tFinished t"
  shows "\<not> pDone p" "\<not> pDelta p"
  using assms by (auto simp: linked_def)

lemma ensure_start_triple: "triple (going False) (ensure_start i m) (going True)"
proof (rule tripleI)
  fix t t' r
  assume P: "going False t" and run: "ensure_start i m t = (t', r)"
  show "if r = None then going True t' else stream_inv t'"
  proof (cases "tStarted t")
    case True
    then show ?thesis using P run by (auto simp: ensure_start_def going_def)
  next
    case False
    obtain i2 m2 where e: "ensure_start i m t =
        write_event (MessageStart i2 m2 (tUsageIn t)) (t\<lparr>tMsgID := i2, tModel := m2, tStarted := True\<rparr>)"
      using False by (simp add: ensure_start_def Let_def)
    let ?f = "\<lambda>t. t\<lparr>tMsgID := i2, tModel := m2, tStarted := True\<rparr>"
    let ?e = "MessageStart i2 m2 (tUsageIn t)"
    have "stream_inv t' \<and> (r = None \<longrightarrow> (\<exists>room. t' = (\<lambda>s. s) (?f t\<lparr>tOut := tOut t @ [?e], tRoom := room\<rparr>)))"
    proof (rule write_rule [where f = ?f and g = "\<lambda>s. s" and e = ?e])
      show "stream_inv t" using P going_inv by blast
      show "and_then (write_event ?e) (set_state (\<lambda>s. s)) (?f t) = (t', r)"
        using run e write_then_id by simp
      fix p
      assume l: "linked t p"
      have nf: "\<not> tFinished t" using P by (simp add: going_def)
      have "proto_step p ?e = Some (p\<lparr>pStarted := True\<rparr>)"
        using linkedD [OF l] linked_live [OF l nf] False by simp
      moreover have "linked (?f t\<lparr>tOut := tOut t @ [?e], tRoom := room\<rparr>) (p\<lparr>pStarted := True\<rparr>)" for room
        using l unfolding linked_def tidy_def open_blocks_def by simp
      ultimately show "\<exists>p'. proto_step p ?e = Some p' \<and>
          (\<forall>room. linked (?f t\<lparr>tOut := tOut t @ [?e], tRoom := room\<rparr>) p')" by blast
    qed simp_all
    moreover have "\<not> tFinished t" using P by (simp add: going_def)
    ultimately show ?thesis by (auto simp: going_def)
  qed
qed

lemma start_current_triple: "triple (going False) start_current (going True)"
  using ensure_start_triple unfolding start_current_def triple_def by blast

text \<open>The thinking block.\<close>

definition no_thinking :: "translator \<Rightarrow> bool" where
  "no_thinking t \<longleftrightarrow> tRoom t = Some 0 \<or> tThinking t = None"

lemma thinking_done_frame [simp]:
  "tOut (thinking_done c t) = tOut t" "tRoom (thinking_done c t) = tRoom t"
  "tBlocks (thinking_done c t) = tBlocks t" "tThinking (thinking_done c t) = None"
  "tNextIndex (thinking_done c t) = tNextIndex t" "tStarted (thinking_done c t) = tStarted t"
  "tFinished (thinking_done c t) = tFinished t" "tThinkEnabled (thinking_done c t) = tThinkEnabled t"
  by (simp_all add: thinking_done_def Let_def)

lemma thinking_delta_write:
  assumes "delta_kind d = KThinking"
  shows "triple (\<lambda>t. going st t \<and> tThinking t = Some b) (write_event (BlockDelta (bIndex b) d))
           (\<lambda>t. going st t \<and> tThinking t = Some b)"
proof (rule write_triple_id)
  fix t p
  assume P: "going st t \<and> tThinking t = Some b" and l: "linked t p"
  have "(bIndex b, KThinking) \<in> set (pOpen p)"
    using linkedD(4) [OF l] P by (simp add: mem_open)
  then have "proto_step p (BlockDelta (bIndex b) d) = Some p"
    using linked_live [OF l] P assms by (simp add: going_def)
  then show "\<exists>p'. proto_step p (BlockDelta (bIndex b) d) = Some p' \<and>
      (\<forall>room. linked (t\<lparr>tOut := tOut t @ [BlockDelta (bIndex b) d], tRoom := room\<rparr>) p')"
    using l linked_cong [of "t\<lparr>tOut := _, tRoom := _\<rparr>" t p] by auto
qed (auto simp: going_def)

lemma thinking_stop_write:
  "triple (\<lambda>t. going st t \<and> tThinking t = Some b)
     (and_then (write_event (BlockStop (bIndex b))) (set_state (thinking_done c)))
     (\<lambda>t. going st t \<and> no_thinking t)"
proof (rule write_triple)
  fix t p
  assume P: "going st t \<and> tThinking t = Some b" and l: "linked t p"
  have mem: "(bIndex b, KThinking) \<in> set (pOpen p)"
    using linkedD(4) [OF l] P by (simp add: mem_open)
  let ?p = "p\<lparr>pOpen := filter (\<lambda>ik. fst ik \<noteq> bIndex b) (pOpen p)\<rparr>"
  have "proto_step p (BlockStop (bIndex b)) = Some ?p"
    using linked_live [OF l] P mem by (force simp: going_def)
  moreover have "linked (thinking_done c (t\<lparr>tOut := tOut t @ [BlockStop (bIndex b)], tRoom := room\<rparr>)) ?p" for room
  proof -
    let ?t = "thinking_done c (t\<lparr>tOut := tOut t @ [BlockStop (bIndex b)], tRoom := room\<rparr>)"
    have td: "tidy t" using linkedD(1) [OF l] .
    then have other: "bIndex x \<noteq> bIndex b" if "(k, x) \<in> set (tBlocks t)" for k x
      using that P by (auto simp: tidy_def)
    have "(i, kd) \<in> open_blocks ?t \<longleftrightarrow> (i, kd) \<in> open_blocks t \<and> i \<noteq> bIndex b" for i kd
      unfolding mem_open using P other by auto
    then have "open_blocks ?t = {ik \<in> open_blocks t. fst ik \<noteq> bIndex b}" by auto
    moreover have "tidy ?t" using td by (simp add: tidy_def)
    ultimately show ?thesis using l by (auto simp: linked_def)
  qed
  ultimately show "\<exists>p'. proto_step p (BlockStop (bIndex b)) = Some p' \<and>
      (\<forall>room. linked (thinking_done c (t\<lparr>tOut := tOut t @ [BlockStop (bIndex b)], tRoom := room\<rparr>)) p')"
    by blast
qed (auto simp: going_def no_thinking_def)

lemma stream_inv_no_thinking:
  assumes "stream_inv t" "\<not> tThinkEnabled t"
  shows "no_thinking t"
  using assms by (cases "tThinking t") (auto simp: stream_inv_def linked_def tidy_def no_thinking_def)

lemma going_cong:
  assumes "tBlocks t' = tBlocks t" "tThinking t' = tThinking t" "tNextIndex t' = tNextIndex t"
    "tThinkEnabled t' = tThinkEnabled t" "tStarted t' = tStarted t" "tFinished t' = tFinished t"
    "tOut t' = tOut t" "tRoom t' = tRoom t"
  shows "going st t' = going st t"
  unfolding going_def using stream_inv_cong [OF assms] assms(5,6) by simp

lemma finalize_triple:
  "triple (going st) (finalize_thinking_block c) (\<lambda>t. going st t \<and> no_thinking t)"
proof (rule tripleI)
  fix t t' r
  assume P: "going st t" and run: "finalize_thinking_block c t = (t', r)"
  show "if r = None then going st t' \<and> no_thinking t' else stream_inv t'"
  proof (cases "tThinkEnabled t \<and> tThinking t \<noteq> None")
    case False
    then have t': "r = None" "t' = t \<or> t' = t\<lparr>tSignature := []\<rparr>"
    proof -
      have "finalize_thinking_block c t = (if tThinkEnabled t \<and> c then t\<lparr>tSignature := []\<rparr> else t, None)"
        using False by (cases "tThinkEnabled t") (simp_all add: finalize_thinking_block_def)
      then have "(t', r) = (if tThinkEnabled t \<and> c then t\<lparr>tSignature := []\<rparr> else t, None)"
        using run by simp
      then show "r = None" "t' = t \<or> t' = t\<lparr>tSignature := []\<rparr>" by (simp_all split: if_splits)
    qed
    have "going st (t\<lparr>tSignature := []\<rparr>)"
      using P going_cong [of "t\<lparr>tSignature := []\<rparr>" t st] by simp
    moreover have "no_thinking t"
      using False stream_inv_no_thinking [OF going_inv [OF P]] by (auto simp: no_thinking_def)
    then have "no_thinking t" "no_thinking (t\<lparr>tSignature := []\<rparr>)" by (auto simp: no_thinking_def)
    ultimately show ?thesis using t' P by auto
  next
    case True
    then obtain b where b: "tThinking t = Some b" by blast
    let ?sig = "if tSignature t \<noteq> [] then write_event (BlockDelta (bIndex b) (SignatureDelta (tSignature t))) else ret"
    have sig: "triple (\<lambda>t. going st t \<and> tThinking t = Some b) ?sig (\<lambda>t. going st t \<and> tThinking t = Some b)"
      by (rule triple_if) (auto intro: thinking_delta_write triple_ret simp: delta_kind_def)
    note all = triple_then [OF sig thinking_stop_write]
    have "and_then ?sig (and_then (write_event (BlockStop (bIndex b))) (set_state (thinking_done c))) t = (t', r)"
      using run True b by (simp add: finalize_thinking_block_def)
    then show ?thesis using tripleD [OF all] P b by blast
  qed
qed

lemma finish_thinking_triple: "triple (going st) finish_thinking_before_content (going st)"
proof (rule tripleI)
  fix t t' r
  assume P: "going st t" and run: "finish_thinking_before_content t = (t', r)"
  show "if r = None then going st t' else stream_inv t'"
  proof (cases "tThinking t = None")
    case True
    then show ?thesis using P run by (auto simp: finish_thinking_before_content_def)
  next
    case False
    then show ?thesis
      using tripleD [OF finalize_triple P] run by (fastforce simp: finish_thinking_before_content_def)
  qed
qed

lemma content_kind_simps [simp]:
  "content_kind TextBlock = KText" "content_kind (ToolUse i n) = KTool" "content_kind ThinkingBlock = KThinking"
  "delta_kind (TextDelta s) = KText" "delta_kind (InputJsonDelta s) = KTool"
  "delta_kind (ThinkingDelta s) = KThinking" "delta_kind (SignatureDelta s) = KThinking"
  by (simp_all add: content_kind_def delta_kind_def)

text \<open>Registering a started block.\<close>

lemma linked_add_block:
  assumes l: "linked t p" and st: "tStarted t" and key: "find_block t key = None" "kind_of_key key (bKind b)"
    and b: "bIndex b = tNextIndex t" "\<not> bStopped b"
    and t': "tBlocks t' = tBlocks t @ [(key, b)]" "tThinking t' = tThinking t"
      "tNextIndex t' = Suc (tNextIndex t)" "tThinkEnabled t' = tThinkEnabled t"
      "tStarted t' = tStarted t" "tFinished t' = tFinished t"
  shows "linked t' (p\<lparr>pOpen := (bIndex b, bKind b) # pOpen p, pNext := Suc (tNextIndex t)\<rparr>)"
proof -
  have td: "tidy t" using linkedD(1) [OF l] .
  have fresh: "bIndex c \<noteq> tNextIndex t" if "(k, c) \<in> set (tBlocks t)" for k c
    using td that by (auto simp: tidy_def)
  have nokey: "key \<notin> fst ` set (tBlocks t)"
    using key(1) by (simp add: find_block_def map_of_eq_None_iff)
  have range: "bIndex c < tNextIndex t' \<and> kind_of_key k (bKind c)" if "(k, c) \<in> set (tBlocks t')" for k c
  proof (cases "(k, c) \<in> set (tBlocks t)")
    case True
    then show ?thesis using td unfolding tidy_def t' by fastforce
  next
    case False
    then show ?thesis using that b(1) key(2) unfolding t' by auto
  qed
  have think: "tThinkEnabled t' \<and> bIndex x < tNextIndex t' \<and> (\<forall>(k, c) \<in> set (tBlocks t'). bIndex c \<noteq> bIndex x)"
    if "tThinking t' = Some x" for x
    using td that b(1) unfolding tidy_def t' by auto
  have "distinct (map fst (tBlocks t'))" "distinct (map (bIndex \<circ> snd) (tBlocks t'))"
    using td nokey fresh b(1) unfolding tidy_def t' by auto
  then have "tidy t'" using range think unfolding tidy_def by blast
  have "(i, kd) \<in> open_blocks t' \<longleftrightarrow> (i, kd) = (bIndex b, bKind b) \<or> (i, kd) \<in> open_blocks t" for i kd
    unfolding mem_open t' using b(2) by auto
  then have "open_blocks t' = insert (bIndex b, bKind b) (open_blocks t)" by auto
  moreover note \<open>tidy t'\<close>
  ultimately show ?thesis using l st t' by (simp add: linked_def)
qed

lemma open_block_triple:
  assumes "kind_of_key key kind" "content_kind content = kind"
  shows "triple (\<lambda>t. going True t \<and> find_block t key = None) (open_block key kind content call name) (going True)"
proof (rule tripleI)
  fix t t' r
  assume P: "going True t \<and> find_block t key = None" and run: "open_block key kind content call name t = (t', r)"
  let ?i = "tNextIndex t"
  let ?b = "\<lparr>bIndex = ?i, bKind = kind, bCallID = call, bName = name, bEmitted = False, bStopped = False\<rparr>"
  let ?f = "\<lambda>t. t\<lparr>tNextIndex := Suc ?i\<rparr>" and ?g = "\<lambda>t. t\<lparr>tBlocks := tBlocks t @ [(key, ?b)]\<rparr>"
  let ?e = "BlockStart ?i content"
  have "stream_inv t' \<and> (r = None \<longrightarrow> (\<exists>room. t' = ?g (?f t\<lparr>tOut := tOut t @ [?e], tRoom := room\<rparr>)))"
  proof (rule write_rule [where f = ?f and g = ?g and e = ?e])
    show "stream_inv t" using P going_inv by blast
    show "and_then (write_event ?e) (set_state ?g) (?f t) = (t', r)"
      using run by (simp add: open_block_def Let_def)
    fix p
    assume l: "linked t p"
    have st: "tStarted t" "\<not> tFinished t" using P by (auto simp: going_def)
    have "proto_step p ?e = Some (p\<lparr>pOpen := (?i, kind) # pOpen p, pNext := Suc ?i\<rparr>)"
      using linkedD [OF l] linked_live [OF l st(2)] st(1) assms(2) by simp
    moreover have "linked (?g (?f t\<lparr>tOut := tOut t @ [?e], tRoom := room\<rparr>))
        (p\<lparr>pOpen := (?i, kind) # pOpen p, pNext := Suc ?i\<rparr>)" for room
      using linked_add_block [OF l st(1) conjunct2 [OF P], of ?b] assms(1) by simp
    ultimately show "\<exists>p'. proto_step p ?e = Some p' \<and>
        (\<forall>room. linked (?g (?f t\<lparr>tOut := tOut t @ [?e], tRoom := room\<rparr>)) p')" by blast
  qed simp_all
  then show "if r = None then going True t' else stream_inv t'" using P by (auto simp: going_def)
qed

lemma has_prefix_self [simp]: "has_prefix p p"
  using has_prefix_append [of p "[]"] by simp

lemma normalize_key_kind:
  assumes "kind \<in> {KText, KTool}"
  shows "kind_of_key (normalize_block_key kind key) kind"
  using assms by (auto simp: kind_of_key_def normalize_block_key_def Let_def)

lemma kind_of_key_unique: "kind_of_key key k1 \<Longrightarrow> kind_of_key key k2 \<Longrightarrow> k1 = k2"
  by (auto simp: kind_of_key_def kind_prefix_def has_prefix_iff)

lemma ensure_text_triple: "triple (going True) (ensure_text_block key) (going True)"
proof -
  let ?k = "normalize_block_key KText key"
  let ?m = "\<lambda>t. if find_block t ?k \<noteq> None then (t, None) else open_block ?k KText TextBlock [] [] t"
  have "triple (going True) ?m (going True)"
  proof (rule tripleI)
    fix t t' r
    assume P: "going True t" and run: "?m t = (t', r)"
    show "if r = None then going True t' else stream_inv t'"
    proof (cases "find_block t ?k = None")
      case True
      then show ?thesis
        using tripleD [OF open_block_triple [OF normalize_key_kind], of KText TextBlock t key] P run by simp
    next
      case False
      then show ?thesis using P run by auto
    qed
  qed
  then show ?thesis
    unfolding ensure_text_block_def Let_def by (rule triple_then [OF finish_thinking_triple])
qed

lemma going_tool_flag: "going st t \<Longrightarrow> going st (t\<lparr>tHasToolUse := b\<rparr>)"
  using going_cong [of "t\<lparr>tHasToolUse := b\<rparr>" t st] by simp

lemma going_reason_key: "going st t \<Longrightarrow> going st (t\<lparr>tReasonKey := k\<rparr>)"
  using going_cong [of "t\<lparr>tReasonKey := k\<rparr>" t st] by simp

lemma going_signature: "going st t \<Longrightarrow> going st (t\<lparr>tSignature := k\<rparr>)"
  using going_cong [of "t\<lparr>tSignature := k\<rparr>" t st] by simp

lemma going_pending: "going st t \<Longrightarrow> going st (t\<lparr>tStopPending := b\<rparr>)"
  using going_cong [of "t\<lparr>tStopPending := b\<rparr>" t st] by simp

lemma going_usage: "going st t \<Longrightarrow> going st (t\<lparr>tUsageIn := a, tUsageOut := b\<rparr>)"
  using going_cong [of "t\<lparr>tUsageIn := a, tUsageOut := b\<rparr>" t st] by simp

lemma going_usage_in: "going st t \<Longrightarrow> going st (t\<lparr>tUsageIn := a\<rparr>)"
  using going_cong [of "t\<lparr>tUsageIn := a\<rparr>" t st] by simp

lemma triple_cond:
  assumes "\<And>t. P t \<Longrightarrow> b t \<Longrightarrow> Q t" "triple (\<lambda>t. P t \<and> \<not> b t) m Q"
  shows "triple P (\<lambda>t. if b t then (t, None) else m t) Q"
proof (rule tripleI)
  fix t t' r
  assume "P t" "(if b t then (t, None) else m t) = (t', r)"
  then show "if r = None then Q t' else stream_inv t'"
    using assms(1) tripleD [OF assms(2), of t t' r] by (cases "b t") auto
qed

lemma triple_split:
  assumes "triple (\<lambda>t. P t \<and> b t) m Q" "triple (\<lambda>t. P t \<and> \<not> b t) k Q"
  shows "triple P (\<lambda>t. if b t then m t else k t) Q"
proof (rule tripleI)
  fix t t' r
  assume "P t" "(if b t then m t else k t) = (t', r)"
  then show "if r = None then Q t' else stream_inv t'"
    using tripleD [OF assms(1), of t t' r] tripleD [OF assms(2), of t t' r] by (cases "b t") auto
qed

lemma triple_pre: "triple P m Q \<Longrightarrow> (\<And>t. P' t \<Longrightarrow> P t) \<Longrightarrow> triple P' m Q"
  unfolding triple_def by meson

lemma triple_post: "triple P m Q \<Longrightarrow> (\<And>t. Q t \<Longrightarrow> Q' t) \<Longrightarrow> triple P m Q'"
  unfolding triple_def by meson

lemma ensure_tool_triple: "triple (going True) (ensure_tool_block key call name) (going True)"
proof -
  let ?k = "tool_key key call"
  let ?c = "if call = [] then trim_prefix ?k ''tool:'' else call"
  let ?n = "if name = [] then ''tool'' else name"
  have "triple (\<lambda>t. going True t \<and> \<not> find_block t ?k \<noteq> None)
      (and_then (open_block ?k KTool (ToolUse ?c ?n) ?c ?n) (set_state (\<lambda>t. t\<lparr>tHasToolUse := True\<rparr>))) (going True)"
    by (rule triple_then [OF triple_pre [OF open_block_triple] triple_set])
       (auto simp: tool_key_def intro: normalize_key_kind going_tool_flag)
  then have "triple (going True) (\<lambda>t. if find_block t ?k \<noteq> None then (t, None)
      else and_then (open_block ?k KTool (ToolUse ?c ?n) ?c ?n)
             (set_state (\<lambda>t. t\<lparr>tHasToolUse := True\<rparr>)) t) (going True)"
    by (rule triple_cond [rotated])
  then show ?thesis
    unfolding ensure_tool_block_def Let_def by (rule triple_then [OF finish_thinking_triple])
qed

lemma change_block_frame [simp]:
  "tBlocks (change_block key f t) = map_blocks key f (tBlocks t)"
  "tThinking (change_block key f t) = tThinking t" "tNextIndex (change_block key f t) = tNextIndex t"
  "tThinkEnabled (change_block key f t) = tThinkEnabled t" "tStarted (change_block key f t) = tStarted t"
  "tFinished (change_block key f t) = tFinished t" "tOut (change_block key f t) = tOut t"
  "tRoom (change_block key f t) = tRoom t"
  by (simp_all add: change_block_def map_blocks_def)

lemma linked_blocks_nonempty:
  "linked t p \<Longrightarrow> find_block t key = Some b \<Longrightarrow> tStarted t"
  by (auto simp: linked_def find_block_def)

lemma delta_to_triple:
  assumes "kind_of_key key (delta_kind d)"
  shows "triple (going True) (delta_to key d) (going True)"
proof (rule tripleI)
  fix t t' r
  assume P: "going True t" and run: "delta_to key d t = (t', r)"
  show "if r = None then going True t' else stream_inv t'"
  proof (cases "\<exists>b. find_block t key = Some b \<and> \<not> bStopped b")
    case False
    then have "t' = t \<and> r = None" using run by (auto simp: delta_to_def split: option.splits)
    then show ?thesis using P by simp
  next
    case True
    then obtain b where b: "find_block t key = Some b" "\<not> bStopped b" by blast
    let ?e = "BlockDelta (bIndex b) d" and ?g = "change_block key (\<lambda>b. b\<lparr>bEmitted := True\<rparr>)"
    have tr: "triple (\<lambda>t. going True t \<and> find_block t key = Some b) (and_then (write_event ?e) (set_state ?g)) (going True)"
    proof (rule write_triple)
      fix t p
      assume P: "going True t \<and> find_block t key = Some b" and l: "linked t p"
      have td: "tidy t" using linkedD(1) [OF l] .
      have mem: "(key, b) \<in> set (tBlocks t)" using find_block_mem P by blast
      then have "delta_kind d = bKind b" using td assms kind_of_key_unique by (fastforce simp: tidy_def)
      then have "(bIndex b, delta_kind d) \<in> set (pOpen p)"
        unfolding linkedD(4) [OF l] mem_open using mem b(2) by blast
      then have "proto_step p ?e = Some p" using linked_live [OF l] P by (simp add: going_def)
      moreover have "linked (?g (t\<lparr>tOut := tOut t @ [?e], tRoom := room\<rparr>)) p" for room
      proof -
        let ?t = "?g (t\<lparr>tOut := tOut t @ [?e], tRoom := room\<rparr>)"
        have "tidy ?t" by (rule tidy_change [OF td, where f = "\<lambda>b. b\<lparr>bEmitted := True\<rparr>" and key = key]) simp_all
        moreover have "open_blocks ?t = open_blocks t"
          by (rule open_change_emitted [where f = "\<lambda>b. b\<lparr>bEmitted := True\<rparr>" and key = key]) simp_all
        ultimately show ?thesis using l by (auto simp: linked_def map_blocks_def)
      qed
      ultimately show "\<exists>p'. proto_step p ?e = Some p' \<and>
          (\<forall>room. linked (?g (t\<lparr>tOut := tOut t @ [?e], tRoom := room\<rparr>)) p')" by blast
    qed (auto simp: going_def)
    have "delta_to key d t = and_then (write_event ?e) (set_state ?g) t"
      using b by (simp add: delta_to_def)
    then have "and_then (write_event ?e) (set_state ?g) t = (t', r)" using run by simp
    then show ?thesis by (rule tripleD [OF tr conjI [OF P b(1)]])
  qed
qed

lemma text_delta_triple: "triple (going True) (text_delta key text) (going True)"
  unfolding text_delta_def
  by (rule triple_if [OF triple_ret triple_then [OF ensure_text_triple delta_to_triple]])
     (auto intro: normalize_key_kind)

lemma tool_args_triple: "triple (going True) (tool_args_delta key call name args) (going True)"
  unfolding tool_args_delta_def
  by (rule triple_if [OF triple_ret triple_then [OF ensure_tool_triple delta_to_triple]])
     (auto simp: tool_key_def intro: normalize_key_kind)

lemma linked_stopped:
  assumes "linked t p" "find_block t key = Some b" "\<not> bStopped b" "\<not> tFinished t"
    and t': "tBlocks t' = map_blocks key (\<lambda>b. b\<lparr>bStopped := True\<rparr>) (tBlocks t)" "tThinking t' = tThinking t"
      "tNextIndex t' = tNextIndex t" "tThinkEnabled t' = tThinkEnabled t" "tStarted t' = tStarted t"
      "tFinished t' = tFinished t"
  shows "\<exists>p'. proto_step p (BlockStop (bIndex b)) = Some p' \<and> linked t' p'"
proof -
  have td: "tidy t" using linkedD(1) [OF assms(1)] .
  have "(bIndex b, bKind b) \<in> set (pOpen p)"
    unfolding linkedD(4) [OF assms(1)] mem_open using find_block_mem [OF assms(2)] assms(3) by blast
  then have "bIndex b \<in> set (map fst (pOpen p))" by force
  moreover have "tidy t'"
    by (rule tidy_change [OF td, where f = "\<lambda>b. b\<lparr>bStopped := True\<rparr>" and key = key]) (simp_all add: t')
  moreover have "open_blocks t' = {ik \<in> open_blocks t. fst ik \<noteq> bIndex b}"
    by (rule open_change_stopped [OF td assms(2), where f = "\<lambda>b. b\<lparr>bStopped := True\<rparr>"]) (simp_all add: t')
  ultimately show ?thesis
    using assms(1) linked_live [OF assms(1,4)] t' by (auto simp: linked_def map_blocks_def)
qed

lemma stop_write:
  assumes P: "going st t" "tRoom t = Some 0 \<or> find_block t key = Some b \<and> \<not> bStopped b"
    and run: "and_then (write_event (BlockStop (bIndex b)))
                (set_state (change_block key (\<lambda>b. b\<lparr>bStopped := True\<rparr>))) t = (t', r)"
  shows "if r = None then going st t' \<and> tBlocks t' = map_blocks key (\<lambda>b. b\<lparr>bStopped := True\<rparr>) (tBlocks t) \<and>
      tThinking t' = tThinking t \<and> tRoom t \<noteq> Some 0 else stream_inv t'"
proof -
  let ?e = "BlockStop (bIndex b)" and ?g = "change_block key (\<lambda>b. b\<lparr>bStopped := True\<rparr>)"
  have inv: "stream_inv t' \<and> (r = None \<longrightarrow> (\<exists>room. t' = ?g (t\<lparr>tOut := tOut t @ [?e], tRoom := room\<rparr>)))"
  proof (rule write_rule [where f = "\<lambda>t. t" and g = ?g, OF _ _ refl refl _ _ run])
    show "stream_inv t" using P by (auto simp: going_def)
    fix p
    assume l: "linked t p" and room: "tRoom t \<noteq> Some 0"
    have "\<exists>p'. proto_step p ?e = Some p' \<and> linked (change_block key (\<lambda>b. b\<lparr>bStopped := True\<rparr>) t) p'"
      by (rule linked_stopped [OF l]) (use P room in \<open>auto simp: going_def\<close>)
    then obtain p' where p': "proto_step p ?e = Some p'" "linked (?g t) p'" by blast
    moreover have "linked (?g (t\<lparr>tOut := tOut t @ [?e], tRoom := q\<rparr>)) p' = linked (?g t) p'" for q
      by (rule linked_cong) simp_all
    ultimately show "\<exists>p'. proto_step p ?e = Some p' \<and>
        (\<forall>room. linked (?g (t\<lparr>tOut := tOut t @ [?e], tRoom := room\<rparr>)) p')" by blast
  qed simp_all
  have room: "tRoom t \<noteq> Some 0" if "r = None"
    using run that by (auto simp: and_then_def write_event_def)
  show ?thesis
  proof (cases r)
    case None
    then obtain q where t': "t' = ?g (t\<lparr>tOut := tOut t @ [?e], tRoom := q\<rparr>)" using inv by blast
    then have "tBlocks t' = map_blocks key (\<lambda>b. b\<lparr>bStopped := True\<rparr>) (tBlocks t)" "tThinking t' = tThinking t"
      "tFinished t' = tFinished t" "tStarted t' = tStarted t"
      by simp_all
    then show ?thesis using None P inv room by (simp add: going_def)
  qed (use inv in simp)
qed

lemma stop_block_triple: "triple (going st) (stop_block key kind) (going st)"
proof (rule tripleI)
  fix t t' r
  assume P: "going st t" and run: "stop_block key kind t = (t', r)"
  let ?k = "normalize_block_key kind key"
  show "if r = None then going st t' else stream_inv t'"
  proof (cases "\<exists>b. find_block t ?k = Some b \<and> \<not> bStopped b")
    case False
    then have "t' = t \<and> r = None" using run by (auto simp: stop_block_def Let_def split: option.splits)
    then show ?thesis using P by simp
  next
    case True
    then obtain b where b: "find_block t ?k = Some b" "\<not> bStopped b" by blast
    have "and_then (write_event (BlockStop (bIndex b)))
        (set_state (change_block ?k (\<lambda>b. b\<lparr>bStopped := True\<rparr>))) t = (t', r)"
      using run b by (simp add: stop_block_def Let_def)
    from stop_write [OF P _ this] b show ?thesis by (cases r) auto
  qed
qed

text \<open>\<open>L\<close> lists what is still to stop.\<close>

definition to_stop :: "(string \<times> block) list \<Rightarrow> translator \<Rightarrow> bool" where
  "to_stop L t \<longleftrightarrow> tRoom t = Some 0 \<or>
     (distinct (map fst L) \<and> set L = {kb \<in> set (tBlocks t). \<not> bStopped (snd kb)})"

lemma to_stop_next:
  assumes td: "tidy t" and L: "distinct (map fst ((key, b) # L))"
      "set ((key, b) # L) = {kb \<in> set (tBlocks t). \<not> bStopped (snd kb)}"
    and t': "tBlocks t' = map_blocks key (\<lambda>b. b\<lparr>bStopped := True\<rparr>) (tBlocks t)"
  shows "to_stop L t'"
proof -
  have key: "k \<noteq> key" if "(k, c) \<in> set L" for k c using L(1) that by force
  have "(k, c) \<in> set L \<longleftrightarrow> (k, c) \<in> set (tBlocks t') \<and> \<not> bStopped c" for k c
  proof
    assume m: "(k, c) \<in> set L"
    then have "(k, c) \<in> {kb \<in> set (tBlocks t). \<not> bStopped (snd kb)}" unfolding L(2) [symmetric] by simp
    then show "(k, c) \<in> set (tBlocks t') \<and> \<not> bStopped c"
      unfolding t' map_blocks_mem using key [OF m] by auto
  next
    assume m: "(k, c) \<in> set (tBlocks t') \<and> \<not> bStopped c"
    have "\<not> (\<not> bStopped c \<and> c = x\<lparr>bStopped := True\<rparr>)" for x by (cases x) auto
    with m have "(k, c) \<in> {kb \<in> set (tBlocks t). \<not> bStopped (snd kb)}" "k \<noteq> key"
      unfolding t' map_blocks_mem by (auto split: if_splits)
    then show "(k, c) \<in> set L" unfolding L(2) [symmetric] by auto
  qed
  then show ?thesis using L(1) by (auto simp: to_stop_def)
qed

lemma stop_each_triple:
  "triple (\<lambda>t. going st t \<and> no_thinking t \<and> to_stop L t) (stop_each L)
     (\<lambda>t. going st t \<and> no_thinking t \<and> to_stop [] t)"
proof (induction L)
  case Nil
  show ?case by (rule tripleI) auto
next
  case (Cons kb L)
  obtain key b where kb: "kb = (key, b)" by fastforce
  let ?w = "and_then (write_event (BlockStop (bIndex b))) (set_state (change_block key (\<lambda>b. b\<lparr>bStopped := True\<rparr>)))"
  have w: "triple (\<lambda>t. going st t \<and> no_thinking t \<and> to_stop (kb # L) t) ?w
      (\<lambda>t. going st t \<and> no_thinking t \<and> to_stop L t)"
  proof (rule tripleI)
    fix t t' r
    assume P: "going st t \<and> no_thinking t \<and> to_stop (kb # L) t" and run: "?w t = (t', r)"
    have live: "tRoom t = Some 0 \<or> tidy t"
      using P by (auto simp: going_def stream_inv_def linked_def)
    have "tRoom t = Some 0 \<or> find_block t key = Some b \<and> \<not> bStopped b"
      using live P mem_find_block by (fastforce simp: to_stop_def kb)
    from stop_write [OF conjunct1 [OF P] this run]
    have s: "if r = None then going st t' \<and> tBlocks t' = map_blocks key (\<lambda>b. b\<lparr>bStopped := True\<rparr>) (tBlocks t) \<and>
      tThinking t' = tThinking t \<and> tRoom t \<noteq> Some 0 else stream_inv t'" .
    show "if r = None then going st t' \<and> no_thinking t' \<and> to_stop L t' else stream_inv t'"
    proof (cases r)
      case None
      then have room: "tRoom t \<noteq> Some 0" using s by simp
      then have td: "tidy t" using live by blast
      have "to_stop L t'"
        by (rule to_stop_next [OF td]) (use P room s None in \<open>auto simp: to_stop_def kb\<close>)
      then show ?thesis using s None P room by (simp add: no_thinking_def)
    qed (use s in simp)
  qed
  have "stop_each (kb # L) = and_then ?w (stop_each L)"
    by (rule ext) (auto simp: kb and_then_def split: prod.splits option.splits)
  then show ?case using triple_then [OF w Cons.IH] by simp
qed

lemma stop_all_triple:
  "triple (\<lambda>t. going st t \<and> no_thinking t) stop_all_blocks (\<lambda>t. going st t \<and> no_thinking t \<and> to_stop [] t)"
proof (rule tripleI)
  fix t t' r
  assume P: "going st t \<and> no_thinking t" and run: "stop_all_blocks t = (t', r)"
  let ?L = "sort_key (\<lambda>kb. bIndex (snd kb)) (filter (\<lambda>kb. \<not> bStopped (snd kb)) (tBlocks t))"
  have "distinct (map fst ?L)" if "tidy t"
  proof -
    have "distinct (map fst (filter (\<lambda>kb. \<not> bStopped (snd kb)) (tBlocks t)))"
      using that by (simp add: tidy_def distinct_map_filter)
    then show ?thesis by (simp add: distinct_map)
  qed
  moreover have "tRoom t = Some 0 \<or> tidy t"
    using P by (auto simp: going_def stream_inv_def linked_def)
  ultimately have "to_stop ?L t" unfolding to_stop_def by auto
  then show "if r = None then going st t' \<and> no_thinking t' \<and> to_stop [] t' else stream_inv t'"
    using tripleD [OF stop_each_triple] P run unfolding stop_all_blocks_def by blast
qed

section \<open>Thinking keeps the relation\<close>

lemma linked_thinking_opened:
  assumes l: "linked t p" and st: "tStarted t" "tThinkEnabled t" "tThinking t = None"
    and b: "bIndex b = tNextIndex t"
    and t': "tBlocks t' = tBlocks t" "tThinking t' = Some b" "tNextIndex t' = Suc (tNextIndex t)"
      "tThinkEnabled t' = tThinkEnabled t" "tStarted t' = tStarted t" "tFinished t' = tFinished t"
  shows "linked t' (p\<lparr>pOpen := (bIndex b, KThinking) # pOpen p, pNext := Suc (tNextIndex t)\<rparr>)"
proof -
  have td: "tidy t" using linkedD(1) [OF l] .
  have fresh: "bIndex c < tNextIndex t" if "(k, c) \<in> set (tBlocks t)" for k c
    using td that by (auto simp: tidy_def)
  have "tidy t'"
    using td b t' st fresh unfolding tidy_def by (fastforce simp: less_Suc_eq)
  moreover have "(i, kd) \<in> open_blocks t' \<longleftrightarrow> (i, kd) = (bIndex b, KThinking) \<or> (i, kd) \<in> open_blocks t" for i kd
    unfolding mem_open t' using st(3) by auto
  then have "open_blocks t' = insert (bIndex b, KThinking) (open_blocks t)" by auto
  ultimately show ?thesis using l st t' by (simp add: linked_def)
qed

lemma open_thinking_step:
  assumes P: "going True t" "tThinkEnabled t" "tThinking t = None"
    and b: "bIndex b = tNextIndex t"
    and run: "and_then (write_event (BlockStart (tNextIndex t) ThinkingBlock))
        (set_state (\<lambda>t. t\<lparr>tThinking := Some b, tStopPending := False\<rparr>)) (t\<lparr>tNextIndex := Suc (tNextIndex t)\<rparr>) = (t', r)"
  shows "if r = None then going True t' else stream_inv t'"
proof -
  let ?i = "tNextIndex t"
  let ?f = "\<lambda>t. t\<lparr>tNextIndex := Suc ?i\<rparr>" and ?g = "\<lambda>t. t\<lparr>tThinking := Some b, tStopPending := False\<rparr>"
  let ?e = "BlockStart ?i ThinkingBlock"
  have inv: "stream_inv t' \<and> (r = None \<longrightarrow> (\<exists>room. t' = ?g (?f t\<lparr>tOut := tOut t @ [?e], tRoom := room\<rparr>)))"
  proof (rule write_rule [where f = ?f and g = ?g and e = ?e, OF _ _ _ _ _ _ run])
    show "stream_inv t" using P going_inv by blast
    fix p
    assume l: "linked t p"
    have st: "tStarted t" "\<not> tFinished t" using P by (auto simp: going_def)
    have "proto_step p ?e = Some (p\<lparr>pOpen := (bIndex b, KThinking) # pOpen p, pNext := Suc ?i\<rparr>)"
      using linkedD [OF l] linked_live [OF l st(2)] st(1) b by simp
    moreover have "linked (?g (?f t\<lparr>tOut := tOut t @ [?e], tRoom := room\<rparr>))
        (p\<lparr>pOpen := (bIndex b, KThinking) # pOpen p, pNext := Suc ?i\<rparr>)" for room
      by (rule linked_thinking_opened [OF l st(1) P(2,3) b]) simp_all
    ultimately show "\<exists>p'. proto_step p ?e = Some p' \<and>
        (\<forall>room. linked (?g (?f t\<lparr>tOut := tOut t @ [?e], tRoom := room\<rparr>)) p')" by blast
  qed simp_all
  show ?thesis
  proof (cases r)
    case None
    then obtain q where t': "t' = ?g (?f t\<lparr>tOut := tOut t @ [?e], tRoom := q\<rparr>)" using inv by blast
    then have "tFinished t' = tFinished t" "tStarted t' = tStarted t" by simp_all
    then show ?thesis using None P inv by (simp add: going_def)
  qed (use inv in simp)
qed

lemma ensure_start_frame:
  "tThinkEnabled (fst (ensure_start i m t)) = tThinkEnabled t"
  "tThinking (fst (ensure_start i m t)) = tThinking t"
  "tFinished (fst (ensure_start i m t)) = tFinished t"
  "tStarted (fst (ensure_start i m t))"
  by (auto simp: ensure_start_def write_event_def Let_def split: option.splits nat.splits)

lemma going_True: "going True t \<Longrightarrow> going st t"
  by (simp add: going_def)

lemma ensure_thinking_triple: "triple (going st) ensure_thinking_block (going st)"
proof (rule tripleI)
  fix t t' r
  assume P: "going st t" and run: "ensure_thinking_block t = (t', r)"
  show "if r = None then going st t' else stream_inv t'"
  proof (cases "\<not> tThinkEnabled t \<or> tThinking t \<noteq> None")
    case True
    then have "t' = t \<and> r = None" using run by (auto simp: ensure_thinking_block_def)
    then show ?thesis using P by simp
  next
    case False
    obtain s e where s: "ensure_start (tMsgID t) (tModel t) t = (s, e)" by fastforce
    note g = tripleD [OF ensure_start_triple going_weaken [OF P] s]
    have fr: "tThinkEnabled s = tThinkEnabled t" "tThinking s = tThinking t"
      using ensure_start_frame [of "tMsgID t" "tModel t" t] s by auto
    show ?thesis
    proof (cases e)
      case (Some x)
      then have "t' = s \<and> r = Some x" using run False s by (auto simp: ensure_thinking_block_def and_then_def)
      then show ?thesis using g Some by simp
    next
      case None
      let ?b = "\<lparr>bIndex = tNextIndex s, bKind = KThinking, bCallID = [], bName = [], bEmitted = False, bStopped = False\<rparr>"
      have "and_then (write_event (BlockStart (tNextIndex s) ThinkingBlock))
          (set_state (\<lambda>t. t\<lparr>tThinking := Some ?b, tStopPending := False\<rparr>)) (s\<lparr>tNextIndex := Suc (tNextIndex s)\<rparr>) = (t', r)"
        using run False s None by (simp add: ensure_thinking_block_def and_then_def [of "ensure_start _ _"] Let_def)
      from open_thinking_step [OF _ _ _ _ this] g None fr False going_True show ?thesis
        by (cases r) auto
    qed
  qed
qed

lemma start_thinking_triple: "triple (going st) (start_thinking_part key) (going st)"
proof -
  have fin: "triple (going st) (finalize_thinking_block False) (going st)"
    by (rule triple_post [OF finalize_triple]) simp
  have set: "triple (going st) (set_state (\<lambda>t. t\<lparr>tReasonKey := normalize_reasoning_key key\<rparr>)) (going st)"
    by (rule triple_set) (rule going_reason_key)
  have tail: "triple (going st) (and_then (set_state (\<lambda>t. t\<lparr>tReasonKey := normalize_reasoning_key key\<rparr>))
      ensure_thinking_block) (going st)"
    by (rule triple_then [OF set ensure_thinking_triple])
  have all: "triple (going st) (and_then (if b then finalize_thinking_block False else ret)
      (and_then (set_state (\<lambda>t. t\<lparr>tReasonKey := normalize_reasoning_key key\<rparr>)) ensure_thinking_block)) (going st)" for b
    by (rule triple_then [OF triple_if [OF fin triple_ret] tail])
  show ?thesis
  proof (rule tripleI)
    fix t t' r
    assume P: "going st t" and run: "start_thinking_part key t = (t', r)"
    show "if r = None then going st t' else stream_inv t'"
      using P run tripleD [OF all P] by (cases "tThinkEnabled t") (auto simp: start_thinking_part_def)
  qed
qed

lemma going_emitted:
  assumes "going st t" "tThinking t = Some b"
  shows "going st (t\<lparr>tThinking := Some (b\<lparr>bEmitted := True\<rparr>)\<rparr>)"
proof -
  let ?t = "t\<lparr>tThinking := Some (b\<lparr>bEmitted := True\<rparr>)\<rparr>"
  have "linked ?t p" if l: "linked t p" for p
  proof -
    have "tidy ?t" using linkedD(1) [OF l] assms(2) by (auto simp: tidy_def)
    moreover have "open_blocks ?t = open_blocks t" using assms(2) by (auto simp: open_blocks_def)
    ultimately show ?thesis using l assms(2) by (simp add: linked_def)
  qed
  then show ?thesis using assms(1) by (auto simp: going_def stream_inv_def)
qed

lemma thinking_delta_triple: "triple (going st) (thinking_delta text) (going st)"
proof -
  let ?m = "\<lambda>t. case tThinking t of None \<Rightarrow> (t, None)
      | Some b \<Rightarrow> and_then (write_event (BlockDelta (bIndex b) (ThinkingDelta text)))
          (set_state (\<lambda>t. t\<lparr>tThinking := Some (b\<lparr>bEmitted := True\<rparr>)\<rparr>)) t"
  have m: "triple (going st) ?m (going st)"
  proof (rule tripleI)
    fix t t' r
    assume P: "going st t" and run: "?m t = (t', r)"
    show "if r = None then going st t' else stream_inv t'"
    proof (cases "tThinking t")
      case None
      then show ?thesis using P run by auto
    next
      case (Some b)
      have set: "triple (\<lambda>t. going st t \<and> tThinking t = Some b)
          (set_state (\<lambda>t. t\<lparr>tThinking := Some (b\<lparr>bEmitted := True\<rparr>)\<rparr>)) (going st)"
        by (rule triple_set) (use going_emitted in blast)
      have wr: "triple (\<lambda>t. going st t \<and> tThinking t = Some b)
          (write_event (BlockDelta (bIndex b) (ThinkingDelta text))) (\<lambda>t. going st t \<and> tThinking t = Some b)"
        by (rule thinking_delta_write) simp
      show ?thesis using tripleD [OF triple_then [OF wr set] conjI [OF P Some]] run Some by simp
    qed
  qed
  have all: "triple (going st) (and_then ensure_thinking_block ?m) (going st)"
    by (rule triple_then [OF ensure_thinking_triple m])
  show ?thesis
  proof (rule tripleI)
    fix t t' r
    assume P: "going st t" and run: "thinking_delta text t = (t', r)"
    show "if r = None then going st t' else stream_inv t'"
      using P run tripleD [OF all P] unfolding thinking_delta_def by (auto split: if_splits)
  qed
qed

lemma going_capture: "going st t \<Longrightarrow> going st (capture_signature key sig t)"
  using going_cong [of "capture_signature key sig t" t st] by (simp add: capture_signature_def)

lemma emit_final_reasoning_triple:
  "triple (going st) (emit_final_reasoning iid summary enc fallback) (going st)"
proof -
  have all: "triple (going st) (and_then ensure_thinking_block
      (and_then (thinking_delta s) (finalize_thinking_block True))) (going st)" for s
    by (rule triple_then [OF ensure_thinking_triple triple_then [OF thinking_delta_triple
          triple_post [OF finalize_triple]]]) simp
  show ?thesis
  proof (rule tripleI)
    fix t t' r
    assume P: "going st t" and run: "emit_final_reasoning iid summary enc fallback t = (t', r)"
    have G: "going st (t\<lparr>tReasonKey := k, tSignature := s\<rparr>)" for k s
      by (rule going_signature [OF going_reason_key [OF P]])
    show "if r = None then going st t' else stream_inv t'"
      using P run tripleD [OF all G] unfolding emit_final_reasoning_def Let_def by (auto split: if_splits)
  qed
qed

end
