(* ===== verification/Anthropic_Props.thy ===== *)
theory Anthropic_Props
  imports Anthropic_Protocol
begin

text \<open>
  The handlers of \<open>internal/anthropic/stream.go\<close> keep the simulation of \<open>Anthropic_Protocol\<close>, the
  whole stream is an accepted and, when the client takes every write, a complete event sequence,
  and what text reaches the client.
\<close>

section \<open>The end of a message\<close>

lemma closed_open:
  assumes "linked t p" "tRoom t \<noteq> Some 0" "no_thinking t" "to_stop [] t"
  shows "pOpen p = []"
proof -
  have "open_blocks t = {}"
    using assms(2-4) by (auto simp: open_blocks_def no_thinking_def to_stop_def)
  then show ?thesis using linkedD(4) [OF assms(1)] by simp
qed

definition end_message :: "string \<Rightarrow> int \<Rightarrow> int \<Rightarrow> act" where
  "end_message reason a b =
     and_then (write_event (MessageDelta reason a b))
       (and_then (write_event MessageStop) (set_state (\<lambda>t. t\<lparr>tFinished := True\<rparr>)))"

lemma linked_finished:
  assumes "linked t p" "pOpen q = pOpen p" "pStarted q = pStarted p" "pNext q = pNext p" "pDone q"
    and "tBlocks t' = tBlocks t" "tThinking t' = tThinking t" "tNextIndex t' = tNextIndex t"
      "tThinkEnabled t' = tThinkEnabled t" "tStarted t' = tStarted t" "tFinished t'"
  shows "linked t' q"
  using assms unfolding linked_def tidy_cong [OF assms(6-9)] open_blocks_cong [OF assms(6,7)] by simp

lemma end_message_step:
  assumes P: "going True t" "no_thinking t" "to_stop [] t" and run: "end_message reason a b t = (t', r)"
  shows "stream_inv t' \<and> (r = None \<longrightarrow> tFinished t')"
proof -
  obtain p where p: "proto_run proto_init (tOut t) = Some p" "tRoom t = Some 0 \<or> linked t p"
    using P(1) by (auto simp: going_def stream_inv_def)
  let ?d = "MessageDelta reason a b"
  consider "write_event ?d t = (t, Some (ErrText ''write''))" "tRoom t = Some 0"
    | room where "write_event ?d t = (t\<lparr>tOut := tOut t @ [?d], tRoom := room\<rparr>, None)" "tRoom t \<noteq> Some 0"
    using write_event_cases [of ?d t] by blast
  then show ?thesis
  proof cases
    case 1
    then have "t' = t" "r \<noteq> None" using run by (auto simp: end_message_def and_then_def)
    then show ?thesis using P(1) by (simp add: going_def)
  next
    case 2
    let ?t = "t\<lparr>tOut := tOut t @ [?d], tRoom := room\<rparr>"
    have l: "linked t p" using p 2 by blast
    have st: "tStarted t" "\<not> tFinished t" using P(1) by (auto simp: going_def)
    have "proto_step p ?d = Some (p\<lparr>pDelta := True\<rparr>)"
      using linkedD [OF l] linked_live [OF l st(2)] st(1) closed_open [OF l 2(2) P(2,3)] by simp
    then have d: "proto_run proto_init (tOut ?t) = Some (p\<lparr>pDelta := True\<rparr>)"
      using p(1) by (simp add: proto_run_append)
    consider "write_event MessageStop ?t = (?t, Some (ErrText ''write''))" "room = Some 0"
      | q where "write_event MessageStop ?t = (t\<lparr>tOut := tOut ?t @ [MessageStop], tRoom := q\<rparr>, None)"
      using write_event_cases [of MessageStop ?t] by auto
    then show ?thesis
    proof cases
      case 1
      then have "t' = ?t" "r \<noteq> None" using run 2 by (auto simp: end_message_def and_then_def)
      then show ?thesis using d 1(2) by (auto simp: stream_inv_def)
    next
      case (2 q)
      let ?u = "t\<lparr>tOut := tOut ?t @ [MessageStop], tRoom := q, tFinished := True\<rparr>"
      have u: "t' = ?u" "r = None"
        using run 2 \<open>write_event ?d t = (?t, None)\<close>
        by (auto simp: end_message_def and_then_def set_state_def)
      have "proto_step (p\<lparr>pDelta := True\<rparr>) MessageStop = Some (p\<lparr>pDelta := True, pDone := True\<rparr>)"
        using linked_live [OF l st(2)] by simp
      then have "proto_run proto_init (tOut ?t @ [MessageStop]) = Some (p\<lparr>pDelta := True, pDone := True\<rparr>)"
        unfolding proto_run_append d by simp
      then have "proto_run proto_init (tOut ?u) = Some (p\<lparr>pDelta := True, pDone := True\<rparr>)" by simp
      moreover have "linked ?u (p\<lparr>pDelta := True, pDone := True\<rparr>)"
        by (rule linked_finished [OF l]) simp_all
      ultimately have "stream_inv ?u" unfolding stream_inv_def by blast
      then show ?thesis unfolding u by simp
    qed
  qed
qed

definition ended :: "translator \<Rightarrow> bool" where
  "ended t \<longleftrightarrow> stream_inv t \<and> tFinished t"

lemma finish_triple: "triple (going False) (finish stop uin uout) ended"
proof -
  let ?e = "\<lambda>t. end_message (if stop \<noteq> [] then stop else if tHasToolUse t then ''tool_use'' else ''end_turn'')
      (pick_nonzero uin (tUsageIn t)) (pick_nonzero uout (tUsageOut t)) t"
  have e: "triple (\<lambda>t. going True t \<and> no_thinking t \<and> to_stop [] t) ?e ended"
    using end_message_step unfolding triple_def ended_def by fastforce
  have all: "triple (going False) (and_then start_current (and_then (finalize_thinking_block True)
      (and_then stop_all_blocks ?e))) ended"
    by (rule triple_then [OF start_current_triple triple_then [OF finalize_triple
          triple_then [OF stop_all_triple e]]])
  show ?thesis
  proof (rule tripleI)
    fix t t' r
    assume P: "going False t" and run: "finish stop uin uout t = (t', r)"
    have "and_then start_current (and_then (finalize_thinking_block True) (and_then stop_all_blocks ?e)) t = (t', r)"
      using run P by (simp add: finish_def going_def end_message_def Let_def start_current_def and_then_def [of "ensure_start _ _"] and_then_def [of start_current])
    then show "if r = None then ended t' else stream_inv t'" by (rule tripleD [OF all P])
  qed
qed

lemma error_triple:
  "triple (\<lambda>t. going False t \<and> no_thinking t \<and> to_stop [] t)
     (and_then (write_event (ErrorEvent ty msg)) (set_state (\<lambda>t. t\<lparr>tFailed := True, tFinished := True\<rparr>))) ended"
proof (rule write_triple)
  let ?g = "\<lambda>t. t\<lparr>tFailed := True, tFinished := True\<rparr>" and ?e = "ErrorEvent ty msg"
  fix t p
  assume P: "going False t \<and> no_thinking t \<and> to_stop [] t" and l: "linked t p" and room: "tRoom t \<noteq> Some 0"
  have nf: "\<not> tFinished t" using P by (simp add: going_def)
  have "proto_step p ?e = Some (p\<lparr>pDone := True\<rparr>)"
    using linked_live [OF l nf] closed_open [OF l room] P by simp
  moreover have "linked (?g (t\<lparr>tOut := tOut t @ [?e], tRoom := q\<rparr>)) (p\<lparr>pDone := True\<rparr>)" for q
    by (rule linked_finished [OF l]) simp_all
  ultimately show "\<exists>p'. proto_step p ?e = Some p' \<and>
      (\<forall>room. linked (?g (t\<lparr>tOut := tOut t @ [?e], tRoom := room\<rparr>)) p')" by blast
qed (auto simp: going_def ended_def)

lemma fail_triple: "triple (going False) (fail_stream unm stext status message) ended"
proof -
  obtain ty msg where env: "new_error_envelope unm stext status message = (ty, msg)" by fastforce
  have all: "triple (going False) (and_then (finalize_thinking_block True) (and_then stop_all_blocks
      (and_then (write_event (ErrorEvent ty msg)) (set_state (\<lambda>t. t\<lparr>tFailed := True, tFinished := True\<rparr>))))) ended"
    by (rule triple_then [OF finalize_triple triple_then [OF stop_all_triple error_triple]])
  show ?thesis
  proof (rule tripleI)
    fix t t' r
    assume P: "going False t" and run: "fail_stream unm stext status message t = (t', r)"
    have "and_then (finalize_thinking_block True) (and_then stop_all_blocks
      (and_then (write_event (ErrorEvent ty msg)) (set_state (\<lambda>t. t\<lparr>tFailed := True, tFinished := True\<rparr>)))) t = (t', r)"
      using run P env by (simp add: fail_stream_def going_def)
    then show "if r = None then ended t' else stream_inv t'" by (rule tripleD [OF all P])
  qed
qed

section \<open>The handlers\<close>

lemma started:
  "triple (going True) m (going True) \<Longrightarrow> triple (going False) (and_then start_current m) (going False)"
  by (rule triple_post, rule triple_then [OF start_current_triple], assumption, rule going_True)

lemma triple_none: "triple P (\<lambda>t. (t, None)) P"
  by (rule tripleI) auto

lemma text_deltas_triple: "triple (going True) (text_deltas key ss) (going True)"
proof (induction ss)
  case Nil
  show ?case by (rule tripleI) auto
next
  case (Cons s ss)
  have "text_deltas key (s # ss) = and_then (text_delta key s) (text_deltas key ss)" by (rule ext) simp
  then show ?case using triple_then [OF text_delta_triple Cons.IH] by simp
qed

lemma final_message_triple: "triple (going True) (final_message key texts) (going True)"
proof -
  let ?n = "normalize_block_key KText key"
  have "triple (going True) (\<lambda>t. if find_block t ?n = None \<and> has_emitted_kind KText t then (t, None)
      else if block_emitted t ?n then stop_block key KText t
      else and_then (text_deltas key texts) (stop_block key KText) t) (going True)"
    by (rule triple_cond, assumption, rule triple_split, rule triple_pre [OF stop_block_triple], simp,
        rule triple_pre [OF triple_then [OF text_deltas_triple stop_block_triple]], simp)
  then show ?thesis by (simp add: final_message_def [abs_def] Let_def)
qed

lemma args_tail_triple:
  "triple (going True) (\<lambda>t. and_then (if \<not> block_emitted t k then tool_args_delta key call name args else ret)
     (stop_block key KTool) t) (going True)"
  by (rule triple_fun, rule triple_at [OF triple_then [OF triple_if [OF tool_args_triple triple_ret]
        stop_block_triple]])

lemma call_triple:
  "triple (going True) (and_then (ensure_tool_block key call name) (\<lambda>t.
     and_then (if \<not> block_emitted t k then tool_args_delta key call name args else ret)
       (stop_block key KTool) t)) (going True)"
  by (rule triple_then [OF ensure_tool_triple args_tail_triple])

lemma final_item_triple: "triple (going True) (final_item R i item) (going True)"
  unfolding final_item_def final_call_def Let_def
  by (intro triple_if emit_final_reasoning_triple final_message_triple call_triple triple_ret)

lemma final_items_triple: "triple (going True) (final_items R i items) (going True)"
proof (induction items arbitrary: i)
  case Nil
  show ?case by (rule tripleI) auto
next
  case (Cons x xs)
  have "final_items R i (x # xs) = and_then (final_item R i x) (final_items R (Suc i) xs)" by (rule ext) simp
  then show ?case using triple_then [OF final_item_triple Cons.IH] by simp
qed

lemma emit_final_output_triple: "triple (going True) (emit_final_output R raw) (going True)"
  by (cases "decode_items raw") (simp_all add: emit_final_output_def triple_ret final_items_triple)

lemma on_created_triple: "triple (going False) (on_created root) (going False)"
proof (rule tripleI)
  fix t t' r
  assume P: "going False t" and run: "on_created root t = (t', r)"
  obtain i m u where e: "on_created root t = ensure_start i m (if u > 0 then t\<lparr>tUsageIn := u\<rparr> else t)"
    by (simp add: on_created_def Let_def)
  have "going False (if u > 0 then t\<lparr>tUsageIn := u\<rparr> else t)" using P going_usage_in by simp
  then show "if r = None then going False t' else stream_inv t'"
    using tripleD [OF ensure_start_triple, of "if u > 0 then t\<lparr>tUsageIn := u\<rparr> else t" i m t' r] run e
      going_weaken by (cases r) auto
qed

lemma on_reasoning_delta_triple: "triple (going False) (on_reasoning_delta R root) (going False)"
  unfolding on_reasoning_delta_def
proof (rule started, rule triple_then [OF _ thinking_delta_triple])
  show "triple (going True) (\<lambda>t. if tThinking t = None then start_thinking_part (reasoning_event_key R root) t
      else (t, None)) (going True)"
    by (rule triple_split, rule triple_pre [OF start_thinking_triple], simp,
        rule triple_pre [OF triple_none], simp)
qed

lemma on_content_part_done_triple: "triple (going False) (on_content_part_done R root) (going False)"
proof -
  let ?part = "sub_obj root ''part''" and ?key = "stream_event_key R root"
  have m: "triple (going False) (and_then (if c then and_then start_current (text_delta k s) else ret)
      (stop_block k' kind)) (going False)" for c k s k' kind
    by (rule triple_then [OF triple_if [OF started [OF text_delta_triple] triple_ret] stop_block_triple])
  have f: "triple (going False) (\<lambda>t. and_then (if \<not> block_emitted t (normalize_block_key KText ?key) \<and> jstr ?part ''text'' \<noteq> []
      then and_then start_current (text_delta ?key (jstr ?part ''text'')) else ret)
      (stop_block ?key KText) t) (going False)"
    by (rule triple_fun, rule triple_at [OF m])
  show ?thesis
  proof (cases "jstr ?part ''type'' = ''output_text''")
    case True
    then show ?thesis using f by (simp add: on_content_part_done_def [abs_def] Let_def)
  next
    case False
    then show ?thesis by (simp add: on_content_part_done_def [abs_def] Let_def triple_none)
  qed
qed

lemma on_item_added_triple: "triple (going False) (on_item_added R root) (going False)"
  unfolding on_item_added_def Let_def
  by (intro started triple_if triple_ret triple_then [OF ensure_tool_triple tool_args_triple] triple_set
      going_capture going_reason_key)

lemma on_args_done_triple: "triple (going False) (on_args_done R root) (going False)"
  unfolding on_args_done_def Let_def by (intro started call_triple)

lemma on_item_done_triple: "triple (going False) (on_item_done R root) (going False)"
proof (rule tripleI)
  fix t t' r
  assume P: "going False t" and run: "on_item_done R root t = (t', r)"
  let ?item = "sub_obj root ''item''"
  let ?ty = "jstr ?item ''type''"
  have fin: "triple (going False) (finalize_thinking_block True) (going False)"
    by (rule triple_post [OF finalize_triple]) simp
  have msg: "triple (going False) (and_then (if c then ret else and_then start_current (text_deltas k ss))
      (stop_block k' kd)) (going False)" for c k ss k' kd
    by (rule triple_then [OF triple_if [OF triple_ret started [OF text_deltas_triple]] stop_block_triple])
  note call = started [OF call_triple]
  have cap: "going False (capture_signature k e (t\<lparr>tReasonKey := k\<rparr>))" for k e
    by (rule going_capture [OF going_reason_key [OF P]])
  consider "?ty = ''reasoning''" | "?ty = ''function_call''" | "?ty = ''message''"
    | "?ty \<noteq> ''reasoning'' \<and> ?ty \<noteq> ''function_call'' \<and> ?ty \<noteq> ''message''" by blast
  then show "if r = None then going False t' else stream_inv t'"
  proof cases
    case 1
    let ?key = "normalize_reasoning_key (first_trimmed [jstr ?item ''id'', reasoning_event_key R root])"
    let ?t = "capture_signature ?key (jstr ?item ''encrypted_content'') (t\<lparr>tReasonKey := ?key\<rparr>)"
    show ?thesis
      using run 1 tripleD [OF emit_final_reasoning_triple cap] tripleD [OF fin cap]
      by (cases "tThinking ?t = None") (auto simp: on_item_done_def Let_def)
  next
    case 2
    then show ?thesis using run tripleD [OF call P] by (auto simp: on_item_done_def Let_def)
  next
    case 3
    then show ?thesis
      using run tripleD [OF msg P] tripleD [OF stop_block_triple P]
      by (auto simp: on_item_done_def Let_def split: if_splits)
  next
    case 4
    then show ?thesis using run P by (auto simp: on_item_done_def Let_def)
  qed
qed

lemma ensure_start_fst: "going False t \<Longrightarrow> going True (fst (ensure_start i m t))"
  using tripleD [OF ensure_start_triple, of t i m] ensure_start_frame [of i m t]
  by (cases "ensure_start i m t"; cases "snd (ensure_start i m t)") (auto simp: going_def)

lemma on_completed_triple: "triple (going False) (on_completed R ty root) ended"
proof (rule tripleI)
  fix t t' r
  assume P: "going False t" and run: "on_completed R ty root t = (t', r)"
  let ?resp = "sub_obj root ''response''"
  let ?t1 = "fst (if jstr ?resp ''id'' \<noteq> [] \<and> tMsgID t = []
                    then ensure_start (jstr ?resp ''id'') (tRequestModel t) t else start_current t)"
  have t1: "going True ?t1" using ensure_start_fst [OF P] by (simp add: start_current_def)
  let ?fin = "\<lambda>a b t. finish (if tHasToolUse t then ''tool_use''
                      else if ty = ''response.incomplete'' then ''max_tokens'' else ''end_turn'') a b t"
  have fin: "triple (going True) (?fin a b) ended" for a b
    by (rule triple_fun, rule triple_at [OF finish_triple], rule going_weaken)
  have outs: "triple (going True) (case jget ?resp ''output'' of Some out \<Rightarrow> emit_final_output R out
      | None \<Rightarrow> ret) (going True)"
    by (cases "jget ?resp ''output''") (simp_all add: triple_ret emit_final_output_triple)
  note all = triple_then [OF outs fin]
  show "if r = None then ended t' else stream_inv t'"
  proof (cases "jget ?resp ''usage''")
    case None
    then show ?thesis using run tripleD [OF all t1] by (simp add: on_completed_def Let_def)
  next
    case (Some u)
    obtain a b where u: "extract_usage u = (a, b)" by fastforce
    have "going True (?t1\<lparr>tUsageIn := a, tUsageOut := b\<rparr>)" by (rule going_usage [OF t1])
    then show ?thesis using run tripleD [OF all] u Some by (simp add: on_completed_def Let_def)
  qed
qed

section \<open>Events\<close>

text \<open>What the Responses API documents of the end of a stream: the events that end a response, and
  that nothing but a \<open>[DONE]\<close> follows them.\<close>

definition payload_root :: "(string \<Rightarrow> json option) \<Rightarrow> string \<Rightarrow> jobj option" where
  "payload_root unm data = (case unm (trim_space data) of
     Some (JObj root) \<Rightarrow> Some root | Some JNull \<Rightarrow> Some [] | _ \<Rightarrow> None)"

definition ends_type :: "string \<Rightarrow> bool" where
  "ends_type ty \<longleftrightarrow>
     ty = ''response.completed'' \<or> ty = ''response.incomplete'' \<or> ty = ''response.failed'' \<or> ty = ''error''"

definition idle_payload :: "string \<Rightarrow> bool" where
  "idle_payload data \<longleftrightarrow> trim_space data = [] \<or> trim_space data = ''[DONE]''"

definition ending_payload :: "(string \<Rightarrow> json option) \<Rightarrow> (json \<Rightarrow> string) \<Rightarrow> string \<Rightarrow> bool" where
  "ending_payload unm R data \<longleftrightarrow> trim_space data = ''[DONE]'' \<or>
     (case payload_root unm data of None \<Rightarrow> False | Some root \<Rightarrow> ends_type (raw_field R root ''type''))"

fun ends_once :: "(string \<Rightarrow> json option) \<Rightarrow> (json \<Rightarrow> string) \<Rightarrow> string list \<Rightarrow> bool" where
  "ends_once unm R [] = True"
| "ends_once unm R (p # ps) =
     (if ending_payload unm R p then list_all idle_payload ps else ends_once unm R ps)"

text \<open>The payloads \<open>PipeResponsesSSE\<close> takes from the lines; a scanner error (\<open>eof\<close> false) drops the
  lines since the last blank one.\<close>

fun payloads :: "bool \<Rightarrow> string \<Rightarrow> string list \<Rightarrow> string list" where
  "payloads eof buf [] = (if eof \<and> buf \<noteq> [] then [trim_suffix_nl buf] else [])"
| "payloads eof buf (line # lines) =
     (if line = [] then (if buf = [] then [] else [trim_suffix_nl buf]) @ payloads eof [] lines
      else payloads eof (add_data_line buf line) lines)"

lemma triple_ifa:
  "(c \<Longrightarrow> triple P m Q) \<Longrightarrow> (\<not> c \<Longrightarrow> triple P k Q) \<Longrightarrow> triple P (\<lambda>t. if c then m t else k t) Q"
  by (cases c) auto

lemma pending_triple: "triple (going st) (\<lambda>t. (t\<lparr>tStopPending := True\<rparr>, None)) (going st)"
  by (rule tripleI) (auto intro: going_pending)

lemma process_root_open:
  assumes "\<not> ends_type (raw_field R root ''type'')"
  shows "triple (going False) (process_root unm R stext data root) (going False)"
  using assms unfolding process_root_def [abs_def] Let_def ends_type_def
  by (intro triple_ifa on_created_triple started text_delta_triple start_thinking_triple
      on_reasoning_delta_triple pending_triple ensure_text_triple triple_none
      on_content_part_done_triple on_item_added_triple tool_args_triple on_args_done_triple
      on_item_done_triple) blast+

lemma process_root_end:
  assumes "ends_type (raw_field R root ''type'')"
  shows "triple (going False) (process_root unm R stext data root) ended"
proof -
  obtain status msg where f: "stream_failure R root = (status, msg)" by fastforce
  consider "raw_field R root ''type'' = ''response.completed''" | "raw_field R root ''type'' = ''response.incomplete''"
    | "raw_field R root ''type'' = ''response.failed''" | "raw_field R root ''type'' = ''error''"
    using assms unfolding ends_type_def by blast
  then show ?thesis
    by cases (simp_all add: process_root_def [abs_def] Let_def on_completed_triple fail_triple f)
qed

lemma process_data_idle:
  assumes "idle_payload data" "stream_inv t" "process_data unm R stext data t = (t', r)"
  shows "stream_inv t'"
proof (cases "trim_space data = ''[DONE]'' \<and> tStarted t \<and> \<not> tFinished t")
  case True
  then have "finish [] (tUsageIn t) (tUsageOut t) t = (t', r)"
    using assms(3) by (simp add: process_data_def Let_def)
  moreover have "going False t" using assms(2) True by (simp add: going_def)
  ultimately have "if r = None then ended t' else stream_inv t'" using tripleD [OF finish_triple] by blast
  then show ?thesis by (cases r) (auto simp: ended_def)
next
  case False
  then have "t' = t" using assms(1,3) by (auto simp: process_data_def idle_payload_def Let_def)
  then show ?thesis using assms(2) by simp
qed

lemma process_data_triple:
  "triple (going False) (process_data unm R stext data)
     (\<lambda>t. stream_inv t \<and> (ending_payload unm R data \<or> going False t))"
proof (rule tripleI)
  fix t t' r
  assume P: "going False t" and run: "process_data unm R stext data t = (t', r)"
  let ?Q = "\<lambda>t. stream_inv t \<and> (ending_payload unm R data \<or> going False t)"
  show "if r = None then ?Q t' else stream_inv t'"
  proof (cases "idle_payload data")
    case True
    then have "stream_inv t'" using process_data_idle run P going_inv by blast
    moreover have "ending_payload unm R data \<or> t' = t"
      using True run by (auto simp: idle_payload_def ending_payload_def process_data_def Let_def)
    ultimately show ?thesis using P by auto
  next
    case False
    then have e: "process_data unm R stext data t = (case payload_root unm data of
        Some root \<Rightarrow> process_root unm R stext (trim_space data) root t
      | None \<Rightarrow> (t, Some (ErrText ''anthropic stream: invalid JSON event'')))"
      by (auto simp: process_data_def idle_payload_def payload_root_def Let_def
          split: option.splits json.splits)
    show ?thesis
    proof (cases "payload_root unm data")
      case None
      then show ?thesis using e run P by (auto simp: going_def)
    next
      case (Some root)
      then have run': "process_root unm R stext (trim_space data) root t = (t', r)" using e run by simp
      show ?thesis
      proof (cases "ends_type (raw_field R root ''type'')")
        case True
        then show ?thesis using tripleD [OF process_root_end [OF True] P run'] Some
          by (cases r) (auto simp: ending_payload_def ended_def)
      next
        case False
        then show ?thesis using tripleD [OF process_root_open [OF False] P run']
          by (cases r) (auto simp: going_def)
      qed
    qed
  qed
qed

section \<open>The stream\<close>

fun fold_data ::
  "(string \<Rightarrow> json option) \<Rightarrow> (json \<Rightarrow> string) \<Rightarrow> (int \<Rightarrow> string) \<Rightarrow> string list \<Rightarrow> act" where
  "fold_data unm R stext [] t = (t, None)"
| "fold_data unm R stext (p # ps) t = and_then (process_data unm R stext p) (fold_data unm R stext ps) t"

lemma fold_data_idle:
  assumes "list_all idle_payload ps" "stream_inv t" "fold_data unm R stext ps t = (t', r)"
  shows "stream_inv t'"
  using assms
proof (induction ps arbitrary: t)
  case (Cons p ps)
  obtain s e where s: "process_data unm R stext p t = (s, e)" by fastforce
  have "stream_inv s" using process_data_idle [OF _ _ s] Cons.prems by simp
  then show ?case using Cons.IH [of s] Cons.prems s by (cases e) (auto simp: and_then_def)
qed simp

lemma fold_data_inv:
  assumes "ends_once unm R ps" "going False t" "fold_data unm R stext ps t = (t', r)"
  shows "stream_inv t'"
  using assms
proof (induction ps arbitrary: t)
  case Nil
  then show ?case by (simp add: going_def)
next
  case (Cons p ps)
  obtain s e where s: "process_data unm R stext p t = (s, e)" by fastforce
  note post = tripleD [OF process_data_triple Cons.prems(2) s]
  show ?case
  proof (cases e)
    case (Some x)
    then show ?thesis using post s Cons.prems(3) by (simp add: and_then_def)
  next
    case None
    then have run: "fold_data unm R stext ps s = (t', r)"
      using s Cons.prems(3) by (simp add: and_then_def)
    show ?thesis
    proof (cases "ending_payload unm R p")
      case True
      then show ?thesis using fold_data_idle run post None Cons.prems(1) by auto
    next
      case False
      then show ?thesis using Cons.IH [OF _ _ run] post None Cons.prems(1) by auto
    qed
  qed
qed

lemma flush_data_eq:
  "flush_data unm R stext buf = fold_data unm R stext (if buf = [] then [] else [trim_suffix_nl buf])"
  by (rule ext) (auto simp: flush_data_def and_then_def split: prod.splits option.splits)

lemma fold_data_append:
  "fold_data unm R stext (ps @ qs) t = and_then (fold_data unm R stext ps) (fold_data unm R stext qs) t"
  by (induction ps arbitrary: t) (auto simp: and_then_def split: prod.splits option.splits)

text \<open>The pipe is the fold of \<open>ProcessData\<close> over the payloads, and its verdict.\<close>

definition pipe_verdict :: "goerr option \<Rightarrow> act" where
  "pipe_verdict scan_err t =
     (t, case scan_err of Some e \<Rightarrow> Some e
         | None \<Rightarrow> if tFinished t then None else Some ErrUnexpectedEOF)"

lemma and_then_assoc: "and_then (and_then a b) c = and_then a (and_then b c)"
  by (rule ext) (auto simp: and_then_def split: prod.splits option.splits)

lemma pipe_lines_eq:
  "pipe_lines unm R stext scan_err buf lines =
     and_then (fold_data unm R stext (payloads (scan_err = None) buf lines)) (pipe_verdict scan_err)"
proof (induction lines arbitrary: buf)
  case Nil
  show ?case
  proof (cases scan_err)
    case None
    have "pipe_lines unm R stext scan_err buf [] = and_then (flush_data unm R stext buf) (pipe_verdict None)"
      by (rule ext) (auto simp: None pipe_verdict_def and_then_def split: prod.splits option.splits)
    moreover have "payloads True buf [] = (if buf = [] then [] else [trim_suffix_nl buf])" by simp
    ultimately show ?thesis unfolding flush_data_eq None by (simp only: refl)
  next
    case (Some e)
    then show ?thesis by (auto simp: and_then_def pipe_verdict_def)
  qed
next
  case (Cons line lines)
  show ?case
  proof (cases "line = []")
    case True
    let ?p = "if buf = [] then [] else [trim_suffix_nl buf]"
    have "pipe_lines unm R stext scan_err buf (line # lines) =
        and_then (flush_data unm R stext buf) (pipe_lines unm R stext scan_err [] lines)"
      using True by (intro ext) simp
    also have "\<dots> = and_then (and_then (fold_data unm R stext ?p)
        (fold_data unm R stext (payloads (scan_err = None) [] lines))) (pipe_verdict scan_err)"
      unfolding flush_data_eq Cons.IH and_then_assoc ..
    also have "and_then (fold_data unm R stext ?p) (fold_data unm R stext (payloads (scan_err = None) [] lines)) =
        fold_data unm R stext (payloads (scan_err = None) buf (line # lines))"
      by (rule ext) (simp add: True fold_data_append [symmetric])
    finally show ?thesis .
  next
    case False
    then have "pipe_lines unm R stext scan_err buf (line # lines) =
        pipe_lines unm R stext scan_err (add_data_line buf line) lines" by (intro ext) simp
    then show ?thesis using Cons.IH False by simp
  qed
qed

lemma stream_inv_accepted: "stream_inv t \<Longrightarrow> accepted (tOut t)"
  by (auto simp: stream_inv_def accepted_def)

lemma new_translator_going: "going False (new_translator model think display fresh room)"
  by (simp add: going_def stream_inv_def linked_def tidy_def new_translator_def proto_init_def open_blocks_def)

section \<open>A client that takes every write\<close>

definition smooth :: "act \<Rightarrow> bool" where
  "smooth m \<longleftrightarrow> (\<forall>t. tRoom t = None \<longrightarrow> (\<exists>t'. m t = (t', None) \<and> tRoom t' = None))"

named_theorems smooth_rules

lemma smoothI: "(\<And>t. tRoom t = None \<Longrightarrow> \<exists>t'. m t = (t', None) \<and> tRoom t' = None) \<Longrightarrow> smooth m"
  by (simp add: smooth_def)

lemma smoothD: "smooth m \<Longrightarrow> tRoom t = None \<Longrightarrow> \<exists>t'. m t = (t', None) \<and> tRoom t' = None"
  by (simp add: smooth_def)

lemma smooth_room: "smooth m \<Longrightarrow> tRoom t = None \<Longrightarrow> tRoom (fst (m t)) = None"
  using smoothD [of m t] by auto

lemma smooth_run: "smooth m \<Longrightarrow> m t = (t', r) \<Longrightarrow> tRoom t = None \<Longrightarrow> r = None \<and> tRoom t' = None"
  using smoothD [of m t] by auto

lemma smooth_then [smooth_rules]: "smooth m \<Longrightarrow> smooth k \<Longrightarrow> smooth (and_then m k)"
proof (rule smoothI)
  fix t :: translator
  assume a: "smooth m" "smooth k" and "tRoom t = None"
  then obtain s where "m t = (s, None)" "tRoom s = None" using smoothD by blast
  then show "\<exists>t'. and_then m k t = (t', None) \<and> tRoom t' = None"
    using smoothD [OF a(2), of s] by (simp add: and_then_def)
qed

lemma and_then_start: "and_then (ensure_start (tMsgID t) (tModel t)) k t = and_then start_current k t"
  by (simp add: and_then_def start_current_def)

lemma smooth_at: "(\<And>s. smooth (f s)) \<Longrightarrow> smooth (\<lambda>t. f t t)"
  unfolding smooth_def by blast

lemma smooth_ret [smooth_rules]: "smooth ret" "smooth (\<lambda>t. (t, None))"
  by (simp_all add: smooth_def ret_def)

lemma smooth_set [smooth_rules]: "(\<And>t. tRoom (f t) = tRoom t) \<Longrightarrow> smooth (set_state f)"
  by (simp add: smooth_def set_state_def)

lemma smooth_write [smooth_rules]: "smooth (write_event e)"
  by (simp add: smooth_def write_event_def)

lemma smooth_if [smooth_rules]: "smooth m \<Longrightarrow> smooth k \<Longrightarrow> smooth (if c then m else k)"
  by simp

lemma smooth_split [smooth_rules]: "smooth m \<Longrightarrow> smooth k \<Longrightarrow> smooth (\<lambda>t. if c t then m t else k t)"
  unfolding smooth_def by auto

lemma smooth_pre: "smooth m \<Longrightarrow> (\<And>t. tRoom (f t) = tRoom t) \<Longrightarrow> smooth (\<lambda>t. m (f t))"
  by (simp add: smooth_def)

lemma smooth_start [smooth_rules]: "smooth (ensure_start i m)" "smooth start_current"
  by (simp_all add: smooth_def start_current_def ensure_start_def write_event_def Let_def)

lemma smooth_finalize [smooth_rules]: "smooth (finalize_thinking_block c)"
proof (rule smoothI)
  fix t :: translator
  assume room: "tRoom t = None"
  have tail: "smooth (and_then (if g then write_event e else ret)
      (and_then (write_event e') (set_state (thinking_done c))))" for g e e'
    by (intro smooth_rules thinking_done_frame)
  show "\<exists>t'. finalize_thinking_block c t = (t', None) \<and> tRoom t' = None"
  proof (cases "tThinkEnabled t \<and> tThinking t \<noteq> None")
    case True
    then obtain b where b: "tThinking t = Some b" by blast
    show ?thesis
      using smoothD [OF tail room, of "tSignature t \<noteq> []" "BlockDelta (bIndex b) (SignatureDelta (tSignature t))"]
        True b by (simp add: finalize_thinking_block_def split del: if_split)
  next
    case False
    then show ?thesis using room by (auto simp: finalize_thinking_block_def)
  qed
qed

lemma smooth_finish_thinking [smooth_rules]: "smooth finish_thinking_before_content"
  unfolding finish_thinking_before_content_def [abs_def] by (intro smooth_rules)

lemma smooth_open [smooth_rules]: "smooth (open_block key kind content call name)"
  by (rule smoothI) (simp add: open_block_def Let_def and_then_def write_event_def set_state_def)

lemma smooth_ensure [smooth_rules]: "smooth (ensure_text_block key)" "smooth (ensure_tool_block key call name)"
  unfolding ensure_text_block_def ensure_tool_block_def Let_def by (intro smooth_rules; simp)+

lemma smooth_change: "smooth (and_then (write_event e) (set_state (change_block key f)))"
  by (intro smooth_rules change_block_frame)

lemma smooth_stop [smooth_rules]: "smooth (stop_block key kind)"
  by (rule smoothI) (auto simp: stop_block_def Let_def dest: smoothD [OF smooth_change] split: option.splits)

lemma smooth_stop_each [smooth_rules]: "smooth (stop_each L)"
proof (induction L)
  case (Cons kb L)
  have "stop_each (kb # L) = and_then (write_event (BlockStop (bIndex (snd kb))))
      (and_then (set_state (change_block (fst kb) (\<lambda>b. b\<lparr>bStopped := True\<rparr>))) (stop_each L))"
    by (rule ext) (cases kb, simp)
  then show ?case by (simp only:) (intro smooth_rules Cons.IH change_block_frame)
qed (simp add: smooth_def)

lemma smooth_stop_all [smooth_rules]: "smooth stop_all_blocks"
  unfolding stop_all_blocks_def [abs_def] by (rule smooth_at) (rule smooth_stop_each)

lemma smooth_delta [smooth_rules]: "smooth (delta_to key d)"
  by (rule smoothI) (auto simp: delta_to_def dest: smoothD [OF smooth_change] split: option.splits)

lemma smooth_deltas [smooth_rules]: "smooth (text_delta key s)" "smooth (tool_args_delta key call name args)"
  unfolding text_delta_def tool_args_delta_def by (intro smooth_rules)+

lemma smooth_text_deltas [smooth_rules]: "smooth (text_deltas key ss)"
proof (induction ss)
  case (Cons s ss)
  have "text_deltas key (s # ss) = and_then (text_delta key s) (text_deltas key ss)" by (rule ext) simp
  then show ?case by (simp only:) (intro smooth_rules Cons.IH)
qed (simp add: smooth_def)

lemma smooth_open_thinking:
  "smooth (\<lambda>t. and_then (write_event (BlockStart (tNextIndex t) ThinkingBlock))
     (set_state (\<lambda>u. u\<lparr>tThinking := Some (b t), tStopPending := False\<rparr>)) (t\<lparr>tNextIndex := Suc (tNextIndex t)\<rparr>))"
  by (rule smoothI) (simp add: and_then_def write_event_def set_state_def)

lemma smooth_thinking [smooth_rules]:
  "smooth ensure_thinking_block" "smooth (start_thinking_part key)" "smooth (thinking_delta text)"
proof -
  show e: "smooth ensure_thinking_block"
    unfolding ensure_thinking_block_def [abs_def] Let_def and_then_start
    by (intro smooth_split smooth_rules smooth_open_thinking)
  show "smooth (start_thinking_part key)"
  proof (rule smoothI)
    fix t :: translator
    assume room: "tRoom t = None"
    have m: "smooth (and_then (if c then finalize_thinking_block False else ret)
        (and_then (set_state (\<lambda>t. t\<lparr>tReasonKey := normalize_reasoning_key key\<rparr>)) ensure_thinking_block))" for c
      by (intro smooth_rules e) simp
    show "\<exists>t'. start_thinking_part key t = (t', None) \<and> tRoom t' = None"
      using room smoothD [OF m room] by (auto simp: start_thinking_part_def)
  qed
  have d: "smooth (\<lambda>t. case tThinking t of None \<Rightarrow> (t, None)
      | Some b \<Rightarrow> and_then (write_event (BlockDelta (bIndex b) (ThinkingDelta text)))
          (set_state (\<lambda>t. t\<lparr>tThinking := Some (b\<lparr>bEmitted := True\<rparr>)\<rparr>)) t)"
    by (rule smoothI) (auto simp: and_then_def write_event_def set_state_def split: option.splits)
  show "smooth (thinking_delta text)"
    unfolding thinking_delta_def [abs_def] by (intro smooth_split smooth_rules e d)
qed

lemma smooth_reasoning [smooth_rules]: "smooth (emit_final_reasoning iid summary enc fallback)"
proof (rule smoothI)
  fix t :: translator
  assume room: "tRoom t = None"
  have m: "smooth (and_then ensure_thinking_block (and_then (thinking_delta s) (finalize_thinking_block True)))" for s
    by (intro smooth_rules)
  have "\<exists>t'. and_then ensure_thinking_block (and_then (thinking_delta s) (finalize_thinking_block True)) u =
      (t', None) \<and> tRoom t' = None" if "tRoom u = None" for s u
    by (rule smoothD [OF m that])
  then show "\<exists>t'. emit_final_reasoning iid summary enc fallback t = (t', None) \<and> tRoom t' = None"
    using room by (simp add: emit_final_reasoning_def Let_def)
qed

lemma smooth_finish [smooth_rules]: "smooth (finish stop uin uout)"
proof -
  have e: "smooth (\<lambda>t. and_then (write_event (MessageDelta (r t) (a t) (b t)))
      (and_then (write_event MessageStop) (set_state (\<lambda>t. t\<lparr>tFinished := True\<rparr>))) t)" for r a b
    by (rule smooth_at) (intro smooth_rules, simp)
  show ?thesis
    unfolding finish_def [abs_def] Let_def and_then_start by (intro smooth_split smooth_rules e)
qed

lemma smooth_fail [smooth_rules]: "smooth (fail_stream unm stext status message)"
  unfolding fail_stream_def [abs_def] by (cases "new_error_envelope unm stext status message") (auto intro!: smooth_rules)

lemma smooth_final_message [smooth_rules]: "smooth (final_message key texts)"
  unfolding final_message_def [abs_def] Let_def
  by (rule smooth_split [OF smooth_ret(2) smooth_split [OF smooth_stop smooth_then [OF smooth_text_deltas smooth_stop]]])

lemma smooth_call [smooth_rules]:
  "smooth (and_then (ensure_tool_block key call name) (\<lambda>t.
     and_then (if \<not> block_emitted t k then tool_args_delta key call name args else ret) (stop_block key KTool) t))"
proof -
  have m: "smooth (and_then (if c then tool_args_delta key call name args else ret) (stop_block key KTool))" for c
    by (rule smooth_then [OF smooth_if [OF smooth_deltas(2) smooth_ret(1)] smooth_stop])
  show ?thesis by (rule smooth_then [OF smooth_ensure(2)], rule smooth_at, rule m)
qed

lemma smooth_final_item [smooth_rules]: "smooth (final_item R i item)"
  unfolding final_item_def final_call_def Let_def by (intro smooth_if smooth_rules)

lemma smooth_final_items [smooth_rules]: "smooth (final_items R i items)"
proof (induction items arbitrary: i)
  case (Cons x xs)
  have "final_items R i (x # xs) = and_then (final_item R i x) (final_items R (Suc i) xs)" by (rule ext) simp
  then show ?case by (simp only:) (intro smooth_rules Cons.IH)
qed (simp add: smooth_def)

lemma smooth_output [smooth_rules]: "smooth (emit_final_output R raw)"
  by (cases "decode_items raw") (simp_all add: emit_final_output_def smooth_rules)

lemma smooth_created: "smooth (on_created root)"
proof (rule smoothI)
  fix t :: translator
  assume room: "tRoom t = None"
  obtain i m u where e: "on_created root t = ensure_start i m (if u > 0 then t\<lparr>tUsageIn := u\<rparr> else t)"
    by (simp add: on_created_def Let_def)
  show "\<exists>t'. on_created root t = (t', None) \<and> tRoom t' = None"
    unfolding e by (rule smoothD [OF smooth_start(1)]) (simp add: room)
qed

lemma smooth_reasoning_delta: "smooth (on_reasoning_delta R root)"
  unfolding on_reasoning_delta_def by (intro smooth_split smooth_rules)

lemma smooth_part_done: "smooth (on_content_part_done R root)"
proof -
  have m: "smooth (and_then (if c then and_then start_current (text_delta k s) else ret) (stop_block k' kd))" for c k s k' kd
    by (intro smooth_rules)
  show ?thesis
    unfolding on_content_part_done_def [abs_def] Let_def by (rule smooth_split [OF smooth_at [OF m] smooth_ret(2)])
qed

lemma smooth_item_added: "smooth (on_item_added R root)"
  unfolding on_item_added_def Let_def by (intro smooth_if smooth_rules) (simp add: capture_signature_def)

lemma smooth_args_done: "smooth (on_args_done R root)"
  unfolding on_args_done_def Let_def by (intro smooth_rules)

lemma smooth_item_done: "smooth (on_item_done R root)"
proof (rule smoothI)
  fix t :: translator
  assume room: "tRoom t = None"
  let ?item = "sub_obj root ''item''"
  have r: "\<exists>t'. emit_final_reasoning a b c d (capture_signature k e (t\<lparr>tReasonKey := k\<rparr>)) = (t', None) \<and> tRoom t' = None"
      "\<exists>t'. finalize_thinking_block True (capture_signature k e (t\<lparr>tReasonKey := k\<rparr>)) = (t', None) \<and> tRoom t' = None"
    for a b c d k e
    by (rule smoothD [OF smooth_reasoning] smoothD [OF smooth_finalize], simp add: capture_signature_def room)+
  have call: "\<exists>t'. and_then start_current (and_then (ensure_tool_block key call name) (\<lambda>t.
     and_then (if \<not> block_emitted t k then tool_args_delta key call name args else ret) (stop_block key KTool) t)) t =
     (t', None) \<and> tRoom t' = None" for key call name k args
    by (rule smoothD [OF _ room]) (intro smooth_rules)
  have msg: "\<exists>t'. and_then (if c then ret else and_then start_current (text_deltas k ss)) (stop_block k' kd) t = (t', None) \<and>
      tRoom t' = None" "\<exists>t'. stop_block k kd t = (t', None) \<and> tRoom t' = None" for c k ss k' kd
    by (rule smoothD [OF _ room], intro smooth_rules)+
  show "\<exists>t'. on_item_done R root t = (t', None) \<and> tRoom t' = None"
    unfolding on_item_done_def Let_def using r call msg room by (simp split: if_splits)
qed

lemma smooth_completed: "smooth (on_completed R ty root)"
proof (rule smoothI)
  fix t :: translator
  assume room: "tRoom t = None"
  let ?resp = "sub_obj root ''response''"
  let ?t1 = "fst (if jstr ?resp ''id'' \<noteq> [] \<and> tMsgID t = []
                    then ensure_start (jstr ?resp ''id'') (tRequestModel t) t else start_current t)"
  have t1: "tRoom ?t1 = None"
    using smooth_room [OF smooth_start(1) room] smooth_room [OF smooth_start(2) room] by simp
  have m: "smooth (and_then (case jget ?resp ''output'' of Some out \<Rightarrow> emit_final_output R out | None \<Rightarrow> ret)
        (\<lambda>t. finish (if tHasToolUse t then ''tool_use''
                      else if ty = ''response.incomplete'' then ''max_tokens'' else ''end_turn'') a b t))" for a b
  proof (rule smooth_then)
    show "smooth (case jget ?resp ''output'' of Some out \<Rightarrow> emit_final_output R out | None \<Rightarrow> ret)"
      by (cases "jget ?resp ''output''") (simp_all add: smooth_output smooth_ret)
  qed (rule smooth_at, rule smooth_finish)
  obtain u a b where e: "on_completed R ty root t =
      and_then (case jget ?resp ''output'' of Some out \<Rightarrow> emit_final_output R out | None \<Rightarrow> ret)
        (\<lambda>t. finish (if tHasToolUse t then ''tool_use''
                      else if ty = ''response.incomplete'' then ''max_tokens'' else ''end_turn'') a b t) u"
      "tRoom u = None"
  proof (cases "jget ?resp ''usage''")
    case None
    then show ?thesis using that [of _ _ ?t1] t1 by (simp add: on_completed_def Let_def)
  next
    case (Some v)
    obtain a b where v: "extract_usage v = (a, b)" by fastforce
    show ?thesis
      by (rule that [of a b "?t1\<lparr>tUsageIn := a, tUsageOut := b\<rparr>"])
         (use Some v t1 in \<open>simp_all add: on_completed_def Let_def\<close>)
  qed
  show "\<exists>t'. on_completed R ty root t = (t', None) \<and> tRoom t' = None"
    unfolding e(1) by (rule smoothD [OF m e(2)])
qed

lemma smooth_ifa: "smooth m \<Longrightarrow> smooth k \<Longrightarrow> smooth (\<lambda>t. if c then m t else k t)"
  by (cases c) auto

lemma smooth_root: "smooth (process_root unm R stext data root)"
proof -
  obtain status msg where f: "stream_failure R root = (status, msg)" by fastforce
  have p: "smooth (\<lambda>t. (t\<lparr>tStopPending := True\<rparr>, None))" by (rule smoothI) simp
  show ?thesis
    unfolding process_root_def [abs_def] Let_def f prod.case
    by (intro smooth_ifa smooth_created smooth_reasoning_delta smooth_part_done smooth_item_added
        smooth_args_done smooth_item_done smooth_completed p smooth_then smooth_start smooth_deltas
        smooth_thinking smooth_ensure smooth_fail smooth_ret)
qed

lemma room_data:
  assumes "tRoom t = None" "process_data unm R stext data t = (t', r)"
  shows "tRoom t' = None"
proof -
  consider "t' = t" | "finish [] (tUsageIn t) (tUsageOut t) t = (t', r)"
    | root where "process_root unm R stext (trim_space data) root t = (t', r)"
    using assms(2) by (auto simp: process_data_def Let_def split: if_splits option.splits json.splits)
  then show ?thesis
    using assms(1) smooth_run [OF smooth_finish] smooth_run [OF smooth_root] by cases blast+
qed

lemma room_fold:
  "tRoom t = None \<Longrightarrow> fold_data unm R stext ps t = (t', r) \<Longrightarrow> tRoom t' = None"
proof (induction ps arbitrary: t)
  case (Cons p ps)
  obtain s e where s: "process_data unm R stext p t = (s, e)" by fastforce
  have "tRoom s = None" using room_data [OF Cons.prems(1) s] .
  then show ?case using Cons.IH Cons.prems(2) s by (cases e) (auto simp: and_then_def)
qed simp

section \<open>Properties\<close>

lemma serve_stream_inv:
  assumes "ends_once unm R (payloads (scan_err = None) [] lines)" "going False t"
    and "serve_stream unm R stext msg lines scan_err t = (t', json)"
  shows "stream_inv t'" "tRoom t = None \<Longrightarrow> tRoom t' = None"
    "tRoom t = None \<Longrightarrow> if json = None then tFinished t' else \<not> tStarted t' \<and> \<not> tFinished t'"
proof -
  obtain s e where s: "fold_data unm R stext (payloads (scan_err = None) [] lines) t = (s, e)" by fastforce
  have inv: "stream_inv s" using fold_data_inv [OF assms(1,2) s] .
  have room: "tRoom t = None \<Longrightarrow> tRoom s = None" using room_fold s by blast
  obtain e' where pipe: "pipe_responses_sse unm R stext lines scan_err t = (s, e')"
      "e' = None \<longrightarrow> tFinished s"
    using s by (cases e) (auto simp: pipe_responses_sse_def pipe_lines_eq and_then_def pipe_verdict_def
        split: option.splits)
  have "stream_inv t' \<and> (tRoom t = None \<longrightarrow> tRoom t' = None \<and>
      (if json = None then tFinished t' else \<not> tStarted t' \<and> \<not> tFinished t'))"
  proof (cases "e' \<noteq> None \<and> tStarted s \<and> \<not> tFinished s")
    case True
    then obtain x where x: "e' = Some x" by blast
    obtain u d where u: "fail_stream unm stext 502 (msg x) s = (u, d)" by fastforce
    have "going False s" using inv True by (simp add: going_def)
    note f = tripleD [OF fail_triple this u]
    have "t' = u" "json = None" using assms(3) pipe(1) x u True by (simp_all add: serve_stream_def)
    moreover have "tRoom t = None \<Longrightarrow> d = None \<and> tRoom u = None"
      using smooth_run [OF smooth_fail u room] .
    ultimately show ?thesis using f by (cases d) (auto simp: ended_def)
  next
    case False
    then have "t' = s" "if json = None then tFinished s else \<not> tStarted s \<and> \<not> tFinished s"
      using assms(3) pipe by (auto simp: serve_stream_def split: option.splits if_splits)
    then show ?thesis using inv room by auto
  qed
  then show "stream_inv t'" "tRoom t = None \<Longrightarrow> tRoom t' = None"
    "tRoom t = None \<Longrightarrow> if json = None then tFinished t' else \<not> tStarted t' \<and> \<not> tFinished t'" by auto
qed

lemma proto_touched:
  assumes "proto_step p e = Some q"
  shows "pStarted q \<or> pDone q \<or> pDelta q \<or> pOpen p \<noteq> []" "pStarted p \<longrightarrow> pStarted q" "pDone p \<longrightarrow> pDone q"
    "pDelta p \<longrightarrow> pDelta q" "\<not> pStarted q \<Longrightarrow> pOpen p = [] \<Longrightarrow> pOpen q = []"
  using assms by (cases e; auto split: if_splits)+

lemma proto_silent:
  "proto_run p es = Some q \<Longrightarrow> pOpen p = [] \<Longrightarrow> \<not> pDelta p \<Longrightarrow> \<not> pStarted p \<Longrightarrow> \<not> pStarted q \<Longrightarrow> \<not> pDone q \<Longrightarrow> es = []"
proof (cases es)
  case (Cons e es')
  assume a: "proto_run p es = Some q" "pOpen p = []" "\<not> pDelta p" "\<not> pStarted p" "\<not> pStarted q" "\<not> pDone q"
  then obtain r where r: "proto_step p e = Some r" "proto_run r es' = Some q"
    using Cons by (auto split: option.splits)
  have mono: "(pStarted r \<longrightarrow> pStarted q) \<and> (pDone r \<longrightarrow> pDone q)"
    using r(2)
  proof (induction r es' rule: proto_run.induct)
    case (2 p e es)
    then show ?case using proto_touched(2,3) by (fastforce split: option.splits)
  qed simp
  have "pStarted r \<or> pDone r" using r(1) a(2-4) by (cases e) (auto split: if_splits)
  then show ?thesis using mono a by blast
qed simp

section \<open>A sample stream\<close>

text \<open>Decoded payloads, standing for what \<open>json.Unmarshal\<close> makes of them.\<close>

definition sample_obj :: "string \<Rightarrow> (string \<times> json) list \<Rightarrow> json" where
  "sample_obj ty fs = JObj ((''type'', JStr ty) # fs)"

definition sample_unm :: "string \<Rightarrow> json option" where
  "sample_unm s =
     (if s = ''{a}'' then Some (sample_obj ''response.output_text.delta'' [(''delta'', JStr ''Hi'')])
      else if s = ''{b}'' then Some (sample_obj ''response.output_text.delta'' [(''delta'', JStr '' you'')])
      else if s = ''{d}'' then Some (sample_obj ''response.output_text.delta''
        [(''item_id'', JStr ''late''), (''delta'', JStr ''!'')])
      else if s = ''{c}'' then Some (sample_obj ''response.completed'' [])
      else None)"

definition sample_start :: "nat option \<Rightarrow> translator" where
  "sample_start room = new_translator ''m'' False ''omitted'' ''msg_1'' room"

definition sample_serve :: "string list \<Rightarrow> nat option \<Rightarrow> translator \<times> string option" where
  "sample_serve lines room =
     serve_stream sample_unm (\<lambda>_. []) (\<lambda>_. ''Bad Gateway'') (\<lambda>_. ''cut'') lines None (sample_start room)"

definition sample_lines :: "string list" where
  "sample_lines = [''data: {a}'', [], ''data: {b}'', [], ''data: {c}'', []]"

lemma sample_ends: "ends_once sample_unm (\<lambda>_. []) (payloads (None = (None :: goerr option)) [] sample_lines)"
  by code_simp

lemma sample_cut_ends: "ends_once sample_unm (\<lambda>_. []) (payloads (None = (None :: goerr option)) [] [''data: {a}'', []])"
  by code_simp

lemma sample_out:
  "sample_serve sample_lines None = (fst (sample_serve sample_lines None), None)"
  "tOut (fst (sample_serve sample_lines None)) =
     [MessageStart ''msg_1'' ''m'' 0, BlockStart 0 TextBlock, BlockDelta 0 (TextDelta ''Hi''),
      BlockDelta 0 (TextDelta '' you''), BlockStop 0, MessageDelta ''end_turn'' 0 0, MessageStop]"
  by code_simp+

section \<open>Text\<close>

text \<open>The text the client has received.\<close>

fun texts_of :: "sse list \<Rightarrow> string" where
  "texts_of [] = []"
| "texts_of (BlockDelta i (TextDelta s) # es) = s @ texts_of es"
| "texts_of (e # es) = texts_of es"

lemma texts_of_append [simp]: "texts_of (xs @ ys) = texts_of xs @ texts_of ys"
  by (induction xs rule: texts_of.induct) auto

definition text_open :: "string \<Rightarrow> translator \<Rightarrow> bool" where
  "text_open key t \<longleftrightarrow> (case find_block t key of None \<Rightarrow> True | Some b \<Rightarrow> \<not> bStopped b)"

lemma write_free: "tRoom t = None \<Longrightarrow> write_event e t = (t\<lparr>tOut := tOut t @ [e]\<rparr>, None)"
  by (simp add: write_event_def)

lemma texts_start:
  "tRoom t = None \<Longrightarrow> \<exists>s. start_current t = (s, None) \<and> tRoom s = None \<and> tBlocks s = tBlocks t \<and>
     texts_of (tOut s) = texts_of (tOut t)"
  by (auto simp: start_current_def ensure_start_def write_free Let_def)

lemma texts_finish_thinking:
  "tRoom t = None \<Longrightarrow> \<exists>s. finish_thinking_before_content t = (s, None) \<and> tRoom s = None \<and>
     tBlocks s = tBlocks t \<and> texts_of (tOut s) = texts_of (tOut t)"
  by (auto simp: finish_thinking_before_content_def finalize_thinking_block_def and_then_def ret_def
      set_state_def write_free split: option.splits)

lemma texts_ensure:
  assumes "tRoom t = None" "text_open (normalize_block_key KText key) t"
  shows "\<exists>s b. ensure_text_block key t = (s, None) \<and> tRoom s = None \<and>
     find_block s (normalize_block_key KText key) = Some b \<and> \<not> bStopped b \<and>
     texts_of (tOut s) = texts_of (tOut t)"
proof -
  obtain u where u: "finish_thinking_before_content t = (u, None)" "tRoom u = None" "tBlocks u = tBlocks t"
      "texts_of (tOut u) = texts_of (tOut t)"
    using texts_finish_thinking [OF assms(1)] by blast
  have same: "find_block u k = find_block t k" for k using u(3) by (simp add: find_block_def)
  show ?thesis
  proof (cases "find_block t (normalize_block_key KText key)")
    case None
    then show ?thesis
      using u same by (simp add: ensure_text_block_def and_then_def open_block_def Let_def write_free
          set_state_def find_block_def map_add_def)
  next
    case (Some b)
    then show ?thesis
      using u same assms(2) by (auto simp: ensure_text_block_def and_then_def Let_def text_open_def)
  qed
qed

lemma map_of_map_blocks: "map_of (map_blocks key f kbs) key = map_option f (map_of kbs key)"
  by (induction kbs) (auto simp: map_blocks_def)

lemma texts_delta:
  assumes "tRoom t = None" "text_open (normalize_block_key KText key) t"
  shows "\<exists>s. text_delta key d t = (s, None) \<and> tRoom s = None \<and>
     text_open (normalize_block_key KText key) s \<and> texts_of (tOut s) = texts_of (tOut t) @ d"
proof (cases "d = []")
  case True
  then show ?thesis using assms by (simp add: text_delta_def ret_def)
next
  case False
  obtain s b where s: "ensure_text_block key t = (s, None)" "tRoom s = None"
     "find_block s (normalize_block_key KText key) = Some b" "\<not> bStopped b"
     "texts_of (tOut s) = texts_of (tOut t)"
    using texts_ensure [OF assms] by blast
  let ?k = "normalize_block_key KText key"
  let ?u = "change_block ?k (\<lambda>b. b\<lparr>bEmitted := True\<rparr>) (s\<lparr>tOut := tOut s @ [BlockDelta (bIndex b) (TextDelta d)]\<rparr>)"
  have "text_delta key d t = (?u, None)"
    using False s by (simp add: text_delta_def and_then_def delta_to_def write_free set_state_def)
  moreover have "find_block ?u ?k = Some (b\<lparr>bEmitted := True\<rparr>)"
    using s(3) by (simp add: find_block_def map_of_map_blocks)
  ultimately show ?thesis using s by (simp add: text_open_def)
qed

text \<open>A text delta of the content part with a given key.\<close>

definition text_payload :: "(string \<Rightarrow> json option) \<Rightarrow> (json \<Rightarrow> string) \<Rightarrow> string \<Rightarrow> string \<Rightarrow> bool" where
  "text_payload unm R key data = (case payload_root unm data of
     None \<Rightarrow> False
   | Some root \<Rightarrow> \<not> idle_payload data \<and> raw_field R root ''type'' = ''response.output_text.delta'' \<and>
                  stream_event_key R root = key)"

definition payload_delta :: "(string \<Rightarrow> json option) \<Rightarrow> (json \<Rightarrow> string) \<Rightarrow> string \<Rightarrow> string" where
  "payload_delta unm R data = (case payload_root unm data of None \<Rightarrow> [] | Some root \<Rightarrow> raw_field R root ''delta'')"

lemma texts_payload:
  assumes "text_payload unm R key data" "tRoom t = None" "text_open (normalize_block_key KText key) t"
  shows "\<exists>s. process_data unm R stext data t = (s, None) \<and> tRoom s = None \<and>
     text_open (normalize_block_key KText key) s \<and> texts_of (tOut s) = texts_of (tOut t) @ payload_delta unm R data"
proof -
  obtain root where root: "payload_root unm data = Some root" "\<not> idle_payload data"
      "raw_field R root ''type'' = ''response.output_text.delta''" "stream_event_key R root = key"
    using assms(1) by (auto simp: text_payload_def split: option.splits)
  have "process_data unm R stext data t = process_root unm R stext (trim_space data) root t"
    using root(1,2) by (auto simp: process_data_def idle_payload_def payload_root_def Let_def
        split: option.splits json.splits)
  also have "\<dots> = and_then start_current (text_delta key (raw_field R root ''delta'')) t"
    using root(3,4) by (simp add: process_root_def Let_def)
  finally have e: "process_data unm R stext data t = and_then start_current (text_delta key (raw_field R root ''delta'')) t" .
  obtain s where s: "start_current t = (s, None)" "tRoom s = None" "tBlocks s = tBlocks t"
      "texts_of (tOut s) = texts_of (tOut t)"
    using texts_start [OF assms(2)] by blast
  have "text_open (normalize_block_key KText key) s"
    using assms(3) s(3) by (simp add: text_open_def find_block_def)
  from texts_delta [OF s(2) this, of "raw_field R root ''delta''"]
  show ?thesis unfolding e using s root(1) by (simp add: and_then_def payload_delta_def)
qed

section \<open>Properties\<close>

text \<open>
  C8: Whatever the upstream sends before it ends its response, and wherever the client's connection
  breaks, what has been written to the client is a prefix of a well-formed Anthropic event stream:
  one \<open>message_start\<close> first, block indexes counted up from zero, every delta to an open block of its
  kind, every block stopped exactly once before \<open>message_delta\<close> or \<open>error\<close>, and nothing after the end.
\<close>
theorem stream_accepted:
  assumes "ends_once unm R (payloads (scan_err = None) [] lines)"
    and "serve_stream unm R stext msg lines scan_err (new_translator model think display fresh room) = (t', json)"
  shows "accepted (tOut t')"
  by (rule stream_inv_accepted [OF serve_stream_inv(1) [OF assms(1) new_translator_going assms(2)]])

theorem stream_accepted_witness:
  "accepted (tOut (fst (sample_serve sample_lines (Some 3)))) \<and>
   tOut (fst (sample_serve sample_lines (Some 3))) =
     [MessageStart ''msg_1'' ''m'' 0, BlockStart 0 TextBlock, BlockDelta 0 (TextDelta ''Hi'')]"
proof (rule conjI)
  show "accepted (tOut (fst (sample_serve sample_lines (Some 3))))"
    by (rule stream_accepted [OF sample_ends])
       (unfold sample_serve_def sample_start_def, rule surjective_pairing)
qed code_simp

text \<open>
  C30: When the client takes every write, the exchange ends exactly one way: either a complete event
  stream with one terminal event was written and no JSON body follows, or nothing was written and the
  error goes out as a JSON body.  A truncated upstream, a scanner error and invalid JSON are included.
\<close>
theorem stream_complete:
  assumes "ends_once unm R (payloads (scan_err = None) [] lines)"
    and "serve_stream unm R stext msg lines scan_err (new_translator model think display fresh None) = (t', json)"
  shows "if json = None then complete (tOut t') else tOut t' = []"
proof -
  have none: "tRoom (new_translator model think display fresh None) = None" by (simp add: new_translator_def)
  note inv = serve_stream_inv [OF assms(1) new_translator_going assms(2)]
  obtain p where p: "proto_run proto_init (tOut t') = Some p" "linked t' p"
    using inv(1) inv(2) [OF none] by (auto simp: stream_inv_def)
  show ?thesis
  proof (cases json)
    case None
    then have "pDone p" using inv(3) [OF none] linkedD(5) [OF p(2)] by simp
    then show ?thesis using None p(1) by (simp add: complete_def)
  next
    case (Some m)
    then have "\<not> pStarted p" "\<not> pDone p" using inv(3) [OF none] linkedD [OF p(2)] by auto
    then show ?thesis using Some proto_silent [OF p(1)] by (simp add: proto_init_def)
  qed
qed

theorem stream_complete_witness:
  "complete (tOut (fst (sample_serve sample_lines None))) \<and>
   last (tOut (fst (sample_serve [''data: {a}'', []] None))) = ErrorEvent ''api_error'' ''cut'' \<and>
   complete (tOut (fst (sample_serve [''data: {a}'', []] None)))"
proof (intro conjI)
  have a: "if json = None then complete (tOut t') else tOut t' = []"
    if "sample_serve sample_lines None = (t', json)" for t' json
    by (rule stream_complete [OF sample_ends]) (use that in \<open>simp add: sample_serve_def sample_start_def\<close>)
  have b: "if json = None then complete (tOut t') else tOut t' = []"
    if "sample_serve [''data: {a}'', []] None = (t', json)" for t' json
    by (rule stream_complete [OF sample_cut_ends]) (use that in \<open>simp add: sample_serve_def sample_start_def\<close>)
  show "complete (tOut (fst (sample_serve sample_lines None)))"
    using a [OF sample_out(1)] by simp
  have c: "sample_serve [''data: {a}'', []] None = (fst (sample_serve [''data: {a}'', []] None), None)"
    by code_simp
  show "complete (tOut (fst (sample_serve [''data: {a}'', []] None)))"
    using b [OF c] by simp
  show "last (tOut (fst (sample_serve [''data: {a}'', []] None))) = ErrorEvent ''api_error'' ''cut''"
    by code_simp
qed

text \<open>
  C35: The text of a content part reaches the client verbatim: after any sequence of its
  \<open>response.output_text.delta\<close> events the text received has grown by exactly their concatenation.
\<close>
theorem text_verbatim:
  assumes "tRoom t = None" "text_open (normalize_block_key KText key) t" "list_all (text_payload unm R key) ps"
  shows "snd (fold_data unm R stext ps t) = None \<and>
    texts_of (tOut (fst (fold_data unm R stext ps t))) = texts_of (tOut t) @ concat (map (payload_delta unm R) ps)"
proof -
  have "\<exists>s. fold_data unm R stext ps t = (s, None) \<and> texts_of (tOut s) = texts_of (tOut t) @ concat (map (payload_delta unm R) ps)"
    using assms
  proof (induction ps arbitrary: t)
    case (Cons p ps)
    then obtain s where s: "process_data unm R stext p t = (s, None)" "tRoom s = None"
        "text_open (normalize_block_key KText key) s" "texts_of (tOut s) = texts_of (tOut t) @ payload_delta unm R p"
      using texts_payload [of unm R key p t] by auto
    then show ?case using Cons.IH [of s] Cons.prems(3) by (simp add: and_then_def)
  qed simp
  then show ?thesis by auto
qed

theorem text_verbatim_witness:
  "texts_of (tOut (fst (fold_data sample_unm (\<lambda>_. []) (\<lambda>_. []) [''{a}'', ''{b}''] (sample_start None)))) = ''Hi you''"
proof -
  have "tRoom (sample_start None) = None" "text_open (normalize_block_key KText ''default'') (sample_start None)"
    "list_all (text_payload sample_unm (\<lambda>_. []) ''default'') [''{a}'', ''{b}'']" by code_simp+
  note e = conjunct2 [OF text_verbatim [OF this, of "\<lambda>_. []"]]
  have "texts_of (tOut (sample_start None)) = []"
    "concat (map (payload_delta sample_unm (\<lambda>_. [])) [''{a}'', ''{b}'']) = ''Hi you''" by code_simp+
  then show ?thesis using e by simp
qed


end
