(* ===== verification/Spec2Isabelle.thy ===== *)
theory Spec2Isabelle
  imports Grok_Import_Props Import_Props Import_Manager_Props Openai_Wellformed Anthropic_Handler Runner_Props Inspect_Props Gateway_Props Prelude Json Credential Lb Lb_Props Atomic_Store Store_Interface Cred_Store
    Cred_Store_Props Lifecycle Raw_Json Anthropic_Stream Anthropic_Protocol Anthropic_Props
begin

text \<open>
  grokbuild-proxy: a gateway that serves the OpenAI and Anthropic interfaces from a pool of OAuth
  credentials of one upstream.  Paths below are under \<open>src/\<close>; definitions keep the names of the code in
  lower case with underscores.

  \<^bold>\<open>How the program works.\<close>  A client request reaches \<open>internal/anthropic\<close> or \<open>internal/openai\<close>, is
  translated to one Responses request and handed to the executor (\<open>internal/proxy/executor.go\<close>).  The
  executor lists the credentials (\<open>internal/storage\<close>), lets the selector (\<open>internal/lb\<close>) pick and reserve
  one, has the refresher (\<open>internal/auth/refresh.go\<close>) ensure its token, verifies credential and route once
  more, sends the request upstream, and marks the selection a success, a failure or exhausted; on a failure
  it goes on with the next credential.  The answer is translated back, streaming or complete.  Beside the
  requests run the inspection of credentials, imports, and the operators' changes.

  \<^bold>\<open>Theories, in the order of their imports.\<close>
  \<^item> \<open>Prelude\<close>: time, 64-bit arithmetic, strings, maps and errors shared by all; \<open>Json\<close>, \<open>Raw_Json\<close>: JSON
    values and the raw-message reading of them.
  \<^item> \<open>Credential\<close>: the credential record, identity, upsert (\<open>storage/credentials.go\<close>).
  \<^item> \<open>Atomic_Store\<close>: file writes as sequences of system calls, with a fault or a stop of the machine after
    any of them (\<open>storage/store.go\<close>).
  \<^item> \<open>Cred_Store\<close>, \<open>Cred_Store_Props\<close>, \<open>Lifecycle\<close>: every operation on \<open>credentials.json\<close>, its lock, cache
    and stamp; the abstract document they refine, through the locale of \<open>Store_Interface\<close> and its
    interpretation; what inspections and purges may do to a record.
  \<^item> \<open>Lb\<close>, \<open>Lb_Props\<close>: the selector: strategies, cooldowns, sticky sessions, reservations, health snapshots.
  \<^item> \<open>Refresher\<close>, \<open>Token_Store\<close>: token refresh with cache, generations and persistence; against the store.
  \<^item> \<open>Rate_Limit\<close>: rate-limit headers and \<open>Retry-After\<close> (\<open>upstream/ratelimit.go\<close>).
  \<^item> \<open>Executor\<close>, \<open>Executor_Inspect\<close>: every operation of the executor, in the library's state monad over the
    world of its collaborators and a log of the calls made; \<open>Executor_Monitor\<close>: the protocol of these
    calls as an executable monitor, the locale \<open>collaborators\<close> of what the executor relies on, and a
    calculus of triples; \<open>Executor_Props\<close>: the triples of the request loop; \<open>Request_Log\<close>: readings of a log
    the monitor accepts.
  \<^item> \<open>Gateway\<close>, \<open>Gateway_Props\<close>, \<open>Inspect_Props\<close>: the executor on the modelled selector, store and refresher
    as \<open>cmd/grokbuild-proxy/main.go\<close> wires them, with any operations of other requests, operators and
    processes between two calls; the locale is interpreted on it twice, once with the invariant of the store's
    index and once with the counters of the selector.
  \<^item> \<open>Runner\<close>, \<open>Runner_Props\<close>: the inspection runner (\<open>inspection/runner.go\<close>) in the state monad over the
    world of its store, prober and settings, with the log of its calls; what a log must hold before a
    credential is condemned, the guard against mass failures, the fairness of the schedule and the summary.
  \<^item> \<open>Grok_Import\<close>, \<open>Grok_Import_Props\<close>: the parser of imported documents and the streaming count that bounds it
    (\<open>auth/import_grok.go\<close>); what it accepts, and where the count and the parser agree.
  \<^item> \<open>Import_Parse\<close>, \<open>Import_Job\<close>, \<open>Import_Props\<close>: an import job (\<open>importer/manager.go\<close>) from its files to its last
    published state: every entry is reported once, the store is called at most once, without duplicates.
  \<^item> \<open>Import_Manager\<close>, \<open>Import_Manager_Props\<close>: what the manager of the jobs accepts, its queue, its retention,
    and the goroutines of the jobs as a step relation: bounds, the life of a job, termination.
  \<^item> \<open>Openai_Chat\<close>, \<open>Openai_Complete\<close>, \<open>Openai_Stream\<close>: the chat interface (\<open>openai/chat.go\<close>,
    \<open>openai/chat_stream.go\<close>, \<open>openai/handlers.go\<close>): requests, complete responses, streams.
  \<^item> \<open>Openai_Props\<close>, \<open>Openai_Wellformed\<close>: a client of the stream as an executable specification; the streamed and
    the complete answer are the same, every stream is well-formed, a completion survives being sent back.
  \<^item> \<open>Anthropic_Stream\<close>, \<open>Anthropic_Protocol\<close>, \<open>Anthropic_Props\<close>: the streaming translation
    (\<open>internal/anthropic\<close>), the grammar of an Anthropic event stream as an acceptor, and the proof that what
    is written is always a prefix of an accepted stream.
  \<^item> \<open>Json_Struct\<close>, \<open>Anthropic_Thinking\<close>, \<open>Anthropic_Request\<close>, \<open>Anthropic_Response\<close>: Messages requests and
    complete answers (\<open>anthropic/translate_req.go\<close>, \<open>thinking.go\<close>, \<open>translate_resp.go\<close>);
    \<open>Anthropic_Request_Props\<close>, \<open>Anthropic_Replay\<close>: a conversation as a list of turns, which the translation keeps,
    also when an answer comes back in the next request; the effort and the reasoning that are asked for.
  \<^item> \<open>Prompt_Cache\<close>: cache keys (\<open>promptcache/promptcache.go\<close>), which isolate clients and last for a conversation;
    \<open>Anthropic_Handler\<close>: \<open>POST /v1/messages\<close> from the body of the client to its answer.

  \<^bold>\<open>Conventions.\<close>  Times and durations are \<open>int\<close> nanoseconds, revisions and versions 64-bit words,
  strings lists of characters (bytes), errors values of \<open>goerr\<close>, dicts partial maps or association lists.
  Randomness, hashes, URL and date parsers, the clock, the network and the file system's answers are
  arguments.  Loops over a list are structural recursion; the executor's loops recurse on the attempts that are
  left, the translation on the lines that are left: no fuel can run out.

  \<^bold>\<open>Not modelled\<close>, listed with reasons in the manifest: HTTP servers, middleware, the admin handlers and
  panel, configuration loading and the settings documents, the API clients, the OAuth client, the sanitizer of
  Responses requests, request patches, notification, the SSO sidecar and its client, outbound transports,
  file-system locks.  The concurrency of goroutines is modelled by interference at the calls where the code
  releases its locks; the Go memory model itself is not.
\<close>

end
